(* ===== verification/Prelude.thy ===== *)
theory Prelude
  imports Complex_Main "HOL-Library.Word" "HOL-Library.Monad_Syntax"
begin

text \<open>
  Shared vocabulary of the development: byte strings, machine words, the clock type, the
  collections of rewrite rules the component theories fill, and generic lemmas on lists,
  options and words.

  Conventions used throughout:
  \<^item> a C++ unsigned integer of width \<open>w\<close> is a \<open>w word\<close>; a \<open>BitNumber<T, w>\<close> is a \<open>w word\<close> too,
    since its constructor keeps exactly the \<open>w\<close> low bits;
  \<^item> a \<open>Clock::time_point\<close> or \<open>Clock::duration\<close> (64 bit count of microseconds) is an \<open>int\<close>;
  \<^item> a \<open>double\<close> or a floating point quantity is a \<open>real\<close> (rounding of floating point
    operations is not represented);
  \<^item> an exception, a null pointer and an empty \<open>optional\<close> are \<open>None\<close>.
\<close>

unbundle bit_operations_syntax

type_synonym byte = "8 word"
type_synonym u16 = "16 word"
type_synonym u32 = "32 word"
type_synonym bytes = "byte list"

type_synonym time_point = int
type_synonym duration = int

text \<open>A reader consumes a prefix of the input; \<open>None\<close> is the archive's exception.\<close>

type_synonym 'a reader = "bytes \<Rightarrow> ('a \<times> bytes) option"

named_theorems codec_simps \<open>sizes and reads of serialised values\<close>
named_theorems codec_dest \<open>inversion of successful reads\<close>
named_theorems codec_rest \<open>length of what a successful read leaves\<close>

definition time_point_min :: time_point where
  "time_point_min = - (2 ^ 63)"

definition time_point_max :: time_point where
  "time_point_max = 2 ^ 63 - 1"

text \<open>
  Conversions between floating point seconds and the integer clock: the cast to
  \<open>Clock::duration\<close> truncates towards zero.
\<close>

definition trunc_real :: "real \<Rightarrow> int" where
  "trunc_real x = (if x < 0 then \<lceil>x\<rceil> else \<lfloor>x\<rfloor>)"

text \<open>Integer division as the language has it, rounding towards zero.\<close>

definition trunc_div :: "int \<Rightarrow> int \<Rightarrow> int" where
  "trunc_div a b = sgn a * sgn b * (\<bar>a\<bar> div \<bar>b\<bar>)"

text \<open>\<open>std::lround\<close>: to the nearest integer, halves away from zero.\<close>

definition lround :: "real \<Rightarrow> int" where
  "lround x = (if 0 \<le> x then \<lfloor>x + 1 / 2\<rfloor> else - \<lfloor>- x + 1 / 2\<rfloor>)"

definition clock_cast :: "real \<Rightarrow> duration" where
  "clock_cast s = trunc_real (s * 1000000)"

definition clock_cast_sec :: "duration \<Rightarrow> real" where
  "clock_cast_sec d = real_of_int d / 1000000"

lemma trunc_real_of_int [simp]: "trunc_real (real_of_int i) = i"
  by (simp add: trunc_real_def)

lemma clock_cast_sec_inverse [simp]: "clock_cast (clock_cast_sec d) = d"
  by (simp add: clock_cast_def clock_cast_sec_def)

lemma clock_cast_nonneg: "0 \<le> s \<Longrightarrow> 0 \<le> clock_cast s"
  by (simp add: clock_cast_def trunc_real_def)

lemma clock_cast_le: "clock_cast s \<le> d \<longleftrightarrow> s * 1000000 < real_of_int d + 1" if "0 \<le> s"
  using that by (simp add: clock_cast_def trunc_real_def floor_le_iff)

lemma clock_cast_mono: "s \<le> t \<Longrightarrow> clock_cast s \<le> clock_cast t"
proof -
  assume st: "s \<le> t"
  show ?thesis
  proof (cases "s < 0 \<and> \<not> t < 0")
    case True
    then have "\<lceil>s * 1000000\<rceil> \<le> 0" and "0 \<le> \<lfloor>t * 1000000\<rfloor>"
      by (simp_all add: ceiling_le_iff)
    then have "\<lceil>s * 1000000\<rceil> \<le> \<lfloor>t * 1000000\<rfloor>" by linarith
    with True show ?thesis by (simp add: clock_cast_def trunc_real_def mult_less_0_iff)
  next
    case False
    with st show ?thesis
      by (auto simp: clock_cast_def trunc_real_def mult_less_0_iff intro: floor_mono ceiling_mono)
  qed
qed

subsection \<open>Double precision\<close>

text \<open>
  The result of an operation on doubles is the exact result rounded to 53 significant bits, to
  the nearest and halves to even. The range of the exponent is not limited. The development
  uses it where the code repeats an operation on doubles, so that rounding accumulates or
  decides a comparison, and has exact reals elsewhere.
\<close>

definition binary_exponent :: "real \<Rightarrow> int" where
  "binary_exponent x = (if x \<le> 0 then 0 else \<lfloor>log 2 x\<rfloor>)"

lemma binary_exponent_code [code]:
  "binary_exponent x = (if x \<le> 0 then 0 else if x < 1 then binary_exponent (2 * x) - 1
     else if 2 \<le> x then binary_exponent (x / 2) + 1 else 0)"
proof -
  have "\<lfloor>log 2 (2 * x)\<rfloor> - 1 = \<lfloor>log 2 x\<rfloor>" "\<lfloor>log 2 (x / 2)\<rfloor> + 1 = \<lfloor>log 2 x\<rfloor>" if "0 < x"
    using that by (simp_all add: log_mult log_divide)
  moreover have "\<lfloor>log 2 x\<rfloor> = 0" if "1 \<le> x" "x < 2" using that by (simp add: floor_eq_iff)
  ultimately show ?thesis by (simp add: binary_exponent_def not_less not_le)
qed

definition round_half_even :: "real \<Rightarrow> int" where
  "round_half_even x = (let n = \<lfloor>x\<rfloor>; r = x - of_int n in if r < 1 / 2 \<or> r = 1 / 2 \<and> even n then n else n + 1)"

definition round_double :: "real \<Rightarrow> real" where
  "round_double x = (if x = 0 then 0 else
     (let ulp = 2 powi (binary_exponent \<bar>x\<bar> - 52) in of_int (round_half_even (x / ulp)) * ulp))"

lemma round_half_even_error: "\<bar>of_int (round_half_even x) - x\<bar> \<le> 1 / 2"
  unfolding round_half_even_def Let_def by (simp add: abs_le_iff)

lemma binary_exponent_le:
  assumes "0 < x"
  shows "2 powi (binary_exponent x) \<le> x"
proof -
  have "2 powr (of_int (binary_exponent x)) \<le> 2 powr (log 2 x)"
    using assms unfolding binary_exponent_def by (intro powr_mono) simp_all
  then show ?thesis using assms by (simp add: powr_real_of_int')
qed

lemma round_double_error: "\<bar>round_double x - x\<bar> \<le> \<bar>x\<bar> / 2 ^ 53"
proof (cases "x = 0")
  case False
  define u :: real where "u = 2 powi (binary_exponent \<bar>x\<bar> - 52)"
  have u: "0 < u" by (simp add: u_def)
  have "u * 2 ^ 52 = 2 powi (binary_exponent \<bar>x\<bar>)"
    by (simp add: u_def power_int_diff)
  then have ux: "u * 2 ^ 52 \<le> \<bar>x\<bar>" using binary_exponent_le [of "\<bar>x\<bar>"] False by simp
  have "round_double x - x = (of_int (round_half_even (x / u)) - x / u) * u"
    using False u by (simp add: round_double_def u_def [symmetric] Let_def left_diff_distrib)
  then have "\<bar>round_double x - x\<bar> = \<bar>of_int (round_half_even (x / u)) - x / u\<bar> * u"
    using u by (simp add: abs_mult)
  also have "\<dots> \<le> 1 / 2 * u" by (rule mult_right_mono [OF round_half_even_error]) (use u in simp)
  also have "\<dots> \<le> \<bar>x\<bar> / 2 ^ 53" using ux by simp
  finally show ?thesis .
qed (simp add: round_double_def)

lemma round_double_bounds:
  assumes "0 \<le> x"
  shows "0 \<le> round_double x" and "round_double x \<le> x + x / 2 ^ 53" and "x - x / 2 ^ 53 \<le> round_double x"
proof -
  have e: "\<bar>round_double x - x\<bar> \<le> x / 2 ^ 53" using round_double_error [of x] assms by simp
  have "x / 2 ^ 53 \<le> x" using assms by simp
  with e show "0 \<le> round_double x" by linarith
  show "round_double x \<le> x + x / 2 ^ 53" "x - x / 2 ^ 53 \<le> round_double x" using e by linarith+
qed

subsection \<open>Lists\<close>

lemma trunc_div_nonneg: "0 \<le> a \<Longrightarrow> 0 < b \<Longrightarrow> trunc_div a b = a div b"
  by (cases "a = 0") (simp_all add: trunc_div_def)

lemma lround_of_int [simp]: "lround (of_int n) = n"
  by (simp add: lround_def)

lemma lround_of_nat [simp]: "lround (of_nat n) = int n"
  using lround_of_int [of "int n"] by simp

lemma lround_error: "\<bar>of_int (lround x) - x\<bar> \<le> 1 / 2"
  unfolding lround_def by (auto split: abs_split) linarith+

lemma lround_nonneg: "0 \<le> x \<Longrightarrow> 0 \<le> lround x"
  by (simp add: lround_def)

lemma lround_less: "x < of_int n - 1 / 2 \<Longrightarrow> lround x < n"
  using lround_error [of x] by linarith

lemma length_ge_Suc_conv: "Suc n \<le> length xs \<longleftrightarrow> (\<exists>y ys. xs = y # ys \<and> n \<le> length ys)"
  by (cases xs) auto

lemma sum_list_filter_split:
  "sum_list (map f (filter P xs)) + sum_list (map f (filter (\<lambda>x. \<not> P x) xs)) = sum_list (map f xs)"
  for f :: "'a \<Rightarrow> nat"
  by (induction xs) auto

lemma sum_list_filter_le: "sum_list (map f (filter P xs)) \<le> sum_list (map f xs)"
  for f :: "'a \<Rightarrow> nat"
  by (induction xs) auto

lemma sum_list_drop_le: "sum_list (map f (drop n xs)) \<le> sum_list (map f xs)"
  for f :: "'a \<Rightarrow> nat"
  by (induction xs arbitrary: n) (auto split: nat.splits simp: drop_Cons intro: trans_le_add2)

lemma find_SomeD: "List.find P xs = Some x \<Longrightarrow> P x \<and> x \<in> set xs"
  by (induction xs) (auto split: if_splits)

lemma find_None_iff_ball: "List.find P xs = None \<longleftrightarrow> (\<forall>x\<in>set xs. \<not> P x)"
  by (induction xs) auto

subsection \<open>Machine words\<close>

lemma unat_word_less: "unat (w :: 'a::len word) < 2 ^ LENGTH('a)"
  by (rule unsigned_less)

lemma unat_byte_less [simp]: "unat (b :: byte) < 256"
  using unat_word_less [of b] by simp

lemma unat_of_nat_small: "n < 2 ^ LENGTH('a) \<Longrightarrow> unat (of_nat n :: 'a::len word) = n"
  by (simp add: unsigned_of_nat take_bit_nat_eq_self)

lemma unat_ucast_up:
  assumes "LENGTH('a) \<le> LENGTH('b)"
  shows "unat (ucast (w :: 'a::len word) :: 'b::len word) = unat w"
proof -
  have "unat w < 2 ^ LENGTH('b)"
    by (rule less_le_trans [OF unat_word_less]) (simp add: assms)
  then show ?thesis by (simp add: unsigned_ucast_eq take_bit_nat_eq_self)
qed

lemma word_of_unat: "unat w = n \<Longrightarrow> w = of_nat n"
  by auto

lemma word_eq_bit_iff: "(a :: 'a::len word) = b \<longleftrightarrow> (\<forall>n < LENGTH('a). bit a n = bit b n)"
  by (auto intro: bit_word_eqI)

lemma word_less_exp_iff_bits:
  fixes v :: "'a::len word"
  assumes "k < LENGTH('a)"
  shows "v < 2 ^ k \<longleftrightarrow> (\<forall>n. bit v n \<longrightarrow> n < k)"
proof -
  have "v < 2 ^ k \<longleftrightarrow> unat v < 2 ^ k"
    using unat_of_nat_small [of "2 ^ k", where 'a = 'a] assms by (simp add: word_less_nat_alt)
  also have "\<dots> \<longleftrightarrow> take_bit k v = v"
    by (metis take_bit_nat_eq_self_iff unsigned_take_bit_eq word_unat_eq_iff)
  also have "\<dots> \<longleftrightarrow> (\<forall>n. bit v n \<longrightarrow> n < k)"
    by (auto simp: word_eq_bit_iff bit_take_bit_iff dest: bit_imp_le_length)
  finally show ?thesis .
qed

lemma serial_number_order:
  fixes A B M h :: int
  assumes "0 < h" and M: "M = 2 * h" and near: "\<bar>A - B\<bar> < h"
  shows "(B mod M < A mod M \<and> A mod M - B mod M \<le> h - 1) \<or>
         (A mod M < B mod M \<and> h - 1 < B mod M - A mod M) \<longleftrightarrow> B < A"
proof -
  define a b where "a = A mod M" and "b = B mod M"
  define p q where "p = A div M" and "q = B div M"
  have A: "A = M * p + a" and B: "B = M * q + b" unfolding a_def b_def p_def q_def by simp_all
  have a: "0 \<le> a" "a < M" and b: "0 \<le> b" "b < M"
    using assms(1) M unfolding a_def b_def by simp_all
  have d: "A - B = M * (p - q) + (a - b)" using A B by (simp add: algebra_simps)
  have "p - q < 2"
  proof (rule ccontr)
    assume "\<not> p - q < 2"
    then have "M * 2 \<le> M * (p - q)" using assms(1) M by (intro mult_left_mono) auto
    with d near a b M show False by linarith
  qed
  moreover have "- 2 < p - q"
  proof (rule ccontr)
    assume "\<not> - 2 < p - q"
    then have "M * (p - q) \<le> M * (- 2)" using assms(1) M by (intro mult_left_mono) auto
    with d near a b M show False by linarith
  qed
  ultimately consider "p - q = 0" | "p - q = 1" | "p - q = - 1" by linarith
  then show ?thesis
    unfolding a_def [symmetric] b_def [symmetric]
    using d near a b M by cases auto
qed

end
