(* ===== verification/Codec.thy ===== *)
theory Codec
  imports Prelude
begin

text \<open>
  The serialisation layer of \<open>vanetza/common\<close>: the input archive (\<open>archives.cpp\<close>), byte order
  conversion (\<open>byte_order.hpp\<close>) and the integral \<open>serialize\<close>/\<open>deserialize\<close> templates
  (\<open>serialization.hpp\<close>), and the contract every fixed-length header codec of the stack
  satisfies, stated once as the locale \<open>fixed_codec\<close>.
\<close>

subsection \<open>Byte images of integers\<close>

fun le_bytes :: "nat \<Rightarrow> 'a::len word \<Rightarrow> bytes" where
  "le_bytes 0 w = []"
| "le_bytes (Suc n) w = ucast w # le_bytes n (drop_bit 8 w)"

fun le_word :: "bytes \<Rightarrow> 'a::len word" where
  "le_word [] = 0"
| "le_word (b # bs) = ucast b OR push_bit 8 (le_word bs)"

definition word_size :: "'a::len word \<Rightarrow> nat" where
  "word_size w = LENGTH('a) div 8"

datatype ByteOrder = BigEndian | LittleEndian

text \<open>How an integer lies in memory on a host of the given byte order, and back.\<close>

definition mem_bytes :: "ByteOrder \<Rightarrow> 'a::len word \<Rightarrow> bytes" where
  "mem_bytes order w = (case order of
      LittleEndian \<Rightarrow> le_bytes (word_size w) w
    | BigEndian \<Rightarrow> rev (le_bytes (word_size w) w))"

definition mem_word :: "ByteOrder \<Rightarrow> bytes \<Rightarrow> 'a::len word" where
  "mem_word order bs = (case order of LittleEndian \<Rightarrow> le_word bs | BigEndian \<Rightarrow> le_word (rev bs))"

definition endian_reverse :: "'a::len word \<Rightarrow> 'a word" where
  "endian_reverse w = le_word (rev (le_bytes (word_size w) w))"

definition convert_endian :: "ByteOrder \<Rightarrow> ByteOrder \<Rightarrow> 'a::len word \<Rightarrow> 'a word" where
  "convert_endian from to w = (if from = to then w else endian_reverse w)"

definition hton :: "ByteOrder \<Rightarrow> 'a::len word \<Rightarrow> 'a word" where
  "hton host w = convert_endian host BigEndian w"

definition ntoh :: "ByteOrder \<Rightarrow> 'a::len word \<Rightarrow> 'a word" where
  "ntoh host w = convert_endian BigEndian host w"

subsection \<open>The input archive\<close>

datatype ErrorCode = Ok | IncompleteData | ExcessiveLength | ConstraintViolation

record InputArchive =
  stream :: bytes
  error_code :: ErrorCode

definition is_good :: "InputArchive \<Rightarrow> bool" where
  "is_good ar \<longleftrightarrow> error_code ar = Ok"

definition fail :: "ErrorCode \<Rightarrow> InputArchive \<Rightarrow> InputArchive" where
  "fail e ar = (if error_code ar = Ok then ar\<lparr>error_code := e\<rparr> else ar)"

text \<open>
  \<open>load_binary\<close> reads what is available and throws (\<open>None\<close>) when that is less than asked;
  the archive is left with the failure recorded and the available bytes consumed.
\<close>

definition load_binary :: "nat \<Rightarrow> InputArchive \<Rightarrow> bytes option \<times> InputArchive" where
  "load_binary len ar =
     (let data = take len (stream ar); ar' = ar\<lparr>stream := drop len (stream ar)\<rparr>
      in if length data \<noteq> len then (None, fail IncompleteData ar') else (Some data, ar'))"

definition peek_byte :: "InputArchive \<Rightarrow> byte option \<times> InputArchive" where
  "peek_byte ar = (case stream ar of
      [] \<Rightarrow> (None, fail IncompleteData ar)
    | b # _ \<Rightarrow> (Some b, ar))"

subsection \<open>Integral serialisation\<close>

definition serialize_int :: "ByteOrder \<Rightarrow> 'a::len word \<Rightarrow> bytes" where
  "serialize_int host w = mem_bytes host (hton host w)"

definition deserialize_int :: "ByteOrder \<Rightarrow> InputArchive \<Rightarrow> 'a::len word option \<times> InputArchive" where
  "deserialize_int host ar =
     (case load_binary (LENGTH('a) div 8) ar of
        (None, ar') \<Rightarrow> (None, ar')
      | (Some bs, ar') \<Rightarrow> (Some (ntoh host (mem_word host bs)), ar'))"

text \<open>
  The host-independent view used by the header codecs: big-endian bytes, and a reader over
  the remaining bytes whose failure is the archive's exception.
\<close>

definition put :: "'a::len word \<Rightarrow> bytes" where
  "put w = rev (le_bytes (word_size w) w)"

definition get :: "'a::len word reader" where
  "get bs = (if LENGTH('a) div 8 \<le> length bs
             then Some (le_word (rev (take (LENGTH('a) div 8) bs)), drop (LENGTH('a) div 8) bs)
             else None)"

subsection \<open>Round trips of byte images\<close>

lemma length_le_bytes [simp]: "length (le_bytes n w) = n"
  by (induction n arbitrary: w) auto

lemma bit_le_word:
  "bit (le_word bs :: 'a::len word) i \<longleftrightarrow>
     i < LENGTH('a) \<and> i div 8 < length bs \<and> bit (bs ! (i div 8)) (i mod 8)"
proof (induction bs arbitrary: i)
  case Nil
  then show ?case by simp
next
  case (Cons b bs)
  show ?case
  proof (cases "i < 8")
    case True
    then show ?thesis by (auto simp: bit_or_iff bit_push_bit_iff bit_ucast_iff)
  next
    case False
    then have "i div 8 = Suc ((i - 8) div 8)" and "i mod 8 = (i - 8) mod 8"
      by (simp_all add: div_if mod_if)
    moreover from False have "\<not> bit b i"
      using bit_imp_le_length [of b i] by auto
    ultimately show ?thesis using False Cons.IH [of "i - 8"]
      by (auto simp: bit_or_iff bit_push_bit_iff bit_ucast_iff)
  qed
qed

lemma le_bytes_nth:
  "k < n \<Longrightarrow> le_bytes n (w :: 'a::len word) ! k = ucast (drop_bit (8 * k) w)"
proof (induction n arbitrary: k w)
  case 0
  then show ?case by simp
next
  case (Suc n)
  then show ?case by (cases k) (simp_all add: algebra_simps)
qed

lemma le_word_le_bytes:
  fixes w :: "'a::len word"
  assumes "LENGTH('a) \<le> 8 * n"
  shows "le_word (le_bytes n w) = w"
proof (rule bit_eqI)
  fix i
  assume "possible_bit TYPE('a word) i"
  then have i: "i < LENGTH('a)" by simp
  with assms have k: "i div 8 < n" by (simp add: div_less_iff_less_mult mult.commute)
  have "8 * (i div 8) + i mod 8 = i" by simp
  with i k show "bit (le_word (le_bytes n w) :: 'a word) i = bit w i"
    by (simp add: bit_le_word le_bytes_nth bit_ucast_iff bit_drop_bit_eq)
qed

lemma le_bytes_le_word:
  assumes "8 * length bs \<le> LENGTH('a)"
  shows "le_bytes (length bs) (le_word bs :: 'a::len word) = bs"
proof (rule nth_equalityI)
  fix k
  assume "k < length (le_bytes (length bs) (le_word bs :: 'a word))"
  then have k: "k < length bs" by simp
  show "le_bytes (length bs) (le_word bs :: 'a word) ! k = bs ! k"
  proof (rule bit_eqI)
    fix j
    assume "possible_bit TYPE(8 word) j"
    then have j: "j < 8" by simp
    with k assms have "8 * k + j < LENGTH('a)" by linarith
    with j k show "bit (le_bytes (length bs) (le_word bs :: 'a word) ! k) j = bit (bs ! k) j"
      by (simp add: le_bytes_nth bit_ucast_iff bit_drop_bit_eq bit_le_word)
  qed
qed simp

subsection \<open>The contract of a fixed-length codec\<close>

text \<open>
  A header codec writes values of a fixed length; it reads back every well-formed value it
  wrote and leaves the rest of the input; whatever it accepts is well-formed and is exactly
  the bytes its own writer would produce; and it accepts every input that is long enough.
\<close>

locale fixed_codec =
  fixes ser :: "'a \<Rightarrow> bytes"
    and des :: "'a reader"
    and len :: nat
    and wf :: "'a \<Rightarrow> bool"
  assumes ser_length: "length (ser x) = len"
    and des_ser: "wf x \<Longrightarrow> des (ser x @ r) = Some (x, r)"
    and ser_des: "des bs = Some (x, r) \<Longrightarrow> wf x \<and> bs = ser x @ r"
    and des_total: "len \<le> length bs \<Longrightarrow> des bs \<noteq> None"
begin

lemma des_short: "length bs < len \<Longrightarrow> des bs = None"
proof (rule ccontr)
  assume short: "length bs < len" and "des bs \<noteq> None"
  then obtain x r where "des bs = Some (x, r)" by auto
  then have "bs = ser x @ r" using ser_des by blast
  with short show False by (simp add: ser_length)
qed

lemma des_None_iff: "des bs = None \<longleftrightarrow> length bs < len"
  using des_short des_total by (meson not_le)

lemma des_rest_length: "des bs = Some (x, r) \<Longrightarrow> length bs = len + length r"
  by (drule ser_des) (simp add: ser_length)

lemma ser_prefix_inj: "wf x \<Longrightarrow> wf y \<Longrightarrow> ser x @ r = ser y @ s \<Longrightarrow> x = y \<and> r = s"
  using des_ser by (metis Pair_inject option.inject)

lemma ser_surj: "length bs = len \<Longrightarrow> \<exists>x. wf x \<and> ser x = bs"
proof -
  assume l: "length bs = len"
  then obtain x r where x: "des bs = Some (x, r)" using des_total [of bs] by auto
  from des_rest_length [OF x] l have "r = []" by simp
  with ser_des [OF x] show ?thesis by auto
qed

end

text \<open>Integers of a whole number of bytes satisfy the contract, every value being well-formed.\<close>

lemma put_length: "length (put (w :: 'a::len word)) = LENGTH('a) div 8"
  by (simp add: put_def word_size_def)

lemma get_put:
  fixes w :: "'a::len word"
  assumes "LENGTH('a) = 8 * n"
  shows "get (put w @ r) = Some (w, r)"
  using assms by (simp add: get_def put_length) (simp add: put_def word_size_def le_word_le_bytes)

lemma put_get:
  fixes w :: "'a::len word"
  assumes "LENGTH('a) = 8 * n" and "get bs = Some (w, r)"
  shows "bs = put w @ r"
proof -
  from assms have len: "n \<le> length bs" and w: "w = le_word (rev (take n bs))" and r: "r = drop n bs"
    by (auto simp: get_def split: if_splits)
  have "le_bytes (length (rev (take n bs))) w = rev (take n bs)"
    unfolding w using len assms(1) by (intro le_bytes_le_word) simp
  with len assms(1) have "put w = take n bs"
    by (simp add: put_def word_size_def)
  with r show ?thesis by simp
qed

lemma fixed_codec_word:
  assumes "LENGTH('a::len) = 8 * n"
  shows "fixed_codec (put :: 'a word \<Rightarrow> bytes) get n (\<lambda>_. True)"
proof
  show "length (put x) = n" for x :: "'a word" using assms by (simp add: put_length)
  show "get (put x @ r) = Some (x, r)" for x :: "'a word" and r
    using assms by (rule get_put)
  show "True \<and> bs = put x @ r" if "get bs = Some (x, r)" for bs r and x :: "'a word"
    using put_get [OF assms that] by simp
  show "get bs \<noteq> (None :: ('a word \<times> bytes) option)" if "n \<le> length bs" for bs
    using that assms by (simp add: get_def)
qed

interpretation w8: fixed_codec "put :: byte \<Rightarrow> bytes" get 1 "\<lambda>_. True"
  by (rule fixed_codec_word) simp

interpretation w16: fixed_codec "put :: u16 \<Rightarrow> bytes" get 2 "\<lambda>_. True"
  by (rule fixed_codec_word) simp

interpretation w32: fixed_codec "put :: u32 \<Rightarrow> bytes" get 4 "\<lambda>_. True"
  by (rule fixed_codec_word) simp

lemmas word_codec_simps [codec_simps] =
  w8.ser_length w16.ser_length w32.ser_length w8.des_None_iff w16.des_None_iff w32.des_None_iff
  w8.des_ser [OF TrueI] w16.des_ser [OF TrueI] w32.des_ser [OF TrueI]

lemmas word_codec_dest [codec_dest] =
  w8.ser_des [THEN conjunct2] w16.ser_des [THEN conjunct2] w32.ser_des [THEN conjunct2]

lemmas word_codec_rest [codec_rest] =
  w8.des_rest_length w16.des_rest_length w32.des_rest_length

text \<open>
  Enumerations on the wire are read by a cast from their underlying integer. \<open>fixed_codec_iso\<close>
  transports the contract along such a bijection between a type and the well-formed values.
\<close>

definition map_reader :: "('a \<Rightarrow> 'b) \<Rightarrow> 'a reader \<Rightarrow> 'b reader" where
  "map_reader f rd bs = map_option (\<lambda>(x, r). (f x, r)) (rd bs)"

lemma fixed_codec_iso:
  assumes c: "fixed_codec ser des n wf"
    and fg: "\<And>x. wf' x \<Longrightarrow> wf (g x) \<and> f (g x) = x" and gf: "\<And>y. wf y \<Longrightarrow> wf' (f y) \<and> g (f y) = y"
  shows "fixed_codec (\<lambda>x. ser (g x)) (map_reader f des) n wf'"
proof -
  note l = fixed_codec.ser_length [OF c] and ds = fixed_codec.des_ser [OF c]
    and sd = fixed_codec.ser_des [OF c] and t = fixed_codec.des_total [OF c]
  show ?thesis
  proof
    show "length (ser (g x)) = n" for x by (rule l)
    show "map_reader f des (ser (g x) @ r) = Some (x, r)" if "wf' x" for x r
      using fg [OF that] by (simp add: map_reader_def ds)
    show "wf' x \<and> bs = ser (g x) @ r" if "map_reader f des bs = Some (x, r)" for bs x r
      using that sd gf by (fastforce simp: map_reader_def)
    show "map_reader f des bs \<noteq> None" if "n \<le> length bs" for bs
      using t [OF that] by (simp add: map_reader_def)
  qed
qed

subsection \<open>Independence of the host byte order\<close>

lemma endian_reverse_bytes:
  assumes "LENGTH('a::len) = 8 * n"
  shows "le_bytes n (endian_reverse (w :: 'a word)) = rev (le_bytes n w)"
proof -
  have "le_bytes (length (rev (le_bytes n w))) (le_word (rev (le_bytes n w)) :: 'a word) = rev (le_bytes n w)"
    using assms by (intro le_bytes_le_word) simp
  with assms show ?thesis by (simp add: endian_reverse_def word_size_def)
qed

lemma serialize_int_eq_put:
  assumes "LENGTH('a::len) = 8 * n"
  shows "serialize_int host (w :: 'a word) = put w"
  using assms endian_reverse_bytes [OF assms, of w]
  by (cases host)
    (simp_all add: serialize_int_def mem_bytes_def hton_def convert_endian_def put_def word_size_def)

lemma endian_reverse_le_word:
  assumes "LENGTH('a::len) = 8 * length bs"
  shows "endian_reverse (le_word bs :: 'a word) = le_word (rev bs)"
  using assms le_bytes_le_word [of bs, where 'a = 'a]
  by (simp add: endian_reverse_def word_size_def)

lemma deserialize_int_eq_get:
  assumes "LENGTH('a::len) = 8 * n"
  shows "deserialize_int host ar =
    (case get (stream ar) of
       Some (w :: 'a word, rest) \<Rightarrow> (Some w, ar\<lparr>stream := rest\<rparr>)
     | None \<Rightarrow> (None, fail IncompleteData (ar\<lparr>stream := []\<rparr>)))"
proof (cases "n \<le> length (stream ar)")
  case True
  then have "LENGTH('a) = 8 * length (take n (stream ar))" using assms by simp
  note endian_reverse_le_word [OF this]
  with True assms show ?thesis
    by (cases host) (simp_all add: deserialize_int_def load_binary_def Let_def get_def ntoh_def
        convert_endian_def mem_word_def)
next
  case False
  with assms show ?thesis by (simp add: deserialize_int_def load_binary_def Let_def get_def)
qed

subsection \<open>Properties\<close>

text \<open>Integers travel in network byte order whatever the byte order of the hosts: a
  32 bit value written on one host is the same four bytes, most significant first, on every
  host, and any host reads the value back and consumes exactly those bytes.\<close>

theorem integer_wire_format:
  "serialize_int host (w :: u32) = [ucast (drop_bit 24 w), ucast (drop_bit 16 w), ucast (drop_bit 8 w), ucast w] \<and>
   deserialize_int host' \<lparr>stream = serialize_int host w @ rest, error_code = e\<rparr> = (Some w, \<lparr>stream = rest, error_code = e\<rparr>)"
proof -
  have 4: "LENGTH(32) = 8 * 4" by simp
  have s: "serialize_int host w = put w" by (rule serialize_int_eq_put [OF 4])
  have "put w = [ucast (drop_bit 24 w), ucast (drop_bit 16 w), ucast (drop_bit 8 w), ucast w]"
  proof -
    have "(4 :: nat) = Suc (Suc (Suc (Suc 0)))" by simp
    then have "le_bytes 4 w = [ucast w, ucast (drop_bit 8 w), ucast (drop_bit 16 w), ucast (drop_bit 24 w)]"
      by (simp only: le_bytes.simps) simp
    then show ?thesis by (simp add: put_def word_size_def)
  qed
  moreover have "deserialize_int host' \<lparr>stream = put w @ rest, error_code = e\<rparr> = (Some w, \<lparr>stream = rest, error_code = e\<rparr>)"
    by (simp add: deserialize_int_eq_get [OF 4] w32.des_ser)
  ultimately show ?thesis unfolding s by simp
qed

end
