(* ===== verification/MacAddr.thy ===== *)
theory MacAddr
  imports Codec
begin

text \<open>
  MAC addresses (\<open>vanetza/net/mac_address.hpp\<close> and \<open>.cpp\<close>): the octet array, its two
  comparison operators, the textual form with its parser, and the wire form.
\<close>

datatype MacAddress = MacAddress byte byte byte byte byte byte

fun octets :: "MacAddress \<Rightarrow> bytes" where
  "octets (MacAddress a b c d e f) = [a, b, c, d, e, f]"

fun mac_of_octets :: "bytes \<Rightarrow> MacAddress option" where
  "mac_of_octets [a, b, c, d, e, f] = Some (MacAddress a b c d e f)"
| "mac_of_octets _ = None"

definition mac_zero :: MacAddress where
  "mac_zero = MacAddress 0 0 0 0 0 0"

definition cBroadcastMacAddress :: MacAddress where
  "cBroadcastMacAddress = MacAddress 0xff 0xff 0xff 0xff 0xff 0xff"

definition mac_eq :: "MacAddress \<Rightarrow> MacAddress \<Rightarrow> bool" where
  "mac_eq l r \<longleftrightarrow> octets l = octets r"

definition mac_less :: "MacAddress \<Rightarrow> MacAddress \<Rightarrow> bool" where
  "mac_less l r \<longleftrightarrow> list_ex (\<lambda>(x, y). x < y) (zip (octets l) (octets r))"

subsection \<open>Textual form\<close>

fun split_on :: "char \<Rightarrow> string \<Rightarrow> string list" where
  "split_on s [] = [[]]"
| "split_on s (c # cs) =
    (if c = s then [] # split_on s cs
     else (case split_on s cs of [] \<Rightarrow> [[c]] | t # ts \<Rightarrow> (c # t) # ts))"

fun join_with :: "char \<Rightarrow> string list \<Rightarrow> string" where
  "join_with s [] = []"
| "join_with s [t] = t"
| "join_with s (t # u # ts) = t @ s # join_with s (u # ts)"

text \<open>The numerical value of a hexadecimal digit, if the character is one (\<open>isxdigit\<close>, \<open>strtol\<close>).\<close>

definition xdigit_value :: "char \<Rightarrow> nat option" where
  "xdigit_value c = (let n = of_char c :: nat in
     if 48 \<le> n \<and> n \<le> 57 then Some (n - 48)
     else if 97 \<le> n \<and> n \<le> 102 then Some (n - 87)
     else if 65 \<le> n \<and> n \<le> 70 then Some (n - 55)
     else None)"

definition isxdigit :: "char \<Rightarrow> bool" where
  "isxdigit c \<longleftrightarrow> xdigit_value c \<noteq> None"

definition octet_checker :: "string \<Rightarrow> bool" where
  "octet_checker str \<longleftrightarrow> length str = 2 \<and> isxdigit (str ! 0) \<and> isxdigit (str ! 1)"

fun strtol16 :: "string \<Rightarrow> nat \<Rightarrow> nat" where
  "strtol16 [] acc = acc"
| "strtol16 (c # cs) acc =
    (case xdigit_value c of None \<Rightarrow> acc | Some d \<Rightarrow> strtol16 cs (16 * acc + d))"

definition parse_mac_address :: "string \<Rightarrow> MacAddress option" where
  "parse_mac_address str =
    (let os = split_on CHR '':'' str
     in if length os = 6 \<and> list_all octet_checker os
        then mac_of_octets (map (\<lambda>s. of_nat (strtol16 s 0)) os)
        else None)"

definition hex_digit :: "nat \<Rightarrow> char" where
  "hex_digit n = (if n < 10 then char_of (48 + n) else char_of (87 + n))"

definition print_octet :: "byte \<Rightarrow> string" where
  "print_octet b = [hex_digit (unat b div 16), hex_digit (unat b mod 16)]"

definition print_mac :: "MacAddress \<Rightarrow> string" where
  "print_mac a = join_with CHR '':'' (map print_octet (octets a))"

definition tolower :: "char \<Rightarrow> char" where
  "tolower c = (let n = of_char c :: nat in if 65 \<le> n \<and> n \<le> 90 then char_of (n + 32) else c)"

subsection \<open>Wire form\<close>

definition serialize_mac :: "MacAddress \<Rightarrow> bytes" where
  "serialize_mac a = octets a"

fun deserialize_mac :: "MacAddress reader" where
  "deserialize_mac (a # b # c # d # e # f # r) = Some (MacAddress a b c d e f, r)"
| "deserialize_mac _ = None"

subsection \<open>Facts\<close>

text \<open>The order of addresses holds in both directions as soon as octets differ in both directions.\<close>

lemma mac_less_not_asymmetric:
  "mac_less (MacAddress 0 1 0 0 0 0) (MacAddress 1 0 0 0 0 0)" "mac_less (MacAddress 1 0 0 0 0 0) (MacAddress 0 1 0 0 0 0)"
  by (simp_all add: mac_less_def)

lemma length_octets [simp]: "length (octets a) = 6"
  by (cases a) simp

lemma mac_of_octets_octets [simp]: "mac_of_octets (octets a) = Some a"
  by (cases a) simp

lemma octets_inject [simp]: "octets a = octets b \<longleftrightarrow> a = b"
  by (cases a; cases b) simp

lemma mac_of_octets_SomeD: "mac_of_octets os = Some a \<Longrightarrow> octets a = os"
  by (cases os rule: mac_of_octets.cases) auto

lemma mac_eq_iff: "mac_eq a b \<longleftrightarrow> a = b"
  by (simp add: mac_eq_def)

lemma split_on_nonempty [simp]: "split_on s cs \<noteq> []"
  by (induction cs) (auto split: list.split)

lemma split_on_no_sep: "s \<notin> set t \<Longrightarrow> split_on s t = [t]"
  by (induction t) auto

lemma split_on_append_sep:
  "s \<notin> set t \<Longrightarrow> split_on s (t @ s # u) = t # split_on s u"
  by (induction t) auto

lemma split_on_join:
  "ts \<noteq> [] \<Longrightarrow> \<forall>t\<in>set ts. s \<notin> set t \<Longrightarrow> split_on s (join_with s ts) = ts"
  by (induction s ts rule: join_with.induct) (auto simp: split_on_no_sep split_on_append_sep)

lemma join_split_on: "join_with s (split_on s cs) = cs"
proof (induction cs)
  case Nil
  then show ?case by simp
next
  case (Cons c cs)
  obtain t ts where "split_on s cs = t # ts"
    by (metis neq_Nil_conv split_on_nonempty)
  with Cons show ?case by (cases ts) auto
qed

lemma map_join_with: "map f (join_with s ts) = join_with (f s) (map (map f) ts)"
  by (induction s ts rule: join_with.induct) auto

lemma xdigit_value_bound: "xdigit_value c = Some d \<Longrightarrow> d < 16"
  by (auto simp: xdigit_value_def Let_def split: if_splits)

lemma of_char_char_of_small: "n < 256 \<Longrightarrow> (of_char (char_of n) :: nat) = n"
  by (simp add: of_char_of)

lemma xdigit_value_hex_digit: "d < 16 \<Longrightarrow> xdigit_value (hex_digit d) = Some d"
  by (auto simp: hex_digit_def xdigit_value_def Let_def)

lemma hex_digit_xdigit_value: "xdigit_value c = Some d \<Longrightarrow> hex_digit d = tolower c"
  by (auto simp: xdigit_value_def hex_digit_def tolower_def Let_def char_of_eq_iff
      take_bit_nat_eq_self add.commute split: if_splits)

lemma hex_digit_not_colon: "d < 16 \<Longrightarrow> hex_digit d \<noteq> CHR '':''"
  using xdigit_value_hex_digit [of d] by (auto simp: xdigit_value_def)

lemma print_octet_strtol: "of_nat (strtol16 (print_octet b) 0) = b"
proof -
  have "unat b div 16 < 16" by (simp add: div_less_iff_less_mult)
  then show ?thesis by (simp add: print_octet_def xdigit_value_hex_digit)
qed

lemma octet_checker_print_octet: "octet_checker (print_octet b)"
proof -
  have "unat b div 16 < 16" by (simp add: div_less_iff_less_mult)
  then show ?thesis by (simp add: octet_checker_def print_octet_def isxdigit_def xdigit_value_hex_digit)
qed

lemma print_octet_no_colon: "CHR '':'' \<notin> set (print_octet b)"
  using hex_digit_not_colon [of "unat b div 16"] hex_digit_not_colon [of "unat b mod 16"]
  by (auto simp: print_octet_def div_less_iff_less_mult)

lemma strtol_print_octet:
  assumes "octet_checker s"
  shows "print_octet (of_nat (strtol16 s 0)) = map tolower s"
proof -
  from assms obtain c d where s: "s = [c, d]"
    by (auto simp: octet_checker_def length_Suc_conv numeral_2_eq_2)
  with assms obtain x y where xy: "xdigit_value c = Some x" "xdigit_value d = Some y"
    by (auto simp: octet_checker_def isxdigit_def)
  then have "x < 16" "y < 16" by (auto dest: xdigit_value_bound)
  moreover from this have "unat (of_nat (16 * x + y) :: byte) = 16 * x + y"
    by (intro unat_of_nat_small) simp
  ultimately show ?thesis
    using xy s by (simp add: print_octet_def hex_digit_xdigit_value)
qed

lemma tolower_colon: "tolower CHR '':'' = CHR '':''"
  by (simp add: tolower_def)

interpretation mac_codec: fixed_codec serialize_mac deserialize_mac 6 "\<lambda>_. True"
proof
  show "length (serialize_mac x) = 6" for x by (simp add: serialize_mac_def)
  show "deserialize_mac (serialize_mac x @ r) = Some (x, r)" for x r
    by (cases x) (simp add: serialize_mac_def)
  show "True \<and> bs = serialize_mac x @ r" if "deserialize_mac bs = Some (x, r)" for bs x r
    using that by (cases bs rule: deserialize_mac.cases) (auto simp: serialize_mac_def)
  show "deserialize_mac bs \<noteq> None" if "6 \<le> length bs" for bs
    using that by (cases bs rule: deserialize_mac.cases) auto
qed

lemmas mac_codec_laws [codec_simps] =
  mac_codec.ser_length mac_codec.des_ser [OF TrueI] mac_codec.des_None_iff

declare mac_codec.ser_des [THEN conjunct2, codec_dest] and mac_codec.des_rest_length [codec_rest]

subsection \<open>Properties\<close>

text \<open>Printing a MAC address and parsing the text gives the address back, and any text
  the parser accepts is, up to letter case, the printed form of the address it returns.\<close>

theorem mac_text_round_trip:
  "parse_mac_address (print_mac a) = Some a \<and>
   (\<forall>str b. parse_mac_address str = Some b \<longrightarrow> print_mac b = map tolower str)"
proof (intro conjI allI impI)
  have s: "split_on CHR '':'' (print_mac a) = map print_octet (octets a)"
    unfolding print_mac_def by (rule split_on_join) (cases a, auto simp: print_octet_no_colon)
  show "parse_mac_address (print_mac a) = Some a"
    unfolding parse_mac_address_def Let_def s
    by (simp add: list_all_iff octet_checker_print_octet o_def print_octet_strtol)
next
  fix str b assume p: "parse_mac_address str = Some b"
  let ?os = "split_on CHR '':'' str"
  have ok: "\<forall>s\<in>set ?os. octet_checker s" and "octets b = map (\<lambda>s. of_nat (strtol16 s 0)) ?os"
    using p by (auto simp: parse_mac_address_def Let_def list_all_iff split: if_splits dest: mac_of_octets_SomeD)
  then have "map print_octet (octets b) = map (map tolower) ?os"
    by (simp add: strtol_print_octet)
  then have "print_mac b = map tolower (join_with CHR '':'' ?os)"
    by (simp add: print_mac_def map_join_with tolower_colon)
  then show "print_mac b = map tolower str" by (simp add: join_split_on)
qed

theorem mac_text_round_trip_witness:
  "print_mac (MacAddress 0xab 0 0 0 0 1) = map tolower ''AB:00:00:00:00:01''"
proof -
  have "parse_mac_address ''AB:00:00:00:00:01'' = Some (MacAddress 0xab 0 0 0 0 1)"
    by code_simp
  then show ?thesis using mac_text_round_trip by blast
qed

end
