(* ===== verification/DccTypes.thy ===== *)
theory DccTypes
  imports Prelude
begin

text \<open>
  The vocabulary shared by routing and congestion control: DCC profiles
  (\<open>vanetza/dcc/profile.hpp\<close>), EDCA access categories (\<open>vanetza/access/access_category.hpp\<close>)
  and the mapping between them (\<open>vanetza/dcc/mapping.cpp\<close>).
\<close>

datatype Profile = DP0 | DP1 | DP2 | DP3

primrec profile_raw :: "Profile \<Rightarrow> nat" where
  "profile_raw DP0 = 0"
| "profile_raw DP1 = 1"
| "profile_raw DP2 = 2"
| "profile_raw DP3 = 3"

datatype AccessCategory = BK | BE | VI | VO

primrec ac_raw :: "AccessCategory \<Rightarrow> nat" where
  "ac_raw BK = 1"
| "ac_raw BE = 3"
| "ac_raw VI = 5"
| "ac_raw VO = 7"

definition user_priority :: "AccessCategory \<Rightarrow> byte" where
  "user_priority ac = of_nat (ac_raw ac) AND 0x7"

primrec map_profile_onto_ac :: "Profile \<Rightarrow> AccessCategory" where
  "map_profile_onto_ac DP0 = VO"
| "map_profile_onto_ac DP1 = VI"
| "map_profile_onto_ac DP2 = BE"
| "map_profile_onto_ac DP3 = BK"

lemma profile_raw_inject [simp]: "profile_raw p = profile_raw q \<longleftrightarrow> p = q"
  by (cases p; cases q) simp_all

lemma ac_raw_inject [simp]: "ac_raw p = ac_raw q \<longleftrightarrow> p = q"
  by (cases p; cases q) simp_all

text \<open>Enumerators compare by their underlying values.\<close>

instantiation Profile :: linorder
begin

definition less_eq_Profile :: "Profile \<Rightarrow> Profile \<Rightarrow> bool" where
  "less_eq_Profile p q \<longleftrightarrow> profile_raw p \<le> profile_raw q"

definition less_Profile :: "Profile \<Rightarrow> Profile \<Rightarrow> bool" where
  "less_Profile p q \<longleftrightarrow> profile_raw p < profile_raw q"

instance
  by standard (auto simp: less_eq_Profile_def less_Profile_def)

end

instantiation AccessCategory :: linorder
begin

definition less_eq_AccessCategory :: "AccessCategory \<Rightarrow> AccessCategory \<Rightarrow> bool" where
  "less_eq_AccessCategory p q \<longleftrightarrow> ac_raw p \<le> ac_raw q"

definition less_AccessCategory :: "AccessCategory \<Rightarrow> AccessCategory \<Rightarrow> bool" where
  "less_AccessCategory p q \<longleftrightarrow> ac_raw p < ac_raw q"

instance
  by standard (auto simp: less_eq_AccessCategory_def less_AccessCategory_def)

end

lemma map_profile_onto_ac_antimono: "p < q \<longleftrightarrow> map_profile_onto_ac q < map_profile_onto_ac p"
  by (cases p; cases q) (simp_all add: less_Profile_def less_AccessCategory_def)

lemma unat_user_priority: "unat (user_priority ac) = ac_raw ac"
  by (cases ac) (simp_all add: user_priority_def)

end
