(* ===== verification/GnValues.thy ===== *)
theory GnValues
  imports MacAddr DccTypes
begin

text \<open>
  The value types of GeoNetworking headers (\<open>vanetza/geonet\<close>): \<open>Lifetime\<close>, \<open>Timestamp\<close>,
  \<open>SequenceNumber\<close>, \<open>TrafficClass\<close> and the header type enumeration. Durations in seconds are
  real numbers; the wrap-around of the stored integers is kept.
\<close>

subsection \<open>Lifetime\<close>

datatype Base = Fifty_Milliseconds | One_Second | Ten_Seconds | Hundred_Seconds

type_synonym Lifetime = byte

primrec base_raw :: "Base \<Rightarrow> byte" where
  "base_raw Fifty_Milliseconds = 0"
| "base_raw One_Second = 1"
| "base_raw Ten_Seconds = 2"
| "base_raw Hundred_Seconds = 3"

definition base_mask :: byte where "base_mask = 0x03"

definition multiplier_mask :: byte where "multiplier_mask = 0xFC"

definition lifetime_set :: "Base \<Rightarrow> 6 word \<Rightarrow> Lifetime" where
  "lifetime_set base multiplier = push_bit 2 (ucast multiplier) OR (base_raw base AND base_mask)"

definition lifetime_zero :: Lifetime where
  "lifetime_zero = lifetime_set Fifty_Milliseconds 0"

text \<open>
  The cast of the two base bits hits one of the four enumerators (\<open>base_bits_cases\<close>), so the
  throwing default of the switch in \<open>decode\<close> is dead.
\<close>

definition lifetime_base :: "Lifetime \<Rightarrow> Base" where
  "lifetime_base l = (let b = l AND base_mask in
     if b = 0 then Fifty_Milliseconds else if b = 1 then One_Second
     else if b = 2 then Ten_Seconds else Hundred_Seconds)"

primrec base_unit :: "Base \<Rightarrow> real" where
  "base_unit Fifty_Milliseconds = 1 / 20"
| "base_unit One_Second = 1"
| "base_unit Ten_Seconds = 10"
| "base_unit Hundred_Seconds = 100"

definition lifetime_decode :: "Lifetime \<Rightarrow> real" where
  "lifetime_decode l = real (unat (drop_bit 2 (l AND multiplier_mask))) * base_unit (lifetime_base l)"

definition lifetime_encode :: "real \<Rightarrow> Lifetime" where
  "lifetime_encode seconds =
    (if 630 \<le> seconds then lifetime_set Hundred_Seconds (word_of_int (lround (seconds / 100)))
     else if 63 \<le> seconds then lifetime_set Ten_Seconds (word_of_int (lround (seconds / 10)))
     else if 63 / 20 \<le> seconds then lifetime_set One_Second (word_of_int (lround seconds))
     else lifetime_set Fifty_Milliseconds (word_of_int (lround (seconds * 20))))"

definition lifetime_less :: "Lifetime \<Rightarrow> Lifetime \<Rightarrow> bool" where
  "lifetime_less a b \<longleftrightarrow> lifetime_decode a < lifetime_decode b"

definition lifetime_eq :: "Lifetime \<Rightarrow> Lifetime \<Rightarrow> bool" where
  "lifetime_eq a b \<longleftrightarrow> \<bar>lifetime_decode a - lifetime_decode b\<bar> < 1 / 20"

subsection \<open>Timestamp\<close>

type_synonym Timestamp = u32

definition timestamp_of :: "time_point \<Rightarrow> Timestamp" where
  "timestamp_of t = word_of_int (trunc_div t 1000)"

text \<open>\<open>Timestamp(ptime)\<close>; the argument is the millisecond count since \<open>start_time()\<close>, \<open>None\<close> the assertion.\<close>

definition timestamp_of_ptime :: "int \<Rightarrow> Timestamp option" where
  "timestamp_of_ptime ms = (if 0 \<le> ms then Some (word_of_int ms) else None)"

definition timestamp_add :: "Timestamp \<Rightarrow> u32 \<Rightarrow> Timestamp" where
  "timestamp_add t d = t + d"

definition timestamp_sub :: "Timestamp \<Rightarrow> u32 \<Rightarrow> Timestamp" where
  "timestamp_sub t d = t - d"

definition timestamp_diff :: "Timestamp \<Rightarrow> Timestamp \<Rightarrow> u32" where
  "timestamp_diff l r = l - r"

definition timestamp_max :: Timestamp where "timestamp_max = 0xFFFFFFFF"

definition is_greater :: "Timestamp \<Rightarrow> Timestamp \<Rightarrow> bool" where
  "is_greater lhs rhs \<longleftrightarrow>
     (lhs > rhs \<and> lhs - rhs \<le> timestamp_max div 2) \<or>
     (rhs > lhs \<and> rhs - lhs > timestamp_max div 2)"

definition timestamp_less :: "Timestamp \<Rightarrow> Timestamp \<Rightarrow> bool" where
  "timestamp_less lhs rhs \<longleftrightarrow> \<not> is_greater lhs rhs \<and> lhs \<noteq> rhs"

definition timestamp_before :: "Timestamp \<Rightarrow> Timestamp \<Rightarrow> bool" where
  "timestamp_before t other \<longleftrightarrow> timestamp_less t other"

definition timestamp_after :: "Timestamp \<Rightarrow> Timestamp \<Rightarrow> bool" where
  "timestamp_after t other \<longleftrightarrow> timestamp_less other t"

subsection \<open>Sequence number\<close>

type_synonym SequenceNumber = u16

definition sn_max :: nat where "sn_max = 65535"

definition sn_less :: "SequenceNumber \<Rightarrow> SequenceNumber \<Rightarrow> bool" where
  "sn_less m other \<longleftrightarrow>
     (other > m \<and> int (unat other) - int (unat m) \<le> int (sn_max div 2)) \<or>
     (m > other \<and> int (unat m) - int (unat other) > int (sn_max div 2))"

definition sn_post_increment :: "SequenceNumber \<Rightarrow> SequenceNumber \<times> SequenceNumber" where
  "sn_post_increment m = (m, m + 1)"

subsection \<open>Traffic class\<close>

type_synonym TrafficClass = byte

definition scf_mask :: byte where "scf_mask = 0x80"

definition channel_offload_mask :: byte where "channel_offload_mask = 0x40"

definition tc_id_mask :: byte where "tc_id_mask = 0x3f"

definition store_carry_forward :: "TrafficClass \<Rightarrow> bool" where
  "store_carry_forward tc \<longleftrightarrow> tc AND scf_mask \<noteq> 0"

definition set_store_carry_forward :: "bool \<Rightarrow> TrafficClass \<Rightarrow> TrafficClass" where
  "set_store_carry_forward flag tc = (if flag then tc OR scf_mask else tc AND NOT scf_mask)"

definition channel_offload :: "TrafficClass \<Rightarrow> bool" where
  "channel_offload tc \<longleftrightarrow> tc AND channel_offload_mask \<noteq> 0"

definition set_channel_offload :: "bool \<Rightarrow> TrafficClass \<Rightarrow> TrafficClass" where
  "set_channel_offload flag tc =
     (if flag then tc OR channel_offload_mask else tc AND NOT channel_offload_mask)"

definition tc_id :: "TrafficClass \<Rightarrow> 6 word" where
  "tc_id tc = ucast (tc AND tc_id_mask)"

definition set_tc_id :: "6 word \<Rightarrow> TrafficClass \<Rightarrow> TrafficClass" where
  "set_tc_id i tc = (tc AND NOT tc_id_mask) OR (ucast i AND tc_id_mask)"

definition traffic_class :: "bool \<Rightarrow> bool \<Rightarrow> 6 word \<Rightarrow> TrafficClass" where
  "traffic_class scf ch_offload i =
     set_tc_id i (set_channel_offload ch_offload (set_store_carry_forward scf 0))"

definition map_tc_onto_profile :: "TrafficClass \<Rightarrow> Profile" where
  "map_tc_onto_profile tc =
     (if tc_id tc = 0 then DP0 else if tc_id tc = 1 then DP1 else if tc_id tc = 2 then DP2 else DP3)"

subsection \<open>Facts on lifetimes\<close>

lemma base_mask_eq: "base_mask = mask 2"
  by (simp add: base_mask_def mask_eq_exp_minus_1)

lemma multiplier_mask_eq: "multiplier_mask = NOT (mask 2)"
  by (simp add: multiplier_mask_def mask_eq_exp_minus_1)

lemma base_raw_mask [simp]: "base_raw b AND mask 2 = base_raw b"
  by (cases b) (simp_all add: mask_eq_exp_minus_1)

lemma base_raw_bit: "bit (base_raw b) n \<Longrightarrow> n < 2"
  by (metis base_raw_mask bit_and_iff bit_mask_iff)

lemma base_bits_cases: "l AND base_mask = 0 \<or> l AND base_mask = 1 \<or> l AND base_mask = 2 \<or> l AND base_mask = 3"
proof -
  have "l AND base_mask = take_bit 2 l" by (simp add: base_mask_eq take_bit_eq_mask)
  moreover have "unat (take_bit 2 l) < 4"
    using take_bit_nat_less_exp [of 2 "unat l"] by (simp add: unsigned_take_bit_eq)
  ultimately have "unat (l AND base_mask) \<in> {0, 1, 2, 3}" by auto
  then show ?thesis by (auto dest!: word_of_unat)
qed

lemma base_raw_lifetime_base: "base_raw (lifetime_base l) = l AND base_mask"
  using base_bits_cases [of l] by (auto simp: lifetime_base_def Let_def)

lemma lifetime_base_set [simp]: "lifetime_base (lifetime_set b m) = b"
proof -
  have "lifetime_set b m AND mask 2 = base_raw b"
    by (rule bit_word_eqI)
      (auto simp: lifetime_set_def base_mask_eq bit_simps dest: base_raw_bit)
  then show ?thesis by (cases b) (simp_all add: lifetime_base_def base_mask_eq)
qed

lemma lifetime_multiplier_set: "drop_bit 2 (lifetime_set b m AND multiplier_mask) = ucast m"
  by (rule bit_word_eqI)
    (auto simp: lifetime_set_def base_mask_eq multiplier_mask_eq bit_simps
      dest: bit_imp_le_length base_raw_bit)

lemma lifetime_decode_set: "lifetime_decode (lifetime_set b m) = real (unat m) * base_unit b"
  unfolding lifetime_decode_def lifetime_multiplier_set lifetime_base_set
  by (simp add: unat_ucast_up)

lemma lifetime_encode_mult:
  "0 \<le> n \<Longrightarrow> n < 64 \<Longrightarrow>
    lifetime_decode (lifetime_set b (word_of_int n)) = real_of_int n * base_unit b"
  by (simp add: lifetime_decode_set unsigned_of_int take_bit_int_eq_self of_nat_nat)

text \<open>The step width \<open>encode\<close> rounds to in the range its argument falls into.\<close>

definition lifetime_step :: "real \<Rightarrow> real" where
  "lifetime_step s = (if 630 \<le> s then 100 else if 63 \<le> s then 10 else if 63 / 20 \<le> s then 1 else 1 / 20)"

lemma lround_scaled_error:
  assumes "0 < u"
  shows "\<bar>of_int (lround (s / u)) * u - s\<bar> \<le> u / 2"
proof -
  have "\<bar>of_int (lround (s / u)) * u - s\<bar> = \<bar>of_int (lround (s / u)) - s / u\<bar> * u"
    using assms abs_mult [of "of_int (lround (s / u)) - s / u" u] by (simp add: left_diff_distrib)
  also have "\<dots> \<le> 1 / 2 * u" using lround_error assms by (intro mult_right_mono) auto
  finally show ?thesis by simp
qed

lemma lifetime_encode_unit:
  assumes "0 \<le> s" and "s < 6350"
  shows "lifetime_decode (lifetime_encode s) = of_int (lround (s / lifetime_step s)) * lifetime_step s"
proof -
  have "0 \<le> lround (s / lifetime_step s)"
    using assms by (intro lround_nonneg) (simp add: lifetime_step_def)
  moreover have "lround (s / lifetime_step s) < 64"
    using assms by (intro lround_less) (simp add: lifetime_step_def)
  ultimately show ?thesis
    using lifetime_encode_mult [of "lround (s / lifetime_step s)"]
    by (simp add: lifetime_encode_def lifetime_step_def split: if_splits)
qed

lemma lifetime_encode_error:
  assumes "0 \<le> s" and "s < 6350"
  shows "\<bar>lifetime_decode (lifetime_encode s) - s\<bar> \<le> lifetime_step s / 2"
  unfolding lifetime_encode_unit [OF assms]
  by (rule lround_scaled_error) (simp add: lifetime_step_def)

lemma lifetime_encode_exact:
  assumes "0 \<le> s" and "s < 6350" and "s = of_int n * lifetime_step s"
  shows "lifetime_decode (lifetime_encode s) = s"
proof -
  have "lifetime_step s \<noteq> 0" by (simp add: lifetime_step_def)
  then have "s / lifetime_step s = of_int n" by (subst assms(3)) simp
  then show ?thesis using assms lifetime_encode_unit [of s] by simp
qed

lemma lifetime_decode_form:
  obtains b n where "lifetime_decode l = of_int n * base_unit b" "0 \<le> n" "n < 64"
proof
  let ?m = "drop_bit 2 (l AND multiplier_mask)"
  show "lifetime_decode l = of_int (int (unat ?m)) * base_unit (lifetime_base l)"
    by (simp add: lifetime_decode_def)
  show "0 \<le> int (unat ?m)" by simp
  have "unat ?m = unat (l AND multiplier_mask) div 4"
    by (simp only: unat_drop_bit_eq) (simp add: drop_bit_eq_div)
  then show "int (unat ?m) < 64" by (simp add: div_less_iff_less_mult)
qed

lemma lifetime_step_cases:
  obtains "630 \<le> s" "lifetime_step s = 100" | "63 \<le> s" "s < 630" "lifetime_step s = 10"
    | "63 / 20 \<le> s" "s < 63" "lifetime_step s = 1" | "s < 63 / 20" "lifetime_step s = 1 / 20"
  unfolding lifetime_step_def by (metis not_le)

text \<open>
  Re-encoding a decoded value is exact except where a base's largest multiple is also the
  threshold at which \<open>encode\<close> already switches to the next base.
\<close>

lemma lifetime_multiple_of_step:
  assumes s: "s = of_int n * base_unit b" "0 \<le> n" "n < 64"
    and ne: "s \<noteq> 63 / 20" "s \<noteq> 63" "s \<noteq> 630"
  shows "\<exists>k. s = of_int k * lifetime_step s"
proof (cases s rule: lifetime_step_cases)
  case 1
  with s ne have "b = Hundred_Seconds" by (cases b) auto
  with 1 s show ?thesis by auto
next
  case 2
  consider "b = Ten_Seconds" | "b = Hundred_Seconds" using 2 s ne by (cases b) auto
  then show ?thesis using 2 s by cases (auto intro: exI [of _ "10 * n"])
next
  case 3
  consider "b = One_Second" | "b = Ten_Seconds" | "b = Hundred_Seconds" using 3 s ne by (cases b) auto
  then show ?thesis using 3 s by cases (auto intro: exI [of _ "10 * n"] exI [of _ "100 * n"])
next
  case 4
  show ?thesis unfolding 4(2) using s(1)
    by (cases b) (auto intro: exI [of _ n] exI [of _ "20 * n"] exI [of _ "200 * n"] exI [of _ "2000 * n"])
qed

lemma lifetime_decode_range: "0 \<le> lifetime_decode l \<and> lifetime_decode l \<le> 6300"
proof -
  obtain b n where "lifetime_decode l = of_int n * base_unit b" "0 \<le> n" "n < 64"
    by (rule lifetime_decode_form)
  then show ?thesis by (cases b) auto
qed

lemma lifetime_reencode:
  assumes "lifetime_decode l \<notin> {63 / 20, 63, 630}"
  shows "lifetime_decode (lifetime_encode (lifetime_decode l)) = lifetime_decode l"
proof -
  obtain b n where f: "lifetime_decode l = of_int n * base_unit b" "0 \<le> n" "n < 64"
    by (rule lifetime_decode_form)
  then obtain k where "lifetime_decode l = of_int k * lifetime_step (lifetime_decode l)"
    using lifetime_multiple_of_step assms by blast
  then show ?thesis using lifetime_decode_range [of l] by (intro lifetime_encode_exact) auto
qed

lemma lifetime_reencode_lossy:
  "lifetime_decode (lifetime_encode (63 / 20)) = 3"
  "lifetime_decode (lifetime_encode 63) = 60"
  "lifetime_decode (lifetime_encode 630) = 600"
  by (simp_all add: lifetime_encode_unit lifetime_step_def lround_def)

lemma lifetime_reencode_le: "lifetime_decode (lifetime_encode (lifetime_decode l)) \<le> lifetime_decode l"
proof -
  consider "lifetime_decode l = 63 / 20" | "lifetime_decode l = 63" | "lifetime_decode l = 630"
    | "lifetime_decode l \<notin> {63 / 20, 63, 630}" by blast
  then show ?thesis
  proof cases
    case 1
    show ?thesis unfolding 1 lifetime_reencode_lossy by simp
  next
    case 2
    show ?thesis unfolding 2 lifetime_reencode_lossy by simp
  next
    case 3
    show ?thesis unfolding 3 lifetime_reencode_lossy by simp
  next
    case 4
    from lifetime_reencode [OF this] show ?thesis by simp
  qed
qed

lemma lifetime_multiple_of_lower_step:
  assumes s: "s = of_int n * base_unit b" "0 \<le> n" "n < 64" and r: "r < s"
  shows "\<exists>k. s = of_int k * lifetime_step r"
proof (cases r rule: lifetime_step_cases)
  case 1
  with s r have "b = Hundred_Seconds" by (cases b) auto
  with 1 s show ?thesis by auto
next
  case 2
  consider "b = Ten_Seconds" | "b = Hundred_Seconds" using 2 s r by (cases b) auto
  then show ?thesis using 2 s by cases (auto intro: exI [of _ "10 * n"])
next
  case 3
  consider "b = One_Second" | "b = Ten_Seconds" | "b = Hundred_Seconds" using 3 s r by (cases b) auto
  then show ?thesis using 3 s by cases (auto intro: exI [of _ "10 * n"] exI [of _ "100 * n"])
next
  case 4
  show ?thesis unfolding 4(2) using s(1)
    by (cases b) (auto intro: exI [of _ n] exI [of _ "20 * n"] exI [of _ "200 * n"] exI [of _ "2000 * n"])
qed

lemma lround_le: "x \<le> of_int n \<Longrightarrow> lround x \<le> n"
  using lround_less [of x "n + 1"] by simp

text \<open>Encoding a remainder of a decodable lifetime never exceeds that lifetime.\<close>

lemma lifetime_encode_remainder:
  assumes "0 \<le> r" and "r < lifetime_decode l"
  shows "lifetime_decode (lifetime_encode r) \<le> lifetime_decode l"
proof -
  obtain b n where "lifetime_decode l = of_int n * base_unit b" "0 \<le> n" "n < 64"
    by (rule lifetime_decode_form)
  then obtain k where k: "lifetime_decode l = of_int k * lifetime_step r"
    using lifetime_multiple_of_lower_step assms(2) by blast
  have pos: "0 < lifetime_step r" by (simp add: lifetime_step_def)
  have "r / lifetime_step r \<le> of_int k" using assms(2) k pos by (simp add: pos_divide_le_eq)
  then have "lround (r / lifetime_step r) \<le> k" by (rule lround_le)
  then have "of_int (lround (r / lifetime_step r)) * lifetime_step r \<le> of_int k * lifetime_step r"
    using pos by (intro mult_right_mono) auto
  moreover have "r < 6350" using assms(2) lifetime_decode_range [of l] by simp
  ultimately show ?thesis using assms(1) k by (simp add: lifetime_encode_unit)
qed

lemma clock_cast_lifetime: "real_of_int (clock_cast (lifetime_decode l)) = lifetime_decode l * 1000000"
proof -
  obtain b n where f: "lifetime_decode l = of_int n * base_unit b" "0 \<le> n" "n < 64"
    by (rule lifetime_decode_form)
  have "\<exists>i :: int. lifetime_decode l * 1000000 = of_int i"
    using f(1) by (cases b) (auto intro: exI [of _ "n * 50000"] exI [of _ "n * 1000000"]
        exI [of _ "n * 10000000"] exI [of _ "n * 100000000"])
  then show ?thesis by (auto simp: clock_cast_def)
qed

subsection \<open>Facts on timestamps and sequence numbers\<close>

lemma unat_timestamp_max_half: "timestamp_max div 2 = 0x7FFFFFFF"
  by (simp add: timestamp_max_def)

lemma is_greater_unat:
  "is_greater l r \<longleftrightarrow>
     (uint r < uint l \<and> uint l - uint r \<le> 2147483648 - 1) \<or>
     (uint l < uint r \<and> 2147483648 - 1 < uint r - uint l)"
  unfolding is_greater_def unat_timestamp_max_half
  by (auto simp: word_less_def word_le_def uint_sub_if')

lemma is_greater_exactly_one:
  "(is_greater l r \<and> \<not> is_greater r l \<and> l \<noteq> r) \<or> (\<not> is_greater l r \<and> is_greater r l \<and> l \<noteq> r)
    \<or> (\<not> is_greater l r \<and> \<not> is_greater r l \<and> l = r)"
  unfolding is_greater_unat by (cases "uint l" "uint r" rule: linorder_cases) (auto simp: word_uint_eq_iff)

lemma uint_timestamp_of: "0 \<le> t \<Longrightarrow> uint (timestamp_of t) = (t div 1000) mod (2 * 2147483648)"
  by (simp add: timestamp_of_def trunc_div_nonneg unsigned_of_int take_bit_int_def)

lemma is_greater_timestamp_of:
  assumes "0 \<le> t" "0 \<le> u" and "\<bar>t div 1000 - u div 1000\<bar> < 2147483648"
  shows "is_greater (timestamp_of t) (timestamp_of u) \<longleftrightarrow> u div 1000 < t div 1000"
  unfolding is_greater_unat uint_timestamp_of [OF assms(1)] uint_timestamp_of [OF assms(2)]
  using assms(3) by (intro serial_number_order) auto

lemma sn_less_uint:
  "sn_less m other \<longleftrightarrow>
     (uint m < uint other \<and> uint other - uint m \<le> 32768 - 1) \<or>
     (uint other < uint m \<and> 32768 - 1 < uint m - uint other)"
  by (auto simp: sn_less_def sn_max_def word_less_def)

lemma sn_less_irrefl: "\<not> sn_less a a"
  by (simp add: sn_less_def)

lemma sn_less_total: "a \<noteq> b \<Longrightarrow> sn_less a b \<longleftrightarrow> \<not> sn_less b a"
  unfolding sn_less_uint by (cases "uint a" "uint b" rule: linorder_cases) (auto simp: word_uint_eq_iff)

lemma sn_less_of_nat:
  assumes "\<bar>int i - int j\<bar> < 32768"
  shows "sn_less (of_nat i) (of_nat j) \<longleftrightarrow> i < j"
proof -
  have u: "uint (of_nat k :: u16) = int k mod (2 * 32768)" for k
    by (simp add: unsigned_of_nat take_bit_nat_def zmod_int)
  show ?thesis unfolding sn_less_uint u
    using serial_number_order [of 32768 "2 * 32768" "int j" "int i"] assms by auto
qed

subsection \<open>Facts on traffic classes\<close>

lemma bit_tc_masks:
  "bit scf_mask n \<longleftrightarrow> n = 7" "bit channel_offload_mask n \<longleftrightarrow> n = 6" "bit tc_id_mask n \<longleftrightarrow> n < 6"
proof -
  have "scf_mask = push_bit 7 1" "channel_offload_mask = push_bit 6 1" "tc_id_mask = mask 6"
    by (simp_all add: scf_mask_def channel_offload_mask_def tc_id_mask_def mask_eq_exp_minus_1)
  note eqs = this
  show "bit scf_mask n \<longleftrightarrow> n = 7" unfolding eqs bit_push_bit_iff by (auto simp: bit_1_iff)
  show "bit channel_offload_mask n \<longleftrightarrow> n = 6" unfolding eqs bit_push_bit_iff by (auto simp: bit_1_iff)
  show "bit tc_id_mask n \<longleftrightarrow> n < 6" unfolding eqs bit_mask_iff by auto
qed

lemma and_single_bit: "(\<And>n. bit (m :: 'a::len word) n \<longleftrightarrow> n = k) \<Longrightarrow> w AND m \<noteq> 0 \<longleftrightarrow> bit w k"
  by (auto simp: word_eq_bit_iff bit_and_iff dest: bit_imp_le_length)

lemma store_carry_forward_bit: "store_carry_forward tc \<longleftrightarrow> bit tc 7"
  unfolding store_carry_forward_def by (rule and_single_bit) (rule bit_tc_masks)

lemma channel_offload_bit: "channel_offload tc \<longleftrightarrow> bit tc 6"
  unfolding channel_offload_def by (rule and_single_bit) (rule bit_tc_masks)

lemma bit_tc_id: "bit (tc_id tc) n \<longleftrightarrow> n < 6 \<and> bit tc n"
  by (auto simp: tc_id_def bit_tc_masks bit_simps)

lemma bit_set_store_carry_forward:
  "bit (set_store_carry_forward f tc) n \<longleftrightarrow> (if n = 7 then f else bit tc n)"
  using bit_imp_le_length [of tc n] by (auto simp: set_store_carry_forward_def bit_tc_masks bit_simps)

lemma bit_set_channel_offload:
  "bit (set_channel_offload f tc) n \<longleftrightarrow> (if n = 6 then f else bit tc n)"
  using bit_imp_le_length [of tc n] by (auto simp: set_channel_offload_def bit_tc_masks bit_simps)

lemma bit_set_tc_id: "bit (set_tc_id i tc) n \<longleftrightarrow> (if n < 6 then bit i n else bit tc n)"
  using bit_imp_le_length [of tc n] by (auto simp: set_tc_id_def bit_tc_masks bit_simps)

lemmas tc_bits = store_carry_forward_bit channel_offload_bit bit_tc_id
  bit_set_store_carry_forward bit_set_channel_offload bit_set_tc_id

lemma traffic_class_fields:
  "store_carry_forward (traffic_class s c i) = s"
  "channel_offload (traffic_class s c i) = c"
  "tc_id (traffic_class s c i) = i"
  by (auto simp: traffic_class_def tc_bits word_eq_bit_iff)

lemma traffic_class_surj: "traffic_class (store_carry_forward tc) (channel_offload tc) (tc_id tc) = tc"
proof (rule bit_word_eqI)
  fix n assume "n < LENGTH(8)"
  then have "n < 6 \<or> n = 6 \<or> n = 7" by auto
  then show "bit (traffic_class (store_carry_forward tc) (channel_offload tc) (tc_id tc)) n = bit tc n"
    by (auto simp: traffic_class_def tc_bits)
qed

subsection \<open>Properties\<close>

text \<open>C38: Encoding a duration the format can hold rounds it to the nearest multiple of the
  step of its range: the decoded value is such a multiple and off by at most half a step.\<close>

theorem lifetime_encode_nearest:
  assumes "0 \<le> s" and "s < 6350"
  shows "\<bar>lifetime_decode (lifetime_encode s) - s\<bar> \<le> lifetime_step s / 2
    \<and> (\<exists>k :: int. lifetime_decode (lifetime_encode s) = of_int k * lifetime_step s)"
  using lifetime_encode_error [OF assms] lifetime_encode_unit [OF assms] by blast

theorem lifetime_encode_nearest_witness:
  "\<bar>lifetime_decode (lifetime_encode 70) - 70\<bar> \<le> 5 \<and> (\<exists>k :: int. lifetime_decode (lifetime_encode 70) = of_int k * 10)"
  using lifetime_encode_nearest [of 70] by (simp add: lifetime_step_def)

text \<open>Re-encoding a received lifetime never lengthens it, and is lossless except for the
  three values 3.15 s, 63 s and 630 s, the largest multiple of a base being encoded with the
  next coarser base.\<close>

theorem lifetime_reencode_exact_iff:
  "lifetime_decode (lifetime_encode (lifetime_decode l)) \<le> lifetime_decode l \<and>
   (lifetime_decode (lifetime_encode (lifetime_decode l)) = lifetime_decode l \<longleftrightarrow>
      lifetime_decode l \<notin> {63 / 20, 63, 630})"
proof (intro conjI iffI)
  show "lifetime_decode (lifetime_encode (lifetime_decode l)) \<le> lifetime_decode l"
    by (rule lifetime_reencode_le)
  show "lifetime_decode l \<notin> {63 / 20, 63, 630}"
    if "lifetime_decode (lifetime_encode (lifetime_decode l)) = lifetime_decode l"
  proof
    assume "lifetime_decode l \<in> {63 / 20, 63, 630}"
    then consider "lifetime_decode l = 63 / 20" | "lifetime_decode l = 63" | "lifetime_decode l = 630" by blast
    then show False
    proof cases
      case 1
      show False using that unfolding 1 lifetime_reencode_lossy by simp
    next
      case 2
      show False using that unfolding 2 lifetime_reencode_lossy by simp
    next
      case 3
      show False using that unfolding 3 lifetime_reencode_lossy by simp
    qed
  qed
qed (rule lifetime_reencode)

text \<open>C37: The circular comparison of timestamps agrees with the order of the instants they
  were taken from, across any number of wrap-arounds of the 32 bit millisecond counter, as
  long as the instants are not before the epoch and less than half a cycle apart. Of any two
  distinct timestamps, however they came about and half a cycle apart included, exactly one is
  the greater, and no timestamp is greater than itself.\<close>

theorem timestamp_order_correct:
  assumes "0 \<le> t" and "0 \<le> u" and "\<bar>t div 1000 - u div 1000\<bar> < 2147483648"
  shows "(is_greater (timestamp_of t) (timestamp_of u) \<longleftrightarrow> u div 1000 < t div 1000)
    \<and> (timestamp_less (timestamp_of u) (timestamp_of t) \<longleftrightarrow> u div 1000 < t div 1000)
    \<and> (is_greater a b \<longleftrightarrow> \<not> is_greater b a \<and> a \<noteq> b)"
proof -
  have g: "is_greater (timestamp_of t) (timestamp_of u) \<longleftrightarrow> u div 1000 < t div 1000"
    using assms by (rule is_greater_timestamp_of)
  moreover have "timestamp_less (timestamp_of u) (timestamp_of t) \<longleftrightarrow> is_greater (timestamp_of t) (timestamp_of u)"
    using is_greater_exactly_one [of "timestamp_of t" "timestamp_of u"] by (auto simp: timestamp_less_def)
  moreover have "is_greater a b \<longleftrightarrow> \<not> is_greater b a \<and> a \<noteq> b" using is_greater_exactly_one [of a b] by blast
  ultimately show ?thesis by simp
qed

theorem timestamp_order_correct_witness:
  "is_greater (timestamp_of 4294967296000) (timestamp_of 4294967295000) \<and>
   timestamp_less (timestamp_of 4294967295000) (timestamp_of 4294967296000) \<and>
   (is_greater 2147483648 0 \<longleftrightarrow> \<not> is_greater 0 2147483648 \<and> (2147483648 :: Timestamp) \<noteq> 0)"
  using timestamp_order_correct [of 4294967296000 4294967295000 2147483648 0] by simp

text \<open>Sequence numbers are compared circularly: numbers taken less than half a cycle apart
  compare as the counters they came from, the relation is irreflexive, and of two distinct
  numbers exactly one is the smaller.\<close>

theorem sequence_number_order_correct:
  "(\<bar>int i - int j\<bar> < 32768 \<longrightarrow> (sn_less (of_nat i) (of_nat j) \<longleftrightarrow> i < j))
   \<and> \<not> sn_less a a \<and> (a \<noteq> b \<longrightarrow> (sn_less a b \<longleftrightarrow> \<not> sn_less b a))"
  using sn_less_of_nat sn_less_irrefl sn_less_total by blast

theorem sequence_number_order_correct_witness:
  "sn_less (of_nat 65535) (of_nat 65536) \<and> (sn_less 5 7 \<longleftrightarrow> \<not> sn_less 7 5)"
  using sequence_number_order_correct [of 65535 65536 5 7] by simp

end
