(* ===== verification/Areas.thy ===== *)
theory Areas
  imports Prelude
begin

text \<open>
  Geographical areas (\<open>vanetza/geonet/areas.cpp\<close>, \<open>areas.hpp\<close>): shapes, the geometric
  function of EN 302 931, rotation into a shape's frame, and membership. Lengths are metres
  and angles radians, as real numbers. The projection \<open>local_cartesian\<close> is computed by an
  external geodesy library and is an argument. The value \<open>-infinity\<close> that degenerate shapes
  yield is \<open>None\<close>.
\<close>

record CartesianPosition =
  cx :: real
  cy :: real

record GeodeticPosition =
  glatitude :: real
  glongitude :: real

datatype Shape = Rectangle real real | Ellipse real real | Circle real

record Area =
  shape :: Shape
  position :: GeodeticPosition
  area_angle :: real

type_synonym local_cartesian = "GeodeticPosition \<Rightarrow> GeodeticPosition \<Rightarrow> CartesianPosition"

fun geometric_function :: "Shape \<Rightarrow> CartesianPosition \<Rightarrow> real option" where
  "geometric_function (Circle r) p =
    (if r \<noteq> 0 then Some (1 - (cx p / r) * (cx p / r) - (cy p / r) * (cy p / r)) else None)"
| "geometric_function (Rectangle a b) p =
    (if a \<noteq> 0 \<and> b \<noteq> 0
     then Some (min (1 - (cx p / a) * (cx p / a)) (1 - (cy p / b) * (cy p / b))) else None)"
| "geometric_function (Ellipse a b) p =
    (if a \<noteq> 0 \<and> b \<noteq> 0
     then Some (1 - (cx p / a) * (cx p / a) - (cy p / b) * (cy p / b)) else None)"

definition inside_shape :: "Shape \<Rightarrow> CartesianPosition \<Rightarrow> bool" where
  "inside_shape s p = (case geometric_function s p of None \<Rightarrow> False | Some v \<Rightarrow> v > 0)"

definition outside_shape :: "Shape \<Rightarrow> CartesianPosition \<Rightarrow> bool" where
  "outside_shape s p = (case geometric_function s p of None \<Rightarrow> True | Some v \<Rightarrow> v < 0)"

definition at_shape_border :: "Shape \<Rightarrow> CartesianPosition \<Rightarrow> bool" where
  "at_shape_border s p = (case geometric_function s p of None \<Rightarrow> False | Some v \<Rightarrow> v = 0)"

definition at_center_point :: "Shape \<Rightarrow> CartesianPosition \<Rightarrow> bool" where
  "at_center_point s p = (case geometric_function s p of None \<Rightarrow> False | Some v \<Rightarrow> v = 1)"

definition canonicalize :: "CartesianPosition \<Rightarrow> real \<Rightarrow> CartesianPosition" where
  "canonicalize point azimuth =
    (let zenith = pi / 2 - azimuth; sin_z = sin zenith; cos_z = cos zenith
     in \<lparr>cx = cos_z * cx point + sin_z * cy point, cy = - sin_z * cx point + cos_z * cy point\<rparr>)"

fun shape_size :: "Shape \<Rightarrow> real" where
  "shape_size (Circle r) = pi * r * r"
| "shape_size (Rectangle a b) = 4 * a * b"
| "shape_size (Ellipse a b) = pi * a * b"

definition area_size :: "Area \<Rightarrow> real" where
  "area_size area = shape_size (shape area)"

definition inside_or_at_border :: "local_cartesian \<Rightarrow> Area \<Rightarrow> GeodeticPosition \<Rightarrow> bool" where
  "inside_or_at_border local_cartesian area geo_position =
    (let local = local_cartesian (position area) geo_position;
         canonical = canonicalize local (area_angle area)
     in \<not> outside_shape (shape area) canonical)"

subsection \<open>Facts\<close>

fun nondegenerate :: "Shape \<Rightarrow> bool" where
  "nondegenerate (Circle r) \<longleftrightarrow> r \<noteq> 0"
| "nondegenerate (Rectangle a b) \<longleftrightarrow> a \<noteq> 0 \<and> b \<noteq> 0"
| "nondegenerate (Ellipse a b) \<longleftrightarrow> a \<noteq> 0 \<and> b \<noteq> 0"

lemma geometric_function_None_iff: "geometric_function s p = None \<longleftrightarrow> \<not> nondegenerate s"
  by (cases s) auto

lemma outside_trichotomy:
  "nondegenerate s \<Longrightarrow> \<not> outside_shape s p \<longleftrightarrow> inside_shape s p \<or> at_shape_border s p"
  by (cases "geometric_function s p")
    (auto simp: geometric_function_None_iff outside_shape_def inside_shape_def at_shape_border_def)

lemma square_quotient_le_1: "(b :: real) \<noteq> 0 \<Longrightarrow> (x / b) * (x / b) \<le> 1 \<longleftrightarrow> \<bar>x\<bar> \<le> \<bar>b\<bar>"
  by (simp add: power2_eq_square [symmetric] power_divide abs_le_square_iff divide_le_eq)

lemma not_outside_rectangle:
  "\<not> outside_shape (Rectangle a b) p \<longleftrightarrow> a \<noteq> 0 \<and> b \<noteq> 0 \<and> \<bar>cx p\<bar> \<le> \<bar>a\<bar> \<and> \<bar>cy p\<bar> \<le> \<bar>b\<bar>"
  using square_quotient_le_1 [of a "cx p"] square_quotient_le_1 [of b "cy p"]
  by (auto simp: outside_shape_def min_def not_less simp del: times_divide_times_eq split: if_splits)

lemma not_outside_circle:
  "\<not> outside_shape (Circle r) p \<longleftrightarrow> r \<noteq> 0 \<and> (cx p)\<^sup>2 + (cy p)\<^sup>2 \<le> r\<^sup>2"
proof -
  have "1 - (cx p / r) * (cx p / r) - (cy p / r) * (cy p / r) = (r\<^sup>2 - ((cx p)\<^sup>2 + (cy p)\<^sup>2)) / r\<^sup>2"
    if "r \<noteq> 0" using that by (simp add: field_simps power2_eq_square)
  then show ?thesis
    by (auto simp: outside_shape_def not_less zero_le_divide_iff simp del: times_divide_times_eq)
qed

lemma ellipse_within_rectangle:
  assumes "\<not> outside_shape (Ellipse a b) p"
  shows "\<not> outside_shape (Rectangle a b) p"
proof -
  have "0 \<le> (cx p / a) * (cx p / a)" "0 \<le> (cy p / b) * (cy p / b)" by (rule zero_le_square)+
  with assms show ?thesis
    by (auto simp: outside_shape_def min_def simp del: times_divide_times_eq zero_le_square split: if_splits)
qed

lemma canonicalize_norm:
  "(cx (canonicalize p az))\<^sup>2 + (cy (canonicalize p az))\<^sup>2 = (cx p)\<^sup>2 + (cy p)\<^sup>2"
proof -
  define s c where "s = sin (pi / 2 - az)" and "c = cos (pi / 2 - az)"
  have "(c * cx p + s * cy p)\<^sup>2 + (- s * cx p + c * cy p)\<^sup>2 = (s\<^sup>2 + c\<^sup>2) * ((cx p)\<^sup>2 + (cy p)\<^sup>2)"
    by (simp add: power2_eq_square algebra_simps)
  moreover have "s\<^sup>2 + c\<^sup>2 = 1" by (simp add: s_def c_def)
  ultimately show ?thesis by (simp add: canonicalize_def Let_def s_def c_def)
qed

lemma canonicalize_north: "canonicalize \<lparr>cx = 0, cy = d\<rparr> 0 = \<lparr>cx = d, cy = 0\<rparr>"
  by (simp add: canonicalize_def Let_def)

lemma canonicalize_along_azimuth:
  "canonicalize \<lparr>cx = d * sin az, cy = d * cos az\<rparr> az = \<lparr>cx = d, cy = 0\<rparr>"
proof -
  have "sin az * sin az + cos az * cos az = 1"
    using sin_cos_squared_add [of az] by (simp add: power2_eq_square)
  then have "sin az * (d * sin az) + cos az * (d * cos az) = d"
    by (metis mult.left_commute ring_class.ring_distribs(1) mult.right_neutral)
  then show ?thesis
    by (simp add: canonicalize_def Let_def sin_diff cos_diff)
qed

lemma inside_circle_iff:
  assumes "shape area = Circle r"
  shows "inside_or_at_border lc area g \<longleftrightarrow>
    r \<noteq> 0 \<and> (cx (lc (position area) g))\<^sup>2 + (cy (lc (position area) g))\<^sup>2 \<le> r\<^sup>2"
  using assms by (simp add: inside_or_at_border_def Let_def not_outside_circle canonicalize_norm)

lemma rotate_half_turn:
  "canonicalize p (az + pi) = \<lparr>cx = - cx (canonicalize p az), cy = - cy (canonicalize p az)\<rparr>"
  by (simp add: canonicalize_def Let_def sin_diff cos_diff sin_add cos_add)

lemma outside_shape_mirror: "outside_shape s \<lparr>cx = - cx p, cy = - cy p\<rparr> = outside_shape s p"
  by (cases s) (simp_all add: outside_shape_def)

lemma inside_or_at_border_half_turn:
  "inside_or_at_border lc (area\<lparr>area_angle := area_angle area + pi\<rparr>) g = inside_or_at_border lc area g"
  by (simp add: inside_or_at_border_def Let_def rotate_half_turn outside_shape_mirror)

subsection \<open>Properties\<close>

text \<open>Membership by distances along and across the direction of the area.\<close>

fun covers :: "Shape \<Rightarrow> real \<Rightarrow> real \<Rightarrow> bool" where
  "covers (Circle r) u v \<longleftrightarrow> r \<noteq> 0 \<and> u\<^sup>2 + v\<^sup>2 \<le> r\<^sup>2"
| "covers (Rectangle a b) u v \<longleftrightarrow> a \<noteq> 0 \<and> b \<noteq> 0 \<and> \<bar>u\<bar> \<le> \<bar>a\<bar> \<and> \<bar>v\<bar> \<le> \<bar>b\<bar>"
| "covers (Ellipse a b) u v \<longleftrightarrow> a \<noteq> 0 \<and> b \<noteq> 0 \<and> (u / a)\<^sup>2 + (v / b)\<^sup>2 \<le> 1"

lemma canonicalize_coordinates:
  "cx (canonicalize p az) = cx p * sin az + cy p * cos az" "cy (canonicalize p az) = - (cx p * cos az - cy p * sin az)"
  by (simp_all add: canonicalize_def Let_def sin_diff cos_diff)

lemma not_outside_ellipse:
  "\<not> outside_shape (Ellipse a b) p \<longleftrightarrow> a \<noteq> 0 \<and> b \<noteq> 0 \<and> (cx p / a)\<^sup>2 + (cy p / b)\<^sup>2 \<le> 1"
  by (auto simp: outside_shape_def not_less power2_eq_square)

text \<open>C22: The test whether a position lies inside or at the border of a geographical area, by
  rotating the local coordinates and evaluating the geometric function, agrees with the
  definition of the shapes: the distances from the centre along and across the azimuth of the
  area are within the half axes (rectangle), satisfy the equation of the ellipse or have at
  most the radius (circle). Nothing lies in an area with a vanishing axis.\<close>

theorem area_membership:
  "inside_or_at_border lc area g \<longleftrightarrow>
    (let p = lc (position area) g; az = area_angle area
     in covers (shape area) (cx p * sin az + cy p * cos az) (cx p * cos az - cy p * sin az))"
proof (cases "shape area")
  case (Circle r)
  then show ?thesis unfolding inside_or_at_border_def Let_def not_outside_circle Circle canonicalize_coordinates
    by (simp only: covers.simps power2_minus)
next
  case (Rectangle a b)
  then show ?thesis unfolding inside_or_at_border_def Let_def not_outside_rectangle Rectangle canonicalize_coordinates
    by (simp only: covers.simps abs_minus_cancel)
next
  case (Ellipse a b)
  then show ?thesis unfolding inside_or_at_border_def Let_def not_outside_ellipse Ellipse canonicalize_coordinates
    by (simp only: covers.simps minus_divide_left [symmetric] power2_minus)
qed

end
