(* ===== verification/GnAddress.thy ===== *)
theory GnAddress
  imports GnValues Areas
begin

text \<open>
  GeoNetworking addresses and position vectors (\<open>vanetza/geonet/address.cpp\<close>,
  \<open>position_vector.cpp\<close>, \<open>station_type.hpp\<close>) with their wire format. An enumeration that is
  filled by a cast from a bit field has one extra constructor for the values without an
  enumerator.
\<close>

subsection \<open>Station type\<close>

datatype StationType = ST_Unknown | Pedestrian | Cyclist | Moped | Motorcycle | Passenger_Car | Bus
  | Light_Truck | Heavy_Truck | Trailer | Special_Vehicle | Tram | RSU | ST_Unnamed u16

fun station_type_raw :: "StationType \<Rightarrow> u16" where
  "station_type_raw ST_Unknown = 0"
| "station_type_raw Pedestrian = 1"
| "station_type_raw Cyclist = 2"
| "station_type_raw Moped = 3"
| "station_type_raw Motorcycle = 4"
| "station_type_raw Passenger_Car = 5"
| "station_type_raw Bus = 6"
| "station_type_raw Light_Truck = 7"
| "station_type_raw Heavy_Truck = 8"
| "station_type_raw Trailer = 9"
| "station_type_raw Special_Vehicle = 10"
| "station_type_raw Tram = 11"
| "station_type_raw RSU = 15"
| "station_type_raw (ST_Unnamed v) = v"

definition station_type_cast :: "u16 \<Rightarrow> StationType" where
  "station_type_cast v =
    (if v = 0 then ST_Unknown else if v = 1 then Pedestrian else if v = 2 then Cyclist
     else if v = 3 then Moped else if v = 4 then Motorcycle else if v = 5 then Passenger_Car
     else if v = 6 then Bus else if v = 7 then Light_Truck else if v = 8 then Heavy_Truck
     else if v = 9 then Trailer else if v = 10 then Special_Vehicle else if v = 11 then Tram
     else if v = 15 then RSU else ST_Unnamed v)"

definition wf_station_type :: "StationType \<Rightarrow> bool" where
  "wf_station_type st \<longleftrightarrow> station_type_cast (station_type_raw st) = st \<and> station_type_raw st < 32"

subsection \<open>Address\<close>

record Address =
  manually_configured :: bool
  station_type :: StationType
  country_code :: "10 word"
  mid :: MacAddress

definition address_default :: Address where
  "address_default = \<lparr>manually_configured = False, station_type = ST_Unknown, country_code = 0, mid = mac_zero\<rparr>"

definition address_of_mac :: "MacAddress \<Rightarrow> Address" where
  "address_of_mac a = \<lparr>manually_configured = False, station_type = ST_Unknown, country_code = 0, mid = a\<rparr>"

definition address_eq :: "Address \<Rightarrow> Address \<Rightarrow> bool" where
  "address_eq a b \<longleftrightarrow> manually_configured a = manually_configured b \<and> station_type a = station_type b
     \<and> country_code a = country_code b \<and> mac_eq (mid a) (mid b)"

definition wf_address :: "Address \<Rightarrow> bool" where
  "wf_address a \<longleftrightarrow> wf_station_type (station_type a)"

definition manually_configured_mask :: u16 where "manually_configured_mask = 0x8000"

definition station_type_mask :: u16 where "station_type_mask = 0x7c00"

definition country_code_mask :: u16 where "country_code_mask = 0x03ff"

definition address_bits :: "Address \<Rightarrow> u16" where
  "address_bits a = ucast (country_code a) OR (push_bit 10 (station_type_raw (station_type a)) AND station_type_mask)
     OR (if manually_configured a then manually_configured_mask else 0)"

definition serialize_address :: "Address \<Rightarrow> bytes" where
  "serialize_address a = put (address_bits a) @ serialize_mac (mid a)"

definition deserialize_address :: "Address reader" where
  "deserialize_address bs = do {
     (tmp, bs) \<leftarrow> (get :: u16 reader) bs;
     (m, bs) \<leftarrow> deserialize_mac bs;
     Some (\<lparr>manually_configured = tmp AND manually_configured_mask \<noteq> 0,
            station_type = station_type_cast (drop_bit 10 (tmp AND station_type_mask)),
            country_code = ucast (tmp AND country_code_mask), mid = m\<rparr>, bs)
   }"

subsection \<open>Position vectors\<close>

text \<open>
  Angles in tenths of a microdegree are signed 32 bit numbers (read with \<open>sint\<close>), headings
  tenths of a degree, speeds centimetres per second in 15 bits.
\<close>

type_synonym geo_angle_i32t = "32 word"

record LongPositionVector =
  gn_addr :: Address
  timestamp :: Timestamp
  latitude :: geo_angle_i32t
  longitude :: geo_angle_i32t
  position_accuracy_indicator :: bool
  speed :: "15 word"
  heading :: u16

record ShortPositionVector =
  spv_gn_addr :: Address
  spv_timestamp :: Timestamp
  spv_latitude :: geo_angle_i32t
  spv_longitude :: geo_angle_i32t

definition lpv_default :: LongPositionVector where
  "lpv_default = \<lparr>gn_addr = address_default, timestamp = 0, latitude = 0, longitude = 0,
     position_accuracy_indicator = False, speed = 0, heading = 0\<rparr>"

definition geo_angle :: "geo_angle_i32t \<Rightarrow> real" where
  "geo_angle w = real_of_int (sint w) / 10 ^ 7"

definition lpv_position :: "LongPositionVector \<Rightarrow> GeodeticPosition" where
  "lpv_position pv = \<lparr>glatitude = geo_angle (latitude pv), glongitude = geo_angle (longitude pv)\<rparr>"

definition short_position_vector :: "LongPositionVector \<Rightarrow> ShortPositionVector" where
  "short_position_vector lpv = \<lparr>spv_gn_addr = gn_addr lpv, spv_timestamp = timestamp lpv,
     spv_latitude = latitude lpv, spv_longitude = longitude lpv\<rparr>"

definition lpv_eq :: "LongPositionVector \<Rightarrow> LongPositionVector \<Rightarrow> bool" where
  "lpv_eq l r \<longleftrightarrow> address_eq (gn_addr l) (gn_addr r) \<and> timestamp l = timestamp r
     \<and> latitude l = latitude r \<and> longitude l = longitude r \<and> speed l = speed r
     \<and> heading l = heading r \<and> position_accuracy_indicator l = position_accuracy_indicator r"

definition spv_eq :: "ShortPositionVector \<Rightarrow> ShortPositionVector \<Rightarrow> bool" where
  "spv_eq l r \<longleftrightarrow> address_eq (spv_gn_addr l) (spv_gn_addr r) \<and> spv_timestamp l = spv_timestamp r
     \<and> spv_latitude l = spv_latitude r \<and> spv_longitude l = spv_longitude r"

definition is_empty :: "LongPositionVector \<Rightarrow> bool" where
  "is_empty pv \<longleftrightarrow> lpv_eq pv lpv_default"

definition is_valid :: "LongPositionVector \<Rightarrow> bool" where
  "is_valid pv =
    (if is_empty pv then False
     else if sint (latitude pv) < - 900000000 \<or> sint (latitude pv) > 900000000 then False
     else if sint (longitude pv) < - 1800000000 \<or> sint (longitude pv) > 1800000000 then False
     else if heading pv > 3600 then False
     else True)"

definition pai_mask :: u16 where "pai_mask = 0x8000"

definition wf_lpv :: "LongPositionVector \<Rightarrow> bool" where
  "wf_lpv pv \<longleftrightarrow> wf_address (gn_addr pv)"

definition pai_and_speed :: "LongPositionVector \<Rightarrow> u16" where
  "pai_and_speed lpv = ucast (speed lpv) OR (if position_accuracy_indicator lpv then pai_mask else 0)"

definition serialize_lpv :: "LongPositionVector \<Rightarrow> bytes" where
  "serialize_lpv lpv = serialize_address (gn_addr lpv) @ put (timestamp lpv) @ put (latitude lpv)
     @ put (longitude lpv) @ put (pai_and_speed lpv) @ put (heading lpv)"

definition deserialize_lpv :: "LongPositionVector reader" where
  "deserialize_lpv bs = do {
     (addr, bs) \<leftarrow> deserialize_address bs;
     (ts, bs) \<leftarrow> (get :: u32 reader) bs;
     (lat, bs) \<leftarrow> (get :: u32 reader) bs;
     (lon, bs) \<leftarrow> (get :: u32 reader) bs;
     (paiAndSpeed, bs) \<leftarrow> (get :: u16 reader) bs;
     (hdg, bs) \<leftarrow> (get :: u16 reader) bs;
     Some (\<lparr>gn_addr = addr, timestamp = ts, latitude = lat, longitude = lon,
            position_accuracy_indicator = paiAndSpeed AND pai_mask \<noteq> 0,
            speed = ucast paiAndSpeed, heading = hdg\<rparr>, bs)
   }"

subsection \<open>Bit fields\<close>

lemma station_type_raw_cast [simp]: "station_type_raw (station_type_cast v) = v"
  by (simp add: station_type_cast_def)

lemma wf_station_type_cast: "wf_station_type (station_type_cast v) \<longleftrightarrow> v < 32"
  by (simp add: wf_station_type_def)

lemma bit_u16_masks:
  "bit manually_configured_mask n \<longleftrightarrow> n = 15" "bit pai_mask n \<longleftrightarrow> n = 15"
  "bit station_type_mask n \<longleftrightarrow> 10 \<le> n \<and> n < 15" "bit country_code_mask n \<longleftrightarrow> n < 10"
proof -
  have "manually_configured_mask = push_bit 15 1" "pai_mask = push_bit 15 1"
    "station_type_mask = push_bit 10 (mask 5)" "country_code_mask = mask 10"
    by (simp_all add: manually_configured_mask_def pai_mask_def station_type_mask_def
        country_code_mask_def mask_eq_exp_minus_1)
  note eqs = this
  show "bit manually_configured_mask n \<longleftrightarrow> n = 15" "bit pai_mask n \<longleftrightarrow> n = 15"
    unfolding eqs bit_push_bit_iff by (auto simp: bit_1_iff)
  show "bit station_type_mask n \<longleftrightarrow> 10 \<le> n \<and> n < 15"
    unfolding eqs bit_push_bit_iff bit_mask_iff by auto
  show "bit country_code_mask n \<longleftrightarrow> n < 10"
    unfolding eqs bit_mask_iff by auto
qed

lemma bit_less_32: "(v :: u16) < 32 \<longleftrightarrow> (\<forall>n. bit v n \<longrightarrow> n < 5)"
  using word_less_exp_iff_bits [of 5 v] by simp

lemma bit_address_bits:
  "bit (address_bits a) n \<longleftrightarrow>
    (if n < 10 then bit (country_code a) n
     else if n < 15 then bit (station_type_raw (station_type a)) (n - 10)
     else n = 15 \<and> manually_configured a)"
  using bit_imp_le_length [of "country_code a" n]
  by (auto simp: address_bits_def bit_or_iff bit_and_iff bit_u16_masks bit_push_bit_iff bit_ucast_iff)

lemma address_bits_fields:
  assumes "wf_address a"
  shows "address_bits a AND manually_configured_mask \<noteq> 0 \<longleftrightarrow> manually_configured a"
    "ucast (address_bits a AND country_code_mask) = country_code a"
    "station_type_cast (drop_bit 10 (address_bits a AND station_type_mask)) = station_type a"
proof -
  show "address_bits a AND manually_configured_mask \<noteq> 0 \<longleftrightarrow> manually_configured a"
    by (subst and_single_bit [where k = 15]) (auto simp: bit_u16_masks bit_address_bits)
  show "ucast (address_bits a AND country_code_mask) = country_code a"
    by (rule bit_word_eqI) (auto simp: bit_ucast_iff bit_and_iff bit_u16_masks bit_address_bits)
  have "drop_bit 10 (address_bits a AND station_type_mask) = station_type_raw (station_type a)"
    using assms unfolding wf_address_def wf_station_type_def bit_less_32
    by (intro bit_word_eqI) (auto simp: bit_drop_bit_eq bit_and_iff bit_u16_masks bit_address_bits)
  with assms show "station_type_cast (drop_bit 10 (address_bits a AND station_type_mask)) = station_type a"
    by (simp add: wf_address_def wf_station_type_def)
qed

lemma station_type_bits_less: "drop_bit 10 (t AND station_type_mask :: u16) < 32"
  unfolding bit_less_32 by (auto simp: bit_drop_bit_eq bit_and_iff bit_u16_masks)

lemma address_bits_of_fields:
  "address_bits \<lparr>manually_configured = t AND manually_configured_mask \<noteq> 0,
     station_type = station_type_cast (drop_bit 10 (t AND station_type_mask)),
     country_code = ucast (t AND country_code_mask), mid = m\<rparr> = t"
proof (rule bit_word_eqI)
  fix n assume "n < LENGTH(16)"
  moreover have "t AND manually_configured_mask \<noteq> 0 \<longleftrightarrow> bit t 15" by (rule and_single_bit) (rule bit_u16_masks)
  ultimately show "bit (address_bits \<lparr>manually_configured = t AND manually_configured_mask \<noteq> 0,
     station_type = station_type_cast (drop_bit 10 (t AND station_type_mask)),
     country_code = ucast (t AND country_code_mask), mid = m\<rparr>) n = bit t n"
    by (cases "n = 15") (auto simp: bit_address_bits bit_ucast_iff bit_and_iff bit_drop_bit_eq bit_u16_masks)
qed

lemma pai_and_speed_fields:
  "pai_and_speed l AND pai_mask \<noteq> 0 \<longleftrightarrow> position_accuracy_indicator l"
  "ucast (pai_and_speed l) = speed l"
proof -
  have b: "bit (pai_and_speed l) n \<longleftrightarrow> (if n < 15 then bit (speed l) n else n = 15 \<and> position_accuracy_indicator l)"
    for n using bit_imp_le_length [of "speed l" n]
    by (auto simp: pai_and_speed_def bit_or_iff bit_u16_masks bit_ucast_iff)
  show "pai_and_speed l AND pai_mask \<noteq> 0 \<longleftrightarrow> position_accuracy_indicator l"
    by (subst and_single_bit [where k = 15]) (auto simp: bit_u16_masks b)
  show "ucast (pai_and_speed l) = speed l"
    by (rule bit_word_eqI) (auto simp: bit_ucast_iff b)
qed

lemma pai_and_speed_of_fields:
  "w AND pai_mask \<noteq> 0 \<Longrightarrow> ucast (ucast w :: 15 word) OR pai_mask = w"
  "w AND pai_mask = 0 \<Longrightarrow> ucast (ucast w :: 15 word) = w"
proof -
  have p: "w AND pai_mask \<noteq> 0 \<longleftrightarrow> bit w 15" by (rule and_single_bit) (rule bit_u16_masks)
  have n: "n < 15 \<or> n = 15" if "n < 16" for n :: nat using that by auto
  show "ucast (ucast w :: 15 word) OR pai_mask = w" if "w AND pai_mask \<noteq> 0"
    using that n unfolding p by (intro bit_word_eqI) (auto simp: bit_or_iff bit_u16_masks bit_ucast_iff)
  show "ucast (ucast w :: 15 word) = w" if "w AND pai_mask = 0"
  proof -
    have "\<not> bit w 15" using p that by blast
    with n show ?thesis by (intro bit_word_eqI) (auto simp: bit_ucast_iff)
  qed
qed

subsection \<open>Codecs\<close>

interpretation address_codec: fixed_codec serialize_address deserialize_address 8 wf_address
proof
  show "length (serialize_address x) = 8" for x by (simp add: serialize_address_def codec_simps)
  show "deserialize_address (serialize_address x @ r) = Some (x, r)" if "wf_address x" for x r
    using address_bits_fields [OF that]
    by (simp add: serialize_address_def deserialize_address_def codec_simps)
  show "wf_address x \<and> bs = serialize_address x @ r" if "deserialize_address bs = Some (x, r)" for bs x r
    using that unfolding deserialize_address_def
    by (auto simp: bind_eq_Some_conv serialize_address_def address_bits_of_fields wf_address_def
        wf_station_type_cast station_type_bits_less simp del: drop_bit_and dest!: codec_dest)
  show "deserialize_address bs \<noteq> None" if "8 \<le> length bs" for bs
    using that unfolding deserialize_address_def
    by (auto simp: codec_simps split: Option.bind_split dest!: codec_rest)
qed

lemmas address_codec_laws [codec_simps] =
  address_codec.ser_length address_codec.des_ser address_codec.des_None_iff

declare address_codec.ser_des [codec_dest] and address_codec.des_rest_length [codec_rest]

interpretation lpv_codec: fixed_codec serialize_lpv deserialize_lpv 24 wf_lpv
proof
  show "length (serialize_lpv x) = 24" for x by (simp add: serialize_lpv_def codec_simps)
  show "deserialize_lpv (serialize_lpv x @ r) = Some (x, r)" if "wf_lpv x" for x r
    using that by (simp add: serialize_lpv_def deserialize_lpv_def codec_simps wf_lpv_def pai_and_speed_fields)
  show "wf_lpv x \<and> bs = serialize_lpv x @ r" if "deserialize_lpv bs = Some (x, r)" for bs x r
    using that unfolding deserialize_lpv_def
    by (auto simp: bind_eq_Some_conv serialize_lpv_def wf_lpv_def pai_and_speed_def
        pai_and_speed_of_fields dest!: codec_dest)
  show "deserialize_lpv bs \<noteq> None" if "24 \<le> length bs" for bs
    using that unfolding deserialize_lpv_def
    by (auto simp: codec_simps split: Option.bind_split dest!: codec_rest)
qed

lemmas lpv_codec_laws [codec_simps] =
  lpv_codec.ser_length lpv_codec.des_ser lpv_codec.des_None_iff

declare lpv_codec.ser_des [codec_dest] and lpv_codec.des_rest_length [codec_rest]

subsection \<open>Comparison and validity\<close>

lemma address_eq_iff: "address_eq a b \<longleftrightarrow> a = b"
  by (cases a; cases b) (auto simp: address_eq_def mac_eq_iff)

lemma lpv_eq_iff: "lpv_eq a b \<longleftrightarrow> a = b"
  by (cases a; cases b) (auto simp: lpv_eq_def address_eq_iff)

lemma is_valid_iff:
  "is_valid pv \<longleftrightarrow> pv \<noteq> lpv_default \<and> \<bar>glatitude (lpv_position pv)\<bar> \<le> 90
     \<and> \<bar>glongitude (lpv_position pv)\<bar> \<le> 180 \<and> unat (heading pv) \<le> 3600"
proof -
  have "\<bar>real_of_int i / 10 ^ 7\<bar> \<le> real n \<longleftrightarrow> \<bar>i\<bar> \<le> int n * 10 ^ 7" for i n
    by (simp add: abs_le_iff divide_le_eq le_divide_eq minus_le_iff) linarith
  then have a: "\<bar>geo_angle w\<bar> \<le> real n \<longleftrightarrow> \<bar>sint w\<bar> \<le> int n * 10 ^ 7" for w n
    unfolding geo_angle_def .
  show ?thesis
    using a [of "latitude pv" 90] a [of "longitude pv" 180]
    by (auto simp: is_valid_def is_empty_def lpv_eq_iff lpv_position_def word_less_nat_alt not_less abs_le_iff)
qed

lemma lpv_default_invalid: "\<not> is_valid lpv_default"
  by (simp add: is_valid_iff)

end
