(* ===== verification/GnHeaders.thy ===== *)
theory GnHeaders
  imports GnAddress
begin

text \<open>
  GeoNetworking headers: basic and common header, the extended headers of the implemented
  transports, the DCC-MCO field carried by single-hop broadcasts, and the parser
  (\<open>vanetza/geonet/*_header.cpp\<close>, \<open>dcc_field.cpp\<close>, \<open>dcc_mco_field.cpp\<close>, \<open>parser.cpp\<close>). Every
  header codec is an instance of \<open>fixed_codec\<close>.
\<close>

subsection \<open>Enumerations\<close>

datatype HeaderType = HT_Any | HT_Beacon | GeoUnicast | GeoAnycast_Circle | GeoAnycast_Rect
  | GeoAnycast_Elip | GeoBroadcast_Circle | GeoBroadcast_Rect | GeoBroadcast_Elip
  | TSB_Single_Hop | TSB_Multi_Hop | LS_Request | LS_Reply | HT_Unnamed byte

fun header_type_raw :: "HeaderType \<Rightarrow> byte" where
  "header_type_raw HT_Any = 0x00"
| "header_type_raw HT_Beacon = 0x10"
| "header_type_raw GeoUnicast = 0x20"
| "header_type_raw GeoAnycast_Circle = 0x30"
| "header_type_raw GeoAnycast_Rect = 0x31"
| "header_type_raw GeoAnycast_Elip = 0x32"
| "header_type_raw GeoBroadcast_Circle = 0x40"
| "header_type_raw GeoBroadcast_Rect = 0x41"
| "header_type_raw GeoBroadcast_Elip = 0x42"
| "header_type_raw TSB_Single_Hop = 0x50"
| "header_type_raw TSB_Multi_Hop = 0x51"
| "header_type_raw LS_Request = 0x60"
| "header_type_raw LS_Reply = 0x61"
| "header_type_raw (HT_Unnamed v) = v"

definition header_type_cast :: "byte \<Rightarrow> HeaderType" where
  "header_type_cast v =
    (if v = 0x00 then HT_Any else if v = 0x10 then HT_Beacon else if v = 0x20 then GeoUnicast
     else if v = 0x30 then GeoAnycast_Circle else if v = 0x31 then GeoAnycast_Rect
     else if v = 0x32 then GeoAnycast_Elip else if v = 0x40 then GeoBroadcast_Circle
     else if v = 0x41 then GeoBroadcast_Rect else if v = 0x42 then GeoBroadcast_Elip
     else if v = 0x50 then TSB_Single_Hop else if v = 0x51 then TSB_Multi_Hop
     else if v = 0x60 then LS_Request else if v = 0x61 then LS_Reply else HT_Unnamed v)"

definition wf_header_type :: "HeaderType \<Rightarrow> bool" where
  "wf_header_type ht \<longleftrightarrow> header_type_cast (header_type_raw ht) = ht"

fun gbc_header_type :: "Shape \<Rightarrow> HeaderType" where
  "gbc_header_type (Circle _) = GeoBroadcast_Circle"
| "gbc_header_type (Rectangle _ _) = GeoBroadcast_Rect"
| "gbc_header_type (Ellipse _ _) = GeoBroadcast_Elip"

fun gac_header_type :: "Shape \<Rightarrow> HeaderType" where
  "gac_header_type (Circle _) = GeoAnycast_Circle"
| "gac_header_type (Rectangle _ _) = GeoAnycast_Rect"
| "gac_header_type (Ellipse _ _) = GeoAnycast_Elip"

datatype NextHeaderBasic = NHB_Any | NHB_Common | NHB_Secured | NHB_Unnamed byte

fun next_header_basic_raw :: "NextHeaderBasic \<Rightarrow> byte" where
  "next_header_basic_raw NHB_Any = 0"
| "next_header_basic_raw NHB_Common = 1"
| "next_header_basic_raw NHB_Secured = 2"
| "next_header_basic_raw (NHB_Unnamed v) = v"

definition next_header_basic_cast :: "byte \<Rightarrow> NextHeaderBasic" where
  "next_header_basic_cast v =
    (if v = 0 then NHB_Any else if v = 1 then NHB_Common else if v = 2 then NHB_Secured else NHB_Unnamed v)"

definition wf_next_header_basic :: "NextHeaderBasic \<Rightarrow> bool" where
  "wf_next_header_basic nh \<longleftrightarrow>
     next_header_basic_cast (next_header_basic_raw nh) = nh \<and> next_header_basic_raw nh < 16"

datatype NextHeaderCommon = NHC_Any | NHC_BTP_A | NHC_BTP_B | NHC_IPv6 | NHC_Unnamed byte

fun next_header_common_raw :: "NextHeaderCommon \<Rightarrow> byte" where
  "next_header_common_raw NHC_Any = 0"
| "next_header_common_raw NHC_BTP_A = 1"
| "next_header_common_raw NHC_BTP_B = 2"
| "next_header_common_raw NHC_IPv6 = 3"
| "next_header_common_raw (NHC_Unnamed v) = v"

definition next_header_common_cast :: "byte \<Rightarrow> NextHeaderCommon" where
  "next_header_common_cast v =
    (if v = 0 then NHC_Any else if v = 1 then NHC_BTP_A else if v = 2 then NHC_BTP_B
     else if v = 3 then NHC_IPv6 else NHC_Unnamed v)"

definition wf_next_header_common :: "NextHeaderCommon \<Rightarrow> bool" where
  "wf_next_header_common nh \<longleftrightarrow>
     next_header_common_cast (next_header_common_raw nh) = nh \<and> next_header_common_raw nh < 16"

subsection \<open>Basic header\<close>

definition low_nibble :: byte where "low_nibble = 0x0f"

record BasicHeader =
  version :: "4 word"
  bh_next_header :: NextHeaderBasic
  reserved :: byte
  lifetime :: Lifetime
  hop_limit :: byte

definition basic_default :: BasicHeader where
  "basic_default = \<lparr>version = 0, bh_next_header = NHB_Any, reserved = 0, lifetime = lifetime_zero, hop_limit = 0\<rparr>"

definition wf_basic :: "BasicHeader \<Rightarrow> bool" where
  "wf_basic h \<longleftrightarrow> wf_next_header_basic (bh_next_header h)"

definition version_and_next_header :: "BasicHeader \<Rightarrow> byte" where
  "version_and_next_header h =
     push_bit 4 (ucast (version h)) OR (next_header_basic_raw (bh_next_header h) AND low_nibble)"

definition serialize_basic :: "BasicHeader \<Rightarrow> bytes" where
  "serialize_basic h = put (version_and_next_header h) @ put (reserved h) @ put (lifetime h) @ put (hop_limit h)"

definition deserialize_basic :: "BasicHeader reader" where
  "deserialize_basic bs = do {
     (vnh, bs) \<leftarrow> (get :: byte reader) bs;
     (res, bs) \<leftarrow> (get :: byte reader) bs;
     (lt, bs) \<leftarrow> (get :: byte reader) bs;
     (hl, bs) \<leftarrow> (get :: byte reader) bs;
     Some (\<lparr>version = ucast (drop_bit 4 vnh), bh_next_header = next_header_basic_cast (vnh AND low_nibble),
            reserved = res, lifetime = lt, hop_limit = hl\<rparr>, bs)
   }"

subsection \<open>Common header\<close>

record CommonHeader =
  ch_next_header :: NextHeaderCommon
  reserved1 :: "4 word"
  header_type :: HeaderType
  traffic_class_field :: TrafficClass
  flags :: byte
  payload :: u16
  maximum_hop_limit :: byte
  reserved2 :: byte

definition common_default :: CommonHeader where
  "common_default = \<lparr>ch_next_header = NHC_Any, reserved1 = 0, header_type = HT_Any, traffic_class_field = 0,
     flags = 0, payload = 0, maximum_hop_limit = 0, reserved2 = 0\<rparr>"

definition wf_common :: "CommonHeader \<Rightarrow> bool" where
  "wf_common h \<longleftrightarrow> wf_next_header_common (ch_next_header h) \<and> wf_header_type (header_type h)"

definition next_header_and_reserved :: "CommonHeader \<Rightarrow> byte" where
  "next_header_and_reserved h =
     push_bit 4 (next_header_common_raw (ch_next_header h)) OR ucast (reserved1 h)"

definition serialize_common :: "CommonHeader \<Rightarrow> bytes" where
  "serialize_common h = put (next_header_and_reserved h) @ put (header_type_raw (header_type h))
     @ put (traffic_class_field h) @ put (flags h) @ put (payload h) @ put (maximum_hop_limit h) @ put (reserved2 h)"

definition deserialize_common :: "CommonHeader reader" where
  "deserialize_common bs = do {
     (nhr, bs) \<leftarrow> (get :: byte reader) bs;
     (ht, bs) \<leftarrow> (get :: byte reader) bs;
     (tc, bs) \<leftarrow> (get :: byte reader) bs;
     (fl, bs) \<leftarrow> (get :: byte reader) bs;
     (pl, bs) \<leftarrow> (get :: u16 reader) bs;
     (mhl, bs) \<leftarrow> (get :: byte reader) bs;
     (r2, bs) \<leftarrow> (get :: byte reader) bs;
     Some (\<lparr>ch_next_header = next_header_common_cast (drop_bit 4 nhr), reserved1 = ucast (nhr AND low_nibble),
            header_type = header_type_cast ht, traffic_class_field = tc, flags = fl, payload = pl,
            maximum_hop_limit = mhl, reserved2 = r2\<rparr>, bs)
   }"

subsection \<open>DCC field\<close>

record DccMcoField =
  cbr_l0_hop :: byte
  cbr_l1_hop :: byte
  m_output_power :: "5 word"

definition dcc_mco_of_u32 :: "u32 \<Rightarrow> DccMcoField" where
  "dcc_mco_of_u32 field = \<lparr>cbr_l0_hop = ucast (drop_bit 24 field), cbr_l1_hop = ucast (drop_bit 16 field),
     m_output_power = ucast (drop_bit 11 field)\<rparr>"

definition u32_of_dcc_mco :: "DccMcoField \<Rightarrow> u32" where
  "u32_of_dcc_mco m =
    (let field = ucast (cbr_l0_hop m);
         field = push_bit 8 field OR ucast (cbr_l1_hop m);
         field = push_bit 5 field OR ucast (m_output_power m)
     in push_bit 11 field)"

text \<open>A channel load is a number of the unit interval (see \<open>Dcc\<close>).\<close>

definition set_local_cbr :: "real \<Rightarrow> DccMcoField \<Rightarrow> DccMcoField" where
  "set_local_cbr cbr m = m\<lparr>cbr_l0_hop := word_of_int \<lfloor>cbr * 255\<rfloor>\<rparr>"

definition local_cbr :: "DccMcoField \<Rightarrow> real" where
  "local_cbr m = real (unat (cbr_l0_hop m)) / 255"

definition set_neighbour_cbr :: "real \<Rightarrow> DccMcoField \<Rightarrow> DccMcoField" where
  "set_neighbour_cbr cbr m = m\<lparr>cbr_l1_hop := word_of_int \<lfloor>cbr * 255\<rfloor>\<rparr>"

definition neighbour_cbr :: "DccMcoField \<Rightarrow> real" where
  "neighbour_cbr m = real (unat (cbr_l1_hop m)) / 255"

definition set_output_power :: "nat \<Rightarrow> DccMcoField \<Rightarrow> DccMcoField" where
  "set_output_power dbm m = m\<lparr>m_output_power := of_nat (min dbm 31)\<rparr>"

definition output_power :: "DccMcoField \<Rightarrow> nat" where
  "output_power m = unat (m_output_power m)"

datatype DccField = DccMco DccMcoField | DccRaw u32

fun get_dcc_mco :: "DccField \<Rightarrow> DccMcoField option" where
  "get_dcc_mco (DccMco m) = Some m"
| "get_dcc_mco (DccRaw raw) = Some (dcc_mco_of_u32 raw)"

fun dcc_field_raw :: "DccField \<Rightarrow> u32" where
  "dcc_field_raw (DccMco m) = u32_of_dcc_mco m"
| "dcc_field_raw (DccRaw raw) = raw"

definition serialize_dcc :: "DccField \<Rightarrow> bytes" where
  "serialize_dcc f = put (dcc_field_raw f)"

definition deserialize_dcc :: "DccField reader" where
  "deserialize_dcc bs = do { (raw, bs) \<leftarrow> (get :: u32 reader) bs; Some (DccRaw raw, bs) }"

fun wf_dcc :: "DccField \<Rightarrow> bool" where
  "wf_dcc (DccRaw _) = True"
| "wf_dcc (DccMco _) = False"

subsection \<open>Extended headers\<close>

record BeaconHeader =
  beacon_source_position :: LongPositionVector

definition serialize_beacon :: "BeaconHeader \<Rightarrow> bytes" where
  "serialize_beacon h = serialize_lpv (beacon_source_position h)"

definition deserialize_beacon :: "BeaconHeader reader" where
  "deserialize_beacon bs = do { (pv, bs) \<leftarrow> deserialize_lpv bs; Some (\<lparr>beacon_source_position = pv\<rparr>, bs) }"

record ShbHeader =
  shb_source_position :: LongPositionVector
  dcc :: DccField

definition shb_default :: ShbHeader where
  "shb_default = \<lparr>shb_source_position = lpv_default, dcc = DccRaw 0\<rparr>"

definition serialize_shb :: "ShbHeader \<Rightarrow> bytes" where
  "serialize_shb h = serialize_lpv (shb_source_position h) @ serialize_dcc (dcc h)"

definition deserialize_shb :: "ShbHeader reader" where
  "deserialize_shb bs = do {
     (pv, bs) \<leftarrow> deserialize_lpv bs;
     (d, bs) \<leftarrow> deserialize_dcc bs;
     Some (\<lparr>shb_source_position = pv, dcc = d\<rparr>, bs)
   }"

record TsbHeader =
  tsb_sequence_number :: SequenceNumber
  tsb_reserved :: u16
  tsb_source_position :: LongPositionVector

definition serialize_tsb :: "TsbHeader \<Rightarrow> bytes" where
  "serialize_tsb h = put (tsb_sequence_number h) @ put (tsb_reserved h) @ serialize_lpv (tsb_source_position h)"

definition deserialize_tsb :: "TsbHeader reader" where
  "deserialize_tsb bs = do {
     (sn, bs) \<leftarrow> (get :: u16 reader) bs;
     (r, bs) \<leftarrow> (get :: u16 reader) bs;
     (pv, bs) \<leftarrow> deserialize_lpv bs;
     Some (\<lparr>tsb_sequence_number = sn, tsb_reserved = r, tsb_source_position = pv\<rparr>, bs)
   }"

record GeoBroadcastHeader =
  gbc_sequence_number :: SequenceNumber
  gbc_reserved1 :: u16
  gbc_source_position :: LongPositionVector
  geo_area_pos_latitude :: geo_angle_i32t
  geo_area_pos_longitude :: geo_angle_i32t
  distance_a :: u16
  distance_b :: u16
  gbc_angle :: u16
  gbc_reserved2 :: u16

definition gbc_default :: GeoBroadcastHeader where
  "gbc_default = \<lparr>gbc_sequence_number = 0, gbc_reserved1 = 0, gbc_source_position = lpv_default,
     geo_area_pos_latitude = 0, geo_area_pos_longitude = 0, distance_a = 0, distance_b = 0,
     gbc_angle = 0, gbc_reserved2 = 0\<rparr>"

definition serialize_gbc :: "GeoBroadcastHeader \<Rightarrow> bytes" where
  "serialize_gbc h = put (gbc_sequence_number h) @ put (gbc_reserved1 h) @ serialize_lpv (gbc_source_position h)
     @ put (geo_area_pos_latitude h) @ put (geo_area_pos_longitude h) @ put (distance_a h) @ put (distance_b h)
     @ put (gbc_angle h) @ put (gbc_reserved2 h)"

definition deserialize_gbc :: "GeoBroadcastHeader reader" where
  "deserialize_gbc bs = do {
     (sn, bs) \<leftarrow> (get :: u16 reader) bs;
     (r1, bs) \<leftarrow> (get :: u16 reader) bs;
     (pv, bs) \<leftarrow> deserialize_lpv bs;
     (lat, bs) \<leftarrow> (get :: u32 reader) bs;
     (lon, bs) \<leftarrow> (get :: u32 reader) bs;
     (da, bs) \<leftarrow> (get :: u16 reader) bs;
     (db, bs) \<leftarrow> (get :: u16 reader) bs;
     (ang, bs) \<leftarrow> (get :: u16 reader) bs;
     (r2, bs) \<leftarrow> (get :: u16 reader) bs;
     Some (\<lparr>gbc_sequence_number = sn, gbc_reserved1 = r1, gbc_source_position = pv,
            geo_area_pos_latitude = lat, geo_area_pos_longitude = lon, distance_a = da, distance_b = db,
            gbc_angle = ang, gbc_reserved2 = r2\<rparr>, bs)
   }"

text \<open>
  The destination area of a geobroadcast: metres and degrees are truncated to whole numbers,
  coordinates rounded to tenths of a microdegree.
\<close>

definition u16_of_real :: "real \<Rightarrow> u16" where
  "u16_of_real x = word_of_int (trunc_real x)"

definition gbc_set_position :: "GeodeticPosition \<Rightarrow> GeoBroadcastHeader \<Rightarrow> GeoBroadcastHeader" where
  "gbc_set_position pos h = h\<lparr>geo_area_pos_latitude := word_of_int (lround (glatitude pos * 10 ^ 7)),
     geo_area_pos_longitude := word_of_int (lround (glongitude pos * 10 ^ 7))\<rparr>"

definition gbc_position :: "GeoBroadcastHeader \<Rightarrow> GeodeticPosition" where
  "gbc_position h = \<lparr>glatitude = geo_angle (geo_area_pos_latitude h), glongitude = geo_angle (geo_area_pos_longitude h)\<rparr>"

fun set_distance_visitor :: "Shape \<Rightarrow> GeoBroadcastHeader \<Rightarrow> GeoBroadcastHeader" where
  "set_distance_visitor (Circle r) h = h\<lparr>distance_a := u16_of_real r, distance_b := 0\<rparr>"
| "set_distance_visitor (Rectangle a b) h = h\<lparr>distance_a := u16_of_real a, distance_b := u16_of_real b\<rparr>"
| "set_distance_visitor (Ellipse a b) h = h\<lparr>distance_a := u16_of_real a, distance_b := u16_of_real b\<rparr>"

fun get_distance_visitor :: "GeoBroadcastHeader \<Rightarrow> Shape \<Rightarrow> Shape" where
  "get_distance_visitor h (Circle r) = Circle (real (unat (distance_a h)))"
| "get_distance_visitor h (Rectangle a b) = Rectangle (real (unat (distance_a h))) (real (unat (distance_b h)))"
| "get_distance_visitor h (Ellipse a b) = Ellipse (real (unat (distance_a h))) (real (unat (distance_b h)))"

definition gbc_set_destination :: "Area \<Rightarrow> GeoBroadcastHeader \<Rightarrow> GeoBroadcastHeader" where
  "gbc_set_destination area h =
     set_distance_visitor (shape area)
       ((gbc_set_position (position area) h)\<lparr>gbc_angle := u16_of_real (area_angle area * 180 / pi)\<rparr>)"

definition gbc_destination_shape :: "Shape \<Rightarrow> GeoBroadcastHeader \<Rightarrow> Area" where
  "gbc_destination_shape s h = \<lparr>shape = get_distance_visitor h s, position = gbc_position h,
     area_angle = real (unat (gbc_angle h)) * pi / 180\<rparr>"

definition gbc_destination :: "HeaderType \<Rightarrow> GeoBroadcastHeader \<Rightarrow> Area option" where
  "gbc_destination ht h = (case ht of
      GeoBroadcast_Circle \<Rightarrow> Some (gbc_destination_shape (Circle 1) h)
    | GeoBroadcast_Rect \<Rightarrow> Some (gbc_destination_shape (Rectangle 1 1) h)
    | GeoBroadcast_Elip \<Rightarrow> Some (gbc_destination_shape (Ellipse 1 1) h)
    | _ \<Rightarrow> None)"

subsection \<open>Header variant\<close>

datatype HeaderVariant = HV_Beacon BeaconHeader | HV_Gbc GeoBroadcastHeader | HV_Shb ShbHeader | HV_Tsb TsbHeader

fun serialize_variant :: "HeaderVariant \<Rightarrow> bytes" where
  "serialize_variant (HV_Beacon h) = serialize_beacon h"
| "serialize_variant (HV_Gbc h) = serialize_gbc h"
| "serialize_variant (HV_Shb h) = serialize_shb h"
| "serialize_variant (HV_Tsb h) = serialize_tsb h"

fun header_length :: "HeaderVariant \<Rightarrow> nat" where
  "header_length (HV_Beacon h) = 24"
| "header_length (HV_Gbc h) = 44"
| "header_length (HV_Shb h) = 28"
| "header_length (HV_Tsb h) = 28"

subsection \<open>Parser\<close>

text \<open>
  A failing read has consumed all that was left and marked the archive (\<open>archive_good\<close>).
  The result of each step is the number of bytes it accounts for, \<open>0\<close> on failure, with the
  header that was filled. The decoders of secured messages are arguments.
\<close>

record Parser =
  archive :: bytes
  archive_good :: bool
  read_bytes :: nat

definition parser_init :: "bytes \<Rightarrow> Parser" where
  "parser_init bs = \<lparr>archive = bs, archive_good = True, read_bytes = 0\<rparr>"

definition parse_with :: "'a reader \<Rightarrow> nat \<Rightarrow> Parser \<Rightarrow> (nat \<times> 'a option) \<times> Parser" where
  "parse_with rd len p = (case rd (archive p) of
      Some (h, rest) \<Rightarrow> ((len, Some h), p\<lparr>archive := rest, read_bytes := read_bytes p + len\<rparr>)
    | None \<Rightarrow> ((0, None), p\<lparr>archive := [], archive_good := False\<rparr>))"

definition parse_basic :: "Parser \<Rightarrow> (nat \<times> BasicHeader option) \<times> Parser" where
  "parse_basic p = parse_with deserialize_basic 4 p"

definition parse_common :: "Parser \<Rightarrow> (nat \<times> CommonHeader option) \<times> Parser" where
  "parse_common p = parse_with deserialize_common 8 p"

definition parse_extended :: "HeaderType \<Rightarrow> Parser \<Rightarrow> (nat \<times> HeaderVariant option) \<times> Parser" where
  "parse_extended ht p = (case ht of
      TSB_Single_Hop \<Rightarrow> parse_with (map_reader HV_Shb deserialize_shb) 28 p
    | TSB_Multi_Hop \<Rightarrow> parse_with (map_reader HV_Tsb deserialize_tsb) 28 p
    | GeoBroadcast_Circle \<Rightarrow> parse_with (map_reader HV_Gbc deserialize_gbc) 44 p
    | GeoBroadcast_Rect \<Rightarrow> parse_with (map_reader HV_Gbc deserialize_gbc) 44 p
    | GeoBroadcast_Elip \<Rightarrow> parse_with (map_reader HV_Gbc deserialize_gbc) 44 p
    | HT_Beacon \<Rightarrow> parse_with (map_reader HV_Beacon deserialize_beacon) 24 p
    | _ \<Rightarrow> ((0, None), p))"

type_synonym 'm secured_reader = "(nat \<times> 'm) reader"

definition parse_secured :: "'m secured_reader \<Rightarrow> 'm secured_reader \<Rightarrow> Parser \<Rightarrow> (nat \<times> 'm option) \<times> Parser" where
  "parse_secured des_v2 des_v3 p =
    (if \<not> archive_good p then ((0, None), p)
     else (case archive p of
        [] \<Rightarrow> ((0, None), p\<lparr>archive_good := False\<rparr>)
      | b # _ \<Rightarrow>
         if b \<le> 3 then
           (case (if b < 3 then des_v2 else des_v3) (archive p) of
              Some ((n, m), rest) \<Rightarrow> ((n, Some m), p\<lparr>archive := rest, read_bytes := read_bytes p + n\<rparr>)
            | None \<Rightarrow> ((0, None), p\<lparr>archive := [], archive_good := False\<rparr>))
         else ((0, None), p)))"

subsection \<open>Bit fields\<close>

lemma header_type_raw_cast [simp]: "header_type_raw (header_type_cast v) = v"
  by (simp add: header_type_cast_def)

lemma next_header_basic_raw_cast [simp]: "next_header_basic_raw (next_header_basic_cast v) = v"
  by (simp add: next_header_basic_cast_def)

lemma next_header_common_raw_cast [simp]: "next_header_common_raw (next_header_common_cast v) = v"
  by (simp add: next_header_common_cast_def)

lemma wf_header_enums [simp]:
  "wf_header_type (header_type_cast v)"
  "wf_next_header_basic (next_header_basic_cast w) \<longleftrightarrow> w < 16"
  "wf_next_header_common (next_header_common_cast w) \<longleftrightarrow> w < 16"
  by (simp_all add: wf_header_type_def wf_next_header_basic_def wf_next_header_common_def)

declare drop_bit_and [simp del] and drop_bit_or [simp del]

lemma low_nibble_mask: "low_nibble = mask 4"
  by (simp add: low_nibble_def mask_eq_exp_minus_1)

lemma bit_low_nibble: "bit low_nibble n \<longleftrightarrow> n < 4"
  unfolding low_nibble_mask bit_mask_iff by auto

lemma nibble_iff_bits: "(v :: byte) < 16 \<longleftrightarrow> (\<forall>n. bit v n \<longrightarrow> n < 4)"
  using word_less_exp_iff_bits [of 4 v] by simp

lemma nibble_bounds: "drop_bit 4 (b :: byte) < 16" "b AND low_nibble < 16"
  unfolding nibble_iff_bits by (auto simp: bit_simps bit_low_nibble dest: bit_imp_le_length)

lemma nibbles_split:
  fixes hi :: "4 word" and b :: byte
  shows "b < 16 \<Longrightarrow> (push_bit 4 (ucast hi) OR (b AND low_nibble)) AND low_nibble = b"
    and "ucast (drop_bit 4 (push_bit 4 (ucast hi) OR (b AND low_nibble))) = hi"
    and "b < 16 \<Longrightarrow> drop_bit 4 (push_bit 4 b OR ucast hi) = b"
    and "ucast ((push_bit 4 b OR ucast hi) AND low_nibble) = hi"
  unfolding nibble_iff_bits
  by (auto simp: word_eq_bit_iff bit_simps bit_low_nibble dest: bit_imp_le_length)

lemma nibbles_join:
  fixes b :: byte
  shows "push_bit 4 (ucast (ucast (drop_bit 4 b) :: 4 word)) OR (b AND low_nibble) = b"
    and "push_bit 4 (drop_bit 4 b) OR ucast (ucast (b AND low_nibble) :: 4 word) = b"
  by (auto simp: word_eq_bit_iff bit_simps bit_low_nibble) (metis le_add_diff_inverse not_less)

lemma bit_u32_of_dcc_mco:
  "bit (u32_of_dcc_mco m) n \<longleftrightarrow>
    (if n < 11 then False else if n < 16 then bit (m_output_power m) (n - 11)
     else if n < 24 then bit (cbr_l1_hop m) (n - 16) else bit (cbr_l0_hop m) (n - 24))"
  using bit_imp_le_length [of "m_output_power m" "n - 11"] bit_imp_le_length [of "cbr_l1_hop m" "n - 16"]
    bit_imp_le_length [of "cbr_l0_hop m" "n - 24"]
  by (auto simp: u32_of_dcc_mco_def Let_def bit_or_iff bit_push_bit_iff bit_ucast_iff)

lemma dcc_mco_round_trip: "dcc_mco_of_u32 (u32_of_dcc_mco m) = m"
proof -
  have "ucast (drop_bit 24 (u32_of_dcc_mco m)) = cbr_l0_hop m"
    "ucast (drop_bit 16 (u32_of_dcc_mco m)) = cbr_l1_hop m"
    "ucast (drop_bit 11 (u32_of_dcc_mco m)) = m_output_power m"
    by (auto intro!: bit_word_eqI simp: bit_ucast_iff bit_drop_bit_eq bit_u32_of_dcc_mco)
  then show ?thesis by (simp add: dcc_mco_of_u32_def)
qed

subsection \<open>Codecs\<close>

interpretation basic_codec: fixed_codec serialize_basic deserialize_basic 4 wf_basic
proof
  show "length (serialize_basic x) = 4" for x by (simp add: serialize_basic_def codec_simps)
  show "deserialize_basic (serialize_basic x @ r) = Some (x, r)" if "wf_basic x" for x r
    using that by (simp add: serialize_basic_def deserialize_basic_def codec_simps wf_basic_def
        wf_next_header_basic_def version_and_next_header_def nibbles_split)
  show "wf_basic x \<and> bs = serialize_basic x @ r" if "deserialize_basic bs = Some (x, r)" for bs x r
    using that unfolding deserialize_basic_def
    by (auto simp: bind_eq_Some_conv serialize_basic_def wf_basic_def version_and_next_header_def
        nibble_bounds nibbles_join dest!: codec_dest)
  show "deserialize_basic bs \<noteq> None" if "4 \<le> length bs" for bs
    using that unfolding deserialize_basic_def
    by (auto simp: codec_simps split: Option.bind_split dest!: codec_rest)
qed

interpretation common_codec: fixed_codec serialize_common deserialize_common 8 wf_common
proof
  show "length (serialize_common x) = 8" for x by (simp add: serialize_common_def codec_simps)
  show "deserialize_common (serialize_common x @ r) = Some (x, r)" if "wf_common x" for x r
    using that by (simp add: serialize_common_def deserialize_common_def codec_simps wf_common_def
        wf_header_type_def wf_next_header_common_def next_header_and_reserved_def nibbles_split)
  show "wf_common x \<and> bs = serialize_common x @ r" if "deserialize_common bs = Some (x, r)" for bs x r
    using that unfolding deserialize_common_def
    by (auto simp: bind_eq_Some_conv serialize_common_def wf_common_def next_header_and_reserved_def
        nibble_bounds nibbles_join dest!: codec_dest)
  show "deserialize_common bs \<noteq> None" if "8 \<le> length bs" for bs
    using that unfolding deserialize_common_def
    by (auto simp: codec_simps split: Option.bind_split dest!: codec_rest)
qed

interpretation dcc_codec: fixed_codec serialize_dcc deserialize_dcc 4 wf_dcc
proof
  show "length (serialize_dcc x) = 4" for x by (simp add: serialize_dcc_def codec_simps)
  show "deserialize_dcc (serialize_dcc x @ r) = Some (x, r)" if "wf_dcc x" for x r
    using that by (cases x) (simp_all add: serialize_dcc_def deserialize_dcc_def codec_simps)
  show "wf_dcc x \<and> bs = serialize_dcc x @ r" if "deserialize_dcc bs = Some (x, r)" for bs x r
    using that unfolding deserialize_dcc_def
    by (auto simp: bind_eq_Some_conv serialize_dcc_def dest!: codec_dest)
  show "deserialize_dcc bs \<noteq> None" if "4 \<le> length bs" for bs
    using that unfolding deserialize_dcc_def
    by (auto simp: codec_simps split: Option.bind_split dest!: codec_rest)
qed

lemmas dcc_codec_laws [codec_simps] = dcc_codec.ser_length dcc_codec.des_ser dcc_codec.des_None_iff

declare dcc_codec.ser_des [codec_dest] and dcc_codec.des_rest_length [codec_rest]

definition wf_beacon :: "BeaconHeader \<Rightarrow> bool" where
  "wf_beacon h \<longleftrightarrow> wf_lpv (beacon_source_position h)"

definition wf_shb :: "ShbHeader \<Rightarrow> bool" where
  "wf_shb h \<longleftrightarrow> wf_lpv (shb_source_position h) \<and> wf_dcc (dcc h)"

definition wf_tsb :: "TsbHeader \<Rightarrow> bool" where
  "wf_tsb h \<longleftrightarrow> wf_lpv (tsb_source_position h)"

definition wf_gbc :: "GeoBroadcastHeader \<Rightarrow> bool" where
  "wf_gbc h \<longleftrightarrow> wf_lpv (gbc_source_position h)"

fun wf_variant :: "HeaderVariant \<Rightarrow> bool" where
  "wf_variant (HV_Beacon h) = wf_beacon h"
| "wf_variant (HV_Gbc h) = wf_gbc h"
| "wf_variant (HV_Shb h) = wf_shb h"
| "wf_variant (HV_Tsb h) = wf_tsb h"

interpretation beacon_codec: fixed_codec serialize_beacon deserialize_beacon 24 wf_beacon
proof
  show "length (serialize_beacon x) = 24" for x by (simp add: serialize_beacon_def codec_simps)
  show "deserialize_beacon (serialize_beacon x @ r) = Some (x, r)" if "wf_beacon x" for x r
    using that by (simp add: serialize_beacon_def deserialize_beacon_def codec_simps wf_beacon_def)
  show "wf_beacon x \<and> bs = serialize_beacon x @ r" if "deserialize_beacon bs = Some (x, r)" for bs x r
    using that unfolding deserialize_beacon_def
    by (auto simp: bind_eq_Some_conv serialize_beacon_def wf_beacon_def dest!: codec_dest)
  show "deserialize_beacon bs \<noteq> None" if "24 \<le> length bs" for bs
    using that unfolding deserialize_beacon_def
    by (auto simp: codec_simps split: Option.bind_split dest!: codec_rest)
qed

interpretation shb_codec: fixed_codec serialize_shb deserialize_shb 28 wf_shb
proof
  show "length (serialize_shb x) = 28" for x by (simp add: serialize_shb_def codec_simps)
  show "deserialize_shb (serialize_shb x @ r) = Some (x, r)" if "wf_shb x" for x r
    using that by (simp add: serialize_shb_def deserialize_shb_def codec_simps wf_shb_def)
  show "wf_shb x \<and> bs = serialize_shb x @ r" if "deserialize_shb bs = Some (x, r)" for bs x r
    using that unfolding deserialize_shb_def
    by (auto simp: bind_eq_Some_conv serialize_shb_def wf_shb_def dest!: codec_dest)
  show "deserialize_shb bs \<noteq> None" if "28 \<le> length bs" for bs
    using that unfolding deserialize_shb_def
    by (auto simp: codec_simps split: Option.bind_split dest!: codec_rest)
qed

interpretation tsb_codec: fixed_codec serialize_tsb deserialize_tsb 28 wf_tsb
proof
  show "length (serialize_tsb x) = 28" for x by (simp add: serialize_tsb_def codec_simps)
  show "deserialize_tsb (serialize_tsb x @ r) = Some (x, r)" if "wf_tsb x" for x r
    using that by (simp add: serialize_tsb_def deserialize_tsb_def codec_simps wf_tsb_def)
  show "wf_tsb x \<and> bs = serialize_tsb x @ r" if "deserialize_tsb bs = Some (x, r)" for bs x r
    using that unfolding deserialize_tsb_def
    by (auto simp: bind_eq_Some_conv serialize_tsb_def wf_tsb_def dest!: codec_dest)
  show "deserialize_tsb bs \<noteq> None" if "28 \<le> length bs" for bs
    using that unfolding deserialize_tsb_def
    by (auto simp: codec_simps split: Option.bind_split dest!: codec_rest)
qed

interpretation gbc_codec: fixed_codec serialize_gbc deserialize_gbc 44 wf_gbc
proof
  show "length (serialize_gbc x) = 44" for x by (simp add: serialize_gbc_def codec_simps)
  show "deserialize_gbc (serialize_gbc x @ r) = Some (x, r)" if "wf_gbc x" for x r
    using that by (simp add: serialize_gbc_def deserialize_gbc_def codec_simps wf_gbc_def)
  show "wf_gbc x \<and> bs = serialize_gbc x @ r" if "deserialize_gbc bs = Some (x, r)" for bs x r
    using that unfolding deserialize_gbc_def
    by (auto simp: bind_eq_Some_conv serialize_gbc_def wf_gbc_def dest!: codec_dest)
  show "deserialize_gbc bs \<noteq> None" if "44 \<le> length bs" for bs
    using that unfolding deserialize_gbc_def
    by (auto simp: codec_simps split: Option.bind_split dest!: codec_rest)
qed

lemma length_serialize_variant: "length (serialize_variant h) = header_length h"
  by (cases h) (simp_all add: beacon_codec.ser_length shb_codec.ser_length tsb_codec.ser_length gbc_codec.ser_length)

subsection \<open>Parser\<close>

text \<open>Which header an extended header type announces, if it is one the parser implements.\<close>

fun announces :: "HeaderType \<Rightarrow> HeaderVariant \<Rightarrow> bool" where
  "announces HT_Beacon (HV_Beacon _) = True"
| "announces TSB_Single_Hop (HV_Shb _) = True"
| "announces TSB_Multi_Hop (HV_Tsb _) = True"
| "announces GeoBroadcast_Circle (HV_Gbc _) = True"
| "announces GeoBroadcast_Rect (HV_Gbc _) = True"
| "announces GeoBroadcast_Elip (HV_Gbc _) = True"
| "announces _ _ = False"

lemma parse_with_None: "snd (fst (parse_with rd n p)) = None \<longleftrightarrow> rd (archive p) = None"
  by (auto simp: parse_with_def split: option.splits)

lemma map_reader_None: "map_reader f rd bs = None \<longleftrightarrow> rd bs = None"
  by (simp add: map_reader_def)

lemma parse_extended_serialize:
  assumes "announces ht h" and "wf_variant h"
  shows "parse_extended ht \<lparr>archive = serialize_variant h @ r, archive_good = g, read_bytes = n\<rparr> =
    ((header_length h, Some h), \<lparr>archive = r, archive_good = g, read_bytes = n + header_length h\<rparr>)"
  using assms
  by (cases "(ht, h)" rule: announces.cases)
    (simp_all add: parse_extended_def parse_with_def map_reader_def beacon_codec.des_ser
      shb_codec.des_ser tsb_codec.des_ser gbc_codec.des_ser)

lemma parse_extended_sound:
  assumes "parse_extended ht p = ((n, Some h), p')"
  shows "announces ht h \<and> wf_variant h \<and> archive p = serialize_variant h @ archive p' \<and> n = header_length h
    \<and> read_bytes p' = read_bytes p + n"
  using assms
  by (cases ht)
    (auto simp: parse_extended_def parse_with_def map_reader_def split: option.splits
      dest!: beacon_codec.ser_des shb_codec.ser_des tsb_codec.ser_des gbc_codec.ser_des)

lemma parse_extended_None_iff:
  "snd (fst (parse_extended ht p)) = None \<longleftrightarrow> (\<forall>h. announces ht h \<longrightarrow> length (archive p) < header_length h)"
proof -
  have "(\<forall>h. announces ht h \<longrightarrow> length (archive p) < header_length h) \<longleftrightarrow>
    (case ht of HT_Beacon \<Rightarrow> length (archive p) < 24 | TSB_Single_Hop \<Rightarrow> length (archive p) < 28
     | TSB_Multi_Hop \<Rightarrow> length (archive p) < 28 | GeoBroadcast_Circle \<Rightarrow> length (archive p) < 44
     | GeoBroadcast_Rect \<Rightarrow> length (archive p) < 44 | GeoBroadcast_Elip \<Rightarrow> length (archive p) < 44 | _ \<Rightarrow> True)"
    by (cases ht) (auto elim!: announces.elims)
  then show ?thesis
    by (cases ht) (simp_all add: parse_extended_def parse_with_None map_reader_None beacon_codec.des_None_iff
        shb_codec.des_None_iff tsb_codec.des_None_iff gbc_codec.des_None_iff)
qed

subsection \<open>Quantisation of destination areas\<close>

lemma geo_angle_lround:
  assumes "\<bar>d\<bar> \<le> 180"
  shows "\<bar>geo_angle (word_of_int (lround (d * 10 ^ 7))) - d\<bar> \<le> 1 / (2 * 10 ^ 7)"
proof -
  let ?k = "lround (d * 10 ^ 7)"
  have e: "\<bar>of_int ?k - d * 10 ^ 7\<bar> \<le> 1 / 2" by (rule lround_error)
  have "\<bar>d * 10 ^ 7\<bar> \<le> 180 * 10 ^ 7" using assms by (simp add: abs_mult)
  then have "\<bar>real_of_int ?k\<bar> \<le> 1800000001"
    using e abs_triangle_ineq [of "of_int ?k - d * 10 ^ 7" "d * 10 ^ 7"] by simp
  then have "- 1800000001 \<le> ?k \<and> ?k \<le> 1800000001" by linarith
  then have "sint (word_of_int ?k :: u32) = ?k"
    by (simp add: signed_of_int signed_take_bit_int_eq_self)
  then have "geo_angle (word_of_int ?k) - d = (of_int ?k - d * 10 ^ 7) / 10 ^ 7"
    by (simp add: geo_angle_def diff_divide_distrib del: of_int_sint)
  then have "\<bar>geo_angle (word_of_int ?k) - d\<bar> = \<bar>of_int ?k - d * 10 ^ 7\<bar> / 10 ^ 7"
    by (simp only: abs_divide) simp
  also have "\<dots> \<le> (1 / 2) / 10 ^ 7" using e by (intro divide_right_mono) auto
  finally show ?thesis by simp
qed

lemma u16_of_real_floor:
  assumes "0 \<le> x" and "x < 65536"
  shows "real (unat (u16_of_real x)) = of_int \<lfloor>x\<rfloor>"
proof -
  have "0 \<le> \<lfloor>x\<rfloor>" "\<lfloor>x\<rfloor> < 65536" using assms by (simp_all add: floor_less_iff)
  with assms show ?thesis
    by (simp add: u16_of_real_def trunc_real_def unsigned_of_int take_bit_int_eq_self)
qed

lemma u16_of_real_error:
  assumes "0 \<le> x" and "x < 65536"
  shows "0 \<le> x - real (unat (u16_of_real x)) \<and> x - real (unat (u16_of_real x)) < 1"
  unfolding u16_of_real_floor [OF assms] by linarith

text \<open>Two shapes of the same kind whose extents agree up to less than a metre, the second the smaller.\<close>

fun truncated_shape :: "Shape \<Rightarrow> Shape \<Rightarrow> bool" where
  "truncated_shape (Circle r) (Circle r') \<longleftrightarrow> r' \<le> r \<and> r < r' + 1"
| "truncated_shape (Rectangle a b) (Rectangle a' b') \<longleftrightarrow> a' \<le> a \<and> a < a' + 1 \<and> b' \<le> b \<and> b < b' + 1"
| "truncated_shape (Ellipse a b) (Ellipse a' b') \<longleftrightarrow> a' \<le> a \<and> a < a' + 1 \<and> b' \<le> b \<and> b < b' + 1"
| "truncated_shape _ _ \<longleftrightarrow> False"

fun shape_extent_ok :: "Shape \<Rightarrow> bool" where
  "shape_extent_ok (Circle r) \<longleftrightarrow> 0 \<le> r \<and> r < 65536"
| "shape_extent_ok (Rectangle a b) \<longleftrightarrow> 0 \<le> a \<and> a < 65536 \<and> 0 \<le> b \<and> b < 65536"
| "shape_extent_ok (Ellipse a b) \<longleftrightarrow> 0 \<le> a \<and> a < 65536 \<and> 0 \<le> b \<and> b < 65536"

lemma gbc_destination_set:
  "gbc_destination (gbc_header_type (shape area)) (gbc_set_destination area h) =
     Some (gbc_destination_shape (shape area) (gbc_set_destination area h))"
  by (cases "shape area") (simp_all add: gbc_destination_def gbc_destination_shape_def)

lemma gbc_set_destination_fields:
  "geo_area_pos_latitude (gbc_set_destination area h) = word_of_int (lround (glatitude (position area) * 10 ^ 7))"
  "geo_area_pos_longitude (gbc_set_destination area h) = word_of_int (lround (glongitude (position area) * 10 ^ 7))"
  "gbc_angle (gbc_set_destination area h) = u16_of_real (area_angle area * 180 / pi)"
  by (cases "shape area"; simp add: gbc_set_destination_def gbc_set_position_def)+

lemma truncated_shape_destination:
  assumes "shape_extent_ok s" and "s = shape area"
  shows "truncated_shape s (get_distance_visitor (gbc_set_destination area h) s)"
  using assms u16_of_real_error
  by (cases s) (fastforce simp: gbc_set_destination_def gbc_set_position_def)+

lemma u16_angle_error:
  assumes "0 \<le> a" and "a \<le> 2 * pi"
  shows "real (unat (u16_of_real (a * 180 / pi))) * pi / 180 \<le> a
    \<and> a < real (unat (u16_of_real (a * 180 / pi))) * pi / 180 + pi / 180"
proof -
  let ?d = "a * 180 / pi"
  let ?n = "real (unat (u16_of_real ?d))"
  have "0 \<le> ?d" using assms by simp
  moreover have "?d \<le> 2 * pi * 180 / pi" using assms pi_gt_zero by (intro divide_right_mono) auto
  then have "?d < 65536" by simp
  ultimately have "?n \<le> ?d" "?d < ?n + 1" using u16_of_real_error [of ?d] by simp_all
  moreover have "a = ?d * pi / 180" by simp
  ultimately show ?thesis
    using pi_gt_zero by (simp add: pos_le_divide_eq pos_divide_less_eq distrib_right)
qed

subsection \<open>Properties\<close>

text \<open>
  The header a receiver gets: the DCC field of a single-hop broadcast is read as the raw value
  of the field that was written.
\<close>

fun received_variant :: "HeaderVariant \<Rightarrow> HeaderVariant" where
  "received_variant (HV_Shb h) = HV_Shb (h\<lparr>dcc := DccRaw (dcc_field_raw (dcc h))\<rparr>)"
| "received_variant h = h"

lemma received_variant_simps:
  "serialize_variant (received_variant h) = serialize_variant h" "header_length (received_variant h) = header_length h"
  "announces ht (received_variant h) = announces ht h"
  by (cases h; simp add: serialize_shb_def serialize_dcc_def; cases ht; simp)+

fun variant_dcc_mco :: "HeaderVariant \<Rightarrow> DccMcoField option" where
  "variant_dcc_mco (HV_Shb h) = get_dcc_mco (dcc h)"
| "variant_dcc_mco _ = None"

lemma variant_dcc_received [simp]: "variant_dcc_mco (received_variant h) = variant_dcc_mco h"
proof (cases h)
  case (HV_Shb g)
  then show ?thesis by (cases "dcc g") (simp_all add: dcc_mco_round_trip)
qed simp_all

text \<open>C35: A packet written as basic, common and extended header followed by payload is parsed
  back into the same three headers, except that the DCC field of a single-hop broadcast comes
  back as its raw value, from which the same channel loads and output power are read. The
  parser accounts for exactly the header bytes and leaves exactly the payload. The enumerations
  in the headers (next headers, header type and station type) have to fit their fields on the
  wire, and the header type has to be the one of the extended header.\<close>

theorem parse_packet_round_trip:
  assumes "wf_basic b" and "wf_common c" and "wf_variant (received_variant h)" and "announces (header_type c) h"
  shows "(let ((n1, b'), p1) = parse_basic (parser_init (serialize_basic b @ serialize_common c @ serialize_variant h @ pl));
              ((n2, c'), p2) = parse_common p1;
              ((n3, h'), p3) = parse_extended (header_type c) p2
          in b' = Some b \<and> c' = Some c \<and> h' = Some (received_variant h) \<and> archive p3 = pl \<and> archive_good p3
             \<and> read_bytes p3 = 12 + header_length h \<and> n1 + n2 + n3 = read_bytes p3)
         \<and> variant_dcc_mco (received_variant h) = variant_dcc_mco h"
proof -
  have "announces (header_type c) (received_variant h)" using assms(4) by (simp add: received_variant_simps)
  from parse_extended_serialize [OF this assms(3)] assms(1,2) show ?thesis
    by (simp add: parser_init_def parse_basic_def parse_common_def parse_with_def basic_codec.des_ser
        common_codec.des_ser received_variant_simps)
qed

theorem parse_packet_round_trip_witness:
  "let c = common_default\<lparr>header_type := TSB_Single_Hop, payload := 2\<rparr>;
       h = HV_Shb (shb_default\<lparr>dcc := DccMco \<lparr>cbr_l0_hop = 100, cbr_l1_hop = 50, m_output_power = 23\<rparr>\<rparr>)
   in (let ((n1, b'), p1) = parse_basic (parser_init (serialize_basic basic_default @ serialize_common c
             @ serialize_variant h @ [7, 8]));
           ((n2, c'), p2) = parse_common p1;
           ((n3, h'), p3) = parse_extended (header_type c) p2
       in b' = Some basic_default \<and> c' = Some c \<and> h' = Some (received_variant h) \<and> archive p3 = [7, 8] \<and> archive_good p3
             \<and> read_bytes p3 = 12 + header_length h \<and> n1 + n2 + n3 = read_bytes p3)
      \<and> variant_dcc_mco (received_variant h) = variant_dcc_mco h"
  unfolding Let_def [of "common_default\<lparr>header_type := _, payload := _\<rparr>"] Let_def [of "HV_Shb _"]
  by (rule parse_packet_round_trip)
    (simp_all add: wf_basic_def basic_default_def wf_next_header_basic_def next_header_basic_cast_def
      wf_common_def common_default_def wf_next_header_common_def next_header_common_cast_def
      wf_header_type_def header_type_cast_def shb_default_def wf_shb_def wf_lpv_def lpv_default_def
      wf_address_def address_default_def wf_station_type_def station_type_cast_def)

text \<open>C36: Whatever bytes the parser accepts as an extended header of a given type are exactly
  the bytes the stack itself would write for the header it returns, which is of the announced
  kind, and the byte count is that header's length. It rejects only unimplemented types and
  inputs that are too short.\<close>

theorem parse_extended_canonical:
  "(case parse_extended ht p of
      ((n, Some h), p') \<Rightarrow> announces ht h \<and> archive p = serialize_variant h @ archive p'
        \<and> n = header_length h \<and> read_bytes p' = read_bytes p + header_length h
    | ((n, None), p') \<Rightarrow> n = 0 \<and> read_bytes p' = read_bytes p
        \<and> (\<nexists>h. announces ht h \<and> header_length h \<le> length (archive p)))"
proof -
  obtain n ho p' where e: "parse_extended ht p = ((n, ho), p')" by (metis prod.collapse)
  show ?thesis
  proof (cases ho)
    case (Some h)
    with e parse_extended_sound [of ht p n h p'] show ?thesis by simp
  next
    case None
    then have z: "n = 0 \<and> read_bytes p' = read_bytes p"
      using e by (cases ht) (auto simp: parse_extended_def parse_with_def split: option.splits)
    have "\<not> header_length h \<le> length (archive p)" if "announces ht h" for h
      using that e None parse_extended_None_iff [of ht p] by (auto simp: not_le)
    with e None z show ?thesis by auto
  qed
qed

text \<open>The destination area a geobroadcast header carries is the requested area up to the
  wire resolution: the kind of shape is kept, extents are truncated to whole metres, the
  azimuth to whole degrees, and the centre is off by at most half a tenth of a microdegree.\<close>

theorem gbc_destination_round_trip:
  assumes "\<bar>glatitude (position area)\<bar> \<le> 90" and "\<bar>glongitude (position area)\<bar> \<le> 180"
    and "shape_extent_ok (shape area)" and "0 \<le> area_angle area" and "area_angle area \<le> 2 * pi"
  shows "\<exists>area'. gbc_destination (gbc_header_type (shape area)) (gbc_set_destination area h) = Some area'
     \<and> truncated_shape (shape area) (shape area')
     \<and> \<bar>glatitude (position area') - glatitude (position area)\<bar> \<le> 1 / (2 * 10 ^ 7)
     \<and> \<bar>glongitude (position area') - glongitude (position area)\<bar> \<le> 1 / (2 * 10 ^ 7)
     \<and> area_angle area' \<le> area_angle area \<and> area_angle area < area_angle area' + pi / 180"
proof (intro exI conjI)
  let ?a = "gbc_destination_shape (shape area) (gbc_set_destination area h)"
  show "gbc_destination (gbc_header_type (shape area)) (gbc_set_destination area h) = Some ?a"
    by (rule gbc_destination_set)
  show "truncated_shape (shape area) (shape ?a)"
    using truncated_shape_destination [OF assms(3) refl] by (simp add: gbc_destination_shape_def)
  show "\<bar>glatitude (position ?a) - glatitude (position area)\<bar> \<le> 1 / (2 * 10 ^ 7)"
    "\<bar>glongitude (position ?a) - glongitude (position area)\<bar> \<le> 1 / (2 * 10 ^ 7)"
    using geo_angle_lround assms(1,2)
    by (simp_all add: gbc_destination_shape_def gbc_position_def gbc_set_destination_fields)
  show "area_angle ?a \<le> area_angle area" "area_angle area < area_angle ?a + pi / 180"
    using u16_angle_error [OF assms(4,5)] by (simp_all add: gbc_destination_shape_def gbc_set_destination_fields)
qed

theorem gbc_destination_round_trip_witness:
  "let area = \<lparr>shape = Rectangle (250 / 2) 20, position = \<lparr>glatitude = 48, glongitude = 11\<rparr>, area_angle = pi / 4\<rparr>
   in \<exists>area'. gbc_destination GeoBroadcast_Rect (gbc_set_destination area gbc_default) = Some area'
     \<and> truncated_shape (shape area) (shape area')
     \<and> \<bar>glatitude (position area') - glatitude (position area)\<bar> \<le> 1 / (2 * 10 ^ 7)
     \<and> \<bar>glongitude (position area') - glongitude (position area)\<bar> \<le> 1 / (2 * 10 ^ 7)
     \<and> area_angle area' \<le> area_angle area \<and> area_angle area < area_angle area' + pi / 180"
  using gbc_destination_round_trip [of "\<lparr>shape = Rectangle (250 / 2) 20, position = \<lparr>glatitude = 48, glongitude = 11\<rparr>, area_angle = pi / 4\<rparr>"
      gbc_default]
  by (simp add: Let_def)

text \<open>The DCC field of a single-hop broadcast header survives the wire: the receiver
  extracts from the header it read the very channel loads and output power the sender put in,
  whichever variant of the field the sender used.\<close>

theorem shb_dcc_survives_wire:
  assumes "wf_lpv (shb_source_position h)"
  shows "\<exists>h'. deserialize_shb (serialize_shb h @ rest) = Some (h', rest)
     \<and> shb_source_position h' = shb_source_position h \<and> get_dcc_mco (dcc h') = get_dcc_mco (dcc h)"
proof -
  let ?h = "h\<lparr>dcc := DccRaw (dcc_field_raw (dcc h))\<rparr>"
  have "serialize_shb h = serialize_shb ?h" by (simp add: serialize_shb_def serialize_dcc_def)
  moreover have "wf_shb ?h" using assms by (simp add: wf_shb_def)
  moreover have "get_dcc_mco (dcc ?h) = get_dcc_mco (dcc h)"
    by (cases "dcc h") (simp_all add: dcc_mco_round_trip)
  ultimately show ?thesis by (metis ShbHeader.select_convs(1) ShbHeader.surjective ShbHeader.update_convs(2) shb_codec.des_ser)
qed

theorem shb_dcc_survives_wire_witness:
  "let h = shb_default\<lparr>dcc := DccMco \<lparr>cbr_l0_hop = 100, cbr_l1_hop = 50, m_output_power = 23\<rparr>\<rparr>
   in \<exists>h'. deserialize_shb (serialize_shb h @ [1]) = Some (h', [1])
     \<and> shb_source_position h' = shb_source_position h \<and> get_dcc_mco (dcc h') = get_dcc_mco (dcc h)"
  unfolding Let_def
  by (rule shb_dcc_survives_wire)
    (simp add: shb_default_def wf_lpv_def lpv_default_def wf_address_def address_default_def
      wf_station_type_def station_type_cast_def)

end
