(* ===== verification/Packets.thy ===== *)
theory Packets
  imports Prelude
begin

text \<open>
  Packets on their way down and up the stack (\<open>vanetza/net\<close>): \<open>ChunkPacket\<close> (one byte buffer
  per layer), \<open>CohesivePacket\<close> (one buffer cut into layers by eight offsets) and
  \<open>PacketVariant\<close>. A \<open>ByteBufferConvertible\<close> is the byte string it converts to; an absent
  layer of a chunk packet converts to the empty string. Iterators into the cohesive buffer
  are offsets; a failing assertion is \<open>None\<close>.
\<close>

datatype OsiLayer = Physical | Link | Network | Transport | Session | Presentation | Application

primrec layer_index :: "OsiLayer \<Rightarrow> nat" where
  "layer_index Physical = 1"
| "layer_index Link = 2"
| "layer_index Network = 3"
| "layer_index Transport = 4"
| "layer_index Session = 5"
| "layer_index Presentation = 6"
| "layer_index Application = 7"

definition osi_layers :: "OsiLayer list" where
  "osi_layers = [Physical, Link, Network, Transport, Session, Presentation, Application]"

lemma layer_index_inject [simp]: "layer_index a = layer_index b \<longleftrightarrow> a = b"
  by (cases a; cases b) simp_all

instantiation OsiLayer :: linorder
begin

definition less_eq_OsiLayer :: "OsiLayer \<Rightarrow> OsiLayer \<Rightarrow> bool" where
  "less_eq_OsiLayer a b \<longleftrightarrow> layer_index a \<le> layer_index b"

definition less_OsiLayer :: "OsiLayer \<Rightarrow> OsiLayer \<Rightarrow> bool" where
  "less_OsiLayer a b \<longleftrightarrow> layer_index a < layer_index b"

instance
  by standard (auto simp: less_eq_OsiLayer_def less_OsiLayer_def)

end

definition min_osi_layer :: OsiLayer where "min_osi_layer = Physical"

definition max_osi_layer :: OsiLayer where "max_osi_layer = Application"

definition layer_distance :: "OsiLayer \<Rightarrow> OsiLayer \<Rightarrow> int" where
  "layer_distance from to = int (layer_index to) - int (layer_index from)"

definition osi_layer_range :: "OsiLayer \<Rightarrow> OsiLayer \<Rightarrow> OsiLayer list" where
  "osi_layer_range from to =
    (if from \<le> to
     then drop (nat (layer_distance min_osi_layer from))
            (take (length osi_layers - nat (layer_distance to max_osi_layer)) osi_layers)
     else [])"

subsection \<open>Chunk packets\<close>

type_synonym ChunkPacket = "OsiLayer \<Rightarrow> bytes"

definition empty_chunk :: ChunkPacket where
  "empty_chunk = (\<lambda>_. [])"

definition chunk_size :: "ChunkPacket \<Rightarrow> nat" where
  "chunk_size p = sum_list (map (\<lambda>l. length (p l)) osi_layers)"

definition chunk_size_range :: "OsiLayer \<Rightarrow> OsiLayer \<Rightarrow> ChunkPacket \<Rightarrow> nat" where
  "chunk_size_range from to p = sum_list (map (\<lambda>l. if from \<le> l \<and> l \<le> to then length (p l) else 0) osi_layers)"

definition chunk_extract :: "OsiLayer \<Rightarrow> OsiLayer \<Rightarrow> ChunkPacket \<Rightarrow> ChunkPacket \<times> ChunkPacket" where
  "chunk_extract from to p = fold (\<lambda>l (result, this). (result(l := this l), this(l := result l)))
     (osi_layer_range from to) (empty_chunk, p)"

definition chunk_merge :: "OsiLayer \<Rightarrow> OsiLayer \<Rightarrow> ChunkPacket \<Rightarrow> ChunkPacket \<Rightarrow> ChunkPacket \<times> ChunkPacket" where
  "chunk_merge from to source this = fold (\<lambda>l (this, source). (this(l := source l), source(l := [])))
     (osi_layer_range from to) (this, source)"

definition chunk_bytes :: "OsiLayer \<Rightarrow> OsiLayer \<Rightarrow> ChunkPacket \<Rightarrow> bytes" where
  "chunk_bytes from to p = concat (map p (osi_layer_range from to))"

definition serialize_chunk :: "ChunkPacket \<Rightarrow> bytes" where
  "serialize_chunk p = concat (map p osi_layers)"

subsection \<open>Cohesive packets\<close>

record CohesivePacket =
  m_buffer :: bytes
  m_iterators :: "nat list"

definition reset_iterators :: "OsiLayer \<Rightarrow> bytes \<Rightarrow> nat list" where
  "reset_iterators ins_layer buffer =
     replicate (layer_index ins_layer) 0 @ replicate (Suc (layer_index max_osi_layer) - layer_index ins_layer) (length buffer)"

definition cohesive_packet :: "bytes \<Rightarrow> OsiLayer \<Rightarrow> CohesivePacket" where
  "cohesive_packet buffer layer = \<lparr>m_buffer = buffer, m_iterators = reset_iterators layer buffer\<rparr>"

text \<open>Copying rebuilds the offsets from the distances of the original's.\<close>

fun rebuild :: "nat \<Rightarrow> nat list \<Rightarrow> nat list" where
  "rebuild next (i # j # ks) = (next + (j - i)) # rebuild (next + (j - i)) (j # ks)"
| "rebuild next _ = []"

definition copy_cohesive :: "CohesivePacket \<Rightarrow> CohesivePacket" where
  "copy_cohesive other = \<lparr>m_buffer = m_buffer other, m_iterators = 0 # rebuild 0 (m_iterators other)\<rparr>"

definition cohesive_layer :: "CohesivePacket \<Rightarrow> OsiLayer \<Rightarrow> bytes" where
  "cohesive_layer p layer =
    (let b = m_iterators p ! (layer_index layer - 1); e = m_iterators p ! layer_index layer
     in take (e - b) (drop b (m_buffer p)))"

definition cohesive_size :: "CohesivePacket \<Rightarrow> nat" where
  "cohesive_size p = last (m_iterators p) - hd (m_iterators p)"

definition cohesive_size_range :: "OsiLayer \<Rightarrow> OsiLayer \<Rightarrow> CohesivePacket \<Rightarrow> nat" where
  "cohesive_size_range from to p = m_iterators p ! layer_index to - m_iterators p ! (layer_index from - 1)"

definition set_boundary :: "OsiLayer \<Rightarrow> nat \<Rightarrow> CohesivePacket \<Rightarrow> CohesivePacket option" where
  "set_boundary layer n p =
    (if n \<le> length (cohesive_layer p layer)
     then Some (p\<lparr>m_iterators := (m_iterators p)[layer_index layer := m_iterators p ! (layer_index layer - 1) + n]\<rparr>)
     else None)"

fun trim_loop :: "nat list \<Rightarrow> nat list \<Rightarrow> nat \<Rightarrow> nat list" where
  "trim_loop its [] mx = its"
| "trim_loop its (i # ks) mx = trim_loop (if its ! i > its ! mx then its[i := its ! mx] else its) ks mx"

definition trim :: "OsiLayer \<Rightarrow> nat \<Rightarrow> CohesivePacket \<Rightarrow> CohesivePacket" where
  "trim from n p =
    (if cohesive_size_range from max_osi_layer p > n then
       let from_idx = layer_index from - 1; max_idx = layer_index max_osi_layer;
           its = (m_iterators p)[max_idx := m_iterators p ! from_idx + n]
       in p\<lparr>m_iterators := trim_loop its [from_idx..<max_idx] max_idx\<rparr>
     else p)"

definition cohesive_bytes :: "OsiLayer \<Rightarrow> OsiLayer \<Rightarrow> CohesivePacket \<Rightarrow> bytes" where
  "cohesive_bytes from to p =
    (let b = m_iterators p ! (layer_index from - 1); e = m_iterators p ! layer_index to
     in take (e - b) (drop b (m_buffer p)))"

subsection \<open>Packet variants\<close>

datatype PacketVariant = Chunk ChunkPacket | Cohesive CohesivePacket

type_synonym DownPacket = ChunkPacket
type_synonym UpPacket = PacketVariant

fun packet_size_range :: "PacketVariant \<Rightarrow> OsiLayer \<Rightarrow> OsiLayer \<Rightarrow> nat" where
  "packet_size_range (Chunk p) from to = chunk_size_range from to p"
| "packet_size_range (Cohesive p) from to = cohesive_size_range from to p"

fun packet_size :: "PacketVariant \<Rightarrow> nat" where
  "packet_size (Chunk p) = chunk_size p"
| "packet_size (Cohesive p) = cohesive_size p"

fun create_byte_view :: "PacketVariant \<Rightarrow> OsiLayer \<Rightarrow> OsiLayer \<Rightarrow> bytes" where
  "create_byte_view (Chunk p) from to = chunk_bytes from to p"
| "create_byte_view (Cohesive p) from to = cohesive_bytes from to p"

fun serialize_packet :: "PacketVariant \<Rightarrow> bytes" where
  "serialize_packet (Chunk p) = serialize_chunk p"
| "serialize_packet (Cohesive p) = m_buffer p"

fun duplicate :: "PacketVariant \<Rightarrow> DownPacket" where
  "duplicate (Chunk p) = p"
| "duplicate (Cohesive p) = cohesive_layer p"

subsection \<open>Well-formed cohesive packets\<close>

definition cohesive_ok :: "CohesivePacket \<Rightarrow> bool" where
  "cohesive_ok p \<longleftrightarrow> length (m_iterators p) = 8 \<and> sorted (m_iterators p)
     \<and> hd (m_iterators p) = 0 \<and> last (m_iterators p) \<le> length (m_buffer p)"

lemma layer_index_bounds [simp]: "0 < layer_index l" "layer_index l < 8" "layer_index l - 1 < layer_index l"
  by (cases l; simp)+


definition slice :: "nat \<Rightarrow> nat \<Rightarrow> 'a list \<Rightarrow> 'a list" where
  "slice b e xs = take (e - b) (drop b xs)"

lemma length_slice: "e \<le> length xs \<Longrightarrow> length (slice b e xs) = e - b"
  by (simp add: slice_def)

lemma slice_append: "b \<le> m \<Longrightarrow> m \<le> e \<Longrightarrow> slice b m xs @ slice m e xs = slice b e xs"
proof -
  assume "b \<le> m" "m \<le> e"
  then have "slice b e xs = take ((m - b) + (e - m)) (drop b xs)" by (simp add: slice_def)
  also have "\<dots> = take (m - b) (drop b xs) @ take (e - m) (drop (m - b) (drop b xs))" by (rule take_add)
  finally show ?thesis using \<open>b \<le> m\<close> by (simp add: slice_def)
qed

lemma take_slice: "b + n \<le> e \<Longrightarrow> take n (slice b e xs) = slice b (b + n) xs"
  by (simp add: slice_def min_absorb1)

lemma drop_slice: "b + n \<le> e \<Longrightarrow> drop n (slice b e xs) = slice (b + n) e xs"
  by (simp add: slice_def drop_take add.commute)

lemma cohesive_layer_slice:
  "cohesive_layer p l = slice (m_iterators p ! (layer_index l - 1)) (m_iterators p ! layer_index l) (m_buffer p)"
  by (simp add: cohesive_layer_def slice_def Let_def)

lemma cohesive_bytes_slice:
  "cohesive_bytes f t p = slice (m_iterators p ! (layer_index f - 1)) (m_iterators p ! layer_index t) (m_buffer p)"
  by (simp add: cohesive_bytes_def slice_def Let_def)

lemma cohesive_ok_alt:
  "cohesive_ok p \<longleftrightarrow> length (m_iterators p) = 8 \<and> m_iterators p ! 0 = 0 \<and> m_iterators p ! 7 \<le> length (m_buffer p)
     \<and> (\<forall>i < 7. m_iterators p ! i \<le> m_iterators p ! Suc i)"
proof (cases "length (m_iterators p) = 8")
  case True
  then have "m_iterators p \<noteq> []" by auto
  with True show ?thesis by (auto simp: cohesive_ok_def sorted_iff_nth_Suc hd_conv_nth last_conv_nth)
qed (simp add: cohesive_ok_def)

lemma cohesive_ok_mono:
  assumes "cohesive_ok p" and "i \<le> j" and "j < 8"
  shows "m_iterators p ! i \<le> m_iterators p ! j"
  using assms by (auto simp: cohesive_ok_def sorted_nth_mono)

lemma cohesive_ok_end: "cohesive_ok p \<Longrightarrow> i < 8 \<Longrightarrow> m_iterators p ! i \<le> length (m_buffer p)"
  using cohesive_ok_mono [of p i 7] by (simp add: cohesive_ok_alt)

lemma cohesive_packet_ok: "cohesive_ok (cohesive_packet buffer layer)"
  by (cases layer) (simp_all add: cohesive_packet_def reset_iterators_def cohesive_ok_def max_osi_layer_def numeral_eq_Suc)

lemma set_boundary_ok:
  assumes ok: "cohesive_ok p" and s: "set_boundary l n p = Some p'"
  shows "cohesive_ok p'"
proof -
  let ?i = "layer_index l"
  have i: "0 < ?i" "?i < 8" by simp_all
  have n: "m_iterators p ! (?i - 1) + n \<le> m_iterators p ! ?i"
    using s cohesive_ok_mono [OF ok, of "?i - 1" ?i] cohesive_ok_end [OF ok, of ?i]
    by (auto simp: set_boundary_def cohesive_layer_slice length_slice split: if_splits)
  have p': "m_iterators p' = (m_iterators p)[?i := m_iterators p ! (?i - 1) + n]" "m_buffer p' = m_buffer p"
    using s by (auto simp: set_boundary_def split: if_splits)
  have len: "length (m_iterators p) = 8" using ok by (simp add: cohesive_ok_def)
  show ?thesis unfolding cohesive_ok_alt p'
  proof (intro conjI allI impI)
    show "length ((m_iterators p)[?i := m_iterators p ! (?i - 1) + n]) = 8" using len by simp
    show "(m_iterators p)[?i := m_iterators p ! (?i - 1) + n] ! 0 = 0" using ok i by (simp add: cohesive_ok_alt)
    show "(m_iterators p)[?i := m_iterators p ! (?i - 1) + n] ! 7 \<le> length (m_buffer p)"
      using n len cohesive_ok_end [OF ok, of 7] cohesive_ok_end [OF ok i(2)] by (auto simp: nth_list_update)
    fix k assume "k < (7 :: nat)"
    then show "(m_iterators p)[?i := m_iterators p ! (?i - 1) + n] ! k \<le> (m_iterators p)[?i := m_iterators p ! (?i - 1) + n] ! Suc k"
      using n len i cohesive_ok_mono [OF ok, of k "Suc k"] by (auto simp: nth_list_update)
  qed
qed

lemma trim_loop_nth:
  "distinct ks \<Longrightarrow> mx \<notin> set ks \<Longrightarrow> \<forall>k\<in>set ks. k < length its \<Longrightarrow>
   trim_loop its ks mx ! j = (if j \<in> set ks then min (its ! j) (its ! mx) else its ! j)
   \<and> length (trim_loop its ks mx) = length its"
  by (induction its ks mx rule: trim_loop.induct) (auto simp: nth_list_update min_def)

lemma trim_iterators:
  assumes ok: "cohesive_ok p" and j: "j < 8"
  shows "m_iterators (trim from n p) ! j =
    (if layer_index from - 1 \<le> j then min (m_iterators p ! j) (m_iterators p ! (layer_index from - 1) + n)
     else m_iterators p ! j) \<and> length (m_iterators (trim from n p)) = 8"
proof (cases "cohesive_size_range from max_osi_layer p > n")
  case True
  let ?f = "layer_index from - 1" and ?its = "(m_iterators p)[7 := m_iterators p ! (layer_index from - 1) + n]"
  have f: "?f < 7" using layer_index_bounds(2) [of "from"] layer_index_bounds(1) [of "from"] by linarith
  have len: "length (m_iterators p) = 8" using ok by (simp add: cohesive_ok_def)
  have t: "m_iterators (trim from n p) = trim_loop ?its [?f..<7] 7"
    using True by (simp add: trim_def Let_def max_osi_layer_def)
  have l: "trim_loop ?its [?f..<7] 7 ! j = (if j \<in> set [?f..<7] then min (?its ! j) (?its ! 7) else ?its ! j)
    \<and> length (trim_loop ?its [?f..<7] 7) = length ?its"
    using len by (intro trim_loop_nth) auto
  have big: "m_iterators p ! ?f + n < m_iterators p ! 7"
    using True by (simp add: cohesive_size_range_def max_osi_layer_def)
  have "j = 7 \<or> j < 7" using j by linarith
  then show ?thesis unfolding t using l len big f by (auto simp: nth_list_update)
next
  case False
  have "m_iterators p ! j \<le> m_iterators p ! 7" using cohesive_ok_mono [OF ok, of j 7] j by simp
  then show ?thesis using False ok
    by (auto simp: trim_def cohesive_size_range_def max_osi_layer_def min_def cohesive_ok_def)
qed

lemma trim_ok:
  assumes ok: "cohesive_ok p"
  shows "cohesive_ok (trim from n p)"
proof -
  note t = trim_iterators [OF ok, of _ "from" n]
  have b: "m_buffer (trim from n p) = m_buffer p" by (simp add: trim_def Let_def)
  have "m_iterators (trim from n p) ! i \<le> m_iterators (trim from n p) ! Suc i" if "i < 7" for i
    using that t [of i] t [of "Suc i"] cohesive_ok_mono [OF ok, of i "Suc i"]
      cohesive_ok_mono [OF ok, of i "layer_index from - 1"] by auto
  moreover have "m_iterators (trim from n p) ! 7 \<le> length (m_buffer p)"
    using t [of 7] cohesive_ok_end [OF ok, of 7] by (auto split: if_splits)
  moreover have "m_iterators (trim from n p) ! 0 = 0" using t [of 0] ok by (auto simp: cohesive_ok_alt)
  ultimately show ?thesis unfolding cohesive_ok_alt b using t [of 0] by simp
qed

lemma set_boundary_iterators:
  assumes ok: "cohesive_ok p" and s: "set_boundary l n p = Some p'" and j: "j < 8"
  shows "m_iterators p' ! j = (if j = layer_index l then m_iterators p ! (layer_index l - 1) + n else m_iterators p ! j)
    \<and> m_iterators p ! (layer_index l - 1) + n \<le> m_iterators p ! layer_index l \<and> m_buffer p' = m_buffer p"
proof -
  have "length (cohesive_layer p l) = m_iterators p ! layer_index l - m_iterators p ! (layer_index l - 1)"
    using cohesive_ok_end [OF ok, of "layer_index l"] by (simp add: cohesive_layer_slice length_slice)
  moreover have "m_iterators p ! (layer_index l - 1) \<le> m_iterators p ! layer_index l"
    using cohesive_ok_mono [OF ok, of "layer_index l - 1" "layer_index l"] by simp
  ultimately show ?thesis
    using s j ok by (auto simp: set_boundary_def cohesive_ok_def nth_list_update split: if_splits)
qed

subsection \<open>Properties\<close>

text \<open>Setting the boundary of a layer in a received packet, as every layer does when it has
  read its header, keeps the packet well-formed, leaves that layer with the given number of
  leading bytes, hands all remaining ones to the layer above in front of what that already
  had, and touches no other layer.\<close>

theorem set_boundary_splits:
  assumes "cohesive_ok p" and "set_boundary l n p = Some p'" and "layer_index u = Suc (layer_index l)"
  shows "cohesive_ok p' \<and> cohesive_layer p' l = take n (cohesive_layer p l)
    \<and> cohesive_layer p' u = drop n (cohesive_layer p l) @ cohesive_layer p u
    \<and> (\<forall>k. k = l \<or> k = u \<or> cohesive_layer p' k = cohesive_layer p k)"
proof (intro conjI allI)
  let ?i = "layer_index l"
  note it = set_boundary_iterators [OF assms(1,2)]
  have u: "Suc ?i < 8" using layer_index_bounds(2) [of u] assms(3) by simp
  have il: "?i < 8" by simp
  have "?i - 1 < 8" "?i - 1 \<noteq> ?i" using layer_index_bounds [of l] by linarith+
  then have pl: "m_iterators p' ! (?i - 1) = m_iterators p ! (?i - 1)" using it [of "?i - 1"] by simp
  have le: "m_iterators p ! (?i - 1) + n \<le> m_iterators p ! ?i" and buf: "m_buffer p' = m_buffer p"
    using it [of 0] by simp_all
  show "cohesive_ok p'" using assms(1,2) by (rule set_boundary_ok)
  show "cohesive_layer p' l = take n (cohesive_layer p l)"
    using it [OF il] le pl by (simp add: cohesive_layer_slice take_slice)
  have "cohesive_layer p' u = slice (m_iterators p ! (?i - 1) + n) (m_iterators p ! Suc ?i) (m_buffer p)"
    using it [OF il] it [OF u] buf assms(3) by (simp add: cohesive_layer_slice)
  also have "\<dots> = slice (m_iterators p ! (?i - 1) + n) (m_iterators p ! ?i) (m_buffer p)
      @ slice (m_iterators p ! ?i) (m_iterators p ! Suc ?i) (m_buffer p)"
    using le cohesive_ok_mono [OF assms(1), of ?i "Suc ?i"] u by (simp add: slice_append)
  finally show "cohesive_layer p' u = drop n (cohesive_layer p l) @ cohesive_layer p u"
    using le assms(3) by (simp add: cohesive_layer_slice drop_slice)
  fix k
  show "k = l \<or> k = u \<or> cohesive_layer p' k = cohesive_layer p k"
  proof (cases "k = l \<or> k = u")
    case False
    then have "layer_index k \<noteq> ?i" "layer_index k - 1 \<noteq> ?i"
      using assms(3) layer_index_inject layer_index_bounds(1) [of k] by (metis, metis Suc_pred' One_nat_def)
    moreover have "layer_index k - 1 < 8" using layer_index_bounds(2) [of k] by linarith
    ultimately show ?thesis
      using it [of "layer_index k"] it [of "layer_index k - 1"] by (simp add: cohesive_layer_slice)
  qed blast
qed

theorem set_boundary_splits_witness:
  "let p = cohesive_packet [1, 2, 3, 4] Network; p' = p\<lparr>m_iterators := [0, 0, 0, 3, 4, 4, 4, 4]\<rparr>
   in set_boundary Network 3 p = Some p' \<and> cohesive_layer p' Transport = [4]"
proof -
  let ?p = "cohesive_packet [1, 2, 3, 4] Network"
  have "set_boundary Network 3 ?p = Some (?p\<lparr>m_iterators := [0, 0, 0, 3, 4, 4, 4, 4]\<rparr>)" by code_simp
  moreover have "cohesive_layer ?p Network = [1, 2, 3, 4]" "cohesive_layer ?p Transport = []" by code_simp+
  ultimately show ?thesis
    using set_boundary_splits [OF cohesive_packet_ok, of Network 3 "[1, 2, 3, 4]" Network
        "?p\<lparr>m_iterators := [0, 0, 0, 3, 4, 4, 4, 4]\<rparr>" Transport]
    by (simp add: Let_def)
qed

text \<open>Trimming a packet cuts bytes at the end only: from the given layer on exactly the
  leading bytes up to the limit remain, lower layers keep their content, and the packet stays
  well-formed.\<close>

theorem trim_cuts_tail:
  assumes "cohesive_ok p"
  shows "cohesive_ok (trim from n p)
    \<and> cohesive_bytes from max_osi_layer (trim from n p) = take n (cohesive_bytes from max_osi_layer p)
    \<and> (\<forall>k. from \<le> k \<or> cohesive_layer (trim from n p) k = cohesive_layer p k)"
proof (intro conjI allI)
  let ?f = "layer_index from - 1"
  note t = trim_iterators [OF assms, of _ "from" n]
  have b: "m_buffer (trim from n p) = m_buffer p" by (simp add: trim_def Let_def)
  have f: "?f \<le> 7" "?f < 8" using layer_index_bounds(2) [of "from"] by linarith+
  show "cohesive_ok (trim from n p)" by (rule trim_ok [OF assms])
  have "m_iterators p ! ?f \<le> m_iterators p ! 7" by (rule cohesive_ok_mono [OF assms f(1)]) simp
  then have "cohesive_bytes from max_osi_layer (trim from n p)
      = slice (m_iterators p ! ?f) (min (m_iterators p ! 7) (m_iterators p ! ?f + n)) (m_buffer p)"
    using t [of 7] t [OF f(2)] f by (simp add: cohesive_bytes_slice max_osi_layer_def b)
  also have "\<dots> = take n (cohesive_bytes from max_osi_layer p)"
    by (simp add: cohesive_bytes_slice max_osi_layer_def slice_def min_def) (metis diff_le_mono2 le_antisym le_diff_conv add.commute)
  finally show "cohesive_bytes from max_osi_layer (trim from n p) = take n (cohesive_bytes from max_osi_layer p)" .
  fix k
  show "from \<le> k \<or> cohesive_layer (trim from n p) k = cohesive_layer p k"
  proof (cases "from \<le> k")
    case False
    then have k: "layer_index k \<le> ?f" by (simp add: less_eq_OsiLayer_def)
    then have "layer_index k - 1 < ?f" using layer_index_bounds(1) [of k] by linarith
    moreover have "m_iterators (trim from n p) ! layer_index k = m_iterators p ! layer_index k"
      using t [of "layer_index k"] t [OF f(2)] k f by (cases "layer_index k = ?f") auto
    ultimately show ?thesis using t [of "layer_index k - 1"] f b by (simp add: cohesive_layer_slice)
  qed simp
qed

theorem trim_cuts_tail_witness:
  "cohesive_bytes Network max_osi_layer (trim Network 2 (cohesive_packet [1, 2, 3, 4] Network)) = [1, 2]"
proof -
  have "cohesive_bytes Network max_osi_layer (cohesive_packet [1, 2, 3, 4] Network) = [1, 2, 3, 4]" by code_simp
  then show ?thesis using trim_cuts_tail [OF cohesive_packet_ok, of Network 2 "[1, 2, 3, 4]" Network] by simp
qed

end
