(* ===== verification/RuntimeQ.thy ===== *)
theory RuntimeQ
  imports Prelude
begin

text \<open>
  The manual runtime (\<open>vanetza/common/manual_runtime.cpp\<close>): a clock and a queue of scheduled
  callbacks. Callbacks are identifiers that an executor interprets. The record is extensible,
  so the state a callback works on extends the runtime it is scheduled in. The queue is the
  index \<open>by_deadline\<close>: sorted, equal deadlines in order of insertion.
\<close>

record ('cb, 'sc) Runtime =
  m_now :: time_point
  m_queue :: "(time_point \<times> 'cb \<times> 'sc option) list"

type_synonym ('cb, 'sc, 'z) executor =
  "'cb \<Rightarrow> time_point \<Rightarrow> ('cb, 'sc, 'z) Runtime_scheme \<Rightarrow> ('cb, 'sc, 'z) Runtime_scheme"

fun insert_upper :: "time_point \<times> 'a \<Rightarrow> (time_point \<times> 'a) list \<Rightarrow> (time_point \<times> 'a) list" where
  "insert_upper x [] = [x]"
| "insert_upper x (y # ys) = (if fst x < fst y then x # y # ys else y # insert_upper x ys)"

definition schedule_at ::
  "time_point \<Rightarrow> 'cb \<Rightarrow> 'sc option \<Rightarrow> ('cb, 'sc, 'z) Runtime_scheme \<Rightarrow> ('cb, 'sc, 'z) Runtime_scheme" where
  "schedule_at tp cb scope s = s\<lparr>m_queue := insert_upper (tp, cb, scope) (m_queue s)\<rparr>"

definition schedule_in ::
  "duration \<Rightarrow> 'cb \<Rightarrow> 'sc option \<Rightarrow> ('cb, 'sc, 'z) Runtime_scheme \<Rightarrow> ('cb, 'sc, 'z) Runtime_scheme" where
  "schedule_in d cb scope s = schedule_at (m_now s + d) cb scope s"

definition cancel ::
  "'sc option \<Rightarrow> ('cb, 'sc, 'z) Runtime_scheme \<Rightarrow> ('cb, 'sc, 'z) Runtime_scheme" where
  "cancel scope s = (case scope of None \<Rightarrow> s
     | Some sc \<Rightarrow> s\<lparr>m_queue := filter (\<lambda>(_, _, sc'). sc' \<noteq> Some sc) (m_queue s)\<rparr>)"

definition next_deadline :: "('cb, 'sc, 'z) Runtime_scheme \<Rightarrow> time_point" where
  "next_deadline s = (case m_queue s of [] \<Rightarrow> time_point_max | (d, _) # _ \<Rightarrow> d)"

text \<open>
  The loop of \<open>trigger()\<close> ends only if the callbacks stop scheduling expired work, hence a
  partial function: \<open>None\<close> means that it does not return.
\<close>

partial_function (option) trigger ::
  "('cb, 'sc, 'z) executor \<Rightarrow> ('cb, 'sc, 'z) Runtime_scheme \<Rightarrow> ('cb, 'sc, 'z) Runtime_scheme option" where
  "trigger run s = (case m_queue s of
      [] \<Rightarrow> Some s
    | (deadline, cb, scope) # rest \<Rightarrow>
        if deadline \<le> m_now s then trigger run (run cb deadline (s\<lparr>m_queue := rest\<rparr>)) else Some s)"

text \<open>\<open>None\<close> is also the failing assertion of a clock that runs backwards.\<close>

definition trigger_at ::
  "('cb, 'sc, 'z) executor \<Rightarrow> time_point \<Rightarrow> ('cb, 'sc, 'z) Runtime_scheme \<Rightarrow> ('cb, 'sc, 'z) Runtime_scheme option" where
  "trigger_at run tp s = (if m_now s \<le> tp then trigger run (s\<lparr>m_now := tp\<rparr>) else None)"

definition trigger_in ::
  "('cb, 'sc, 'z) executor \<Rightarrow> duration \<Rightarrow> ('cb, 'sc, 'z) Runtime_scheme \<Rightarrow> ('cb, 'sc, 'z) Runtime_scheme option" where
  "trigger_in run d s = trigger run (s\<lparr>m_now := m_now s + d\<rparr>)"

definition reset ::
  "('cb, 'sc, 'z) executor \<Rightarrow> time_point \<Rightarrow> ('cb, 'sc, 'z) Runtime_scheme \<Rightarrow> ('cb, 'sc, 'z) Runtime_scheme" where
  "reset run tp s =
     fold (\<lambda>(deadline, cb, scope) s. run cb deadline s) (m_queue s) (s\<lparr>m_now := tp, m_queue := []\<rparr>)"

subsection \<open>Queue order\<close>

definition queue_ok :: "('cb, 'sc, 'z) Runtime_scheme \<Rightarrow> bool" where
  "queue_ok s \<longleftrightarrow> sorted (map fst (m_queue s))"

definition expired_count :: "('cb, 'sc, 'z) Runtime_scheme \<Rightarrow> nat" where
  "expired_count s = length (filter (\<lambda>e. fst e \<le> m_now s) (m_queue s))"

lemma set_insert_upper [simp]: "set (insert_upper x ys) = insert x (set ys)"
  by (induction ys) auto

lemma sorted_insert_upper: "sorted (map fst ys) \<Longrightarrow> sorted (map fst (insert_upper x ys))"
  by (induction ys) auto

lemma length_filter_insert_upper:
  "length (filter P (insert_upper x ys)) = (if P x then 1 else 0) + length (filter P ys)"
  by (induction ys) auto

lemma insert_upper_stable:
  "\<forall>y\<in>set ys. fst y \<le> fst x \<Longrightarrow> insert_upper x ys = ys @ [x]"
  by (induction ys) auto

lemma schedule_at_simps [simp]:
  "m_now (schedule_at tp cb sc s) = m_now s"
  "queue_ok s \<Longrightarrow> queue_ok (schedule_at tp cb sc s)"
  "m_now s < tp \<Longrightarrow> expired_count (schedule_at tp cb sc s) = expired_count s"
  by (simp_all add: schedule_at_def queue_ok_def sorted_insert_upper expired_count_def length_filter_insert_upper)

lemma schedule_in_simps [simp]:
  "m_now (schedule_in d cb sc s) = m_now s"
  "queue_ok s \<Longrightarrow> queue_ok (schedule_in d cb sc s)"
  "0 < d \<Longrightarrow> expired_count (schedule_in d cb sc s) = expired_count s"
  by (simp_all add: schedule_in_def)

lemma sorted_map_filter: "sorted (map f xs) \<Longrightarrow> sorted (map f (filter P xs))"
  by (induction xs) auto

lemma length_filter_filter_le: "length (filter P (filter Q xs)) \<le> length (filter P xs)"
  by (induction xs) auto

lemma cancel_simps [simp]:
  "m_now (cancel sc s) = m_now s"
  "queue_ok s \<Longrightarrow> queue_ok (cancel sc s)"
  "expired_count (cancel sc s) \<le> expired_count s"
  by (auto simp: cancel_def queue_ok_def expired_count_def sorted_map_filter length_filter_filter_le
      simp del: filter_filter split: option.split)

lemma next_deadline_minimal:
  assumes "queue_ok s" and "e \<in> set (m_queue s)"
  shows "next_deadline s \<le> fst e"
  using assms by (cases "m_queue s") (auto simp: next_deadline_def queue_ok_def)

subsection \<open>Triggering ends and leaves nothing expired\<close>

text \<open>
  What the loop relies on: a callback neither turns the clock nor disturbs the queue order, and
  it schedules expired callbacks at most as often as it completes some work that is pending.
\<close>

locale timer_calls =
  fixes run :: "('cb, 'sc, 'z) executor"
    and ok :: "('cb, 'sc, 'z) Runtime_scheme \<Rightarrow> bool"
  assumes run_ok: "ok s \<Longrightarrow> ok (run cb d s)"
    and pop_ok: "ok s \<Longrightarrow> m_queue s = e # q \<Longrightarrow> ok (s\<lparr>m_queue := q\<rparr>)"
    and ok_queue: "ok s \<Longrightarrow> queue_ok s"
    and run_now: "ok s \<Longrightarrow> m_now (run cb d s) = m_now s"

locale timer_work = timer_calls +
  fixes work :: "('cb, 'sc, 'z) Runtime_scheme \<Rightarrow> nat"
  assumes pop_work: "work (s\<lparr>m_queue := q\<rparr>) = work s"
    and run_work: "ok s \<Longrightarrow> expired_count (run cb d s) + work (run cb d s) \<le> expired_count s + work s"
begin

lemma trigger_terminates:
  assumes "ok s"
  shows "\<exists>s'. trigger run s = Some s' \<and> ok s' \<and> m_now s' = m_now s \<and> expired_count s' = 0"
  using assms
proof (induction "expired_count s + work s" arbitrary: s rule: less_induct)
  case less
  show ?case
  proof (cases "m_queue s")
    case Nil
    then show ?thesis using less.prems by (subst trigger.simps) (simp add: expired_count_def)
  next
    case (Cons e q)
    obtain d cb sc where e: "e = (d, cb, sc)" by (cases e)
    show ?thesis
    proof (cases "d \<le> m_now s")
      case True
      let ?p = "s\<lparr>m_queue := q\<rparr>"
      let ?s = "run cb d ?p"
      have ok: "ok ?p" using pop_ok less.prems Cons by blast
      have "expired_count ?s + work ?s \<le> expired_count ?p + work ?p" by (rule run_work [OF ok])
      also have "\<dots> < expired_count s + work s" using Cons e True by (simp add: expired_count_def pop_work)
      finally have "expired_count ?s + work ?s < expired_count s + work s" .
      from less.hyps [OF this run_ok [OF ok]] obtain s' where
        "trigger run ?s = Some s'" "ok s'" "m_now s' = m_now ?s" "expired_count s' = 0" by blast
      moreover have "trigger run s = trigger run ?s"
        by (subst trigger.simps) (simp add: Cons e True)
      ultimately show ?thesis using run_now [OF ok] by simp
    next
      case False
      have "sorted (map fst (m_queue s))" using ok_queue [OF less.prems] by (simp add: queue_ok_def)
      with Cons e False have "expired_count s = 0" by (auto simp: expired_count_def filter_empty_conv)
      moreover have "trigger run s = Some s" by (subst trigger.simps) (simp add: Cons e False)
      ultimately show ?thesis using less.prems by simp
    qed
  qed
qed

end

text \<open>A client whose callbacks schedule into the future only.\<close>

locale timer_client = timer_calls +
  assumes run_future: "ok s \<Longrightarrow> expired_count (run cb d s) \<le> expired_count s"

sublocale timer_client \<subseteq> timer_work run ok "\<lambda>_. 0"
  by unfold_locales (auto simp: run_future)

end
