(* ===== verification/Requests.thy ===== *)
theory Requests
  imports GnHeaders Packets RuntimeQ
begin

text \<open>
  The management information base, data requests with their validation, the header
  constructors that use them, and the repeater of requests (\<open>vanetza/geonet/mib.cpp\<close>,
  \<open>data_request.cpp\<close>, \<open>data_confirm.cpp\<close>, \<open>repeater.cpp\<close>, the constructors of
  \<open>basic_header.cpp\<close> and \<open>common_header.cpp\<close>). Durations of the unit library are reals in
  seconds, lengths in metres, areas in square metres and angles in radians.
\<close>

subsection \<open>Management information base\<close>

datatype UnicastForwarding = UF_Unspecified | UF_Greedy | UF_CBF

datatype BroadcastForwarding = BF_Unspecified | BF_SIMPLE | BF_CBF | BF_Advanced

datatype AddrConfMethod = Auto | Managed | Anonymous

datatype InterfaceType = IF_Unspecified | ITS_G5 | LTE_V2X

datatype SecurityDecapHandling = Strict | Non_Strict

record MIB =
  itsGnLocalGnAddr :: Address
  itsGnLocalAddrConfMethod :: AddrConfMethod
  itsGnProtocolVersion :: nat
  itsGnIsMobile :: bool
  itsGnIfType :: InterfaceType
  itsGnMinimumUpdateFrequencyEPV :: real
  itsGnPaiInterval :: real
  itsGnMaxSduSize :: nat
  itsGnMaxGeoNetworkingHeaderSize :: nat
  itsGnLifetimeLocTE :: real
  itsGnSecurity :: bool
  itsGnSnDecapResultHandling :: SecurityDecapHandling
  itsGnLocationServiceMaxRetrans :: nat
  itsGnLocationServiceRetransmitTimer :: real
  itsGnLocationServicePacketBufferSize :: nat
  itsGnBeaconServiceRetransmitTimer :: real
  itsGnBeaconServiceMaxJitter :: real
  itsGnDefaultHopLimit :: nat
  itsGnDPLLength :: nat
  itsGnMaxPacketLifetime :: Lifetime
  itsGnDefaultPacketLifetime :: Lifetime
  itsGnMaxPacketDataRate :: u32
  itsGnMaxPacketDataRateEmaBeta :: real
  itsGnMaxGeoAreaSize :: real
  itsGnMinPacketRepetitionInterval :: real
  itsGnNonAreaForwardingAlgorithm :: UnicastForwarding
  itsGnAreaForwardingAlgorithm :: BroadcastForwarding
  itsGnCbfMinTime :: real
  itsGnCbfMaxTime :: real
  itsGnDefaultMaxCommunicationRange :: real
  itsGnBroadcastCBFDefSectorAngle :: real
  itsGnUcForwardingPacketBufferSize :: nat
  itsGnBcForwardingPacketBufferSize :: nat
  itsGnCbfPacketBufferSize :: nat
  itsGnDefaultTrafficClass :: TrafficClass
  vanetzaDefaultSeed :: u32
  vanetzaCbfMaxCounter :: nat
  vanetzaDeferInitialBeacon :: duration
  vanetzaDisableBeaconing :: bool
  vanetzaMultiHopDuplicateAddressDetection :: bool
  vanetzaFadingCbfCounter :: bool
  vanetzaFadingCbfCounterLifetime :: real
  vanetzaNeighbourFlagExpiry :: duration
  vanetzaGbcMemoryCapacity :: nat
  vanetzaGbcPassUpOutsideDestination :: bool

definition mib_default :: MIB where
  "mib_default = \<lparr>
     itsGnLocalGnAddr = address_default,
     itsGnLocalAddrConfMethod = Managed,
     itsGnProtocolVersion = 1,
     itsGnIsMobile = True,
     itsGnIfType = ITS_G5,
     itsGnMinimumUpdateFrequencyEPV = 1,
     itsGnPaiInterval = 80,
     itsGnMaxSduSize = 1398,
     itsGnMaxGeoNetworkingHeaderSize = 88,
     itsGnLifetimeLocTE = 20,
     itsGnSecurity = False,
     itsGnSnDecapResultHandling = Strict,
     itsGnLocationServiceMaxRetrans = 10,
     itsGnLocationServiceRetransmitTimer = 1,
     itsGnLocationServicePacketBufferSize = 1024,
     itsGnBeaconServiceRetransmitTimer = 3,
     itsGnBeaconServiceMaxJitter = 3 / 4,
     itsGnDefaultHopLimit = 10,
     itsGnDPLLength = 8,
     itsGnMaxPacketLifetime = lifetime_set Hundred_Seconds 6,
     itsGnDefaultPacketLifetime = lifetime_set Ten_Seconds 6,
     itsGnMaxPacketDataRate = 100,
     itsGnMaxPacketDataRateEmaBeta = 9 / 10,
     itsGnMaxGeoAreaSize = 10 * 1000 * 1000,
     itsGnMinPacketRepetitionInterval = 1 / 10,
     itsGnNonAreaForwardingAlgorithm = UF_Greedy,
     itsGnAreaForwardingAlgorithm = BF_CBF,
     itsGnCbfMinTime = 1 / 1000,
     itsGnCbfMaxTime = 1 / 10,
     itsGnDefaultMaxCommunicationRange = 1000,
     itsGnBroadcastCBFDefSectorAngle = 30 * pi / 180,
     itsGnUcForwardingPacketBufferSize = 256,
     itsGnBcForwardingPacketBufferSize = 1024,
     itsGnCbfPacketBufferSize = 256,
     itsGnDefaultTrafficClass = traffic_class False False 0,
     vanetzaDefaultSeed = 0xc0114c2c,
     vanetzaCbfMaxCounter = 1,
     vanetzaDeferInitialBeacon = 0,
     vanetzaDisableBeaconing = False,
     vanetzaMultiHopDuplicateAddressDetection = False,
     vanetzaFadingCbfCounter = False,
     vanetzaFadingCbfCounterLifetime = 4 * (1 / 10),
     vanetzaNeighbourFlagExpiry = 0,
     vanetzaGbcMemoryCapacity = 0,
     vanetzaGbcPassUpOutsideDestination = False\<rparr>"

subsection \<open>Requests\<close>

datatype UpperProtocol = UP_Unknown | UP_BTP_A | UP_BTP_B | UP_IPv6

datatype TransportType = GUC | GAC | GBC | TSB | SHB

type_synonym CommunicationProfile = InterfaceType
type_synonym ItsAid = u32

record Repetition =
  interval :: real
  maximum :: real

record DataRequest =
  upper_protocol :: UpperProtocol
  communication_profile :: CommunicationProfile
  its_aid :: ItsAid
  permissions :: bytes
  security_context :: bytes
  maximum_lifetime :: Lifetime
  repetition :: "Repetition option"
  max_hop_limit :: nat
  request_traffic_class :: TrafficClass

definition data_request :: "MIB \<Rightarrow> ItsAid \<Rightarrow> DataRequest" where
  "data_request mib aid = \<lparr>upper_protocol = UP_BTP_A, communication_profile = IF_Unspecified, its_aid = aid,
     permissions = [], security_context = [], maximum_lifetime = itsGnDefaultPacketLifetime mib, repetition = None,
     max_hop_limit = itsGnDefaultHopLimit mib, request_traffic_class = itsGnDefaultTrafficClass mib\<rparr>"

datatype DataRequestVariant = GucDataRequest DataRequest Address | GbcDataRequest DataRequest Area
  | GacDataRequest DataRequest Area | ShbDataRequest DataRequest | TsbDataRequest DataRequest

fun access_request :: "DataRequestVariant \<Rightarrow> DataRequest" where
  "access_request (GucDataRequest r _) = r"
| "access_request (GbcDataRequest r _) = r"
| "access_request (GacDataRequest r _) = r"
| "access_request (ShbDataRequest r) = r"
| "access_request (TsbDataRequest r) = r"

text \<open>Writing through the reference that \<open>access_request\<close> returns.\<close>

fun with_request :: "DataRequest \<Rightarrow> DataRequestVariant \<Rightarrow> DataRequestVariant" where
  "with_request r (GucDataRequest _ a) = GucDataRequest r a"
| "with_request r (GbcDataRequest _ a) = GbcDataRequest r a"
| "with_request r (GacDataRequest _ a) = GacDataRequest r a"
| "with_request r (ShbDataRequest _) = ShbDataRequest r"
| "with_request r (TsbDataRequest _) = TsbDataRequest r"

text \<open>The durations of a repetition are doubles, so that repeated subtraction accumulates rounding.\<close>

definition decrement_by_one :: "Repetition \<Rightarrow> Repetition" where
  "decrement_by_one r =
    (if maximum r > 0 \<and> interval r > 0 \<and> maximum r > interval r
     then r\<lparr>maximum := round_double (maximum r - interval r)\<rparr> else r\<lparr>maximum := 0\<rparr>)"

definition repetition_left :: "Repetition \<Rightarrow> bool" where
  "repetition_left r \<longleftrightarrow> maximum r > 0 \<and> interval r > 0 \<and> maximum r \<ge> interval r"

definition has_further_repetition :: "DataRequest \<Rightarrow> bool" where
  "has_further_repetition r = (case repetition r of None \<Rightarrow> False | Some rep \<Rightarrow> repetition_left rep)"

subsection \<open>Confirmation\<close>

datatype ResultCode = Accepted | Rejected_Max_SDU_Size | Rejected_Max_Lifetime | Rejected_Min_Repetition_Interval
  | Rejected_Unsupported_Traffic_Class | Rejected_Max_Geo_Area_Size | Rejected_Unspecified

definition confirm_xor :: "ResultCode \<Rightarrow> ResultCode \<Rightarrow> ResultCode" where
  "confirm_xor lhs rhs = (if rhs \<noteq> Accepted then rhs else lhs)"

definition validate_data_request :: "MIB \<Rightarrow> DataRequest \<Rightarrow> ResultCode" where
  "validate_data_request mib req =
    (if lifetime_less (itsGnMaxPacketLifetime mib) (maximum_lifetime req) then Rejected_Max_Lifetime
     else if (case repetition req of None \<Rightarrow> False | Some rep \<Rightarrow> interval rep < itsGnMinPacketRepetitionInterval mib)
     then Rejected_Min_Repetition_Interval
     else Accepted)"

definition validate_area_request :: "MIB \<Rightarrow> DataRequest \<Rightarrow> Area \<Rightarrow> ResultCode" where
  "validate_area_request mib req dest =
    (if area_size dest > itsGnMaxGeoAreaSize mib then Rejected_Max_Geo_Area_Size
     else validate_data_request mib req)"

definition validate_payload :: "MIB \<Rightarrow> DownPacket option \<Rightarrow> ResultCode" where
  "validate_payload mib p = (case p of
      None \<Rightarrow> Rejected_Unspecified
    | Some p \<Rightarrow> if chunk_size p > itsGnMaxSduSize mib then Rejected_Max_SDU_Size else Accepted)"

subsection \<open>Header constructors\<close>

definition basic_of_mib :: "MIB \<Rightarrow> BasicHeader" where
  "basic_of_mib mib = \<lparr>version = of_nat (itsGnProtocolVersion mib), bh_next_header = NHB_Any, reserved = 0,
     lifetime = itsGnDefaultPacketLifetime mib, hop_limit = of_nat (itsGnDefaultHopLimit mib)\<rparr>"

definition basic_of_request :: "DataRequest \<Rightarrow> MIB \<Rightarrow> BasicHeader" where
  "basic_of_request req mib = (basic_of_mib mib)\<lparr>
     bh_next_header := if itsGnSecurity mib then NHB_Secured else NHB_Common,
     lifetime := maximum_lifetime req, hop_limit := of_nat (max_hop_limit req)\<rparr>"

definition common_of_mib :: "MIB \<Rightarrow> CommonHeader" where
  "common_of_mib mib = \<lparr>ch_next_header = NHC_Any, reserved1 = 0, header_type = HT_Any,
     traffic_class_field = itsGnDefaultTrafficClass mib, flags = if itsGnIsMobile mib then 0x80 else 0,
     payload = 0, maximum_hop_limit = of_nat (itsGnDefaultHopLimit mib), reserved2 = 0\<rparr>"

fun next_header_of_protocol :: "UpperProtocol \<Rightarrow> NextHeaderCommon" where
  "next_header_of_protocol UP_BTP_A = NHC_BTP_A"
| "next_header_of_protocol UP_BTP_B = NHC_BTP_B"
| "next_header_of_protocol UP_IPv6 = NHC_IPv6"
| "next_header_of_protocol UP_Unknown = NHC_Any"

definition common_of_request :: "DataRequest \<Rightarrow> MIB \<Rightarrow> CommonHeader" where
  "common_of_request req mib = (common_of_mib mib)\<lparr>ch_next_header := next_header_of_protocol (upper_protocol req),
     traffic_class_field := request_traffic_class req, maximum_hop_limit := of_nat (max_hop_limit req)\<rparr>"

subsection \<open>Repeater\<close>

text \<open>
  Pending repetitions are numbered: the number stands for the list iterator that is bound to
  the scheduled callback.
\<close>

record Repeater =
  m_repetitions :: "(nat \<times> DataRequestVariant \<times> DownPacket) list"
  m_next_repetition :: nat

definition repeater_init :: Repeater where
  "repeater_init = \<lparr>m_repetitions = [], m_next_repetition = 0\<rparr>"

definition repeater_add ::
  "(nat \<Rightarrow> 'cb) \<Rightarrow> 'sc \<Rightarrow> DataRequestVariant \<Rightarrow> DownPacket \<Rightarrow> Repeater \<Rightarrow> ('cb, 'sc, 'z) Runtime_scheme
     \<Rightarrow> Repeater \<times> ('cb, 'sc, 'z) Runtime_scheme" where
  "repeater_add cb this req p r rt = (case repetition (access_request req) of
      None \<Rightarrow> (r, rt)
    | Some rep \<Rightarrow>
        if repetition_left rep then
          (let n = m_next_repetition r
           in (\<lparr>m_repetitions = (n, req, p) # m_repetitions r, m_next_repetition = Suc n\<rparr>,
               schedule_at (m_now rt + clock_cast (interval rep)) (cb n) (Some this) rt))
        else (r, rt))"

text \<open>The request that a due repetition makes, and the repeater without it.\<close>

definition repeater_trigger ::
  "nat \<Rightarrow> time_point \<Rightarrow> time_point \<Rightarrow> Repeater \<Rightarrow> (DataRequestVariant \<times> DownPacket) option \<times> Repeater" where
  "repeater_trigger n invocation now r = (case map_of (m_repetitions r) n of
      None \<Rightarrow> (None, r)
    | Some (v, p) \<Rightarrow>
        (let request = access_request v;
             rep = (case repetition request of
                 None \<Rightarrow> None
               | Some rep \<Rightarrow>
                   let rep = decrement_by_one rep;
                       rep = rep\<lparr>maximum := round_double (maximum rep - clock_cast_sec (now - invocation))\<rparr>
                   in if repetition_left rep then Some rep else None)
         in (Some (with_request (request\<lparr>repetition := rep\<rparr>) v, p),
             r\<lparr>m_repetitions := filter (\<lambda>(k, _). k \<noteq> n) (m_repetitions r)\<rparr>)))"

subsection \<open>How often a request is repeated\<close>

text \<open>The repetition a request carries after it was repeated in time.\<close>

definition reduced_repetition :: "Repetition \<Rightarrow> Repetition" where
  "reduced_repetition r = (decrement_by_one r)\<lparr>maximum := round_double (maximum (decrement_by_one r))\<rparr>"

definition next_repetition :: "Repetition option \<Rightarrow> Repetition option" where
  "next_repetition r = (case r of None \<Rightarrow> None
     | Some rep \<Rightarrow> if repetition_left (reduced_repetition rep) then Some (reduced_repetition rep) else None)"

definition repeated_request :: "DataRequestVariant \<Rightarrow> DataRequestVariant" where
  "repeated_request v = with_request ((access_request v)\<lparr>repetition := next_repetition (repetition (access_request v))\<rparr>) v"

lemma with_request_simps [simp]:
  "access_request (with_request r v) = r" "with_request r' (with_request r v) = with_request r' v"
  "with_request (access_request v) v = v"
  by (cases v; simp)+

lemma repeater_trigger_on_time:
  assumes "map_of (m_repetitions r) n = Some (v, p)"
  shows "fst (repeater_trigger n t t r) = Some (repeated_request v, p)"
  using assms by (simp add: repeater_trigger_def Let_def next_repetition_def repeated_request_def reduced_repetition_def
      clock_cast_sec_def split: option.split)

text \<open>
  How often a request is repeated if each repetition is triggered in time: the repeater is asked
  to repeat the request, and what it then requests is given to it again, as the router does. The
  first argument limits the number of rounds, because a maximum that is much larger than the
  interval does not change when the interval is subtracted from it.
\<close>

fun repeats :: "nat \<Rightarrow> DataRequestVariant \<Rightarrow> DownPacket \<Rightarrow> nat option" where
  "repeats 0 v p = None"
| "repeats (Suc fuel) v p = (case repeater_add id () v p repeater_init \<lparr>m_now = 0, m_queue = []\<rparr> of
      (r, rt) \<Rightarrow> (case m_queue rt of [] \<Rightarrow> Some 0
       | (_, n, _) # _ \<Rightarrow> (case fst (repeater_trigger n 0 0 r) of None \<Rightarrow> Some 1
           | Some (v', p') \<Rightarrow> map_option Suc (repeats fuel v' p'))))"

lemma repeats_Suc:
  "repeats (Suc fuel) v p = (if has_further_repetition (access_request v) then map_option Suc (repeats fuel (repeated_request v) p) else Some 0)"
  by (simp add: repeater_add_def has_further_repetition_def schedule_at_def repeater_init_def Let_def repeater_trigger_on_time
      split: option.split)

declare repeats.simps(2) [simp del]

text \<open>A repetition takes an interval from the maximum, up to a small fraction of the interval.\<close>

lemma reduced_repetition_bounds:
  assumes "0 < interval r" and "interval r \<le> maximum r" and "maximum r \<le> 2 ^ 24 * interval r"
  shows "interval (reduced_repetition r) = interval r" and "0 \<le> maximum (reduced_repetition r)"
    and "\<bar>maximum (reduced_repetition r) - (maximum r - interval r)\<bar> \<le> interval r / 2 ^ 26"
proof -
  let ?d = "maximum r - interval r"
  let ?x = "maximum (decrement_by_one r)"
  have x: "0 \<le> ?x" "?x \<le> ?d + ?d / 2 ^ 53" "?d - ?d / 2 ^ 53 \<le> ?x"
    using assms(1,2) round_double_bounds [of ?d] by (simp_all add: decrement_by_one_def)
  have m: "maximum (reduced_repetition r) = round_double ?x" by (simp add: reduced_repetition_def)
  note y = round_double_bounds [OF x(1)]
  show "interval (reduced_repetition r) = interval r" by (simp add: reduced_repetition_def decrement_by_one_def)
  show "0 \<le> maximum (reduced_repetition r)" unfolding m by (rule y(1))
  have d: "0 \<le> ?d" "?d \<le> 2 ^ 24 * interval r" using assms by simp_all
  have "?x / 2 ^ 53 \<le> ?d / 2 ^ 52" using x(2) d(1) by (simp add: field_simps)
  moreover have "?d / 2 ^ 53 + ?d / 2 ^ 52 \<le> interval r / 2 ^ 26" using d assms(1) by (simp add: field_simps)
  ultimately show "\<bar>maximum (reduced_repetition r) - ?d\<bar> \<le> interval r / 2 ^ 26"
    unfolding m using x(2,3) y(2,3) by linarith
qed

lemma repeats_bounds:
  assumes "repetition (access_request v) = Some r" and "0 < interval r" and "0 \<le> maximum r" and "maximum r \<le> 2 ^ 24 * interval r"
    and "maximum r < real fuel * (interval r - interval r / 2 ^ 26)"
  shows "\<exists>n. repeats fuel v p = Some n \<and> (n = 0 \<longleftrightarrow> maximum r < interval r)
    \<and> real n * (interval r - interval r / 2 ^ 26) \<le> maximum r
    \<and> maximum r < real n * (interval r + interval r / 2 ^ 26) + interval r"
  using assms
proof (induction fuel arbitrary: v r)
  case (Suc fuel)
  define i where "i = interval r"
  define e where "e = i / 2 ^ 26"
  have i: "0 < i" "0 < e" "e < i" using Suc.prems(2) by (simp_all add: i_def e_def)
  show ?case
  proof (cases "maximum r < i")
    case True
    then have "\<not> has_further_repetition (access_request v)"
      using Suc.prems(1) by (simp add: has_further_repetition_def repetition_left_def i_def)
    then show ?thesis using True Suc.prems(3) by (intro exI [of _ 0]) (simp add: repeats_Suc i_def)
  next
    case False
    then have h: "has_further_repetition (access_request v)"
      using Suc.prems(1,2) by (simp add: has_further_repetition_def repetition_left_def i_def)
    define r' where "r' = reduced_repetition r"
    have r': "interval r' = i" "0 \<le> maximum r'" "\<bar>maximum r' - (maximum r - i)\<bar> \<le> e"
      using reduced_repetition_bounds [OF Suc.prems(2) _ Suc.prems(4)] False by (simp_all add: r'_def i_def e_def)
    have nv: "repetition (access_request (repeated_request v)) = (if repetition_left r' then Some r' else None)"
      by (simp add: repeated_request_def next_repetition_def Suc.prems(1) r'_def)
    have f: "maximum r < real fuel * (i - e) + (i - e)" using Suc.prems(5) by (simp add: i_def e_def algebra_simps)
    show ?thesis
    proof (cases "maximum r' < i")
      case True
      then have n: "\<not> has_further_repetition (access_request (repeated_request v))"
        by (simp add: has_further_repetition_def nv repetition_left_def r'(1))
      have "\<not> maximum r < real 0 * (i - e) + (i - e)" using False i by simp
      then have "fuel \<noteq> 0" using f by metis
      then obtain k where "fuel = Suc k" by (cases fuel) simp_all
      then have "repeats (Suc fuel) v p = Some 1" using n h by (simp add: repeats_Suc)
      then show ?thesis using True False i r'(3) unfolding i_def [symmetric] e_def [symmetric]
        by (intro exI [of _ 1]) (simp add: abs_le_iff)
    next
      case left: False
      have "maximum r' \<le> maximum r - (i - e)" using r'(3) by linarith
      moreover have "maximum r \<le> 2 ^ 24 * i" using Suc.prems(4) by (simp add: i_def)
      ultimately have "maximum r' \<le> 2 ^ 24 * interval r'" "maximum r' < real fuel * (interval r' - interval r' / 2 ^ 26)"
        using f i by (simp_all add: r'(1)) (simp add: e_def i_def)
      moreover have "repetition (access_request (repeated_request v)) = Some r'" "0 < interval r'"
        using nv left r'(1) i by (simp_all add: repetition_left_def)
      ultimately obtain n where n: "repeats fuel (repeated_request v) p = Some n"
        "real n * (i - e) \<le> maximum r'" "maximum r' < real n * (i + e) + i"
        using Suc.IH [of "repeated_request v" r'] r'(1,2) by (auto simp: e_def i_def)
      then have "repeats (Suc fuel) v p = Some (Suc n)" using h by (simp add: repeats_Suc)
      then show ?thesis using n(2,3) r'(3) False unfolding i_def [symmetric] e_def [symmetric]
        by (intro exI [of _ "Suc n"]) (simp add: abs_le_iff algebra_simps)
    qed
  qed
qed simp

subsection \<open>Properties\<close>



text \<open>A data request is accepted exactly if there is a payload that respects the maximum
  SDU size, the lifetime and the repetition interval respect their bounds and, for a request
  with a destination area, the area is not too large.\<close>

theorem request_accepted_iff:
  "confirm_xor (confirm_xor Accepted (validate_area_request mib req dest)) (validate_payload mib p) = Accepted
   \<longleftrightarrow> area_size dest \<le> itsGnMaxGeoAreaSize mib
     \<and> lifetime_decode (maximum_lifetime req) \<le> lifetime_decode (itsGnMaxPacketLifetime mib)
     \<and> (\<nexists>r. repetition req = Some r \<and> interval r < itsGnMinPacketRepetitionInterval mib)
     \<and> (\<exists>sdu. p = Some sdu \<and> chunk_size sdu \<le> itsGnMaxSduSize mib)"
  by (auto simp: confirm_xor_def validate_area_request_def validate_data_request_def validate_payload_def
      lifetime_less_def not_less split: option.splits)

end
