(* ===== verification/SoftState.thy ===== *)
theory SoftState
  imports Prelude
begin

text \<open>
  \<open>SoftStateMap\<close> (\<open>vanetza/geonet/soft_state_map.hpp\<close>): a hash map of values with a heap of
  expiry times. The hash map is an association list whose order is the iteration order; the
  heap is the list of its nodes, in any order, each node found again by the key it carries
  (what a handle does); \<open>top\<close> is a node of minimal expiry, the first one in list order. The
  clock reading and the value made by the creator are arguments.
\<close>

record ('k, 'v) SoftStateMap =
  ss_lifetime :: duration
  ss_heap :: "('k \<times> time_point) list"
  ss_map :: "('k \<times> 'v) list"

definition ss_empty :: "duration \<Rightarrow> ('k, 'v) SoftStateMap" where
  "ss_empty lt = \<lparr>ss_lifetime = lt, ss_heap = [], ss_map = []\<rparr>"

definition set_lifetime :: "duration \<Rightarrow> ('k, 'v) SoftStateMap \<Rightarrow> ('k, 'v) SoftStateMap" where
  "set_lifetime lt m = m\<lparr>ss_lifetime := lt\<rparr>"

definition is_expired :: "time_point \<Rightarrow> time_point \<Rightarrow> bool" where
  "is_expired now expiry \<longleftrightarrow> now > expiry"

definition get_data_ptr :: "'k \<Rightarrow> ('k, 'v) SoftStateMap \<Rightarrow> ('v \<times> time_point) option" where
  "get_data_ptr key m = (case (map_of (ss_map m) key, map_of (ss_heap m) key) of
      (Some v, Some e) \<Rightarrow> Some (v, e)
    | _ \<Rightarrow> None)"

definition get_value_ptr :: "time_point \<Rightarrow> 'k \<Rightarrow> ('k, 'v) SoftStateMap \<Rightarrow> 'v option" where
  "get_value_ptr now key m = (case get_data_ptr key m of
      None \<Rightarrow> None
    | Some (v, e) \<Rightarrow> if is_expired now e then None else Some v)"

definition has_value :: "time_point \<Rightarrow> 'k \<Rightarrow> ('k, 'v) SoftStateMap \<Rightarrow> bool" where
  "has_value now key m \<longleftrightarrow> get_value_ptr now key m \<noteq> None"

definition assign :: "'k \<Rightarrow> 'v \<Rightarrow> ('k \<times> 'v) list \<Rightarrow> ('k \<times> 'v) list" where
  "assign key v = map (\<lambda>(k, w). if k = key then (k, v) else (k, w))"

definition refresh_handle :: "time_point \<Rightarrow> 'k \<Rightarrow> ('k, 'v) SoftStateMap \<Rightarrow> ('k, 'v) SoftStateMap" where
  "refresh_handle now key m = m\<lparr>ss_heap := assign key (now + ss_lifetime m) (ss_heap m)\<rparr>"

definition get_data :: "time_point \<Rightarrow> 'v \<Rightarrow> 'k \<Rightarrow> ('k, 'v) SoftStateMap \<Rightarrow> ('k, 'v) SoftStateMap" where
  "get_data now created key m = (case get_data_ptr key m of
      None \<Rightarrow> m\<lparr>ss_map := (key, created) # ss_map m, ss_heap := (key, now + ss_lifetime m) # ss_heap m\<rparr>
    | Some (v, e) \<Rightarrow> if is_expired now e then refresh_handle now key m else m)"

text \<open>
  Functions that return a reference return the map in which the entry exists; the caller reads
  it with \<open>value_at\<close> and writes through it with \<open>set_value\<close>.
\<close>

definition get_value :: "time_point \<Rightarrow> 'v \<Rightarrow> 'k \<Rightarrow> ('k, 'v) SoftStateMap \<Rightarrow> ('k, 'v) SoftStateMap" where
  "get_value now created key m = get_data now created key m"

definition refresh :: "time_point \<Rightarrow> 'v \<Rightarrow> 'k \<Rightarrow> ('k, 'v) SoftStateMap \<Rightarrow> ('k, 'v) SoftStateMap" where
  "refresh now created key m = (case get_data_ptr key m of
      Some _ \<Rightarrow> refresh_handle now key m
    | None \<Rightarrow> get_data now created key m)"

definition value_at :: "'v \<Rightarrow> 'k \<Rightarrow> ('k, 'v) SoftStateMap \<Rightarrow> 'v" where
  "value_at dflt key m = (case map_of (ss_map m) key of Some v \<Rightarrow> v | None \<Rightarrow> dflt)"

definition set_value :: "'k \<Rightarrow> 'v \<Rightarrow> ('k, 'v) SoftStateMap \<Rightarrow> ('k, 'v) SoftStateMap" where
  "set_value key v m = m\<lparr>ss_map := assign key v (ss_map m)\<rparr>"

fun heap_top :: "('k \<times> time_point) list \<Rightarrow> ('k \<times> time_point) option" where
  "heap_top [] = None"
| "heap_top (x # xs) = (case heap_top xs of
      None \<Rightarrow> Some x
    | Some y \<Rightarrow> if snd x \<le> snd y then Some x else Some y)"

lemma heap_top_None [simp]: "heap_top h = None \<longleftrightarrow> h = []"
  by (cases h) (auto split: option.splits)

lemma heap_top_in: "heap_top h = Some x \<Longrightarrow> x \<in> set h"
  by (induction h) (auto split: option.splits if_splits)

lemma heap_top_min: "heap_top h = Some x \<Longrightarrow> y \<in> set h \<Longrightarrow> snd x \<le> snd y"
  by (induction h arbitrary: x) (fastforce split: option.splits if_splits)+

function drop_expired_from ::
  "time_point \<Rightarrow> ('k \<times> time_point) list \<Rightarrow> ('k \<times> 'v) list \<Rightarrow> ('k \<times> time_point) list \<times> ('k \<times> 'v) list" where
  "drop_expired_from now h m = (case heap_top h of
      Some (key, e) \<Rightarrow>
        if is_expired now e
        then drop_expired_from now (remove1 (key, e) h) (filter (\<lambda>(k, _). k \<noteq> key) m)
        else (h, m)
    | None \<Rightarrow> (h, m))"
  by pat_completeness auto
termination
  by (relation "measure (\<lambda>(_, h, _). length h)")
    (auto simp: length_remove1 dest!: heap_top_in, metis diff_Suc_less length_pos_if_in_set)

definition drop_expired :: "time_point \<Rightarrow> ('k, 'v) SoftStateMap \<Rightarrow> ('k, 'v) SoftStateMap" where
  "drop_expired now m =
    (let (h, mp) = drop_expired_from now (ss_heap m) (ss_map m) in m\<lparr>ss_heap := h, ss_map := mp\<rparr>)"

definition ss_range :: "time_point \<Rightarrow> ('k, 'v) SoftStateMap \<Rightarrow> ('k \<times> 'v) list" where
  "ss_range now m = filter (\<lambda>(k, _). case map_of (ss_heap m) k of Some e \<Rightarrow> \<not> is_expired now e | None \<Rightarrow> False) (ss_map m)"

declare drop_expired_from.simps [simp del]

subsection \<open>The invariant\<close>

text \<open>Heap and map hold the same keys, each once.\<close>

definition ss_ok :: "('k, 'v) SoftStateMap \<Rightarrow> bool" where
  "ss_ok m \<longleftrightarrow> distinct (map fst (ss_heap m)) \<and> distinct (map fst (ss_map m))
     \<and> fst ` set (ss_heap m) = fst ` set (ss_map m)"

lemma map_fst_assign [simp]: "map fst (assign k v xs) = map fst xs"
  by (induction xs) (auto simp: assign_def)

lemma fst_set_assign [simp]: "fst ` set (assign k v xs) = fst ` set xs"
  using map_fst_assign [of k v xs] by (metis list.set_map)

lemma map_of_assign:
  "map_of (assign k v xs) = (if k \<in> fst ` set xs then (map_of xs)(k \<mapsto> v) else map_of xs)"
  by (induction xs) (auto simp: assign_def fun_eq_iff)

lemma get_data_ptr_None: "ss_ok m \<Longrightarrow> get_data_ptr k m = None \<longleftrightarrow> k \<notin> fst ` set (ss_map m)"
  using map_of_eq_None_iff [of "ss_map m" k] map_of_eq_None_iff [of "ss_heap m" k]
  by (auto simp: get_data_ptr_def ss_ok_def simp del: map_of_eq_Some_iff split: option.splits)

lemma ss_ok_empty: "ss_ok (ss_empty lt)"
  by (simp add: ss_ok_def ss_empty_def)

lemma ss_ok_refresh_handle: "ss_ok m \<Longrightarrow> ss_ok (refresh_handle now k m)"
  by (simp add: ss_ok_def refresh_handle_def)

lemma ss_ok_get_data: "ss_ok m \<Longrightarrow> ss_ok (get_data now c k m)"
proof (cases "get_data_ptr k m")
  case None
  assume ok: "ss_ok m"
  with None have "k \<notin> fst ` set (ss_map m)" by (simp add: get_data_ptr_None)
  with ok None show ?thesis by (auto simp: get_data_def ss_ok_def)
qed (auto simp: get_data_def ss_ok_refresh_handle)

lemma ss_ok_refresh: "ss_ok m \<Longrightarrow> ss_ok (refresh now c k m)"
  by (auto simp: refresh_def ss_ok_refresh_handle ss_ok_get_data split: option.split)

lemma ss_ok_set_value: "ss_ok m \<Longrightarrow> ss_ok (set_value k v m)"
  by (simp add: ss_ok_def set_value_def)

subsection \<open>Dropping removes exactly the expired entries\<close>

lemma filter_remove1_not: "\<not> P x \<Longrightarrow> filter P (remove1 x xs) = filter P xs"
  by (induction xs) auto

lemma drop_expired_from_eq:
  "drop_expired_from now h m =
     (filter (\<lambda>(_, e). \<not> is_expired now e) h,
      filter (\<lambda>(k, _). \<not> (\<exists>e. (k, e) \<in> set h \<and> is_expired now e)) m)"
proof (induction now h m rule: drop_expired_from.induct)
  case (1 now h m)
  show ?case
  proof (cases "heap_top h")
    case None
    then show ?thesis by (simp add: drop_expired_from.simps)
  next
    case (Some x)
    obtain key e where x: "x = (key, e)" by (cases x)
    have mem: "(key, e) \<in> set h" using Some x heap_top_in by blast
    show ?thesis
    proof (cases "is_expired now e")
      case True
      have "drop_expired_from now h m = drop_expired_from now (remove1 (key, e) h) (filter (\<lambda>(k, _). k \<noteq> key) m)"
        using Some x True by (subst drop_expired_from.simps) simp
      also have "\<dots> = (filter (\<lambda>(_, e). \<not> is_expired now e) (remove1 (key, e) h),
          filter (\<lambda>(k, _). \<not> (\<exists>e'. (k, e') \<in> set (remove1 (key, e) h) \<and> is_expired now e')) (filter (\<lambda>(k, _). k \<noteq> key) m))"
        using 1 Some x True by simp
      also have "filter (\<lambda>(_, e). \<not> is_expired now e) (remove1 (key, e) h) = filter (\<lambda>(_, e). \<not> is_expired now e) h"
        using True by (simp add: filter_remove1_not)
      also have "filter (\<lambda>(k, _). \<not> (\<exists>e'. (k, e') \<in> set (remove1 (key, e) h) \<and> is_expired now e')) (filter (\<lambda>(k, _). k \<noteq> key) m)
          = filter (\<lambda>(k, _). \<not> (\<exists>e'. (k, e') \<in> set h \<and> is_expired now e')) m"
        unfolding filter_filter
      proof (rule filter_cong [OF refl])
        fix y assume "y \<in> set m"
        obtain k v where y: "y = (k, v)" by (cases y)
        show "((case y of (k, _) \<Rightarrow> k \<noteq> key) \<and>
            (case y of (k, _) \<Rightarrow> \<not> (\<exists>e'. (k, e') \<in> set (remove1 (key, e) h) \<and> is_expired now e')))
          = (case y of (k, _) \<Rightarrow> \<not> (\<exists>e'. (k, e') \<in> set h \<and> is_expired now e'))"
          using mem True y by (cases "k = key") auto
      qed
      finally show ?thesis .
    next
      case False
      have none: "\<not> is_expired now e'" if "(k, e') \<in> set h" for k e'
        using heap_top_min [OF Some that] False x by (simp add: is_expired_def)
      have "filter (\<lambda>(_, e). \<not> is_expired now e) h = h"
        by (rule filter_True) (auto simp: none)
      moreover have "filter (\<lambda>(k, _). \<not> (\<exists>e. (k, e) \<in> set h \<and> is_expired now e)) m = m"
        by (rule filter_True) (auto simp: none)
      moreover have "drop_expired_from now h m = (h, m)"
        using Some x False by (subst drop_expired_from.simps) simp
      ultimately show ?thesis by simp
    qed
  qed
qed

lemma map_of_filter_key:
  "map_of (filter (\<lambda>(k, _). P k) xs) k = (if P k then map_of xs k else None)"
  by (induction xs) auto

lemma map_of_filter_value:
  "distinct (map fst xs) \<Longrightarrow>
   map_of (filter (\<lambda>(_, v). P v) xs) k = (case map_of xs k of Some v \<Rightarrow> if P v then Some v else None | None \<Rightarrow> None)"
  by (induction xs) (force split: option.splits)+

lemma ss_expired_key:
  "ss_ok m \<Longrightarrow> (\<exists>e. (k, e) \<in> set (ss_heap m) \<and> is_expired now e) \<longleftrightarrow>
     (case map_of (ss_heap m) k of Some e \<Rightarrow> is_expired now e | None \<Rightarrow> False)"
  by (auto simp: ss_ok_def map_of_eq_None_iff split: option.split) (force, metis eq_key_imp_eq_value)

lemma get_data_ptr_drop_expired:
  assumes "ss_ok m"
  shows "get_data_ptr k (drop_expired now m) =
    (case get_data_ptr k m of Some (v, e) \<Rightarrow> if is_expired now e then None else Some (v, e) | None \<Rightarrow> None)"
proof -
  have d: "distinct (map fst (ss_heap m))" using assms by (simp add: ss_ok_def)
  show ?thesis
    unfolding drop_expired_def drop_expired_from_eq get_data_ptr_def ss_expired_key [OF assms]
    by (auto simp: map_of_filter_key map_of_filter_value [OF d] split: option.splits)
qed

lemma ss_ok_drop_expired:
  assumes "ss_ok m"
  shows "ss_ok (drop_expired now m)"
proof -
  let ?h = "filter (\<lambda>(_, e). \<not> is_expired now e) (ss_heap m)"
  let ?m = "filter (\<lambda>(k, _). \<not> (\<exists>e. (k, e) \<in> set (ss_heap m) \<and> is_expired now e)) (ss_map m)"
  have d: "distinct (map fst (ss_heap m))" "distinct (map fst (ss_map m))"
    and keys: "fst ` set (ss_heap m) = fst ` set (ss_map m)"
    using assms by (simp_all add: ss_ok_def)
  have uniq: "e = e'" if "(k, e) \<in> set (ss_heap m)" "(k, e') \<in> set (ss_heap m)" for k e e'
    using that d(1) by (meson eq_key_imp_eq_value)
  have "fst ` set ?h = fst ` set ?m"
  proof (rule set_eqI)
    fix k
    have "k \<in> fst ` set ?h \<longleftrightarrow> (\<exists>e. (k, e) \<in> set (ss_heap m) \<and> \<not> is_expired now e)"
      by (simp add: image_iff)
    also have "\<dots> \<longleftrightarrow> (\<exists>e. (k, e) \<in> set (ss_heap m)) \<and> \<not> (\<exists>e. (k, e) \<in> set (ss_heap m) \<and> is_expired now e)"
      using uniq by blast
    also have "(\<exists>e. (k, e) \<in> set (ss_heap m)) \<longleftrightarrow> k \<in> fst ` set (ss_map m)"
      unfolding keys [symmetric] by force
    also have "k \<in> fst ` set (ss_map m) \<and> \<not> (\<exists>e. (k, e) \<in> set (ss_heap m) \<and> is_expired now e) \<longleftrightarrow> k \<in> fst ` set ?m"
      by force
    finally show "k \<in> fst ` set ?h \<longleftrightarrow> k \<in> fst ` set ?m" .
  qed
  moreover have "distinct (map fst ?h)" "distinct (map fst ?m)"
    using d by (auto intro: distinct_map_filter)
  ultimately show ?thesis
    by (simp add: ss_ok_def drop_expired_def drop_expired_from_eq)
qed

subsection \<open>The contract of soft state\<close>

text \<open>
  What clients rely on, in terms of the finite map from keys to values with expiry times:
  refreshing keeps an existing value and renews its time, creates a missing one; writing a
  value does not touch its time; dropping restricts the map to what has not expired.
\<close>

locale soft_state =
  fixes good :: "'m \<Rightarrow> bool"
    and entry :: "'k \<Rightarrow> 'm \<Rightarrow> ('v \<times> time_point) option"
    and lifetime_of :: "'m \<Rightarrow> duration"
    and renew :: "time_point \<Rightarrow> 'v \<Rightarrow> 'k \<Rightarrow> 'm \<Rightarrow> 'm"
    and store :: "'k \<Rightarrow> 'v \<Rightarrow> 'm \<Rightarrow> 'm"
    and sweep :: "time_point \<Rightarrow> 'm \<Rightarrow> 'm"
  assumes good_renew: "good m \<Longrightarrow> good (renew t c k m)"
    and good_store: "good m \<Longrightarrow> good (store k v m)"
    and good_sweep: "good m \<Longrightarrow> good (sweep t m)"
    and lifetime_renew: "lifetime_of (renew t c k m) = lifetime_of m"
    and lifetime_store: "lifetime_of (store k v m) = lifetime_of m"
    and lifetime_sweep: "lifetime_of (sweep t m) = lifetime_of m"
    and entry_renew: "good m \<Longrightarrow> entry k' (renew t c k m) =
      (if k' = k then Some (case entry k m of Some (v, _) \<Rightarrow> v | None \<Rightarrow> c, t + lifetime_of m) else entry k' m)"
    and entry_store: "good m \<Longrightarrow> entry k' (store k v m) =
      (if k' = k then (case entry k m of Some (_, e) \<Rightarrow> Some (v, e) | None \<Rightarrow> None) else entry k' m)"
    and entry_sweep: "good m \<Longrightarrow> entry k' (sweep t m) =
      (case entry k' m of Some (v, e) \<Rightarrow> if e < t then None else Some (v, e) | None \<Rightarrow> None)"
begin

lemma entry_store_renew:
  "good m \<Longrightarrow> entry k' (store k v (renew t c k m)) =
    (if k' = k then Some (v, t + lifetime_of m) else entry k' m)"
  by (simp add: entry_store entry_renew good_renew)

lemma sweep_idem: "good m \<Longrightarrow> entry k (sweep t (sweep t m)) = entry k (sweep t m)"
  by (simp add: entry_sweep good_sweep split: option.split)

lemma sweep_keeps_fresh:
  "good m \<Longrightarrow> t \<le> t' + lifetime_of m \<Longrightarrow> entry k (sweep t (renew t' c k m)) = entry k (renew t' c k m)"
  by (simp add: entry_sweep entry_renew good_renew)

lemma sweep_later: "good m \<Longrightarrow> t \<le> u \<Longrightarrow> entry k (sweep u (sweep t m)) = entry k (sweep u m)"
  by (simp add: entry_sweep good_sweep split: option.split)

end

lemma get_data_ptr_refresh:
  assumes "ss_ok m"
  shows "get_data_ptr k' (refresh t c k m) =
      (if k' = k then Some (case get_data_ptr k m of Some (v, _) \<Rightarrow> v | None \<Rightarrow> c, t + ss_lifetime m)
       else get_data_ptr k' m)"
proof (cases "get_data_ptr k m")
  case None
  with assms have "k \<notin> fst ` set (ss_map m)" by (simp add: get_data_ptr_None)
  with None show ?thesis by (auto simp: refresh_def get_data_def get_data_ptr_def)
next
  case (Some ve)
  then have "k \<in> fst ` set (ss_heap m)"
    by (auto simp: get_data_ptr_def split: option.splits dest!: map_of_SomeD intro: rev_image_eqI)
  then show ?thesis using Some
    by (auto simp: refresh_def refresh_handle_def get_data_ptr_def map_of_assign split: option.splits)
qed

lemma get_data_ptr_set_value:
  "get_data_ptr k' (set_value k v m) =
      (if k' = k then (case get_data_ptr k m of Some (_, e) \<Rightarrow> Some (v, e) | None \<Rightarrow> None) else get_data_ptr k' m)"
  by (auto simp: set_value_def get_data_ptr_def map_of_assign map_of_eq_None_iff split: option.splits)
    (metis map_of_eq_None_iff option.distinct(1))+

lemma ss_lifetime_ops [simp]:
  "ss_lifetime (refresh t c k m) = ss_lifetime m"
  "ss_lifetime (get_data t c k m) = ss_lifetime m"
  "ss_lifetime (set_value k v m) = ss_lifetime m"
  "ss_lifetime (drop_expired t m) = ss_lifetime m"
  by (simp_all add: refresh_def get_data_def refresh_handle_def set_value_def drop_expired_def
      case_prod_beta split: option.split)

interpretation ss: soft_state ss_ok get_data_ptr ss_lifetime refresh set_value drop_expired
  by unfold_locales
    (simp_all add: ss_ok_refresh ss_ok_set_value ss_ok_drop_expired get_data_ptr_refresh
      get_data_ptr_set_value get_data_ptr_drop_expired is_expired_def split: option.split)

lemma get_value_ptr_unfold:
  "get_value_ptr now k m = (case get_data_ptr k m of Some (v, e) \<Rightarrow> if e < now then None else Some v | None \<Rightarrow> None)"
  by (simp add: get_value_ptr_def is_expired_def split: option.split)

lemma value_at_entry: "get_data_ptr k m = Some (v, e) \<Longrightarrow> value_at d k m = v"
  by (auto simp: get_data_ptr_def value_at_def split: option.splits)

lemma get_data_ptr_get_data:
  assumes "ss_ok m"
  shows "get_data_ptr k' (get_data t c k m) =
    (if k' = k then (case get_data_ptr k m of
        Some (v, e) \<Rightarrow> Some (v, if e < t then t + ss_lifetime m else e)
      | None \<Rightarrow> Some (c, t + ss_lifetime m))
     else get_data_ptr k' m)"
proof (cases "get_data_ptr k m")
  case None
  then have "get_data t c k m = refresh t c k m" by (simp add: refresh_def)
  then show ?thesis using assms None by (simp add: get_data_ptr_refresh)
next
  case (Some ve)
  obtain v e where ve: "ve = (v, e)" by (cases ve)
  have "get_data t c k m = (if e < t then refresh t c k m else m)"
    using Some ve by (simp add: get_data_def refresh_def is_expired_def)
  then show ?thesis using assms Some ve by (simp add: get_data_ptr_refresh)
qed

lemma ss_range_iff:
  assumes "ss_ok m"
  shows "(k, v) \<in> set (ss_range now m) \<longleftrightarrow> get_value_ptr now k m = Some v"
proof -
  have "distinct (map fst (ss_map m))" using assms by (simp add: ss_ok_def)
  then show ?thesis
    by (auto simp: ss_range_def get_value_ptr_def get_data_ptr_def split: option.splits)
      (metis eq_key_imp_eq_value)
qed

text \<open>
  An expired entry that has not been dropped yet comes back with its old value, not with a
  newly created one.
\<close>

lemma expired_value_resurrected:
  assumes "ss_ok m" and "get_data_ptr k m = Some (v, e)" and "e < now" and "0 \<le> ss_lifetime m"
  shows "get_value_ptr now k m = None \<and> get_value_ptr now k (get_value now c k m) = Some v"
  using assms by (simp add: get_value_ptr_unfold get_value_def get_data_ptr_get_data)

subsection \<open>Properties\<close>

text \<open>Dropping expired entries terminates and removes exactly the entries whose time has
  passed, from the heap and from the map alike: heap and map stay consistent, what lookups
  can see does not change, and nothing invisible is left stored.\<close>

theorem drop_expired_exact:
  assumes "ss_ok m"
  shows "ss_ok (drop_expired now m)
    \<and> ss_heap (drop_expired now m) = filter (\<lambda>(_, e). now \<le> e) (ss_heap m)
    \<and> (\<forall>k. get_value_ptr now k (drop_expired now m) = get_value_ptr now k m)
    \<and> (\<forall>k. get_data_ptr k (drop_expired now m) = None \<longleftrightarrow> get_value_ptr now k m = None)"
proof (intro conjI allI)
  show "ss_ok (drop_expired now m)" by (rule ss_ok_drop_expired [OF assms])
  show "ss_heap (drop_expired now m) = filter (\<lambda>(_, e). now \<le> e) (ss_heap m)"
    by (auto simp: drop_expired_def drop_expired_from_eq is_expired_def intro!: filter_cong)
  show "get_value_ptr now k (drop_expired now m) = get_value_ptr now k m" for k
    using assms by (simp add: get_value_ptr_unfold ss.entry_sweep split: option.split)
  show "get_data_ptr k (drop_expired now m) = None \<longleftrightarrow> get_value_ptr now k m = None" for k
    using assms by (auto simp: get_value_ptr_unfold ss.entry_sweep split: option.split)
qed

theorem drop_expired_exact_witness:
  "let m = \<lparr>ss_lifetime = 10, ss_heap = [(1 :: nat, 5), (2, 20)], ss_map = [(2, True), (1, False)]\<rparr>
   in ss_ok m \<and> ss_heap (drop_expired 7 m) = [(2, 20)] \<and> get_value_ptr 7 2 (drop_expired 7 m) = Some True"
proof -
  let ?m = "\<lparr>ss_lifetime = 10, ss_heap = [(1 :: nat, 5), (2, 20)], ss_map = [(2, True), (1, False)]\<rparr>"
  have ok: "ss_ok ?m" by (auto simp: ss_ok_def)
  have "get_value_ptr 7 2 ?m = Some True"
    by (simp add: get_value_ptr_def get_data_ptr_def is_expired_def)
  with ok drop_expired_exact [OF ok, of 7] show ?thesis by (simp add: Let_def)
qed

end
