(* ===== verification/Duplicates.thy ===== *)
theory Duplicates
  imports GnAddress SoftState
begin

text \<open>
  What the router remembers about packets: the duplicate packet list of a source
  (\<open>duplicate_packet_list.cpp\<close>), the memory of delivered geobroadcasts (\<open>gbc_memory.cpp\<close>) and
  the counters of the contention buffer (\<open>cbf_counter.cpp\<close>), all under \<open>vanetza/geonet\<close>. Lists
  hold the oldest element first, as the ring buffer and the sequenced index do.
\<close>

subsection \<open>Duplicate packet list\<close>

record DuplicatePacketList =
  dpl_capacity :: nat
  m_elements :: "(SequenceNumber \<times> u32) list"

definition duplicate_packet_list :: "nat \<Rightarrow> DuplicatePacketList" where
  "duplicate_packet_list elements = \<lparr>dpl_capacity = elements, m_elements = []\<rparr>"

text \<open>A full ring buffer overwrites its oldest element; one of capacity zero stores nothing.\<close>

definition ring_push :: "nat \<Rightarrow> 'a \<Rightarrow> 'a list \<Rightarrow> 'a list" where
  "ring_push cap x xs = (if cap = 0 then xs else if length xs < cap then xs @ [x] else tl xs @ [x])"

fun dpl_find :: "SequenceNumber \<Rightarrow> (SequenceNumber \<times> u32) list \<Rightarrow> bool" where
  "dpl_find sn [] = False"
| "dpl_find sn ((s, c) # xs) = (s = sn \<or> dpl_find sn xs)"

fun dpl_increment :: "SequenceNumber \<Rightarrow> (SequenceNumber \<times> u32) list \<Rightarrow> (SequenceNumber \<times> u32) list" where
  "dpl_increment sn [] = []"
| "dpl_increment sn ((s, c) # xs) = (if s = sn then (s, c + 1) # xs else (s, c) # dpl_increment sn xs)"

definition dpl_check :: "SequenceNumber \<Rightarrow> DuplicatePacketList \<Rightarrow> bool \<times> DuplicatePacketList" where
  "dpl_check sn d =
    (if dpl_find sn (m_elements d) then (True, d\<lparr>m_elements := dpl_increment sn (m_elements d)\<rparr>)
     else (False, d\<lparr>m_elements := ring_push (dpl_capacity d) (sn, 1) (m_elements d)\<rparr>))"

fun dpl_counter :: "SequenceNumber \<Rightarrow> (SequenceNumber \<times> u32) list \<Rightarrow> u32" where
  "dpl_counter sn [] = 0"
| "dpl_counter sn ((s, c) # xs) = (if s = sn then c else dpl_counter sn xs)"

subsection \<open>Memory of geobroadcast packets\<close>

type_synonym CbfPacketIdentifier = "Address \<times> SequenceNumber"

record GbcMemory =
  gbc_capacity :: nat
  m_identifiers :: "CbfPacketIdentifier list"

definition gbc_memory :: GbcMemory where
  "gbc_memory = \<lparr>gbc_capacity = 1, m_identifiers = []\<rparr>"

fun pop_while_longer :: "nat \<Rightarrow> 'a list \<Rightarrow> 'a list" where
  "pop_while_longer n [] = []"
| "pop_while_longer n (x # xs) = (if length (x # xs) > n then pop_while_longer n xs else x # xs)"

definition set_gbc_capacity :: "nat \<Rightarrow> GbcMemory \<Rightarrow> GbcMemory" where
  "set_gbc_capacity num m =
    (let cap = if num < 1 then 1 else num
     in m\<lparr>gbc_capacity := cap, m_identifiers := pop_while_longer cap (m_identifiers m)\<rparr>)"

fun pop_while_full :: "nat \<Rightarrow> 'a list \<Rightarrow> 'a list" where
  "pop_while_full n [] = []"
| "pop_while_full n (x # xs) = (if length (x # xs) \<ge> n then pop_while_full n xs else x # xs)"

definition gbc_knows :: "CbfPacketIdentifier \<Rightarrow> GbcMemory \<Rightarrow> bool" where
  "gbc_knows i m \<longleftrightarrow> i \<in> set (m_identifiers m)"

definition gbc_remember :: "CbfPacketIdentifier \<Rightarrow> GbcMemory \<Rightarrow> bool \<times> GbcMemory" where
  "gbc_remember i m =
    (if i \<notin> set (m_identifiers m)
     then (False, m\<lparr>m_identifiers := pop_while_full (gbc_capacity m) (m_identifiers m) @ [i]\<rparr>)
     else (True, m\<lparr>m_identifiers := remove1 i (m_identifiers m) @ [i]\<rparr>))"

subsection \<open>CBF counters\<close>

text \<open>
  The three implementations of the counter interface. Hash maps are finite maps; the fading
  counters are soft state, whose default value is zero.
\<close>

datatype CbfCounter =
    CbfCounterImmortal "CbfPacketIdentifier \<rightharpoonup> nat"
  | CbfCounterContending "CbfPacketIdentifier \<rightharpoonup> nat"
  | CbfCounterFading "(CbfPacketIdentifier, nat) SoftStateMap"

definition plus_plus :: "CbfPacketIdentifier \<Rightarrow> (CbfPacketIdentifier \<rightharpoonup> nat) \<Rightarrow> (CbfPacketIdentifier \<rightharpoonup> nat)" where
  "plus_plus i m = m(i \<mapsto> (case m i of None \<Rightarrow> 0 | Some n \<Rightarrow> n) + 1)"

fun cbf_counter_add :: "time_point \<Rightarrow> CbfPacketIdentifier \<Rightarrow> CbfCounter \<Rightarrow> CbfCounter" where
  "cbf_counter_add now i (CbfCounterImmortal m) = CbfCounterImmortal (plus_plus i m)"
| "cbf_counter_add now i (CbfCounterContending m) = CbfCounterContending (m(i \<mapsto> 1))"
| "cbf_counter_add now i (CbfCounterFading m) =
    (let m = refresh now 0 i m; m = set_value i (value_at 0 i m + 1) m in CbfCounterFading (drop_expired now m))"

fun cbf_counter_remove :: "CbfPacketIdentifier \<Rightarrow> CbfCounter \<Rightarrow> CbfCounter" where
  "cbf_counter_remove i (CbfCounterImmortal m) = CbfCounterImmortal m"
| "cbf_counter_remove i (CbfCounterContending m) = CbfCounterContending (m(i := None))"
| "cbf_counter_remove i (CbfCounterFading m) = CbfCounterFading m"

fun cbf_counter_increment :: "time_point \<Rightarrow> CbfPacketIdentifier \<Rightarrow> CbfCounter \<Rightarrow> CbfCounter" where
  "cbf_counter_increment now i (CbfCounterImmortal m) = CbfCounterImmortal (plus_plus i m)"
| "cbf_counter_increment now i (CbfCounterContending m) = CbfCounterContending (plus_plus i m)"
| "cbf_counter_increment now i (CbfCounterFading m) =
    (let m = get_value now 0 i m in CbfCounterFading (set_value i (value_at 0 i m + 1) m))"

fun cbf_counter_value :: "time_point \<Rightarrow> CbfPacketIdentifier \<Rightarrow> CbfCounter \<Rightarrow> nat" where
  "cbf_counter_value now i (CbfCounterImmortal m) = (case m i of None \<Rightarrow> 0 | Some n \<Rightarrow> n)"
| "cbf_counter_value now i (CbfCounterContending m) = (case m i of None \<Rightarrow> 0 | Some n \<Rightarrow> n)"
| "cbf_counter_value now i (CbfCounterFading m) = (case get_value_ptr now i m of None \<Rightarrow> 0 | Some n \<Rightarrow> n)"

definition fading_counter :: "duration \<Rightarrow> CbfCounter" where
  "fading_counter lifetime = CbfCounterFading (set_lifetime lifetime (ss_empty 0))"

subsection \<open>Recent-item memories\<close>

text \<open>
  The duplicate list and the geobroadcast memory honour one contract: each item in the memory
  has an age, presenting one item ages another by at most one, and an item is only lost when
  its age reaches the capacity.
\<close>

locale recent_memory =
  fixes present :: "'k \<Rightarrow> 's \<Rightarrow> bool \<times> 's"
    and age :: "'k \<Rightarrow> 's \<Rightarrow> nat option"
    and cap :: "'s \<Rightarrow> nat"
    and ok :: "'s \<Rightarrow> bool"
  assumes present_ok: "ok s \<Longrightarrow> ok (snd (present k s))"
    and present_cap: "cap (snd (present k s)) = cap s"
    and present_known: "fst (present k s) \<longleftrightarrow> age k s \<noteq> None"
    and present_new: "ok s \<Longrightarrow> 0 < cap s \<Longrightarrow> age k s = None \<Longrightarrow> age k (snd (present k s)) = Some 0"
    and present_ages: "ok s \<Longrightarrow> age k s = Some a \<Longrightarrow> Suc a < cap s \<Longrightarrow>
      \<exists>b \<le> Suc a. age k (snd (present j s)) = Some b"
begin

lemma remembered_for:
  assumes "ok s" and "age k s = Some a" and "a + length js < cap s"
  shows "fst (present k (fold (\<lambda>j s. snd (present j s)) js s))"
  using assms
proof (induction js arbitrary: s a)
  case Nil
  then show ?case by (simp add: present_known)
next
  case (Cons j js)
  then obtain b where "b \<le> Suc a" "age k (snd (present j s)) = Some b"
    using present_ages [of s k a j] by auto
  then show ?case using Cons.IH [of "snd (present j s)" b] Cons.prems by (simp add: present_ok present_cap)
qed

lemma remembers_recent:
  assumes "ok s" and "\<not> fst (present k s)" and "length js < cap s"
  shows "fst (present k (fold (\<lambda>j s. snd (present j s)) js (snd (present k s))))"
  using assms remembered_for [of "snd (present k s)" k 0 js] present_new [of s k]
  by (cases "cap s") (auto simp: present_ok present_cap present_known)

end

subsection \<open>Both memories are recent-item memories\<close>

fun idx :: "'a \<Rightarrow> 'a list \<Rightarrow> nat option" where
  "idx k [] = None"
| "idx k (x # xs) = (if x = k then Some 0 else map_option Suc (idx k xs))"

lemma idx_None: "idx k xs = None \<longleftrightarrow> k \<notin> set xs"
  by (induction xs) auto

lemma idx_Some_in: "idx k xs = Some a \<Longrightarrow> k \<in> set xs"
  using idx_None [of k xs] by auto

lemma idx_take: "idx k xs = Some a \<Longrightarrow> a < n \<Longrightarrow> idx k (take n xs) = Some a"
  by (induction xs arbitrary: a n) (auto simp: take_Cons split: nat.split if_splits)

lemma idx_remove1: "j \<noteq> k \<Longrightarrow> idx k xs = Some a \<Longrightarrow> \<exists>b \<le> a. idx k (remove1 j xs) = Some b"
proof (induction xs arbitrary: a)
  case (Cons x xs)
  show ?case
  proof (cases "x = k \<or> x = j")
    case False
    then obtain a' where "idx k xs = Some a'" "a = Suc a'" using Cons.prems by auto
    then show ?thesis using Cons.IH [of a'] Cons.prems(1) False by auto
  qed (use Cons.prems in auto)
qed simp

lemma pop_while_longer_drop: "pop_while_longer n xs = drop (length xs - n) xs"
  by (induction xs) (auto simp: Suc_diff_le)

lemma pop_while_full_drop: "pop_while_full n xs = drop (Suc (length xs) - n) xs"
  by (induction xs) (auto simp: Suc_diff_le)

lemma dpl_find_iff: "dpl_find sn xs \<longleftrightarrow> sn \<in> fst ` set xs"
  by (induction sn xs rule: dpl_find.induct) auto

lemma map_fst_dpl_increment [simp]: "map fst (dpl_increment sn xs) = map fst xs"
  by (induction sn xs rule: dpl_increment.induct) auto

definition dpl_ok :: "DuplicatePacketList \<Rightarrow> bool" where
  "dpl_ok d \<longleftrightarrow> length (m_elements d) \<le> dpl_capacity d \<and> distinct (map fst (m_elements d))"

definition dpl_age :: "SequenceNumber \<Rightarrow> DuplicatePacketList \<Rightarrow> nat option" where
  "dpl_age sn d = idx sn (rev (map fst (m_elements d)))"

definition gbc_ok :: "GbcMemory \<Rightarrow> bool" where
  "gbc_ok m \<longleftrightarrow> 1 \<le> gbc_capacity m \<and> length (m_identifiers m) \<le> gbc_capacity m \<and> distinct (m_identifiers m)"

definition gbc_age :: "CbfPacketIdentifier \<Rightarrow> GbcMemory \<Rightarrow> nat option" where
  "gbc_age i m = idx i (rev (m_identifiers m))"

lemma ring_push_rev:
  "length xs \<le> cap \<Longrightarrow> 0 < cap \<Longrightarrow> rev (ring_push cap x xs) = x # take (cap - 1) (rev xs)"
proof (cases "length xs < cap")
  case True
  then have "take (cap - 1) (rev xs) = rev xs" by simp
  with True show ?thesis by (simp add: ring_push_def)
next
  case False
  assume "length xs \<le> cap" "0 < cap"
  with False show ?thesis by (cases xs) (auto simp: ring_push_def)
qed

lemma map_ring_push: "map f (ring_push cap x xs) = ring_push cap (f x) (map f xs)"
  by (simp add: ring_push_def map_tl)

lemma length_dpl_increment [simp]: "length (dpl_increment sn xs) = length xs"
  by (metis length_map map_fst_dpl_increment)

lemma dpl_check_ok: "dpl_ok d \<Longrightarrow> dpl_ok (snd (dpl_check sn d))"
proof (cases "dpl_find sn (m_elements d)")
  case True
  assume "dpl_ok d"
  with True show ?thesis by (simp add: dpl_ok_def dpl_check_def)
next
  case False
  assume ok: "dpl_ok d"
  let ?xs = "map fst (m_elements d)"
  have "sn \<notin> set ?xs" using False by (simp add: dpl_find_iff)
  then have "distinct (ring_push (dpl_capacity d) sn ?xs)"
    using ok by (cases ?xs) (auto simp: ring_push_def dpl_ok_def)
  moreover have "length (ring_push (dpl_capacity d) sn ?xs) \<le> dpl_capacity d"
    using ok by (auto simp: ring_push_def dpl_ok_def)
  ultimately show ?thesis using False
    by (simp add: dpl_ok_def dpl_check_def map_ring_push)
      (metis length_map map_ring_push fst_conv)
qed

interpretation dpl_memory: recent_memory dpl_check dpl_age dpl_capacity dpl_ok
proof
  fix d k
  show "dpl_ok (snd (dpl_check k d))" if "dpl_ok d" using that by (rule dpl_check_ok)
  show "dpl_capacity (snd (dpl_check k d)) = dpl_capacity d" by (simp add: dpl_check_def)
  show "fst (dpl_check k d) \<longleftrightarrow> dpl_age k d \<noteq> None"
    by (simp add: dpl_check_def dpl_age_def idx_None dpl_find_iff del: not_None_eq)
  show "dpl_age k (snd (dpl_check k d)) = Some 0"
    if "dpl_ok d" "0 < dpl_capacity d" "dpl_age k d = None"
    using that by (simp add: dpl_check_def dpl_age_def idx_None dpl_find_iff map_ring_push ring_push_rev dpl_ok_def)
  fix a j
  assume a: "dpl_ok d" "dpl_age k d = Some a" "Suc a < dpl_capacity d"
  show "\<exists>b \<le> Suc a. dpl_age k (snd (dpl_check j d)) = Some b"
  proof (cases "dpl_find j (m_elements d)")
    case True
    then show ?thesis using a by (auto simp: dpl_check_def dpl_age_def)
  next
    case False
    then have "j \<noteq> k" using a idx_Some_in [of k "rev (map fst (m_elements d))" a]
      by (auto simp: dpl_age_def dpl_find_iff)
    then show ?thesis using False a idx_take [of k "rev (map fst (m_elements d))" a "dpl_capacity d - 1"]
      by (simp add: dpl_check_def dpl_age_def map_ring_push ring_push_rev dpl_ok_def)
  qed
qed

lemma gbc_remember_ok: "gbc_ok m \<Longrightarrow> gbc_ok (snd (gbc_remember i m))"
  by (auto simp: gbc_ok_def gbc_remember_def pop_while_full_drop length_remove1 dest: in_set_dropD)

lemma set_gbc_capacity_ok: "gbc_ok m \<Longrightarrow> gbc_ok (set_gbc_capacity n m)"
  by (auto simp: gbc_ok_def set_gbc_capacity_def Let_def pop_while_longer_drop)

interpretation gbc_mem: recent_memory gbc_remember gbc_age gbc_capacity gbc_ok
proof
  fix m k
  show "gbc_ok (snd (gbc_remember k m))" if "gbc_ok m" using that by (rule gbc_remember_ok)
  show "gbc_capacity (snd (gbc_remember k m)) = gbc_capacity m" by (simp add: gbc_remember_def)
  show "fst (gbc_remember k m) \<longleftrightarrow> gbc_age k m \<noteq> None"
    by (simp add: gbc_remember_def gbc_age_def idx_None del: not_None_eq)
  show "gbc_age k (snd (gbc_remember k m)) = Some 0"
    if "gbc_ok m" "0 < gbc_capacity m" "gbc_age k m = None"
    using that by (simp add: gbc_remember_def gbc_age_def)
  fix a j
  assume a: "gbc_ok m" "gbc_age k m = Some a" "Suc a < gbc_capacity m"
  let ?xs = "rev (m_identifiers m)"
  have d: "distinct (m_identifiers m)" "length (m_identifiers m) \<le> gbc_capacity m" using a by (simp_all add: gbc_ok_def)
  show "\<exists>b \<le> Suc a. gbc_age k (snd (gbc_remember j m)) = Some b"
  proof (cases "j \<in> set (m_identifiers m)")
    case True
    have "rev (remove1 j (m_identifiers m)) = remove1 j ?xs"
      using d by (simp add: distinct_remove1_removeAll rev_filter removeAll_filter_not_eq)
    then show ?thesis using True a idx_remove1 [of j k ?xs a]
      by (auto simp: gbc_remember_def gbc_age_def)
  next
    case False
    have "idx k (take (gbc_capacity m - 1) ?xs) = Some a"
      using a by (intro idx_take) (auto simp: gbc_age_def)
    moreover have "rev (pop_while_full (gbc_capacity m) (m_identifiers m)) = take (gbc_capacity m - 1) ?xs"
      using d a by (cases "length (m_identifiers m) = gbc_capacity m") (auto simp: pop_while_full_drop rev_drop)
    ultimately show ?thesis using False by (auto simp: gbc_remember_def gbc_age_def)
  qed
qed

subsection \<open>The counter interface\<close>

text \<open>
  What the contention buffer relies on, whichever counter it is given: adding a packet makes
  its counter positive, every increment makes it grow, and no operation on one packet touches
  the counter of another.
\<close>

locale packet_counter =
  fixes count_add :: "time_point \<Rightarrow> 'i \<Rightarrow> 'c \<Rightarrow> 'c"
    and count_remove :: "'i \<Rightarrow> 'c \<Rightarrow> 'c"
    and count_inc :: "time_point \<Rightarrow> 'i \<Rightarrow> 'c \<Rightarrow> 'c"
    and count :: "time_point \<Rightarrow> 'i \<Rightarrow> 'c \<Rightarrow> nat"
    and good :: "'c \<Rightarrow> bool"
  assumes good_add: "good c \<Longrightarrow> good (count_add t i c)"
    and good_remove: "good c \<Longrightarrow> good (count_remove i c)"
    and good_inc: "good c \<Longrightarrow> good (count_inc t i c)"
    and add_positive: "good c \<Longrightarrow> 0 < count t i (count_add t i c)"
    and inc_grows: "good c \<Longrightarrow> count t i c < count t i (count_inc t i c)"
    and add_frame: "good c \<Longrightarrow> j \<noteq> i \<Longrightarrow> count t j (count_add t i c) = count t j c"
    and remove_frame: "j \<noteq> i \<Longrightarrow> count t j (count_remove i c) = count t j c"
    and inc_frame: "good c \<Longrightarrow> j \<noteq> i \<Longrightarrow> count t j (count_inc t i c) = count t j c"
begin

lemma incs_lower_bound: "good c \<Longrightarrow> count t i c + n \<le> count t i ((count_inc t i ^^ n) c) \<and> good ((count_inc t i ^^ n) c)"
proof (induction n)
  case (Suc n)
  then show ?case using inc_grows [of "(count_inc t i ^^ n) c" t i] good_inc [of "(count_inc t i ^^ n) c" t i] by auto
qed simp

end

fun counter_good :: "CbfCounter \<Rightarrow> bool" where
  "counter_good (CbfCounterFading m) \<longleftrightarrow> ss_ok m \<and> 0 \<le> ss_lifetime m"
| "counter_good _ \<longleftrightarrow> True"

lemma fading_add_entry:
  fixes m :: "(CbfPacketIdentifier, nat) SoftStateMap"
  assumes "ss_ok m"
  shows "get_data_ptr j (set_value i (Suc (value_at 0 i (refresh t 0 i m))) (refresh t 0 i m)) =
    (if j = i then Some (Suc (case get_data_ptr i m of Some (v, _) \<Rightarrow> v | None \<Rightarrow> 0), t + ss_lifetime m)
     else get_data_ptr j m)"
proof -
  have "value_at 0 i (refresh t 0 i m) = (case get_data_ptr i m of Some (v, _) \<Rightarrow> v | None \<Rightarrow> 0)"
    by (rule value_at_entry) (simp add: get_data_ptr_refresh [OF assms])
  then show ?thesis using assms by (simp add: ss.entry_store_renew)
qed

lemma fading_inc_entry:
  fixes m :: "(CbfPacketIdentifier, nat) SoftStateMap"
  assumes "ss_ok m"
  shows "get_data_ptr j (set_value i (Suc (value_at 0 i (get_value t 0 i m))) (get_value t 0 i m)) =
    (if j = i then (case get_data_ptr i m of
        Some (v, e) \<Rightarrow> Some (Suc v, if e < t then t + ss_lifetime m else e)
      | None \<Rightarrow> Some (1, t + ss_lifetime m))
     else get_data_ptr j m)"
proof -
  have "value_at 0 i (get_value t 0 i m) = (case get_data_ptr i m of Some (v, _) \<Rightarrow> v | None \<Rightarrow> 0)"
    by (cases "get_data_ptr i m")
      (auto intro: value_at_entry simp: get_value_def get_data_ptr_get_data [OF assms])
  then show ?thesis using assms
    by (auto simp: get_value_def get_data_ptr_set_value get_data_ptr_get_data ss_ok_get_data split: option.split)
qed

interpretation cbf_counting: packet_counter cbf_counter_add cbf_counter_remove cbf_counter_increment
  cbf_counter_value counter_good
proof
  fix c t i j
  show "counter_good (cbf_counter_add t i c)" if "counter_good c"
    using that by (cases c) (simp_all add: Let_def ss_ok_drop_expired ss_ok_set_value ss_ok_refresh)
  show "counter_good (cbf_counter_remove i c)" if "counter_good c" using that by (cases c) simp_all
  show "counter_good (cbf_counter_increment t i c)" if "counter_good c"
    using that by (cases c) (simp_all add: Let_def ss_ok_set_value ss_ok_get_data get_value_def)
  show "0 < cbf_counter_value t i (cbf_counter_add t i c)" if "counter_good c"
    using that by (cases c) (simp_all add: plus_plus_def Let_def get_value_ptr_unfold ss.entry_sweep
        ss_ok_set_value ss_ok_refresh fading_add_entry)
  show "cbf_counter_value t i c < cbf_counter_value t i (cbf_counter_increment t i c)" if "counter_good c"
    using that by (cases c) (auto simp: plus_plus_def Let_def get_value_ptr_unfold fading_inc_entry split: option.split)
  show "cbf_counter_value t j (cbf_counter_add t i c) = cbf_counter_value t j c" if "counter_good c" "j \<noteq> i"
    using that by (cases c) (auto simp: plus_plus_def Let_def get_value_ptr_unfold ss.entry_sweep
        ss_ok_set_value ss_ok_refresh fading_add_entry split: option.split)
  show "cbf_counter_value t j (cbf_counter_remove i c) = cbf_counter_value t j c" if "j \<noteq> i"
    using that by (cases c) simp_all
  show "cbf_counter_value t j (cbf_counter_increment t i c) = cbf_counter_value t j c" if "counter_good c" "j \<noteq> i"
    using that by (cases c) (auto simp: plus_plus_def Let_def get_value_ptr_unfold fading_inc_entry)
qed

subsection \<open>Properties\<close>

text \<open>C34: The duplicate packet list recognises a sequence number it has recorded as long as
  fewer numbers than its capacity have been checked since, and it never stores a number twice
  or more numbers than its capacity.\<close>

theorem duplicate_list_detects:
  assumes "dpl_ok d" and "\<not> fst (dpl_check sn d)" and "length sns < dpl_capacity d"
  shows "fst (dpl_check sn (fold (\<lambda>s d. snd (dpl_check s d)) sns (snd (dpl_check sn d))))
    \<and> dpl_ok (fold (\<lambda>s d. snd (dpl_check s d)) sns (snd (dpl_check sn d)))"
proof
  show "fst (dpl_check sn (fold (\<lambda>s d. snd (dpl_check s d)) sns (snd (dpl_check sn d))))"
    using assms by (rule dpl_memory.remembers_recent)
  have "dpl_ok (fold (\<lambda>s d. snd (dpl_check s d)) xs d')" if "dpl_ok d'" for xs d'
    using that by (induction xs arbitrary: d') (simp_all add: dpl_check_ok)
  then show "dpl_ok (fold (\<lambda>s d. snd (dpl_check s d)) sns (snd (dpl_check sn d)))"
    using assms(1) by (simp add: dpl_check_ok)
qed

theorem duplicate_list_detects_witness:
  "fst (dpl_check 7 (fold (\<lambda>s d. snd (dpl_check s d)) [1, 2] (snd (dpl_check 7 (duplicate_packet_list 3)))))"
  using duplicate_list_detects [of "duplicate_packet_list 3" 7 "[1, 2]"]
  by (simp add: dpl_ok_def duplicate_packet_list_def dpl_check_def)

text \<open>The geobroadcast memory answers whether it knew the packet, never holds more
  identifiers than its capacity nor one twice, and still knows a packet after remembering
  fewer others than its capacity.\<close>

theorem gbc_memory_recent:
  assumes "gbc_ok m" and "\<not> gbc_knows i m" and "length js < gbc_capacity m"
  shows "\<not> fst (gbc_remember i m)
    \<and> fst (gbc_remember i (fold (\<lambda>j m. snd (gbc_remember j m)) js (snd (gbc_remember i m))))
    \<and> gbc_ok (fold (\<lambda>j m. snd (gbc_remember j m)) js (snd (gbc_remember i m)))"
proof (intro conjI)
  show n: "\<not> fst (gbc_remember i m)" using assms(2) by (simp add: gbc_remember_def gbc_knows_def)
  show "fst (gbc_remember i (fold (\<lambda>j m. snd (gbc_remember j m)) js (snd (gbc_remember i m))))"
    using assms(1) n assms(3) by (rule gbc_mem.remembers_recent)
  have "gbc_ok (fold (\<lambda>j m. snd (gbc_remember j m)) xs m')" if "gbc_ok m'" for xs m'
    using that by (induction xs arbitrary: m') (simp_all add: gbc_remember_ok)
  then show "gbc_ok (fold (\<lambda>j m. snd (gbc_remember j m)) js (snd (gbc_remember i m)))"
    using assms(1) by (simp add: gbc_remember_ok)
qed

theorem gbc_memory_recent_witness:
  "let m = set_gbc_capacity 2 gbc_memory; i = (address_default, 1); j = (address_default, 2)
   in fst (gbc_remember i (snd (gbc_remember j (snd (gbc_remember i m)))))"
  using gbc_memory_recent [of "set_gbc_capacity 2 gbc_memory" "(address_default, 1)" "[(address_default, 2)]"]
  by (simp add: gbc_ok_def set_gbc_capacity_def gbc_memory_def gbc_knows_def Let_def)

end
