(* ===== verification/Pdus.thy ===== *)
theory Pdus
  imports GnHeaders Packets
begin

text \<open>
  Protocol data units and packets pending further processing (\<open>vanetza/geonet/pdu.cpp\<close>,
  \<open>extended_pdu.hpp\<close>, \<open>pending_packet.hpp\<close>), and the bounded buffer of pending packets
  (\<open>packet_buffer.cpp\<close>). A secured message is the byte string it is encoded to. The
  processing step a pending packet carries is an identifier of type \<open>'a\<close>.
\<close>

type_synonym SecuredMessage = bytes

record 'h ExtendedPdu =
  basic :: BasicHeader
  common :: CommonHeader
  extended :: 'h
  secured :: "SecuredMessage option"

definition serialize_pdu :: "('h \<Rightarrow> HeaderVariant) \<Rightarrow> 'h ExtendedPdu \<Rightarrow> bytes" where
  "serialize_pdu variant pdu = serialize_basic (basic pdu) @ (case secured pdu of
      Some smsg \<Rightarrow> smsg
    | None \<Rightarrow> serialize_common (common pdu) @ serialize_variant (variant (extended pdu)))"

definition pdu_length :: "('h \<Rightarrow> HeaderVariant) \<Rightarrow> 'h ExtendedPdu \<Rightarrow> nat" where
  "pdu_length variant pdu = 4 + (case secured pdu of
      Some smsg \<Rightarrow> length smsg
    | None \<Rightarrow> 8 + header_length (variant (extended pdu)))"

definition convert_for_signing :: "('h \<Rightarrow> HeaderVariant) \<Rightarrow> 'h ExtendedPdu \<Rightarrow> bytes" where
  "convert_for_signing variant pdu = serialize_common (common pdu) @ serialize_variant (variant (extended pdu))"

subsection \<open>Pending packets\<close>

record ('h, 'a) PendingPacket =
  pdu :: "'h ExtendedPdu"
  payload_of :: DownPacket
  action :: 'a

definition pending_length :: "('h \<Rightarrow> HeaderVariant) \<Rightarrow> ('h, 'a) PendingPacket \<Rightarrow> nat" where
  "pending_length variant p =
     pdu_length variant (pdu p) + chunk_size_range Transport max_osi_layer (payload_of p)"

definition pending_lifetime :: "('h, 'a) PendingPacket \<Rightarrow> duration" where
  "pending_lifetime p = clock_cast (lifetime_decode (lifetime (basic (pdu p))))"

definition set_pending_lifetime :: "Lifetime \<Rightarrow> ('h, 'a) PendingPacket \<Rightarrow> ('h, 'a) PendingPacket" where
  "set_pending_lifetime lt p = p\<lparr>pdu := (pdu p)\<lparr>basic := (basic (pdu p))\<lparr>lifetime := lt\<rparr>\<rparr>\<rparr>"

definition reduce_lifetime :: "duration \<Rightarrow> ('h, 'a) PendingPacket \<Rightarrow> duration \<times> ('h, 'a) PendingPacket" where
  "reduce_lifetime queuing_time p =
    (let packet_lifetime = pending_lifetime p in
     if queuing_time \<le> 0 then (packet_lifetime, p)
     else if queuing_time < packet_lifetime then
       (let remaining = packet_lifetime - queuing_time
        in (remaining, set_pending_lifetime (lifetime_encode (clock_cast_sec remaining)) p))
     else (0, set_pending_lifetime lifetime_zero p))"

definition pending_duplicate :: "('h, 'a) PendingPacket \<Rightarrow> ('h, 'a) PendingPacket" where
  "pending_duplicate p = p\<lparr>payload_of := (case secured (pdu p) of Some _ \<Rightarrow> empty_chunk | None \<Rightarrow> payload_of p)\<rparr>"

lemma pending_length_set_lifetime [simp]:
  "pending_length v (set_pending_lifetime lt p) = pending_length v p"
  by (simp add: pending_length_def set_pending_lifetime_def pdu_length_def split: option.split)

lemma pending_length_reduce [simp]: "pending_length v (snd (reduce_lifetime q p)) = pending_length v p"
  by (simp add: reduce_lifetime_def Let_def)

lemma reduce_lifetime_zero: "reduce_lifetime 0 p = (pending_lifetime p, p)"
  by (simp add: reduce_lifetime_def Let_def)

lemma pending_lifetime_nonneg: "0 \<le> pending_lifetime p"
  using lifetime_decode_range by (simp add: pending_lifetime_def clock_cast_nonneg)

lemma reduce_lifetime_remaining:
  "fst (reduce_lifetime q p) = (if q \<le> 0 then pending_lifetime p else max 0 (pending_lifetime p - q))"
  using pending_lifetime_nonneg [of p] by (auto simp: reduce_lifetime_def Let_def)

lemma pdu_length_serialize: "length (serialize_pdu v d) = pdu_length v d"
  by (simp add: serialize_pdu_def pdu_length_def basic_codec.ser_length common_codec.ser_length
      length_serialize_variant split: option.split)

subsection \<open>Packet buffer\<close>

record Expiry =
  m_buffered_since :: time_point
  m_expires_at :: time_point

definition expiry :: "time_point \<Rightarrow> duration \<Rightarrow> Expiry" where
  "expiry now lt = \<lparr>m_buffered_since = now, m_expires_at = now + lt\<rparr>"

definition expiry_is_expired :: "time_point \<Rightarrow> Expiry \<Rightarrow> bool" where
  "expiry_is_expired now e \<longleftrightarrow> m_expires_at e < now"

text \<open>
  The buffer holds any data with a length and a lifetime; both operations of the data
  interface are arguments. Flushing hands out, in order, the data whose \<open>flush()\<close> the code
  calls; the buffer is empty by then, so that they may re-enter it.
\<close>

record 'd PacketBuffer =
  m_nodes :: "(Expiry \<times> 'd) list"
  pb_capacity :: nat
  m_stored :: nat

definition packet_buffer :: "nat \<Rightarrow> 'd PacketBuffer" where
  "packet_buffer capacity = \<lparr>m_nodes = [], pb_capacity = capacity, m_stored = 0\<rparr>"

definition pb_free :: "'d PacketBuffer \<Rightarrow> nat" where
  "pb_free b = pb_capacity b - m_stored b"

definition drop_head :: "('d \<Rightarrow> nat) \<Rightarrow> 'd PacketBuffer \<Rightarrow> bool \<times> 'd PacketBuffer" where
  "drop_head len b = (case m_nodes b of
      [] \<Rightarrow> (False, b)
    | (_, d) # ns \<Rightarrow> (True, b\<lparr>m_stored := m_stored b - len d, m_nodes := ns\<rparr>))"

fun drop_expired_nodes :: "('d \<Rightarrow> nat) \<Rightarrow> time_point \<Rightarrow> (Expiry \<times> 'd) list \<Rightarrow> nat \<Rightarrow> (Expiry \<times> 'd) list \<times> nat" where
  "drop_expired_nodes len now [] stored = ([], stored)"
| "drop_expired_nodes len now ((e, d) # ns) stored =
    (if expiry_is_expired now e then drop_expired_nodes len now ns (stored - len d)
     else (let (ns', stored') = drop_expired_nodes len now ns stored in ((e, d) # ns', stored')))"

definition pb_drop_expired :: "('d \<Rightarrow> nat) \<Rightarrow> time_point \<Rightarrow> 'd PacketBuffer \<Rightarrow> 'd PacketBuffer" where
  "pb_drop_expired len now b =
    (let (ns, stored) = drop_expired_nodes len now (m_nodes b) (m_stored b) in b\<lparr>m_nodes := ns, m_stored := stored\<rparr>)"

function pb_drop :: "('d \<Rightarrow> nat) \<Rightarrow> nat \<Rightarrow> 'd PacketBuffer \<Rightarrow> bool \<times> 'd PacketBuffer" where
  "pb_drop len n b =
    (if pb_free b < n \<and> fst (drop_head len b) then pb_drop len n (snd (drop_head len b))
     else (pb_free b \<ge> n, b))"
  by pat_completeness auto
termination
  by (relation "measure (\<lambda>(_, _, b). length (m_nodes b))") (auto simp: drop_head_def split: list.splits)

declare pb_drop.simps [simp del]

definition pb_push ::
  "('d \<Rightarrow> nat) \<Rightarrow> (duration \<Rightarrow> 'd \<Rightarrow> duration \<times> 'd) \<Rightarrow> 'd \<Rightarrow> time_point \<Rightarrow> 'd PacketBuffer \<Rightarrow> bool \<times> 'd PacketBuffer" where
  "pb_push len reduce d now b =
    (let (fits, b) = pb_drop len (len d) (pb_drop_expired len now b)
     in if fits then
          (let (lt, d') = reduce 0 d
           in (True, b\<lparr>m_stored := m_stored b + len d, m_nodes := m_nodes b @ [(expiry now lt, d')]\<rparr>))
        else (False, b))"

definition pb_flush ::
  "(duration \<Rightarrow> 'd \<Rightarrow> duration \<times> 'd) \<Rightarrow> time_point \<Rightarrow> 'd PacketBuffer \<Rightarrow> 'd list \<times> 'd PacketBuffer" where
  "pb_flush reduce now b =
    (map (\<lambda>(e, d). snd (reduce (now - m_buffered_since e) d)) (filter (\<lambda>(e, _). \<not> expiry_is_expired now e) (m_nodes b)),
     b\<lparr>m_nodes := [], m_stored := 0\<rparr>)"

subsection \<open>What the buffer stores\<close>

definition node_bytes :: "('d \<Rightarrow> nat) \<Rightarrow> (Expiry \<times> 'd) list \<Rightarrow> nat" where
  "node_bytes len ns = sum_list (map (\<lambda>(_, d). len d) ns)"

definition pb_ok :: "('d \<Rightarrow> nat) \<Rightarrow> 'd PacketBuffer \<Rightarrow> bool" where
  "pb_ok len b \<longleftrightarrow> m_stored b = node_bytes len (m_nodes b) \<and> m_stored b \<le> pb_capacity b"

lemma node_bytes_simps [simp]:
  "node_bytes len [] = 0" "node_bytes len (n # ns) = len (snd n) + node_bytes len ns"
  "node_bytes len (ns @ ms) = node_bytes len ns + node_bytes len ms"
  by (auto simp: node_bytes_def case_prod_beta)

lemma node_bytes_filter: "node_bytes len (filter P ns) \<le> node_bytes len ns"
  by (induction ns) auto

lemma node_bytes_drop: "node_bytes len (drop k ns) \<le> node_bytes len ns"
  by (metis append_take_drop_id le_add2 node_bytes_simps(3))

lemma drop_expired_nodes_eq:
  "stored = k + node_bytes len ns \<Longrightarrow> drop_expired_nodes len now ns stored =
     (filter (\<lambda>(e, _). \<not> expiry_is_expired now e) ns, k + node_bytes len (filter (\<lambda>(e, _). \<not> expiry_is_expired now e) ns))"
proof (induction len now ns stored arbitrary: k rule: drop_expired_nodes.induct)
  case (2 len now e d ns stored)
  show ?case
  proof (cases "expiry_is_expired now e")
    case True
    have "stored - len d = k + node_bytes len ns" using "2.prems" by simp
    from "2.IH"(1) [OF True this] show ?thesis using True by simp
  next
    case False
    have "stored = (k + len d) + node_bytes len ns" using "2.prems" by simp
    from "2.IH"(2) [OF False this] show ?thesis using False by simp
  qed
qed simp

lemma pb_drop_expired_eq:
  assumes "pb_ok len b"
  shows "m_nodes (pb_drop_expired len now b) = filter (\<lambda>(e, _). \<not> expiry_is_expired now e) (m_nodes b)"
    and "pb_ok len (pb_drop_expired len now b)" and "pb_capacity (pb_drop_expired len now b) = pb_capacity b"
proof -
  have e: "drop_expired_nodes len now (m_nodes b) (m_stored b) =
     (filter (\<lambda>(e, _). \<not> expiry_is_expired now e) (m_nodes b),
      0 + node_bytes len (filter (\<lambda>(e, _). \<not> expiry_is_expired now e) (m_nodes b)))"
    by (rule drop_expired_nodes_eq) (use assms in \<open>simp add: pb_ok_def\<close>)
  show "m_nodes (pb_drop_expired len now b) = filter (\<lambda>(e, _). \<not> expiry_is_expired now e) (m_nodes b)"
    "pb_capacity (pb_drop_expired len now b) = pb_capacity b"
    by (simp_all add: pb_drop_expired_def e)
  show "pb_ok len (pb_drop_expired len now b)"
    using assms node_bytes_filter [of len "\<lambda>(e, _). \<not> expiry_is_expired now e" "m_nodes b"]
    unfolding pb_drop_expired_def e by (simp add: pb_ok_def)
qed

text \<open>Head drop removes a shortest prefix that makes room, or everything if the data cannot fit.\<close>

lemma pb_drop_spec:
  assumes "pb_ok len b"
  shows "\<exists>k. pb_drop len n b = (n \<le> pb_capacity b, b\<lparr>m_nodes := drop k (m_nodes b), m_stored := node_bytes len (drop k (m_nodes b))\<rparr>)
    \<and> (n \<le> pb_capacity b \<longrightarrow> node_bytes len (drop k (m_nodes b)) + n \<le> pb_capacity b)
    \<and> (\<forall>j < k. pb_capacity b < node_bytes len (drop j (m_nodes b)) + n)"
  using assms
proof (induction len n b rule: pb_drop.induct)
  case (1 len n b)
  show ?case
  proof (cases "pb_free b < n \<and> fst (drop_head len b)")
    case True
    then obtain e d ns where ns: "m_nodes b = (e, d) # ns" by (auto simp: drop_head_def split: list.splits)
    let ?b = "snd (drop_head len b)"
    have b: "?b = b\<lparr>m_stored := node_bytes len ns, m_nodes := ns\<rparr>"
      using ns "1.prems" by (simp add: drop_head_def pb_ok_def)
    have "pb_ok len ?b" using b ns "1.prems" by (simp add: pb_ok_def)
    from "1.IH" [OF True this] obtain k where
      k: "pb_drop len n ?b = (n \<le> pb_capacity b, b\<lparr>m_nodes := drop k ns, m_stored := node_bytes len (drop k ns)\<rparr>)"
        "n \<le> pb_capacity b \<longrightarrow> node_bytes len (drop k ns) + n \<le> pb_capacity b"
        "\<forall>j < k. pb_capacity b < node_bytes len (drop j ns) + n"
      using b by auto
    have "pb_drop len n b = pb_drop len n ?b" using True by (subst pb_drop.simps) simp
    moreover have "pb_capacity b < node_bytes len (drop j (m_nodes b)) + n" if "j < Suc k" for j
      using that k(3) True ns "1.prems" by (cases j) (auto simp: pb_free_def pb_ok_def)
    ultimately show ?thesis using k(1,2) ns by (intro exI [of _ "Suc k"]) simp
  next
    case False
    have "pb_drop len n b = (pb_free b \<ge> n, b)" using False by (subst pb_drop.simps) auto
    moreover have "pb_free b \<ge> n \<longleftrightarrow> n \<le> pb_capacity b"
    proof
      assume "n \<le> pb_capacity b"
      with False "1.prems" show "pb_free b \<ge> n"
        by (cases "m_nodes b") (auto simp: drop_head_def pb_ok_def pb_free_def)
    qed (simp add: pb_free_def)
    moreover have "b\<lparr>m_nodes := m_nodes b, m_stored := node_bytes len (m_nodes b)\<rparr> = b"
      using "1.prems" by (simp add: pb_ok_def)
    ultimately show ?thesis using "1.prems" by (intro exI [of _ 0]) (auto simp: pb_free_def pb_ok_def)
  qed
qed

subsection \<open>Clients of the buffer\<close>

text \<open>What the buffer expects of its data: reducing the lifetime does not change the length.\<close>

locale buffered_data =
  fixes len :: "'d \<Rightarrow> nat"
    and reduce :: "duration \<Rightarrow> 'd \<Rightarrow> duration \<times> 'd"
  assumes reduce_len: "len (snd (reduce t d)) = len d"
    and reduce_nonneg: "0 \<le> fst (reduce t d)"
begin

lemma push_spec:
  assumes "pb_ok len b"
  shows "\<exists>k. let live = filter (\<lambda>(e, _). \<not> expiry_is_expired now e) (m_nodes b); kept = drop k live; b' = snd (pb_push len reduce d now b)
    in fst (pb_push len reduce d now b) = (len d \<le> pb_capacity b)
     \<and> m_nodes b' = (if len d \<le> pb_capacity b then kept @ [(expiry now (fst (reduce 0 d)), snd (reduce 0 d))] else kept)
     \<and> pb_ok len b' \<and> pb_capacity b' = pb_capacity b
     \<and> (\<forall>j < k. pb_capacity b < node_bytes len (drop j live) + len d)"
proof -
  note e = pb_drop_expired_eq [OF assms, of now]
  from pb_drop_spec [OF e(2), of "len d"] obtain k where
    k: "pb_drop len (len d) (pb_drop_expired len now b) = (len d \<le> pb_capacity b,
          (pb_drop_expired len now b)\<lparr>m_nodes := drop k (filter (\<lambda>(e, _). \<not> expiry_is_expired now e) (m_nodes b)),
             m_stored := node_bytes len (drop k (filter (\<lambda>(e, _). \<not> expiry_is_expired now e) (m_nodes b)))\<rparr>)"
      "len d \<le> pb_capacity b \<longrightarrow> node_bytes len (drop k (filter (\<lambda>(e, _). \<not> expiry_is_expired now e) (m_nodes b))) + len d \<le> pb_capacity b"
      "\<forall>j < k. pb_capacity b < node_bytes len (drop j (filter (\<lambda>(e, _). \<not> expiry_is_expired now e) (m_nodes b))) + len d"
    unfolding e by blast
  have "node_bytes len (drop k (filter (\<lambda>(e, _). \<not> expiry_is_expired now e) (m_nodes b))) \<le> pb_capacity b"
    using node_bytes_drop node_bytes_filter assms unfolding pb_ok_def by (metis le_trans)
  then show ?thesis
    using k e(3) by (intro exI [of _ k]) (auto simp: pb_push_def Let_def case_prod_beta pb_ok_def reduce_len)
qed

lemma flush_spec:
  "pb_ok len (snd (pb_flush reduce now b)) \<and> m_nodes (snd (pb_flush reduce now b)) = []
   \<and> map len (fst (pb_flush reduce now b)) = map (\<lambda>(_, d). len d) (filter (\<lambda>(e, _). \<not> expiry_is_expired now e) (m_nodes b))"
  by (simp add: pb_flush_def pb_ok_def reduce_len case_prod_beta o_def)

text \<open>What holds of all data in the buffer.\<close>

lemma push_keeps:
  assumes "pb_ok len b" and "\<forall>n\<in>set (m_nodes b). P (snd n)" and "P (snd (reduce 0 d))"
  shows "pb_ok len (snd (pb_push len reduce d now b)) \<and> (\<forall>n\<in>set (m_nodes (snd (pb_push len reduce d now b))). P (snd n))"
proof -
  let ?b = "snd (pb_push len reduce d now b)"
  from push_spec [OF assms(1), of now d] obtain k where
    k: "m_nodes ?b = (if len d \<le> pb_capacity b
       then drop k (filter (\<lambda>(e, _). \<not> expiry_is_expired now e) (m_nodes b)) @ [(expiry now (fst (reduce 0 d)), snd (reduce 0 d))]
       else drop k (filter (\<lambda>(e, _). \<not> expiry_is_expired now e) (m_nodes b)))" "pb_ok len ?b"
    unfolding Let_def by blast
  have "P (snd n)" if "n \<in> set (m_nodes ?b)" for n
  proof -
    have "n \<in> set (drop k (filter (\<lambda>(e, _). \<not> expiry_is_expired now e) (m_nodes b))) \<or> snd n = snd (reduce 0 d)"
      using that unfolding k(1) by (auto split: if_splits)
    then show ?thesis using assms(2,3) set_drop_subset [of k] by fastforce
  qed
  then show ?thesis using k(2) by blast
qed

lemma flush_keeps:
  assumes "\<forall>n\<in>set (m_nodes b). P (snd n)" and "\<And>t d. P d \<Longrightarrow> P (snd (reduce t d))"
  shows "\<forall>d\<in>set (fst (pb_flush reduce now b)). P d"
  using assms by (auto simp: pb_flush_def)

end

interpretation pending_gbc: buffered_data "pending_length HV_Gbc" reduce_lifetime
  by unfold_locales (auto simp: reduce_lifetime_remaining pending_lifetime_nonneg)

interpretation pending_shb: buffered_data "pending_length HV_Shb" reduce_lifetime
  by unfold_locales (auto simp: reduce_lifetime_remaining pending_lifetime_nonneg)

interpretation pending_tsb: buffered_data "pending_length HV_Tsb" reduce_lifetime
  by unfold_locales (auto simp: reduce_lifetime_remaining pending_lifetime_nonneg)

subsection \<open>Properties\<close>

text \<open>Queuing a packet reduces the lifetime it reports by exactly the queuing time (never
  below zero), and the lifetime written back into its basic header is never longer than
  before, in spite of the coarse encoding; a packet queued for its whole lifetime leaves with
  lifetime zero. Nothing else in the packet changes.\<close>

theorem reduce_lifetime_never_lengthens:
  "fst (reduce_lifetime q p) = (if q \<le> 0 then pending_lifetime p else max 0 (pending_lifetime p - q))
   \<and> lifetime_decode (lifetime (basic (pdu (snd (reduce_lifetime q p))))) \<le> lifetime_decode (lifetime (basic (pdu p)))
   \<and> (\<exists>lt. snd (reduce_lifetime q p) = set_pending_lifetime lt p
        \<and> (lt = lifetime_zero \<or> q < pending_lifetime p \<or> q \<le> 0))"
proof (intro conjI)
  let ?l = "lifetime (basic (pdu p))"
  show "fst (reduce_lifetime q p) = (if q \<le> 0 then pending_lifetime p else max 0 (pending_lifetime p - q))"
    by (rule reduce_lifetime_remaining)
  have self: "set_pending_lifetime ?l p = p" by (simp add: set_pending_lifetime_def)
  have "lifetime_decode (lifetime_encode (clock_cast_sec (pending_lifetime p - q))) \<le> lifetime_decode ?l"
    if "0 < q" "q < pending_lifetime p"
  proof (rule lifetime_encode_remainder)
    show "0 \<le> clock_cast_sec (pending_lifetime p - q)" using that by (simp add: clock_cast_sec_def)
    show "clock_cast_sec (pending_lifetime p - q) < lifetime_decode ?l"
      using that clock_cast_lifetime [of ?l] by (simp add: clock_cast_sec_def pending_lifetime_def)
  qed
  moreover have "lifetime_decode lifetime_zero \<le> lifetime_decode ?l"
    using lifetime_decode_range [of ?l] by (simp add: lifetime_zero_def lifetime_decode_set)
  ultimately show "lifetime_decode (lifetime (basic (pdu (snd (reduce_lifetime q p))))) \<le> lifetime_decode ?l"
    by (simp add: reduce_lifetime_def Let_def set_pending_lifetime_def)
  show "\<exists>lt. snd (reduce_lifetime q p) = set_pending_lifetime lt p
        \<and> (lt = lifetime_zero \<or> q < pending_lifetime p \<or> q \<le> 0)"
    using self [symmetric] by (auto simp: reduce_lifetime_def Let_def)
qed

text \<open>C33: The packet buffer of GeoBroadcast packets never stores more bytes than its capacity and counts them
  correctly. Pushing succeeds exactly if the packet fits an empty buffer; expired packets go
  first, then a shortest prefix of the oldest ones that makes room, and the new packet is
  appended.\<close>

theorem packet_buffer_push_bounded:
  assumes "pb_ok (pending_length HV_Gbc) b"
  shows "\<exists>k. let len = pending_length HV_Gbc;
         live = filter (\<lambda>(e, _). \<not> expiry_is_expired now e) (m_nodes b);
         (pushed, b') = pb_push len reduce_lifetime d now b
    in pushed = (len d \<le> pb_capacity b)
     \<and> m_nodes b' = drop k live @ (if pushed then [(expiry now (pending_lifetime d), d)] else [])
     \<and> pb_ok len b' \<and> pb_capacity b' = pb_capacity b
     \<and> (\<forall>j < k. pb_capacity b < node_bytes len (drop j live) + len d)"
proof -
  obtain k where k: "let live = filter (\<lambda>(e, _). \<not> expiry_is_expired now e) (m_nodes b); kept = drop k live;
        b' = snd (pb_push (pending_length HV_Gbc) reduce_lifetime d now b)
    in fst (pb_push (pending_length HV_Gbc) reduce_lifetime d now b) = (pending_length HV_Gbc d \<le> pb_capacity b)
     \<and> m_nodes b' = (if pending_length HV_Gbc d \<le> pb_capacity b
          then kept @ [(expiry now (fst (reduce_lifetime 0 d)), snd (reduce_lifetime 0 d))] else kept)
     \<and> pb_ok (pending_length HV_Gbc) b' \<and> pb_capacity b' = pb_capacity b
     \<and> (\<forall>j < k. pb_capacity b < node_bytes (pending_length HV_Gbc) (drop j live) + pending_length HV_Gbc d)"
    using pending_gbc.push_spec [OF assms, of now d] by blast
  then show ?thesis by (intro exI [of _ k]) (simp add: Let_def case_prod_beta reduce_lifetime_zero)
qed

text \<open>A packet of 56 bytes: basic, common and geobroadcast header with an empty payload.\<close>

definition sample_packet :: "(GeoBroadcastHeader, unit) PendingPacket" where
  "sample_packet = \<lparr>pdu = \<lparr>basic = basic_default, common = common_default, extended = gbc_default, secured = None\<rparr>,
     payload_of = empty_chunk, action = ()\<rparr>"

lemma sample_packet_length: "pending_length HV_Gbc sample_packet = 56"
  by (simp add: sample_packet_def pending_length_def pdu_length_def chunk_size_range_def empty_chunk_def osi_layers_def)

theorem packet_buffer_push_bounded_witness:
  "\<exists>k. let (pushed, b') = pb_push (pending_length HV_Gbc) reduce_lifetime sample_packet 0 (packet_buffer 100)
    in pushed \<and> m_nodes b' = drop k [] @ [(expiry 0 (pending_lifetime sample_packet), sample_packet)]"
proof -
  have "pb_ok (pending_length HV_Gbc) (packet_buffer 100 :: (GeoBroadcastHeader, unit) PendingPacket PacketBuffer)"
    by (simp add: pb_ok_def packet_buffer_def)
  from packet_buffer_push_bounded [OF this, of 0 sample_packet] show ?thesis
    by (auto simp: Let_def sample_packet_length case_prod_beta packet_buffer_def)
qed

end
