(* ===== verification/CbfBuffer.thy ===== *)
theory CbfBuffer
  imports RuntimeQ Duplicates Pdus
begin

text \<open>
  The buffer of contending packets (\<open>vanetza/geonet/cbf_packet_buffer.cpp\<close>). Packets are kept
  in order of insertion; the bidirectional map of timers is a list of expiry, start and packet
  identifier, sorted by expiry with equal expiries in order of insertion. A packet is found
  from its timer by its identifier, which is unique in the buffer. The runtime in which the
  next flush is scheduled is passed along; \<open>cb\<close> and \<open>this\<close> are the callback and the scope.
\<close>

subsection \<open>Packets\<close>

record 'a CbfPacket =
  m_packet :: "(GeoBroadcastHeader, 'a) PendingPacket"
  m_sender :: MacAddress

definition cbf_source :: "'a CbfPacket \<Rightarrow> Address" where
  "cbf_source p = gn_addr (gbc_source_position (extended (pdu (m_packet p))))"

definition cbf_sequence_number :: "'a CbfPacket \<Rightarrow> SequenceNumber" where
  "cbf_sequence_number p = gbc_sequence_number (extended (pdu (m_packet p)))"

definition packet_identifier :: "'a CbfPacket \<Rightarrow> CbfPacketIdentifier" where
  "packet_identifier p = (cbf_source p, cbf_sequence_number p)"

definition cbf_length :: "'a CbfPacket \<Rightarrow> nat" where
  "cbf_length p = pending_length HV_Gbc (m_packet p)"

definition cbf_reduce_lifetime :: "duration \<Rightarrow> 'a CbfPacket \<Rightarrow> duration \<times> 'a CbfPacket" where
  "cbf_reduce_lifetime d p = (let (remaining, q) = reduce_lifetime d (m_packet p) in (remaining, p\<lparr>m_packet := q\<rparr>))"

subsection \<open>The buffer\<close>

type_synonym CbfTimer = "time_point \<times> time_point \<times> CbfPacketIdentifier"

record 'a CbfPacketBuffer =
  m_packets :: "'a CbfPacket list"
  m_timers :: "CbfTimer list"
  m_counter :: CbfCounter
  m_capacity_bytes :: nat
  m_stored_bytes :: nat
  node_reuse :: "time_point \<Rightarrow> CbfPacketIdentifier \<Rightarrow> bool"

text \<open>
  The last component is no member of the class: it stands for the memory allocator and tells
  whether the entry that is inserted at a time for a packet gets the storage of the first timer
  that was erased just before.
\<close>

definition cbf_packet_buffer :: "(time_point \<Rightarrow> CbfPacketIdentifier \<Rightarrow> bool) \<Rightarrow> CbfCounter \<Rightarrow> nat \<Rightarrow> 'a CbfPacketBuffer" where
  "cbf_packet_buffer reuse cnt capacity =
     \<lparr>m_packets = [], m_timers = [], m_counter = cnt, m_capacity_bytes = capacity, m_stored_bytes = 0, node_reuse = reuse\<rparr>"

fun timer_id :: "CbfTimer \<Rightarrow> CbfPacketIdentifier" where
  "timer_id (deadline, start, i) = i"

definition find_timer :: "CbfPacketIdentifier \<Rightarrow> 'a CbfPacketBuffer \<Rightarrow> CbfTimer option" where
  "find_timer i b = find (\<lambda>t. timer_id t = i) (m_timers b)"

definition cbf_find :: "CbfPacketIdentifier \<Rightarrow> 'a CbfPacketBuffer \<Rightarrow> 'a CbfPacket option" where
  "cbf_find i b = (case find_timer i b of None \<Rightarrow> None | Some _ \<Rightarrow> find (\<lambda>p. packet_identifier p = i) (m_packets b))"

definition cbf_count :: "time_point \<Rightarrow> CbfPacketIdentifier \<Rightarrow> 'a CbfPacketBuffer \<Rightarrow> nat" where
  "cbf_count now i b = cbf_counter_value now i (m_counter b)"

definition erase_packet :: "CbfPacketIdentifier \<Rightarrow> 'a CbfPacket list \<Rightarrow> 'a CbfPacket list" where
  "erase_packet i ps = filter (\<lambda>p. packet_identifier p \<noteq> i) ps"

definition erase_timer :: "CbfPacketIdentifier \<Rightarrow> CbfTimer list \<Rightarrow> CbfTimer list" where
  "erase_timer i ts = filter (\<lambda>t. timer_id t \<noteq> i) ts"

text \<open>Only called while there are timers, as the code asserts.\<close>

definition schedule_timer ::
  "'cb \<Rightarrow> 'sc \<Rightarrow> 'a CbfPacketBuffer \<Rightarrow> ('cb, 'sc, 'z) Runtime_scheme \<Rightarrow> ('cb, 'sc, 'z) Runtime_scheme" where
  "schedule_timer cb this b rt = (case m_timers b of
      [] \<Rightarrow> rt
    | (deadline, _) # _ \<Rightarrow> schedule_at deadline cb (Some this) (cancel (Some this) rt))"

definition remove_timer ::
  "'cb \<Rightarrow> 'sc \<Rightarrow> CbfPacketIdentifier \<Rightarrow> 'a CbfPacketBuffer \<Rightarrow> ('cb, 'sc, 'z) Runtime_scheme
     \<Rightarrow> 'a CbfPacketBuffer \<times> ('cb, 'sc, 'z) Runtime_scheme" where
  "remove_timer cb this i b rt =
    (let was_first = (case m_timers b of [] \<Rightarrow> False | t # _ \<Rightarrow> timer_id t = i);
         b' = b\<lparr>m_timers := erase_timer i (m_timers b)\<rparr>
     in (b', if was_first \<and> m_timers b' \<noteq> [] then schedule_timer cb this b' rt else rt))"

definition cbf_remove ::
  "'cb \<Rightarrow> 'sc \<Rightarrow> CbfPacketIdentifier \<Rightarrow> 'a CbfPacketBuffer \<Rightarrow> ('cb, 'sc, 'z) Runtime_scheme
     \<Rightarrow> bool \<times> 'a CbfPacketBuffer \<times> ('cb, 'sc, 'z) Runtime_scheme" where
  "cbf_remove cb this i b rt = (case cbf_find i b of
      None \<Rightarrow> (False, b, rt)
    | Some p \<Rightarrow> (True, remove_timer cb this i
        (b\<lparr>m_stored_bytes := m_stored_bytes b - cbf_length p, m_counter := cbf_counter_remove i (m_counter b),
           m_packets := erase_packet i (m_packets b)\<rparr>) rt))"

function cbf_head_drop :: "'a CbfPacketBuffer \<Rightarrow> 'a CbfPacketBuffer" where
  "cbf_head_drop b = (case m_packets b of
      [] \<Rightarrow> b
    | p # ps \<Rightarrow> if m_capacity_bytes b < m_stored_bytes b then
        cbf_head_drop (b\<lparr>m_stored_bytes := m_stored_bytes b - cbf_length p,
          m_timers := erase_timer (packet_identifier p) (m_timers b),
          m_counter := cbf_counter_remove (packet_identifier p) (m_counter b), m_packets := ps\<rparr>)
      else b)"
  by pat_completeness auto
termination
  by (relation "measure (\<lambda>b. length (m_packets b))") auto

declare cbf_head_drop.simps [simp del]

text \<open>
  The code compares the first timer with an iterator taken before the head drop. Without
  timers that is the end iterator. If the first timer is still there, the iterators are equal
  unless another one precedes it now. If it was dropped, its iterator is invalid; it compares
  equal to the first timer if that is the added entry and has got the storage of the dropped
  one, since all other entries have storage of their own.
\<close>

definition first_timer_changed :: "bool \<Rightarrow> CbfTimer list \<Rightarrow> CbfTimer list \<Rightarrow> CbfTimer list \<Rightarrow> bool" where
  "first_timer_changed reused before dropped after = (case before of
      [] \<Rightarrow> after \<noteq> []
    | t # _ \<Rightarrow>
        if timer_id t \<in> timer_id ` set dropped then map timer_id (take 1 after) \<noteq> [timer_id t]
        else \<not> (reused \<and> (case after of [] \<Rightarrow> False | u # _ \<Rightarrow> timer_id u \<notin> timer_id ` set dropped)))"

definition cbf_add ::
  "'cb \<Rightarrow> 'sc \<Rightarrow> 'a CbfPacket \<Rightarrow> duration \<Rightarrow> 'a CbfPacketBuffer \<Rightarrow> ('cb, 'sc, 'z) Runtime_scheme
     \<Rightarrow> 'a CbfPacketBuffer \<times> ('cb, 'sc, 'z) Runtime_scheme" where
  "cbf_add cb this p timeout b rt =
    (if timeout \<le> 0 then (b, rt) else
     let b1 = cbf_head_drop (b\<lparr>m_stored_bytes := m_stored_bytes b + cbf_length p\<rparr>);
         i = packet_identifier p;
         b2 = (case find_timer i b1 of
             Some _ \<Rightarrow> b1\<lparr>m_stored_bytes := m_stored_bytes b1 - cbf_length p\<rparr>
           | None \<Rightarrow> b1\<lparr>m_packets := m_packets b1 @ [p],
               m_timers := insert_upper (m_now rt + timeout, m_now rt, i) (m_timers b1),
               m_counter := cbf_counter_add (m_now rt) i (m_counter b1)\<rparr>)
     in (b2, if first_timer_changed (node_reuse b (m_now rt) i) (m_timers b) (m_timers b1) (m_timers b2)
             then schedule_timer cb this b2 rt else rt))"

text \<open>Lifetimes are reduced by the time since the timer was started.\<close>

definition timer_reduce :: "time_point \<Rightarrow> CbfTimer \<Rightarrow> 'a CbfPacket \<Rightarrow> bool \<times> 'a CbfPacket" where
  "timer_reduce now t p = (let (remaining, q) = cbf_reduce_lifetime (now - fst (snd t)) p in (0 < remaining, q))"

text \<open>
  Replacing a timer keeps its place if the new expiry fits between its neighbours; otherwise
  the entry moves behind all that do not expire later.
\<close>

definition replace_timer :: "CbfPacketIdentifier \<Rightarrow> time_point \<times> time_point \<Rightarrow> CbfTimer list \<Rightarrow> CbfTimer list" where
  "replace_timer i new ts =
    (let t = (fst new, snd new, i);
         before = takeWhile (\<lambda>t. timer_id t \<noteq> i) ts; after = tl (dropWhile (\<lambda>t. timer_id t \<noteq> i) ts)
     in if (before = [] \<or> fst (last before) \<le> fst t) \<and> (after = [] \<or> fst t \<le> fst (hd after))
        then before @ t # after else insert_upper t (before @ after))"

definition cbf_update :: "CbfPacketIdentifier \<Rightarrow> duration \<Rightarrow> time_point \<Rightarrow> 'a CbfPacketBuffer \<Rightarrow> 'a CbfPacketBuffer" where
  "cbf_update i timeout now b = (case find_timer i b of
      None \<Rightarrow> b
    | Some t \<Rightarrow> b\<lparr>m_packets := map (\<lambda>p. if packet_identifier p = i then snd (timer_reduce now t p) else p) (m_packets b),
        m_timers := replace_timer i (now + timeout, now) (m_timers b),
        m_counter := cbf_counter_increment now i (m_counter b)\<rparr>)"

definition cbf_fetch ::
  "'cb \<Rightarrow> 'sc \<Rightarrow> CbfPacketIdentifier \<Rightarrow> 'a CbfPacketBuffer \<Rightarrow> ('cb, 'sc, 'z) Runtime_scheme
     \<Rightarrow> 'a CbfPacket option \<times> 'a CbfPacketBuffer \<times> ('cb, 'sc, 'z) Runtime_scheme" where
  "cbf_fetch cb this i b rt = (case (find_timer i b, cbf_find i b) of
      (Some t, Some p) \<Rightarrow>
        (let (valid, q) = timer_reduce (m_now rt) t p
         in (if valid then Some q else None, remove_timer cb this i
              (b\<lparr>m_stored_bytes := m_stored_bytes b - cbf_length q, m_counter := cbf_counter_remove i (m_counter b),
                 m_packets := erase_packet i (m_packets b)\<rparr>) rt))
    | _ \<Rightarrow> (None, b, rt))"

text \<open>The packets handed to the timer callback, in order, and the buffer without the expired ones.\<close>

function cbf_flush_expired ::
  "time_point \<Rightarrow> 'a CbfPacketBuffer \<Rightarrow> (GeoBroadcastHeader, 'a) PendingPacket list \<times> 'a CbfPacketBuffer" where
  "cbf_flush_expired now b = (case m_timers b of
      [] \<Rightarrow> ([], b)
    | t # ts \<Rightarrow>
        if fst t \<le> now then
          (case cbf_find (timer_id t) b of
             None \<Rightarrow> cbf_flush_expired now (b\<lparr>m_timers := ts\<rparr>)
           | Some p \<Rightarrow>
              (let (valid, q) = timer_reduce now t p;
                   (out, b') = cbf_flush_expired now (b\<lparr>m_stored_bytes := m_stored_bytes b - cbf_length q,
                     m_counter := cbf_counter_remove (timer_id t) (m_counter b),
                     m_packets := erase_packet (timer_id t) (m_packets b), m_timers := ts\<rparr>)
               in (if valid then m_packet q # out else out, b')))
        else ([], b))"
  by pat_completeness auto
termination
  by (relation "measure (\<lambda>(_, b). length (m_timers b))") auto

declare cbf_flush_expired.simps [simp del]

text \<open>
  The timer callback works on the state that extends the runtime; it does not re-enter this
  buffer.
\<close>

definition cbf_flush ::
  "((GeoBroadcastHeader, 'a) PendingPacket \<Rightarrow> ('cb, 'sc, 'z) Runtime_scheme \<Rightarrow> ('cb, 'sc, 'z) Runtime_scheme)
     \<Rightarrow> 'cb \<Rightarrow> 'sc \<Rightarrow> 'a CbfPacketBuffer \<Rightarrow> ('cb, 'sc, 'z) Runtime_scheme
     \<Rightarrow> 'a CbfPacketBuffer \<times> ('cb, 'sc, 'z) Runtime_scheme" where
  "cbf_flush callback cb this b rt =
    (let (out, b') = cbf_flush_expired (m_now rt) b; rt' = fold callback out rt
     in (b', if m_timers b' = [] then rt' else schedule_timer cb this b' rt'))"

subsection \<open>Packets and timers correspond\<close>

definition cbf_linked :: "'a CbfPacketBuffer \<Rightarrow> bool" where
  "cbf_linked b \<longleftrightarrow> sorted (map fst (m_timers b)) \<and> distinct (map timer_id (m_timers b))
     \<and> distinct (map packet_identifier (m_packets b))
     \<and> timer_id ` set (m_timers b) = packet_identifier ` set (m_packets b)"

definition cbf_bytes :: "'a CbfPacket list \<Rightarrow> nat" where
  "cbf_bytes ps = sum_list (map cbf_length ps)"

definition cbf_ok :: "'a CbfPacketBuffer \<Rightarrow> bool" where
  "cbf_ok b \<longleftrightarrow> cbf_linked b \<and> m_stored_bytes b = cbf_bytes (m_packets b)
     \<and> (m_stored_bytes b \<le> m_capacity_bytes b \<or> length (m_packets b) \<le> 1)"

lemma cbf_bytes_simps [simp]:
  "cbf_bytes [] = 0" "cbf_bytes (p # ps) = cbf_length p + cbf_bytes ps"
  "cbf_bytes (ps @ qs) = cbf_bytes ps + cbf_bytes qs"
  by (simp_all add: cbf_bytes_def)

lemma identifier_reduce [simp]:
  "packet_identifier (snd (timer_reduce now t p)) = packet_identifier p"
  "cbf_length (snd (timer_reduce now t p)) = cbf_length p"
  by (simp_all add: timer_reduce_def cbf_reduce_lifetime_def case_prod_beta cbf_length_def packet_identifier_def
      cbf_source_def cbf_sequence_number_def reduce_lifetime_def Let_def set_pending_lifetime_def pending_length_def
      pdu_length_def split: option.split)

lemma find_timer_iff: "find_timer i b = None \<longleftrightarrow> i \<notin> timer_id ` set (m_timers b)"
  unfolding find_timer_def find_None_iff by blast

lemma find_timer_SomeD: "find_timer i b = Some t \<Longrightarrow> t \<in> set (m_timers b) \<and> timer_id t = i"
  by (auto simp: find_timer_def find_Some_iff)

lemma cbf_find_SomeD: "cbf_find i b = Some p \<Longrightarrow> p \<in> set (m_packets b) \<and> packet_identifier p = i"
  by (auto simp: cbf_find_def find_Some_iff split: option.splits)

lemma cbf_find_None: "cbf_linked b \<Longrightarrow> cbf_find i b = None \<longleftrightarrow> find_timer i b = None"
proof (cases "find_timer i b")
  case (Some t)
  assume "cbf_linked b"
  then have "i \<in> packet_identifier ` set (m_packets b)"
    using Some find_timer_iff [of i b] by (simp add: cbf_linked_def)
  then show ?thesis using Some by (auto simp: cbf_find_def find_None_iff)
qed (simp add: cbf_find_def)

lemma image_timer_erase [simp]: "timer_id ` set (erase_timer i ts) = timer_id ` set ts - {i}"
  by (auto simp: erase_timer_def)

lemma image_packet_erase [simp]:
  "packet_identifier ` set (erase_packet i ps) = packet_identifier ` set ps - {i}"
  by (auto simp: erase_packet_def)

lemma erase_packet_absent: "i \<notin> packet_identifier ` set ps \<Longrightarrow> erase_packet i ps = ps"
  by (auto simp: erase_packet_def filter_id_conv)

lemma erase_timer_absent: "i \<notin> timer_id ` set ts \<Longrightarrow> erase_timer i ts = ts"
  by (auto simp: erase_timer_def filter_id_conv)

lemma erase_hd [simp]:
  "distinct (map timer_id (t # ts)) \<Longrightarrow> erase_timer (timer_id t) (t # ts) = ts"
  "distinct (map packet_identifier (p # ps)) \<Longrightarrow> erase_packet (packet_identifier p) (p # ps) = ps"
  using erase_timer_absent [of "timer_id t" ts] erase_packet_absent [of "packet_identifier p" ps]
  by (auto simp: erase_timer_def erase_packet_def)

lemma cbf_bytes_erase:
  assumes "distinct (map packet_identifier ps)" and "p \<in> set ps"
  shows "cbf_bytes ps = cbf_length p + cbf_bytes (erase_packet (packet_identifier p) ps)"
  using assms
proof (induction ps)
  case (Cons q ps)
  show ?case
  proof (cases "q = p")
    case True
    then show ?thesis using Cons.prems by simp
  next
    case False
    then have "packet_identifier q \<noteq> packet_identifier p" using Cons.prems by auto
    then show ?thesis using Cons False by (simp add: erase_packet_def)
  qed
qed simp

lemma cbf_linked_erase:
  assumes "cbf_linked b"
  shows "cbf_linked (b\<lparr>m_stored_bytes := n, m_counter := c, m_packets := erase_packet i (m_packets b),
           m_timers := erase_timer i (m_timers b)\<rparr>)"
proof -
  have "sorted (map fst (erase_timer i (m_timers b)))" "distinct (map timer_id (erase_timer i (m_timers b)))"
    "distinct (map packet_identifier (erase_packet i (m_packets b)))"
    using assms by (simp_all add: cbf_linked_def erase_timer_def erase_packet_def sorted_map_filter distinct_map_filter)
  then show ?thesis using assms by (simp add: cbf_linked_def)
qed

lemma cbf_ok_erase:
  assumes "cbf_ok b" and "p \<in> set (m_packets b)"
  shows "cbf_ok (b\<lparr>m_stored_bytes := m_stored_bytes b - cbf_length p, m_counter := c,
           m_packets := erase_packet (packet_identifier p) (m_packets b),
           m_timers := erase_timer (packet_identifier p) (m_timers b)\<rparr>)"
proof -
  have d: "distinct (map packet_identifier (m_packets b))" using assms(1) by (simp add: cbf_ok_def cbf_linked_def)
  have "length (erase_packet (packet_identifier p) (m_packets b)) \<le> length (m_packets b)"
    by (simp add: erase_packet_def)
  then show ?thesis using assms cbf_linked_erase [of b] cbf_bytes_erase [OF d assms(2)]
    unfolding cbf_ok_def by auto
qed

subsection \<open>Every operation keeps the correspondence\<close>

lemma fst_remove_timer [simp]:
  "fst (remove_timer cb this i b rt) = b\<lparr>m_timers := erase_timer i (m_timers b)\<rparr>"
  by (simp add: remove_timer_def Let_def)

lemma cbf_ok_remove: "cbf_ok b \<Longrightarrow> cbf_ok (fst (snd (cbf_remove cb this i b rt)))"
  using cbf_ok_erase [of b]
  by (auto simp: cbf_remove_def dest: cbf_find_SomeD split: option.split)

lemma cbf_ok_fetch: "cbf_ok b \<Longrightarrow> cbf_ok (fst (snd (cbf_fetch cb this i b rt)))"
  using cbf_ok_erase [of b]
  by (auto simp: cbf_fetch_def case_prod_beta Let_def dest: cbf_find_SomeD split: option.split)

lemma cbf_ok_flush: "cbf_ok b \<Longrightarrow> cbf_ok (snd (cbf_flush_expired now b))"
proof (induction now b rule: cbf_flush_expired.induct)
  case (1 now b)
  show ?case
  proof (cases "m_timers b")
    case Nil
    then show ?thesis using "1.prems" by (simp add: cbf_flush_expired.simps)
  next
    case (Cons t ts)
    show ?thesis
    proof (cases "fst t \<le> now")
      case False
      then show ?thesis using "1.prems" Cons by (simp add: cbf_flush_expired.simps)
    next
      case True
      have "cbf_find (timer_id t) b \<noteq> None"
        using "1.prems" Cons by (auto simp: cbf_find_None cbf_ok_def find_timer_iff)
      then obtain p where p: "cbf_find (timer_id t) b = Some p" by blast
      have pb: "p \<in> set (m_packets b)" "packet_identifier p = timer_id t" using cbf_find_SomeD [OF p] by auto
      have ts: "erase_timer (packet_identifier p) (m_timers b) = ts"
        using "1.prems" Cons pb(2) by (simp add: cbf_ok_def cbf_linked_def)
      let ?q = "snd (timer_reduce now t p)"
      have "cbf_ok (b\<lparr>m_stored_bytes := m_stored_bytes b - cbf_length ?q,
        m_counter := cbf_counter_remove (timer_id t) (m_counter b),
        m_packets := erase_packet (timer_id t) (m_packets b), m_timers := ts\<rparr>)"
        using cbf_ok_erase [OF "1.prems" pb(1)] pb(2) ts by simp
      then show ?thesis using "1.IH"(2) [OF Cons True p, of _ "fst (timer_reduce now t p)" ?q] Cons True p
        by (subst cbf_flush_expired.simps) (simp add: case_prod_beta Let_def)
    qed
  qed
qed

lemma cbf_head_drop_spec:
  assumes "cbf_linked b" and "m_stored_bytes b = cbf_bytes (m_packets b) + n"
  shows "let b' = cbf_head_drop b in cbf_linked b' \<and> m_stored_bytes b' = cbf_bytes (m_packets b') + n
    \<and> m_capacity_bytes b' = m_capacity_bytes b \<and> (m_stored_bytes b' \<le> m_capacity_bytes b \<or> m_packets b' = [])
    \<and> (\<exists>k. m_packets b' = drop k (m_packets b))
    \<and> (\<exists>P. m_timers b' = filter P (m_timers b))"
  using assms
proof (induction b rule: cbf_head_drop.induct)
  case (1 b)
  show ?case
  proof (cases "m_packets b")
    case Nil
    then have e: "cbf_head_drop b = b" by (simp add: cbf_head_drop.simps)
    show ?thesis using "1.prems" Nil unfolding e Let_def
      by (auto intro: exI [of _ 0] exI [of _ "\<lambda>_. True"])
  next
    case (Cons p ps)
    show ?thesis
    proof (cases "m_capacity_bytes b < m_stored_bytes b")
      case False
      then have e: "cbf_head_drop b = b" using Cons by (subst cbf_head_drop.simps) simp
      show ?thesis using "1.prems" False unfolding e Let_def
        by (auto intro: exI [of _ 0] exI [of _ "\<lambda>_. True"])
    next
      case True
      let ?b = "b\<lparr>m_stored_bytes := m_stored_bytes b - cbf_length p,
          m_timers := erase_timer (packet_identifier p) (m_timers b),
          m_counter := cbf_counter_remove (packet_identifier p) (m_counter b), m_packets := ps\<rparr>"
      have "erase_packet (packet_identifier p) (m_packets b) = ps"
        using "1.prems"(1) Cons by (simp add: cbf_linked_def)
      then have l: "cbf_linked ?b"
        using cbf_linked_erase [OF "1.prems"(1), where i = "packet_identifier p"] by (simp add: cbf_linked_def)
      have e: "cbf_head_drop b = cbf_head_drop ?b" using Cons True by (subst cbf_head_drop.simps) simp
      have "m_stored_bytes ?b = cbf_bytes (m_packets ?b) + n" using "1.prems"(2) Cons by simp
      note ih = "1.IH" [OF Cons True l this, unfolded Let_def]
      obtain B where B: "cbf_head_drop ?b = B" by blast
      from ih have i: "cbf_linked B" "m_stored_bytes B = cbf_bytes (m_packets B) + n"
        "m_capacity_bytes B = m_capacity_bytes b" "m_stored_bytes B \<le> m_capacity_bytes b \<or> m_packets B = []"
        unfolding B by auto
      from ih obtain k P where kP: "m_packets B = drop k ps"
        "m_timers B = filter P (erase_timer (packet_identifier p) (m_timers b))" unfolding B by auto
      have "m_packets B = drop (Suc k) (m_packets b)" using kP(1) Cons by simp
      moreover have "m_timers B = filter (\<lambda>t. timer_id t \<noteq> packet_identifier p \<and> P t) (m_timers b)"
        unfolding kP(2) by (simp add: erase_timer_def)
      ultimately show ?thesis using i unfolding e B Let_def by blast
    qed
  qed
qed

lemma distinct_map_insert_upper:
  "distinct (map f (insert_upper x ys)) \<longleftrightarrow> f x \<notin> f ` set ys \<and> distinct (map f ys)"
  by (induction ys) auto

lemma cbf_ok_add:
  assumes "cbf_ok b"
  shows "cbf_ok (fst (cbf_add cb this p timeout b rt))"
proof (cases "timeout \<le> 0")
  case True
  then show ?thesis using assms by (simp add: cbf_add_def)
next
  case False
  let ?b = "b\<lparr>m_stored_bytes := m_stored_bytes b + cbf_length p\<rparr>"
  define b1 where "b1 = cbf_head_drop ?b"
  have "cbf_linked ?b" "m_stored_bytes ?b = cbf_bytes (m_packets ?b) + cbf_length p"
    using assms by (simp_all add: cbf_ok_def cbf_linked_def)
  from cbf_head_drop_spec [OF this, folded b1_def] have b1: "cbf_linked b1" "m_stored_bytes b1 = cbf_bytes (m_packets b1) + cbf_length p"
    "m_capacity_bytes b1 = m_capacity_bytes b" "m_stored_bytes b1 \<le> m_capacity_bytes b \<or> m_packets b1 = []"
    by (auto simp: Let_def)
  have add: "fst (cbf_add cb this p timeout b rt) = (case find_timer (packet_identifier p) b1 of
             Some _ \<Rightarrow> b1\<lparr>m_stored_bytes := m_stored_bytes b1 - cbf_length p\<rparr>
           | None \<Rightarrow> b1\<lparr>m_packets := m_packets b1 @ [p],
               m_timers := insert_upper (m_now rt + timeout, m_now rt, packet_identifier p) (m_timers b1),
               m_counter := cbf_counter_add (m_now rt) (packet_identifier p) (m_counter b1)\<rparr>)"
    using False unfolding b1_def by (simp add: cbf_add_def Let_def)
  show ?thesis
  proof (cases "find_timer (packet_identifier p) b1")
    case None
    then have n: "packet_identifier p \<notin> timer_id ` set (m_timers b1)" by (simp add: find_timer_iff)
    have "cbf_linked (fst (cbf_add cb this p timeout b rt))"
      using n b1(1) unfolding add None cbf_linked_def
      by (simp add: distinct_map_insert_upper sorted_insert_upper)
    then show ?thesis using b1(2,3,4) unfolding cbf_ok_def by (auto simp: add None)
  next
    case (Some t)
    have "cbf_linked (fst (cbf_add cb this p timeout b rt))"
      using b1(1) unfolding add Some cbf_linked_def by simp
    then show ?thesis using b1(2,3,4) unfolding cbf_ok_def by (auto simp: add Some)
  qed
qed

lemma split_at_timer:
  assumes "i \<in> timer_id ` set ts"
  obtains before t after where "ts = before @ t # after" "timer_id t = i" "i \<notin> timer_id ` set before"
    "takeWhile (\<lambda>t. timer_id t \<noteq> i) ts = before" "tl (dropWhile (\<lambda>t. timer_id t \<noteq> i) ts) = after"
proof -
  let ?P = "\<lambda>t. timer_id t \<noteq> i"
  have "dropWhile ?P ts \<noteq> []" using assms by (auto simp: dropWhile_eq_Nil_conv)
  then obtain t after where d: "dropWhile ?P ts = t # after" by (cases "dropWhile ?P ts") auto
  moreover have "timer_id t = i" using hd_dropWhile [of ?P ts] d by auto
  moreover have "i \<notin> timer_id ` set (takeWhile ?P ts)" by (auto dest: set_takeWhileD)
  ultimately show ?thesis using that [of "takeWhile ?P ts" t after] takeWhile_dropWhile_id [of ?P ts] by simp
qed

lemma sorted_replace:
  assumes "sorted (map fst (before @ after))" and "before = [] \<or> fst (last before) \<le> fst t"
    and "after = [] \<or> fst t \<le> fst (hd after)"
  shows "sorted (map fst (before @ t # after))"
proof -
  have "\<forall>x\<in>set before. fst x \<le> fst t"
    using assms(1,2) by (cases before rule: rev_cases) (auto simp: sorted_append)
  moreover have "\<forall>x\<in>set after. fst t \<le> fst x"
    using assms(1,3) by (cases after) (auto simp: sorted_append)
  ultimately show ?thesis using assms(1) by (auto simp: sorted_append)
qed

lemma replace_timer_spec:
  assumes "sorted (map fst ts)" and "distinct (map timer_id ts)" and "i \<in> timer_id ` set ts"
  shows "sorted (map fst (replace_timer i new ts)) \<and> distinct (map timer_id (replace_timer i new ts))
    \<and> timer_id ` set (replace_timer i new ts) = timer_id ` set ts
    \<and> (fst new, snd new, i) \<in> set (replace_timer i new ts)"
proof -
  obtain before t after where s: "ts = before @ t # after" "timer_id t = i" "i \<notin> timer_id ` set before"
    "takeWhile (\<lambda>t. timer_id t \<noteq> i) ts = before" "tl (dropWhile (\<lambda>t. timer_id t \<noteq> i) ts) = after"
    by (rule split_at_timer [OF assms(3)])
  have so: "sorted (map fst (before @ after))" using assms(1) s(1) by (auto simp: sorted_append)
  let ?t = "(fst new, snd new, i)"
  show ?thesis
  proof (cases "(before = [] \<or> fst (last before) \<le> fst ?t) \<and> (after = [] \<or> fst ?t \<le> fst (hd after))")
    case True
    then have e: "replace_timer i new ts = before @ ?t # after"
      unfolding replace_timer_def s(4,5) Let_def by (rule if_P)
    show ?thesis unfolding e using sorted_replace [OF so, of ?t] True assms(2) s(1,2) by auto
  next
    case False
    then have e: "replace_timer i new ts = insert_upper ?t (before @ after)"
      unfolding replace_timer_def s(4,5) Let_def by (rule if_not_P)
    show ?thesis unfolding e using sorted_insert_upper [OF so, of ?t] assms(2) s(1,2)
      by (auto simp: distinct_map_insert_upper)
  qed
qed

lemma cbf_ok_update:
  fixes b :: "'a CbfPacketBuffer"
  assumes "cbf_ok b"
  shows "cbf_ok (cbf_update i timeout now b)"
proof (cases "find_timer i b")
  case None
  then show ?thesis using assms by (simp add: cbf_update_def)
next
  case (Some t)
  let ?f = "\<lambda>p :: 'a CbfPacket. if packet_identifier p = i then snd (timer_reduce now t p) else p"
  have f: "packet_identifier (?f p) = packet_identifier p" "cbf_length (?f p) = cbf_length p" for p by simp_all
  have "packet_identifier \<circ> ?f = packet_identifier" "cbf_length \<circ> ?f = cbf_length" using f by (simp_all add: fun_eq_iff)
  then have m: "map packet_identifier (map ?f ps) = map packet_identifier ps" "cbf_bytes (map ?f ps) = cbf_bytes ps" for ps
    by (simp_all only: map_map cbf_bytes_def)
  have "packet_identifier ` set (map ?f ps) = set (map packet_identifier (map ?f ps))" for ps by (simp only: set_map)
  then have "packet_identifier ` set (map ?f ps) = packet_identifier ` set ps" for ps by (simp only: m set_map)
  with m have f: "map packet_identifier (m_packets (cbf_update i timeout now b)) = map packet_identifier (m_packets b)"
    "cbf_bytes (m_packets (cbf_update i timeout now b)) = cbf_bytes (m_packets b)"
    "packet_identifier ` set (m_packets (cbf_update i timeout now b)) = packet_identifier ` set (m_packets b)"
    "length (m_packets (cbf_update i timeout now b)) = length (m_packets b)"
    "m_timers (cbf_update i timeout now b) = replace_timer i (now + timeout, now) (m_timers b)"
    "m_stored_bytes (cbf_update i timeout now b) = m_stored_bytes b"
    "m_capacity_bytes (cbf_update i timeout now b) = m_capacity_bytes b"
    using Some by (simp_all add: cbf_update_def del: map_map set_map)
  have "i \<in> timer_id ` set (m_timers b)" using Some find_timer_iff [of i b] by simp
  then show ?thesis using assms replace_timer_spec [of "m_timers b" i "(now + timeout, now)"]
    unfolding cbf_ok_def cbf_linked_def f by auto
qed

subsection \<open>Flushing\<close>

lemma find_filter: "(\<And>x. P x \<Longrightarrow> Q x) \<Longrightarrow> find P (filter Q xs) = find P xs"
  by (induction xs) auto

lemma cbf_find_erase:
  fixes b :: "'a CbfPacketBuffer"
  assumes "j \<noteq> i"
  shows "cbf_find j (b\<lparr>m_stored_bytes := n, m_counter := c, m_packets := erase_packet i (m_packets b),
     m_timers := erase_timer i (m_timers b)\<rparr>) = cbf_find j b"
proof -
  have "find (\<lambda>t. timer_id t = j) (filter (\<lambda>t. timer_id t \<noteq> i) ts) = find (\<lambda>t. timer_id t = j) ts"
    "find (\<lambda>p. packet_identifier p = j) (filter (\<lambda>p. packet_identifier p \<noteq> i) ps) = find (\<lambda>p. packet_identifier p = j) ps"
    for ts and ps :: "'a CbfPacket list"
    using assms by (auto intro!: find_filter)
  then show ?thesis
    by (simp add: cbf_find_def find_timer_def erase_timer_def erase_packet_def split: option.split)
qed

definition flushed :: "time_point \<Rightarrow> 'a CbfPacketBuffer \<Rightarrow> CbfTimer \<Rightarrow> (GeoBroadcastHeader, 'a) PendingPacket option" where
  "flushed now b t = (case cbf_find (timer_id t) b of None \<Rightarrow> None
     | Some p \<Rightarrow> if fst (timer_reduce now t p) then Some (m_packet (snd (timer_reduce now t p))) else None)"

lemma cbf_flush_expired_spec:
  assumes "cbf_ok b"
  shows "fst (cbf_flush_expired now b) = List.map_filter (flushed now b) (filter (\<lambda>t. fst t \<le> now) (m_timers b))
    \<and> m_timers (snd (cbf_flush_expired now b)) = filter (\<lambda>t. now < fst t) (m_timers b)"
  using assms
proof (induction now b rule: cbf_flush_expired.induct)
  case (1 now b)
  show ?case
  proof (cases "m_timers b")
    case Nil
    then show ?thesis by (simp add: cbf_flush_expired.simps map_filter_def)
  next
    case (Cons t ts)
    show ?thesis
    proof (cases "fst t \<le> now")
      case False
      have "\<forall>u\<in>set (m_timers b). now < fst u"
        using "1.prems" Cons False by (auto simp: cbf_ok_def cbf_linked_def)
      then have "filter (\<lambda>t. fst t \<le> now) (m_timers b) = []" "filter (\<lambda>t. now < fst t) (m_timers b) = m_timers b"
        by (auto simp: filter_empty_conv filter_id_conv not_le)
      then show ?thesis using Cons False by (simp add: cbf_flush_expired.simps map_filter_def)
    next
      case True
      have "cbf_find (timer_id t) b \<noteq> None"
        using "1.prems" Cons by (auto simp: cbf_find_None cbf_ok_def find_timer_iff)
      then obtain p where p: "cbf_find (timer_id t) b = Some p" by blast
      have pb: "p \<in> set (m_packets b)" "packet_identifier p = timer_id t" using cbf_find_SomeD [OF p] by auto
      have d: "distinct (map timer_id (t # ts))" using "1.prems" Cons by (simp add: cbf_ok_def cbf_linked_def)
      let ?q = "snd (timer_reduce now t p)"
      define b' where "b' = b\<lparr>m_stored_bytes := m_stored_bytes b - cbf_length ?q,
        m_counter := cbf_counter_remove (timer_id t) (m_counter b),
        m_packets := erase_packet (timer_id t) (m_packets b), m_timers := erase_timer (timer_id t) (m_timers b)\<rparr>"
      have ts: "erase_timer (timer_id t) (m_timers b) = ts" using d Cons by (simp only: erase_hd(1))
      have ok: "cbf_ok b'" using cbf_ok_erase [OF "1.prems" pb(1)] pb(2) unfolding b'_def by simp
      have e: "cbf_flush_expired now b = (if fst (timer_reduce now t p) then m_packet ?q # fst (cbf_flush_expired now b')
          else fst (cbf_flush_expired now b'), snd (cbf_flush_expired now b'))"
        using Cons True p unfolding b'_def ts by (subst cbf_flush_expired.simps) (simp add: case_prod_beta Let_def)
      have ih: "fst (cbf_flush_expired now b') = List.map_filter (flushed now b') (filter (\<lambda>t. fst t \<le> now) (m_timers b'))"
        "m_timers (snd (cbf_flush_expired now b')) = filter (\<lambda>t. now < fst t) (m_timers b')"
        using "1.IH"(2) [OF Cons True p, of _ "fst (timer_reduce now t p)" ?q] ok unfolding b'_def ts by simp_all
      have t': "m_timers b' = ts" unfolding b'_def using ts by simp
      have "flushed now b' u = flushed now b u" if "u \<in> set ts" for u
      proof -
        have "timer_id u \<in> timer_id ` set ts" using that by (rule imageI)
        moreover have "timer_id t \<notin> timer_id ` set ts" using d by simp
        ultimately have "timer_id u \<noteq> timer_id t" by metis
        note e = cbf_find_erase [OF this]
        show ?thesis unfolding flushed_def b'_def e ..
      qed
      then have "List.map_filter (flushed now b') (filter (\<lambda>t. fst t \<le> now) ts)
        = List.map_filter (flushed now b) (filter (\<lambda>t. fst t \<le> now) ts)"
        by (auto simp: map_filter_def cong: map_cong filter_cong)
      moreover have "flushed now b t = (if fst (timer_reduce now t p) then Some (m_packet ?q) else None)"
        using p by (simp add: flushed_def)
      ultimately show ?thesis using True unfolding e Cons by (simp add: ih t' map_filter_simps)
    qed
  qed
qed

subsection \<open>The flush is scheduled\<close>

definition own :: "'sc \<Rightarrow> (time_point \<times> 'cb \<times> 'sc option) list \<Rightarrow> (time_point \<times> 'cb \<times> 'sc option) list" where
  "own this q = filter (\<lambda>(_, _, sc). sc = Some this) q"

definition flush_scheduled ::
  "'cb \<Rightarrow> 'sc \<Rightarrow> 'a CbfPacketBuffer \<Rightarrow> ('cb, 'sc, 'z) Runtime_scheme \<Rightarrow> bool" where
  "flush_scheduled cb this b rt \<longleftrightarrow>
     m_timers b = [] \<or> own this (m_queue rt) = [(fst (hd (m_timers b)), cb, Some this)]"

lemma filter_insert_upper_alone: "filter P q = [] \<Longrightarrow> P x \<Longrightarrow> filter P (insert_upper x q) = [x]"
  by (induction q) (auto split: if_splits)

lemma flush_scheduled_schedule: "flush_scheduled cb this b (schedule_timer cb this b rt)"
proof (cases "m_timers b")
  case (Cons t ts)
  have "own this (m_queue (cancel (Some this) rt)) = []"
    by (auto simp: own_def cancel_def filter_empty_conv)
  then show ?thesis using Cons
    by (auto simp: flush_scheduled_def schedule_timer_def schedule_at_def own_def filter_insert_upper_alone split: prod.split)
qed (simp add: flush_scheduled_def)

lemma flush_scheduled_remove_timer:
  assumes "flush_scheduled cb this b rt"
  shows "flush_scheduled cb this (fst (remove_timer cb this i b rt)) (snd (remove_timer cb this i b rt))"
proof (cases "m_timers b")
  case Nil
  then show ?thesis by (simp add: flush_scheduled_def erase_timer_def)
next
  case (Cons t ts)
  show ?thesis
  proof (cases "timer_id t = i")
    case True
    then show ?thesis using Cons flush_scheduled_schedule [of cb this "b\<lparr>m_timers := erase_timer i (m_timers b)\<rparr>" rt]
      by (auto simp: remove_timer_def Let_def flush_scheduled_def)
  next
    case False
    then show ?thesis using Cons assms
      by (simp add: remove_timer_def Let_def flush_scheduled_def erase_timer_def)
  qed
qed

lemma flush_scheduled_remove:
  assumes "flush_scheduled cb this b rt" and "cbf_remove cb this i b rt = (r, b', rt')"
  shows "flush_scheduled cb this b' rt'"
proof (cases "cbf_find i b")
  case (Some p)
  let ?b = "b\<lparr>m_stored_bytes := m_stored_bytes b - cbf_length p, m_counter := cbf_counter_remove i (m_counter b),
    m_packets := erase_packet i (m_packets b)\<rparr>"
  have "flush_scheduled cb this ?b rt" using assms(1) by (simp add: flush_scheduled_def)
  moreover have "remove_timer cb this i ?b rt = (b', rt')" using assms(2) Some by (simp add: cbf_remove_def)
  ultimately show ?thesis by (metis flush_scheduled_remove_timer fst_conv snd_conv)
qed (use assms in \<open>simp add: cbf_remove_def\<close>)

lemma flush_scheduled_fetch:
  assumes "flush_scheduled cb this b rt" and "cbf_fetch cb this i b rt = (r, b', rt')"
  shows "flush_scheduled cb this b' rt'"
proof (cases "find_timer i b = None \<or> cbf_find i b = None")
  case False
  then obtain t p where tp: "find_timer i b = Some t" "cbf_find i b = Some p" by auto
  let ?b = "b\<lparr>m_stored_bytes := m_stored_bytes b - cbf_length p, m_counter := cbf_counter_remove i (m_counter b),
    m_packets := erase_packet i (m_packets b)\<rparr>"
  have "flush_scheduled cb this ?b rt" using assms(1) by (simp add: flush_scheduled_def)
  moreover have "remove_timer cb this i ?b rt = (b', rt')"
    using assms(2) tp by (simp add: cbf_fetch_def case_prod_beta Let_def)
  ultimately show ?thesis by (metis flush_scheduled_remove_timer fst_conv snd_conv)
qed (use assms in \<open>auto simp: cbf_fetch_def split: option.splits\<close>)

text \<open>If the first timer has not changed, it is the very same entry.\<close>

lemma unchanged_first_timer:
  assumes "distinct (map timer_id before)" and "set dropped \<subseteq> set before"
    and "\<forall>t\<in>set after. t \<in> set dropped \<or> timer_id t \<notin> timer_id ` set dropped"
    and "\<not> first_timer_changed reused before dropped after" and "after \<noteq> []"
    and "before \<noteq> [] \<Longrightarrow> timer_id (hd before) \<in> timer_id ` set dropped \<or> \<not> reused"
  shows "before \<noteq> [] \<and> hd after = hd before"
proof -
  obtain t ts where t: "before = t # ts" using assms(4,5) by (cases before) (auto simp: first_timer_changed_def)
  obtain u us where u: "after = u # us" using assms(5) by (cases after) auto
  have i: "timer_id t \<in> timer_id ` set dropped" "timer_id u = timer_id t"
    using assms(4,6) t u by (auto simp: first_timer_changed_def split: if_splits)
  then have "u \<in> set dropped" using assms(3) u by (metis list.set_intros(1))
  then have "u \<in> set before" using assms(2) by blast
  then have "u = t" using assms(1) t i(2) by (metis distinct_map inj_onD list.set_intros(1))
  then show ?thesis using t u by simp
qed

text \<open>An added packet may displace the packet whose timer is the first one.\<close>

definition first_timer_dropped :: "'a CbfPacket \<Rightarrow> 'a CbfPacketBuffer \<Rightarrow> bool" where
  "first_timer_dropped p b = (case m_timers b of [] \<Rightarrow> False
     | t # _ \<Rightarrow> timer_id t \<notin> timer_id ` set (m_timers (cbf_head_drop (b\<lparr>m_stored_bytes := m_stored_bytes b + cbf_length p\<rparr>))))"

lemma flush_scheduled_add:
  assumes "flush_scheduled cb this b rt" and "cbf_ok b" and "cbf_add cb this p d b rt = (b', rt')"
    and "\<not> first_timer_dropped p b \<or> \<not> node_reuse b (m_now rt) (packet_identifier p)"
  shows "flush_scheduled cb this b' rt'"
proof (cases "d \<le> 0")
  case False
  let ?b = "b\<lparr>m_stored_bytes := m_stored_bytes b + cbf_length p\<rparr>"
  obtain b1 where b1: "cbf_head_drop ?b = b1" by blast
  have "cbf_linked ?b" "m_stored_bytes ?b = cbf_bytes (m_packets ?b) + cbf_length p"
    using assms(2) by (simp_all add: cbf_ok_def cbf_linked_def)
  from cbf_head_drop_spec [OF this] have dropped: "set (m_timers b1) \<subseteq> set (m_timers b)"
    unfolding b1 Let_def by (auto simp del: split_paired_Ex)
  have added: "m_timers b' = m_timers b1 \<or> m_timers b' = insert_upper (m_now rt + d, m_now rt, packet_identifier p) (m_timers b1)
     \<and> packet_identifier p \<notin> timer_id ` set (m_timers b1)"
    and sched: "rt' = (if first_timer_changed (node_reuse b (m_now rt) (packet_identifier p)) (m_timers b) (m_timers b1) (m_timers b')
      then schedule_timer cb this b' rt else rt)"
    using assms(3) False b1 by (auto simp: cbf_add_def Let_def find_timer_iff split: option.splits)
  show ?thesis
  proof (cases "first_timer_changed (node_reuse b (m_now rt) (packet_identifier p)) (m_timers b) (m_timers b1) (m_timers b')
      \<or> m_timers b' = []")
    case True
    then show ?thesis using sched flush_scheduled_schedule [of cb this b' rt] by (auto simp: flush_scheduled_def)
  next
    case unchanged: False
    have "\<forall>t\<in>set (m_timers b'). t \<in> set (m_timers b1) \<or> timer_id t \<notin> timer_id ` set (m_timers b1)"
      using added by (elim disjE conjE) (simp_all del: split_paired_All)
    moreover have "timer_id (hd (m_timers b)) \<in> timer_id ` set (m_timers b1) \<or> \<not> node_reuse b (m_now rt) (packet_identifier p)"
      if "m_timers b \<noteq> []"
      using assms(4) that b1 by (cases "m_timers b") (simp_all add: first_timer_dropped_def)
    ultimately have "m_timers b \<noteq> [] \<and> hd (m_timers b') = hd (m_timers b)"
      using unchanged dropped assms(2) by (intro unchanged_first_timer) (auto simp: cbf_ok_def cbf_linked_def)
    then show ?thesis using assms(1) sched unchanged by (simp add: flush_scheduled_def)
  qed
qed (use assms in \<open>simp add: cbf_add_def\<close>)

lemma flush_scheduled_flush:
  assumes "cbf_flush callback cb this b rt = (b', rt')"
  shows "flush_scheduled cb this b' rt'"
proof (cases "m_timers b' = []")
  case False
  then have "\<exists>rt''. rt' = schedule_timer cb this b' rt''"
    using assms by (auto simp: cbf_flush_def Let_def case_prod_beta)
  then show ?thesis by (auto intro: flush_scheduled_schedule)
qed (simp add: flush_scheduled_def)

subsection \<open>Runs of the buffer\<close>

text \<open>
  All sequences of operations on the buffer. In between, time passes, and others schedule and
  cancel callbacks of their own; the flush runs when the runtime takes it from its queue. The
  flag says whether the run may do what can leave the flush late: update timers, and add a
  packet that gets the storage of the first timer it displaces.
\<close>

inductive cbf_run :: "bool \<Rightarrow> 'cb \<Rightarrow> 'sc \<Rightarrow> 'a CbfPacketBuffer \<Rightarrow> ('cb, 'sc) Runtime \<Rightarrow> bool"
  for updates :: bool and cb :: 'cb and this :: 'sc where
  start: "own this (m_queue rt) = [] \<Longrightarrow> cbf_run updates cb this (cbf_packet_buffer reuse cnt capacity) rt"
| adds: "cbf_run updates cb this b rt \<Longrightarrow> updates \<or> \<not> first_timer_dropped p b \<or> \<not> node_reuse b (m_now rt) (packet_identifier p) \<Longrightarrow>
    cbf_add cb this p timeout b rt = (b', rt') \<Longrightarrow> cbf_run updates cb this b' rt'"
| removes: "cbf_run updates cb this b rt \<Longrightarrow> cbf_remove cb this i b rt = (r, b', rt') \<Longrightarrow> cbf_run updates cb this b' rt'"
| fetches: "cbf_run updates cb this b rt \<Longrightarrow> cbf_fetch cb this i b rt = (q, b', rt') \<Longrightarrow> cbf_run updates cb this b' rt'"
| update: "cbf_run updates cb this b rt \<Longrightarrow> updates \<Longrightarrow> cbf_run updates cb this (cbf_update i timeout (m_now rt) b) rt"
| flushes: "cbf_run updates cb this b rt \<Longrightarrow> m_queue rt = (d, cb, Some this) # queue \<Longrightarrow> d \<le> m_now rt \<Longrightarrow>
    cbf_flush (\<lambda>_ rt. rt) cb this b (rt\<lparr>m_queue := queue\<rparr>) = (b', rt') \<Longrightarrow> cbf_run updates cb this b' rt'"
| time: "cbf_run updates cb this b rt \<Longrightarrow> m_now rt \<le> t \<Longrightarrow> cbf_run updates cb this b (rt\<lparr>m_now := t\<rparr>)"
| others: "cbf_run updates cb this b rt \<Longrightarrow> own this queue = own this (m_queue rt) \<Longrightarrow>
    cbf_run updates cb this b (rt\<lparr>m_queue := queue\<rparr>)"

lemma cbf_ok_start: "cbf_ok (cbf_packet_buffer reuse cnt capacity)"
  by (simp add: cbf_ok_def cbf_linked_def cbf_packet_buffer_def)

lemma cbf_run_ok: "cbf_run u cb this b rt \<Longrightarrow> cbf_ok b"
proof (induction rule: cbf_run.induct)
  case (start rt reuse cnt capacity)
  show ?case by (rule cbf_ok_start)
next
  case (adds b rt p timeout b' rt')
  then show ?case using cbf_ok_add [of b cb this p timeout rt] by simp
next
  case (removes b rt i r b' rt')
  then show ?case using cbf_ok_remove [of b cb this i rt] by simp
next
  case (fetches b rt i q b' rt')
  then show ?case using cbf_ok_fetch [of b cb this i rt] by simp
next
  case (update b rt i timeout)
  then show ?case by (intro cbf_ok_update)
next
  case (flushes b rt d queue b' rt')
  then show ?case using cbf_ok_flush [of b "m_now rt"] by (auto simp: cbf_flush_def Let_def case_prod_beta)
qed

lemma cbf_run_scheduled: "cbf_run False cb this b rt \<Longrightarrow> flush_scheduled cb this b rt"
proof (induction rule: cbf_run.induct)
  case (start rt reuse cnt capacity)
  then show ?case by (simp add: flush_scheduled_def cbf_packet_buffer_def)
next
  case (adds b rt p timeout b' rt')
  then show ?case by (blast intro: flush_scheduled_add dest: cbf_run_ok)
qed (auto simp: flush_scheduled_def [of _ _ _ "_\<lparr>m_now := _\<rparr>"] flush_scheduled_def [of _ _ _ "_\<lparr>m_queue := _\<rparr>"]
    intro: flush_scheduled_remove flush_scheduled_fetch flush_scheduled_flush simp flip: flush_scheduled_def)

subsection \<open>Properties\<close>

text \<open>C29: In every run of the contention buffer, packets and timers correspond one to one, as
  the code asserts, packets are unique, timers are sorted, and the byte count is exact. The
  buffer stays within its capacity unless it holds a single packet: one packet larger than
  the capacity is stored nevertheless.\<close>

theorem cbf_buffer_consistent:
  assumes "cbf_run u cb this b rt"
  shows "length (m_packets b) = length (m_timers b)
    \<and> timer_id ` set (m_timers b) = packet_identifier ` set (m_packets b)
    \<and> distinct (map packet_identifier (m_packets b)) \<and> distinct (map timer_id (m_timers b))
    \<and> sorted (map fst (m_timers b))
    \<and> m_stored_bytes b = sum_list (map cbf_length (m_packets b))
    \<and> (m_stored_bytes b \<le> m_capacity_bytes b \<or> length (m_packets b) \<le> 1)"
proof -
  have ok: "cbf_ok b" using assms by (rule cbf_run_ok)
  then have "length (m_packets b) = length (m_timers b)"
    unfolding cbf_ok_def cbf_linked_def by (metis distinct_card length_map set_map)
  with ok show ?thesis unfolding cbf_ok_def cbf_linked_def cbf_bytes_def by blast
qed

lemma cbf_add_first:
  assumes "0 < d"
  shows "cbf_add cb this p d (cbf_packet_buffer reuse cnt capacity) rt =
    (\<lparr>m_packets = [p], m_timers = [(m_now rt + d, m_now rt, packet_identifier p)],
      m_counter = cbf_counter_add (m_now rt) (packet_identifier p) cnt, m_capacity_bytes = capacity,
      m_stored_bytes = cbf_length p, node_reuse = reuse\<rparr>, schedule_at (m_now rt + d) cb (Some this) (cancel (Some this) rt))"
  using assms by (simp add: cbf_add_def cbf_packet_buffer_def cbf_head_drop.simps find_timer_def Let_def
      first_timer_changed_def schedule_timer_def)

definition sample_cbf :: "unit CbfPacket" where
  "sample_cbf = \<lparr>m_packet = sample_packet, m_sender = cBroadcastMacAddress\<rparr>"

lemma sample_cbf_length: "cbf_length sample_cbf = 56"
  by (simp add: sample_cbf_def cbf_length_def sample_packet_length)

definition sample_runtime :: "(unit, unit) Runtime" where
  "sample_runtime = \<lparr>m_now = 0, m_queue = []\<rparr>"

definition sample_buffer :: "unit CbfPacketBuffer" where
  "sample_buffer = \<lparr>m_packets = [sample_cbf], m_timers = [(100, 0, packet_identifier sample_cbf)],
     m_counter = CbfCounterImmortal [packet_identifier sample_cbf \<mapsto> 1], m_capacity_bytes = 40, m_stored_bytes = 56,
     node_reuse = (\<lambda>_ _. True)\<rparr>"

lemma sample_run: "cbf_run u () () sample_buffer (sample_runtime\<lparr>m_queue := [(100, (), Some ())]\<rparr>)"
proof (rule cbf_run.adds)
  show "cbf_run u () () (cbf_packet_buffer (\<lambda>_ _. True) (CbfCounterImmortal Map.empty) 40) sample_runtime"
    by (rule cbf_run.start) (simp add: own_def sample_runtime_def)
  show "u \<or> \<not> first_timer_dropped sample_cbf (cbf_packet_buffer (\<lambda>_ _. True) (CbfCounterImmortal Map.empty) 40)
      \<or> \<not> node_reuse (cbf_packet_buffer (\<lambda>_ _. True) (CbfCounterImmortal Map.empty) 40) (m_now sample_runtime) (packet_identifier sample_cbf)"
    by (simp add: first_timer_dropped_def cbf_packet_buffer_def)
  show "cbf_add () () sample_cbf 100 (cbf_packet_buffer (\<lambda>_ _. True) (CbfCounterImmortal Map.empty) 40) sample_runtime
      = (sample_buffer, sample_runtime\<lparr>m_queue := [(100, (), Some ())]\<rparr>)"
    by (simp add: cbf_add_first sample_buffer_def sample_runtime_def schedule_at_def cancel_def plus_plus_def
        sample_cbf_length)
qed

theorem cbf_buffer_consistent_witness:
  "m_stored_bytes sample_buffer = sum_list (map cbf_length (m_packets sample_buffer))
   \<and> \<not> m_stored_bytes sample_buffer \<le> m_capacity_bytes sample_buffer \<and> length (m_packets sample_buffer) = 1"
  using cbf_buffer_consistent [OF sample_run [of False]] by (auto simp: sample_buffer_def)

text \<open>C31: Flushing hands out exactly the packets whose timer has expired and that still have a
  lifetime left, in order of expiry and with their lifetime reduced by the time since the
  timer was started. Exactly the timers that have not expired remain, with the packets that
  belong to them.\<close>

theorem cbf_flush_exact:
  assumes "cbf_run u cb this b rt" and "cbf_flush_expired now b = (out, b')"
  shows "out = List.map_filter (\<lambda>t. case cbf_find (timer_id t) b of None \<Rightarrow> None
           | Some p \<Rightarrow> let (remaining, q) = reduce_lifetime (now - fst (snd t)) (m_packet p)
                       in if 0 < remaining then Some q else None)
         (filter (\<lambda>t. fst t \<le> now) (m_timers b))
    \<and> m_timers b' = filter (\<lambda>t. now < fst t) (m_timers b)
    \<and> packet_identifier ` set (m_packets b') = timer_id ` {t \<in> set (m_timers b). now < fst t}"
proof -
  have ok: "cbf_ok b" using assms(1) by (rule cbf_run_ok)
  have "flushed now b = (\<lambda>t. case cbf_find (timer_id t) b of None \<Rightarrow> None
           | Some p \<Rightarrow> let (remaining, q) = reduce_lifetime (now - fst (snd t)) (m_packet p)
                       in if 0 < remaining then Some q else None)"
    by (rule ext) (simp add: flushed_def timer_reduce_def cbf_reduce_lifetime_def Let_def case_prod_beta split: option.split)
  moreover have "cbf_linked b'" using cbf_ok_flush [OF ok, of now] assms(2) by (simp add: cbf_ok_def)
  ultimately show ?thesis using cbf_flush_expired_spec [OF ok, of now] assms(2)
    by (auto simp: cbf_linked_def)
qed

theorem cbf_flush_exact_witness:
  "\<exists>out b'. cbf_flush_expired 100 sample_buffer = (out, b') \<and> m_timers b' = [] \<and> m_packets b' = []"
proof -
  obtain out b' where e: "cbf_flush_expired 100 sample_buffer = (out, b')" by fastforce
  have t: "filter (\<lambda>t. 100 < fst t) (m_timers sample_buffer) = []" "{t \<in> set (m_timers sample_buffer). 100 < fst t} = {}"
    by (auto simp: sample_buffer_def)
  have "m_timers b' = [] \<and> packet_identifier ` set (m_packets b') = timer_id ` {}"
    using cbf_flush_exact [OF sample_run [of False] e, unfolded t] by (elim conjE) (intro conjI)
  with e show ?thesis by simp
qed

text \<open>C30: As long as no timer is updated and no added packet gets the storage of the first timer
  that it displaces by head drop, the runtime holds exactly one flush of a non-empty buffer, and
  it is due precisely when the earliest timer expires. In the excluded cases it can be late.\<close>

theorem cbf_flush_on_time:
  assumes "cbf_run False cb this b rt" and "m_timers b \<noteq> []"
  shows "own this (m_queue rt) = [(Min (fst ` set (m_timers b)), cb, Some this)]"
proof -
  obtain t ts where t: "m_timers b = t # ts" using assms(2) by (cases "m_timers b") auto
  have "sorted (map fst (m_timers b))" using cbf_run_ok [OF assms(1)] by (simp add: cbf_ok_def cbf_linked_def)
  then have "Min (fst ` set (m_timers b)) = fst t" using t by (intro Min_eqI) auto
  then show ?thesis using cbf_run_scheduled [OF assms(1)] t by (simp add: flush_scheduled_def)
qed

theorem cbf_flush_on_time_witness:
  "own () (m_queue (sample_runtime\<lparr>m_queue := [(100, (), Some ())]\<rparr>)) = [(100, (), Some ())]"
  using cbf_flush_on_time [OF sample_run] by (simp add: sample_buffer_def)

text \<open>
  Updating a timer does not reschedule the flush. A packet whose new timer expires earlier
  waits for the old deadline.
\<close>

theorem cbf_update_leaves_late_flush:
  "\<exists>b rt. cbf_run True () () (b :: unit CbfPacketBuffer) rt
     \<and> (\<exists>t\<in>set (m_timers b). \<forall>e\<in>set (own () (m_queue rt)). fst t < fst e)"
proof -
  let ?rt = "sample_runtime\<lparr>m_queue := [(100, (), Some ())]\<rparr>"
  let ?b = "cbf_update (packet_identifier sample_cbf) 20 (m_now ?rt) sample_buffer"
  have "cbf_run True () () ?b ?rt" by (rule cbf_run.update [OF sample_run]) simp
  moreover have "m_timers ?b = [(20, 0, packet_identifier sample_cbf)]"
    by (simp add: cbf_update_def find_timer_def sample_buffer_def replace_timer_def sample_runtime_def)
  moreover have "own () (m_queue ?rt) = [(100, (), Some ())]" by (simp add: own_def)
  ultimately show ?thesis by (intro exI [of _ ?b] exI [of _ ?rt]) simp
qed

text \<open>
  An added packet that displaces the packet of the first timer and gets its storage does not
  reschedule the flush either: the invalid iterator equals the one of the new entry. Here the
  new packet is due at 20, and the flush remains scheduled for the dropped one at 100.
\<close>

theorem dangling_iterator_leaves_late_flush:
  "\<exists>b rt. cbf_run True () () (b :: unit CbfPacketBuffer) rt
     \<and> map fst (m_timers b) = [20] \<and> map fst (own () (m_queue rt)) = [100]"
proof -
  let ?rt = "sample_runtime\<lparr>m_queue := [(100, (), Some ())]\<rparr>"
  obtain b' rt' where a: "cbf_add () () sample_cbf 20 sample_buffer ?rt = (b', rt')" by fastforce
  have "cbf_run True () () b' rt'" by (rule cbf_run.adds [OF sample_run _ a]) simp
  moreover have "m_timers b' = [(20, 0, packet_identifier sample_cbf)] \<and> rt' = ?rt"
    using a by (auto simp: cbf_add_def cbf_head_drop.simps find_timer_def sample_buffer_def sample_runtime_def Let_def
        sample_cbf_length first_timer_changed_def erase_timer_def)
  moreover have "own () (m_queue ?rt) = [(100, (), Some ())]" by (simp add: own_def)
  ultimately show ?thesis by (intro exI [of _ b'] exI [of _ rt']) simp
qed

end
