(* ===== verification/LocationTbl.thy ===== *)
theory LocationTbl
  imports Duplicates GnHeaders
begin

text \<open>
  The location table (\<open>vanetza/geonet/location_table.cpp\<close>, \<open>location_table.hpp\<close>): entries keyed
  by MAC address with soft state expiry. The packet data rate of an entry is \<open>None\<close> while it
  is not a number. A returned reference is the key's entry in the returned table.
\<close>

record LocTEX_G5 =
  local_update :: Timestamp
  source_update :: Timestamp
  dcc_mco :: DccMcoField

text \<open>Of the extensions in the object container of an entry, these two kinds are in use.\<close>

record LocationTableEntry =
  m_is_neighbour :: time_point
  m_has_position_vector :: bool
  m_position_vector :: LongPositionVector
  m_pdr :: "real option"
  m_pdr_updated :: time_point
  ext_dpl :: "DuplicatePacketList option"
  ext_loctex :: "LocTEX_G5 option"

type_synonym LocationTable = "(MacAddress, LocationTableEntry) SoftStateMap"

definition location_table_entry :: "time_point \<Rightarrow> LocationTableEntry" where
  "location_table_entry now = \<lparr>m_is_neighbour = time_point_min, m_has_position_vector = False,
     m_position_vector = lpv_default, m_pdr = None, m_pdr_updated = now,
     ext_dpl = None, ext_loctex = None\<rparr>"

definition geonet_address :: "LocationTableEntry \<Rightarrow> Address" where
  "geonet_address e = gn_addr (m_position_vector e)"

definition link_layer_address :: "LocationTableEntry \<Rightarrow> MacAddress" where
  "link_layer_address e = mid (geonet_address e)"

definition entry_station_type :: "LocationTableEntry \<Rightarrow> StationType" where
  "entry_station_type e = station_type (geonet_address e)"

definition is_neighbour :: "time_point \<Rightarrow> LocationTableEntry \<Rightarrow> bool" where
  "is_neighbour now e \<longleftrightarrow> m_is_neighbour e > now"

definition update_pdr :: "time_point \<Rightarrow> nat \<Rightarrow> real \<Rightarrow> LocationTableEntry \<Rightarrow> LocationTableEntry" where
  "update_pdr now packet_size beta e = (case m_pdr e of
      None \<Rightarrow> e\<lparr>m_pdr := Some 0, m_pdr_updated := now\<rparr>
    | Some pdr \<Rightarrow>
        if 0 < beta \<and> beta < 1 then
          let time_period = real_of_int (now - m_pdr_updated e) / 10 ^ 6
          in if time_period > 0
             then e\<lparr>m_pdr := Some (pdr * beta + (1 - beta) * (real packet_size / time_period)), m_pdr_updated := now\<rparr>
             else e
        else e)"

definition set_position_vector :: "LongPositionVector \<Rightarrow> LocationTableEntry \<Rightarrow> bool \<times> LocationTableEntry" where
  "set_position_vector pv e =
    (if is_valid pv then (True, e\<lparr>m_has_position_vector := True, m_position_vector := pv\<rparr>) else (False, e))"

definition update_position_vector :: "LongPositionVector \<Rightarrow> LocationTableEntry \<Rightarrow> bool \<times> LocationTableEntry" where
  "update_position_vector lpv e =
    (if m_has_position_vector e then
       if timestamp_less (timestamp (m_position_vector e)) (timestamp lpv) then set_position_vector lpv e
       else (False, e)
     else set_position_vector lpv e)"

definition set_neighbour :: "bool \<Rightarrow> LocationTableEntry \<Rightarrow> LocationTableEntry" where
  "set_neighbour flag e = e\<lparr>m_is_neighbour := if flag then time_point_max else time_point_min\<rparr>"

definition set_neighbour_for :: "time_point \<Rightarrow> bool \<Rightarrow> duration \<Rightarrow> LocationTableEntry \<Rightarrow> LocationTableEntry" where
  "set_neighbour_for now flag expiry e =
    (if flag \<and> expiry > 0 then e\<lparr>m_is_neighbour := now + expiry\<rparr> else set_neighbour flag e)"

definition location_table :: "real \<Rightarrow> LocationTable" where
  "location_table itsGnLifetimeLocTE = set_lifetime (trunc_real itsGnLifetimeLocTE * 1000000) (ss_empty 0)"

definition has_entry :: "time_point \<Rightarrow> Address \<Rightarrow> LocationTable \<Rightarrow> bool" where
  "has_entry now addr t \<longleftrightarrow> has_value now (mid addr) t"

definition has_neighbours :: "time_point \<Rightarrow> LocationTable \<Rightarrow> bool" where
  "has_neighbours now t \<longleftrightarrow> list_ex (\<lambda>(_, e). is_neighbour now e) (ss_range now t)"

definition filter_entries :: "time_point \<Rightarrow> (MacAddress \<Rightarrow> LocationTableEntry \<Rightarrow> bool) \<Rightarrow> LocationTable \<Rightarrow> LocationTableEntry list" where
  "filter_entries now predicate t = map snd (filter (\<lambda>(k, e). predicate k e) (ss_range now t))"

definition neighbours :: "time_point \<Rightarrow> LocationTable \<Rightarrow> LocationTableEntry list" where
  "neighbours now t = filter_entries now (\<lambda>_ e. is_neighbour now e) t"

definition visit :: "time_point \<Rightarrow> (MacAddress \<Rightarrow> LocationTableEntry \<Rightarrow> 's \<Rightarrow> 's) \<Rightarrow> LocationTable \<Rightarrow> 's \<Rightarrow> 's" where
  "visit now visitor t = fold (\<lambda>(k, e). visitor k e) (ss_range now t)"

definition location_update :: "time_point \<Rightarrow> LongPositionVector \<Rightarrow> LocationTable \<Rightarrow> LocationTable" where
  "location_update now lpv t =
    (let mac = mid (gn_addr lpv);
         fresh = location_table_entry now;
         existing = (case get_value_ptr now mac t of Some e \<Rightarrow> if m_has_position_vector e then Some e else None | None \<Rightarrow> None)
     in case existing of
          Some e \<Rightarrow>
            let (updated, e') = update_position_vector lpv e;
                t = set_value mac e' t
            in if updated then refresh now fresh mac t else t
        | None \<Rightarrow>
            let t = refresh now fresh mac t;
                e = value_at fresh mac t
            in set_value mac (snd (update_position_vector lpv e)) t)"

definition get_or_create_entry :: "time_point \<Rightarrow> MacAddress \<Rightarrow> LocationTable \<Rightarrow> LocationTable" where
  "get_or_create_entry now mac t = get_value now (location_table_entry now) mac t"

definition get_entry :: "time_point \<Rightarrow> MacAddress \<Rightarrow> LocationTable \<Rightarrow> LocationTableEntry option" where
  "get_entry now mac t = get_value_ptr now mac t"

definition get_position :: "time_point \<Rightarrow> MacAddress \<Rightarrow> LocationTable \<Rightarrow> LongPositionVector option" where
  "get_position now mac t = (case get_value_ptr now mac t of
      Some e \<Rightarrow> if m_has_position_vector e then Some (m_position_vector e) else None
    | None \<Rightarrow> None)"

text \<open>Writing through the reference that an update returned.\<close>

definition modify_entry :: "time_point \<Rightarrow> MacAddress \<Rightarrow> (LocationTableEntry \<Rightarrow> LocationTableEntry) \<Rightarrow> LocationTable \<Rightarrow> LocationTable" where
  "modify_entry now mac f t = set_value mac (f (value_at (location_table_entry now) mac t)) t"

subsection \<open>The invariant\<close>

text \<open>A stored position vector is valid and belongs to the station the entry is filed under.\<close>

definition entry_ok :: "MacAddress \<Rightarrow> LocationTableEntry \<Rightarrow> bool" where
  "entry_ok mac e \<longleftrightarrow> m_has_position_vector e \<longrightarrow>
     is_valid (m_position_vector e) \<and> mid (gn_addr (m_position_vector e)) = mac"

definition location_table_ok :: "LocationTable \<Rightarrow> bool" where
  "location_table_ok t \<longleftrightarrow> ss_ok t \<and> 0 \<le> ss_lifetime t
     \<and> (\<forall>mac e x. get_data_ptr mac t = Some (e, x) \<longrightarrow> entry_ok mac e)"

lemma entry_ok_new: "entry_ok mac (location_table_entry now)"
  by (simp add: entry_ok_def location_table_entry_def)

lemma entry_ok_update:
  "entry_ok mac e \<Longrightarrow> mid (gn_addr lpv) = mac \<Longrightarrow> entry_ok mac (snd (update_position_vector lpv e))"
  by (simp add: entry_ok_def update_position_vector_def set_position_vector_def)

lemma location_table_ok_init: "0 \<le> lt \<Longrightarrow> location_table_ok (location_table lt)"
  by (auto simp: location_table_ok_def location_table_def set_lifetime_def ss_empty_def ss_ok_def
      get_data_ptr_def trunc_real_def)

text \<open>The position vector stored for a station, whether or not its entry has expired.\<close>

definition stored_position :: "MacAddress \<Rightarrow> LocationTable \<Rightarrow> LongPositionVector option" where
  "stored_position mac t = (case get_data_ptr mac t of
      Some (e, _) \<Rightarrow> if m_has_position_vector e then Some (m_position_vector e) else None
    | None \<Rightarrow> None)"

text \<open>What an update should leave: the received vector if it is valid and newer, else the old one.\<close>

definition newest_position :: "LongPositionVector option \<Rightarrow> LongPositionVector \<Rightarrow> LongPositionVector option" where
  "newest_position old lpv =
    (if is_valid lpv \<and> (case old of None \<Rightarrow> True | Some pv \<Rightarrow> timestamp_less (timestamp pv) (timestamp lpv))
     then Some lpv else old)"

lemma update_position_vector_newest:
  "(if m_has_position_vector (snd (update_position_vector lpv e))
    then Some (m_position_vector (snd (update_position_vector lpv e))) else None)
   = newest_position (if m_has_position_vector e then Some (m_position_vector e) else None) lpv"
  by (simp add: update_position_vector_def set_position_vector_def newest_position_def)

lemma update_position_vector_fst:
  "fst (update_position_vector lpv e) \<longleftrightarrow> is_valid lpv \<and>
     (m_has_position_vector e \<longrightarrow> timestamp_less (timestamp (m_position_vector e)) (timestamp lpv))"
  by (simp add: update_position_vector_def set_position_vector_def)

text \<open>The entry an update leaves, in terms of the entry found (or freshly created) before.\<close>

lemma get_data_ptr_location_update:
  assumes ok: "ss_ok t" and m: "m = mid (gn_addr lpv)"
  shows "get_data_ptr k (location_update now lpv t) =
    (if k = m then
       (case get_data_ptr m t of
          Some (e, x) \<Rightarrow> Some (snd (update_position_vector lpv e),
            if x < now \<or> \<not> m_has_position_vector e \<or> fst (update_position_vector lpv e) then now + ss_lifetime t else x)
        | None \<Rightarrow> Some (snd (update_position_vector lpv (location_table_entry now)), now + ss_lifetime t))
     else get_data_ptr k t)"
proof (cases "get_data_ptr m t")
  case None
  then have "get_value_ptr now m t = None" by (simp add: get_value_ptr_def)
  moreover have "value_at d m (refresh now c m t) = c" for c d
    by (rule value_at_entry) (simp add: get_data_ptr_refresh [OF ok] None)
  ultimately show ?thesis using None ok m
    by (simp add: location_update_def Let_def ss.entry_store_renew)
next
  case (Some ex)
  obtain e x where ex: "ex = (e, x)" by (cases ex)
  have v: "value_at d m (refresh now c m t) = e" for c d
    by (rule value_at_entry) (simp add: get_data_ptr_refresh [OF ok] Some ex)
  show ?thesis
  proof (cases "\<not> x < now \<and> m_has_position_vector e")
    case True
    then have "get_value_ptr now m t = Some e" using Some ex by (simp add: get_value_ptr_unfold)
    then show ?thesis using Some ex True ok m
      by (cases "update_position_vector lpv e")
        (simp add: location_update_def Let_def get_data_ptr_refresh ss_ok_set_value get_data_ptr_set_value)
  next
    case False
    then have "(case get_value_ptr now m t of Some e \<Rightarrow> if m_has_position_vector e then Some e else None | None \<Rightarrow> None) = None"
      using Some ex by (auto simp: get_value_ptr_unfold)
    then show ?thesis using Some ex False ok m
      by (auto simp: location_update_def Let_def v [unfolded m] ss.entry_store_renew)
  qed
qed

lemma ss_ok_location_update: "ss_ok t \<Longrightarrow> ss_ok (location_update now lpv t)"
  by (auto simp: location_update_def Let_def case_prod_beta ss_ok_set_value ss_ok_refresh split: option.split)

lemma ss_lifetime_location_update [simp]: "ss_lifetime (location_update now lpv t) = ss_lifetime t"
  by (simp add: location_update_def Let_def case_prod_beta split: option.split)

lemma location_table_ok_update:
  assumes "location_table_ok t"
  shows "location_table_ok (location_update now lpv t)"
  using assms entry_ok_update entry_ok_new
  by (auto simp: location_table_ok_def ss_ok_location_update get_data_ptr_location_update split: if_splits option.splits)

lemma location_table_ok_drop: "location_table_ok t \<Longrightarrow> location_table_ok (drop_expired now t)"
  by (auto simp: location_table_ok_def ss_ok_drop_expired get_data_ptr_drop_expired split: option.splits if_splits)

lemma location_table_ok_modify:
  assumes "location_table_ok t" and "\<And>e. entry_ok mac e \<Longrightarrow> entry_ok mac (f e)"
  shows "location_table_ok (modify_entry now mac f t)"
  using assms
  by (auto simp: location_table_ok_def modify_entry_def ss_ok_set_value get_data_ptr_set_value value_at_entry
      split: if_splits option.splits)

lemma location_table_ok_get_or_create:
  "location_table_ok t \<Longrightarrow> location_table_ok (get_or_create_entry now mac t)"
  by (auto simp: location_table_ok_def get_or_create_entry_def get_value_def ss_ok_get_data get_data_ptr_get_data
      entry_ok_new split: if_splits option.splits)

text \<open>A predicate on entries that updates and modifications keep.\<close>

definition all_entries :: "(LocationTableEntry \<Rightarrow> bool) \<Rightarrow> LocationTable \<Rightarrow> bool" where
  "all_entries Q t \<longleftrightarrow> (\<forall>mac e x. get_data_ptr mac t = Some (e, x) \<longrightarrow> Q e)"

lemma all_entries_update:
  assumes "ss_ok t" and "all_entries Q t" and "\<And>e. Q e \<Longrightarrow> Q (snd (update_position_vector lpv e))" and "Q (location_table_entry now)"
  shows "all_entries Q (location_update now lpv t)"
  using assms by (auto simp: all_entries_def get_data_ptr_location_update split: if_splits option.splits)

lemma all_entries_drop: "ss_ok t \<Longrightarrow> all_entries Q t \<Longrightarrow> all_entries Q (drop_expired now t)"
  by (auto simp: all_entries_def get_data_ptr_drop_expired split: option.splits if_splits)

lemma all_entries_modify:
  assumes "all_entries Q t" and "\<And>e. Q e \<Longrightarrow> Q (f e)"
  shows "all_entries Q (modify_entry now mac f t)"
  using assms by (auto simp: all_entries_def modify_entry_def get_data_ptr_set_value value_at_entry split: if_splits option.splits)

lemma all_entries_get_or_create:
  assumes "ss_ok t" and "all_entries Q t" and "Q (location_table_entry now)"
  shows "all_entries Q (get_or_create_entry now mac t)"
  using assms by (auto simp: all_entries_def get_or_create_entry_def get_value_def get_data_ptr_get_data split: if_splits option.splits)

lemma get_or_create_present:
  assumes "ss_ok t"
  shows "\<exists>e x. get_data_ptr mac (get_or_create_entry now mac t) = Some (e, x)"
  using assms by (simp add: get_or_create_entry_def get_value_def get_data_ptr_get_data split: option.split)

lemma stored_position_update:
  assumes "ss_ok t"
  shows "stored_position mac (location_update now lpv t) =
    (if mac = mid (gn_addr lpv) then newest_position (stored_position mac t) lpv else stored_position mac t)"
proof -
  have n: "newest_position None lpv = (if m_has_position_vector (snd (update_position_vector lpv (location_table_entry now)))
      then Some (m_position_vector (snd (update_position_vector lpv (location_table_entry now)))) else None)"
    unfolding update_position_vector_newest by (simp add: location_table_entry_def)
  show ?thesis
  proof (cases "get_data_ptr (mid (gn_addr lpv)) t")
    case None
    then show ?thesis by (simp add: stored_position_def get_data_ptr_location_update [OF assms refl] n)
  next
    case (Some ex)
    then show ?thesis
      by (cases ex) (simp add: stored_position_def get_data_ptr_location_update [OF assms refl]
          update_position_vector_newest [symmetric])
  qed
qed

lemma get_position_update:
  assumes "location_table_ok t"
  shows "get_position now mac (location_update now lpv t) =
    (if mac = mid (gn_addr lpv) then newest_position (stored_position mac t) lpv else get_position now mac t)"
proof (cases "mac = mid (gn_addr lpv)")
  case True
  have ok: "ss_ok t" "0 \<le> ss_lifetime t" using assms by (simp_all add: location_table_ok_def)
  have "\<exists>e x. get_data_ptr mac (location_update now lpv t) = Some (e, x) \<and> now \<le> x"
    using True ok by (cases "get_data_ptr mac t") (auto simp: get_data_ptr_location_update)
  then have "get_position now mac (location_update now lpv t) = stored_position mac (location_update now lpv t)"
    by (auto simp: get_position_def stored_position_def get_value_ptr_unfold)
  then show ?thesis using True ok by (simp add: stored_position_update)
next
  case False
  then show ?thesis using assms
    by (simp add: get_position_def get_value_ptr_unfold get_data_ptr_location_update location_table_ok_def)
qed

subsection \<open>Properties\<close>

text \<open>C32: Updating the location table with a received position vector makes visible, for the
  sending station, the received vector if it is valid and newer than the one the table stores
  for the station, and the stored one otherwise. A vector stored in an expired entry counts as
  long as the entry has not been dropped, and becomes visible again. The entry then has not
  expired. The entry of every other station, expiry included, is left as it is, and the table
  stays well-formed: stored vectors are valid and filed under the MAC address they carry.
  Dropping expired entries removes exactly the entries that have expired.\<close>

theorem location_update_newest:
  assumes "location_table_ok t"
  shows "location_table_ok (location_update now lpv t)
    \<and> get_position now (mid (gn_addr lpv)) (location_update now lpv t) = newest_position (stored_position (mid (gn_addr lpv)) t) lpv
    \<and> (\<exists>e x. get_data_ptr (mid (gn_addr lpv)) (location_update now lpv t) = Some (e, x) \<and> now \<le> x)
    \<and> (mac \<noteq> mid (gn_addr lpv) \<longrightarrow> get_data_ptr mac (location_update now lpv t) = get_data_ptr mac t)
    \<and> get_data_ptr mac (drop_expired now t) = (case get_data_ptr mac t of None \<Rightarrow> None
        | Some (e, x) \<Rightarrow> if x < now then None else Some (e, x))"
proof (intro conjI)
  have ok: "ss_ok t" "0 \<le> ss_lifetime t" using assms by (simp_all add: location_table_ok_def)
  show "\<exists>e x. get_data_ptr (mid (gn_addr lpv)) (location_update now lpv t) = Some (e, x) \<and> now \<le> x"
    using ok by (cases "get_data_ptr (mid (gn_addr lpv)) t") (auto simp: get_data_ptr_location_update)
  show "get_data_ptr mac (drop_expired now t) = (case get_data_ptr mac t of None \<Rightarrow> None
        | Some (e, x) \<Rightarrow> if x < now then None else Some (e, x))"
    using ok by (simp add: get_data_ptr_drop_expired is_expired_def split: option.split)
  show "mac \<noteq> mid (gn_addr lpv) \<longrightarrow> get_data_ptr mac (location_update now lpv t) = get_data_ptr mac t"
    using ok by (simp add: get_data_ptr_location_update)
qed (use assms in \<open>simp_all add: location_table_ok_update get_position_update\<close>)

theorem location_update_newest_witness:
  "let pv = lpv_default\<lparr>gn_addr := address_of_mac (MacAddress 1 2 3 4 5 6), timestamp := 100\<rparr>;
       t = location_update 0 pv (location_table 20)
   in get_position 5 (MacAddress 1 2 3 4 5 6) (location_update 5 (pv\<lparr>timestamp := 200\<rparr>) t) = Some (pv\<lparr>timestamp := 200\<rparr>)
     \<and> get_position 5 (MacAddress 1 2 3 4 5 6) (location_update 5 (pv\<lparr>timestamp := 50\<rparr>) t) = Some pv"
proof -
  let ?pv = "lpv_default\<lparr>gn_addr := address_of_mac (MacAddress 1 2 3 4 5 6), timestamp := 100\<rparr>"
  let ?t = "location_update 0 ?pv (location_table 20)"
  have ok: "location_table_ok (location_table 20)" by (rule location_table_ok_init) simp
  have valid: "is_valid (?pv\<lparr>timestamp := n\<rparr>)" for n
    by (simp add: is_valid_iff lpv_position_def geo_angle_def lpv_default_def address_of_mac_def
        address_default_def mac_zero_def)
  have "stored_position (MacAddress 1 2 3 4 5 6) (location_table 20) = None"
    by (simp add: stored_position_def get_data_ptr_def location_table_def set_lifetime_def ss_empty_def)
  then have s: "stored_position (MacAddress 1 2 3 4 5 6) ?t = Some ?pv"
    using ok valid [of 100] by (simp add: stored_position_update location_table_ok_def newest_position_def address_of_mac_def)
  have g: "timestamp_less 100 200" "\<not> timestamp_less 100 50" by code_simp+
  show ?thesis
    using location_update_newest [OF location_table_ok_update [OF ok], of 5 "?pv\<lparr>timestamp := 200\<rparr>" 0 ?pv "MacAddress 1 2 3 4 5 6"]
      location_update_newest [OF location_table_ok_update [OF ok], of 5 "?pv\<lparr>timestamp := 50\<rparr>" 0 ?pv "MacAddress 1 2 3 4 5 6"]
      valid [of 200] s g
    by (simp add: Let_def newest_position_def address_of_mac_def)
qed

end
