(* ===== verification/RouterCore.thy ===== *)
theory RouterCore
  imports Requests CbfBuffer LocationTbl
begin

text \<open>
  The GeoNetworking router (\<open>vanetza/geonet/router.cpp\<close>): its state, sending of packets and
  the forwarding algorithms (\<open>next_hop.cpp\<close>). The state extends the runtime it schedules its
  callbacks in. What the router hands to others is appended to a log: packets passed down and
  up, calls of its two hooks, and exceptions. A closure that is bound to a pending packet is
  represented by a constructor holding what it captures. Everything the router is configured
  with is an environment: the management information base, geodesic computations, the
  security entity, the generator of DCC fields and the random numbers (the \<open>n\<close>-th draw of the
  generator).
\<close>

subsection \<open>Data\<close>

record LinkLayer =
  ll_sender :: MacAddress
  ll_destination :: MacAddress

record ControlInfo =
  ctrl_communication_profile :: CommunicationProfile
  ctrl_its_aid :: ItsAid
  ctrl_permissions :: bytes
  ctrl_security_context :: bytes

definition control_info :: "DataRequest \<Rightarrow> ControlInfo" where
  "control_info r = \<lparr>ctrl_communication_profile = communication_profile r, ctrl_its_aid = its_aid r,
     ctrl_permissions = permissions r, ctrl_security_context = security_context r\<rparr>"

record DccDataRequest =
  dr_ether_type :: u16
  dr_source :: MacAddress
  dr_destination :: MacAddress
  dr_dcc_profile :: Profile
  dr_lifetime :: duration

text \<open>Actions that await a packet and a link layer destination, and those that await a packet only.\<close>

datatype MacAction = TransmitLocal ControlInfo | TransmitForward | Noop

datatype GbcAction = Forwarding MacAction "LinkLayer option" | GreedyAgain MacAction | Bound MacAction MacAddress

datatype BufferedData =
    BufferedShb "(ShbHeader, ControlInfo) PendingPacket"
  | BufferedGbc "(GeoBroadcastHeader, GbcAction) PendingPacket"
  | BufferedTsb "(TsbHeader, unit) PendingPacket"

fun data_length :: "BufferedData \<Rightarrow> nat" where
  "data_length (BufferedShb p) = pending_length HV_Shb p"
| "data_length (BufferedGbc p) = pending_length HV_Gbc p"
| "data_length (BufferedTsb p) = pending_length HV_Tsb p"

fun data_reduce_lifetime :: "duration \<Rightarrow> BufferedData \<Rightarrow> duration \<times> BufferedData" where
  "data_reduce_lifetime d (BufferedShb p) = (let (r, q) = reduce_lifetime d p in (r, BufferedShb q))"
| "data_reduce_lifetime d (BufferedGbc p) = (let (r, q) = reduce_lifetime d p in (r, BufferedGbc q))"
| "data_reduce_lifetime d (BufferedTsb p) = (let (r, q) = reduce_lifetime d p in (r, BufferedTsb q))"

type_synonym PendingPacketForwarding = "(GeoBroadcastHeader, MacAction) PendingPacket"

datatype NextHop = Discarded | Buffered | Valid PendingPacketForwarding MacAddress

datatype VerificationReport = Success | False_Signature | Invalid_Certificate | Revoked_Certificate
  | Inconsistent_Chain | Invalid_Timestamp | Duplicate_Message | Invalid_Mobility_Data | Unsigned_Message
  | Signer_Certificate_Not_Found | Unsupported_Signer_Identifier_Type | Incompatible_Protocol | Configuration_Problem

datatype DecapReport = DecapBlank | DecapVerification VerificationReport

definition is_successful :: "DecapReport \<Rightarrow> bool" where
  "is_successful report \<longleftrightarrow> report = DecapVerification Success"

datatype DestinationVariant = DestinationAddress Address | DestinationArea Area | DestinationNull

text \<open>An empty transport type or upper protocol is a field that has not been set yet.\<close>

record DataIndication =
  ind_upper_protocol :: "UpperProtocol option"
  ind_transport_type :: "TransportType option"
  ind_destination :: "DestinationVariant option"
  ind_source_position :: "ShortPositionVector option"
  ind_security_report :: DecapReport
  ind_its_aid :: "ItsAid option"
  ind_permissions :: "bytes option"
  ind_certificate_id :: "bytes option"
  ind_traffic_class :: TrafficClass
  ind_remaining_packet_lifetime :: "Lifetime option"
  ind_remaining_hop_limit :: "nat option"

datatype PacketDropReason = Drop_Parse_Basic_Header | Drop_Parse_Common_Header | Drop_Parse_Secured_Header
  | Drop_Parse_Extended_Header | Drop_ITS_Protocol_Version | Drop_Decap_Unsuccessful_Non_Strict
  | Drop_Decap_Unsuccessful_Strict | Drop_Hop_Limit | Drop_Payload_Size | Drop_Security_Entity_Missing
  | Drop_Packet_Size | Drop_Internal_Error

datatype ForwardingStopReason = Stop_Hop_Limit | Stop_Source_PDR | Stop_Sender_PDR
  | Stop_Outside_Destination_Area | Stop_Geo_Area_Size

datatype Output = PassDown DccDataRequest DownPacket | PassUp DataIndication UpPacket
  | PacketDropped PacketDropReason | ForwardingStopped ForwardingStopReason | Threw string

subsection \<open>Environment and state\<close>

record SignRequest =
  plain_message :: DownPacket
  sign_its_aid :: ItsAid
  sign_permissions :: bytes
  context_information :: bytes

text \<open>
  The plaintext payload is a variant of a chunk packet and a cohesive packet. The network layer
  of a chunk packet is an object of any type that converts to octets; the cast to a secured
  PDU yields the headers of the PDU if it is one and null otherwise, as it does for the packet
  of a default constructed confirmation.
\<close>

record SecuredPdu =
  sp_common :: CommonHeader
  sp_extended :: HeaderVariant

datatype PlaintextPayload = PlainChunk "SecuredPdu option" ChunkPacket | PlainCohesive CohesivePacket

record DecapConfirm =
  plaintext_payload :: PlaintextPayload
  decap_report :: DecapReport
  decap_certificate_id :: "bytes option"
  decap_its_aid :: ItsAid
  decap_permissions :: bytes

record SecurityEntity =
  encapsulate_packet :: "time_point \<Rightarrow> SignRequest \<Rightarrow> SecuredMessage option"
  decapsulate_packet :: "time_point \<Rightarrow> SecuredMessage \<Rightarrow> DecapConfirm"

record Environment =
  m_mib :: MIB
  geo_distance :: "GeodeticPosition \<Rightarrow> GeodeticPosition \<Rightarrow> real"
  geo_local_cartesian :: local_cartesian
  m_security_entity :: "SecurityEntity option"
  generate_dcc_field :: "time_point \<Rightarrow> DccField"
  m_transport_ifcs :: "UpperProtocol \<Rightarrow> bool"
  random_jitter :: "nat \<Rightarrow> real"
  random_octet :: "nat \<Rightarrow> byte"
  secured_v2 :: "SecuredMessage secured_reader"
  secured_v3 :: "SecuredMessage secured_reader"
  cbf_node_reuse :: "time_point \<Rightarrow> CbfPacketIdentifier \<Rightarrow> bool"

text \<open>\<open>Foreign\<close> is a callback of another object that shares the runtime with the router.\<close>

datatype RouterCallback = OnBeaconTimer | CbfFlush | RepeaterTrigger nat | Foreign

datatype RouterScope = ScopeRouter | ScopeCbf | ScopeRepeater

record Router = "(RouterCallback, RouterScope) Runtime" +
  m_local_position_vector :: LongPositionVector
  m_location_table :: LocationTable
  m_bc_forward_buffer :: "BufferedData PacketBuffer"
  m_uc_forward_buffer :: "BufferedData PacketBuffer"
  m_cbf_buffer :: "GbcAction CbfPacketBuffer"
  m_local_sequence_number :: SequenceNumber
  m_repeater :: Repeater
  m_random_gen :: nat
  m_gbc_memory :: GbcMemory
  outputs :: "Output list"

definition emit :: "Output \<Rightarrow> Router \<Rightarrow> Router" where
  "emit x s = s\<lparr>outputs := outputs s @ [x]\<rparr>"

definition packet_dropped :: "PacketDropReason \<Rightarrow> Router \<Rightarrow> Router" where
  "packet_dropped reason s = emit (PacketDropped reason) s"

definition forwarding_stopped :: "ForwardingStopReason \<Rightarrow> Router \<Rightarrow> Router" where
  "forwarding_stopped reason s = emit (ForwardingStopped reason) s"

definition create_cbf_counter :: "MIB \<Rightarrow> CbfCounter" where
  "create_cbf_counter mib =
    (if vanetzaFadingCbfCounter mib then fading_counter (clock_cast (vanetzaFadingCbfCounterLifetime mib))
     else CbfCounterContending Map.empty)"

subsection \<open>Timers and position\<close>

definition reset_beacon_timer_in :: "duration \<Rightarrow> Router \<Rightarrow> Router" where
  "reset_beacon_timer_in next_beacon s =
     schedule_in next_beacon OnBeaconTimer (Some ScopeRouter) (cancel (Some ScopeRouter) s)"

definition reset_beacon_timer :: "Environment \<Rightarrow> Router \<Rightarrow> Router" where
  "reset_beacon_timer env s =
    (let jitter = random_jitter env (m_random_gen s);
         next_beacon = itsGnBeaconServiceRetransmitTimer (m_mib env) + jitter * itsGnBeaconServiceMaxJitter (m_mib env)
     in reset_beacon_timer_in (clock_cast next_beacon) (s\<lparr>m_random_gen := Suc (m_random_gen s)\<rparr>))"

definition router_init :: "Environment \<Rightarrow> time_point \<Rightarrow> Router" where
  "router_init env now =
    (let mib = m_mib env;
         s = \<lparr>m_now = now, m_queue = [], m_local_position_vector = lpv_default,
           m_location_table = location_table (itsGnLifetimeLocTE mib),
           m_bc_forward_buffer = packet_buffer (itsGnBcForwardingPacketBufferSize mib * 1024),
           m_uc_forward_buffer = packet_buffer (itsGnUcForwardingPacketBufferSize mib * 1024),
           m_cbf_buffer = cbf_packet_buffer (cbf_node_reuse env) (create_cbf_counter mib) (itsGnCbfPacketBufferSize mib * 1024),
           m_local_sequence_number = 0, m_repeater = repeater_init, m_random_gen = 0,
           m_gbc_memory = set_gbc_capacity (vanetzaGbcMemoryCapacity mib) gbc_memory, outputs = []\<rparr>
     in if vanetzaDisableBeaconing mib then s
        else if vanetzaDeferInitialBeacon mib > 0 then
          (let jitter = clock_cast (random_jitter env (m_random_gen s) * itsGnBeaconServiceMaxJitter mib)
           in reset_beacon_timer_in (vanetzaDeferInitialBeacon mib + jitter) (s\<lparr>m_random_gen := Suc (m_random_gen s)\<rparr>))
        else reset_beacon_timer_in 0 s)"

text \<open>Position in degrees, speed in metres per second, course in degrees from north, accuracy in metres.\<close>

record PositionFix =
  fix_latitude :: real
  fix_longitude :: real
  fix_speed :: real
  fix_course :: real
  fix_semi_major :: real

definition update_position :: "Environment \<Rightarrow> PositionFix \<Rightarrow> Router \<Rightarrow> Router" where
  "update_position env fx s = s\<lparr>m_local_position_vector := (m_local_position_vector s)\<lparr>
     timestamp := timestamp_of (m_now s),
     latitude := word_of_int (trunc_real (fix_latitude fx * 10 ^ 7)),
     longitude := word_of_int (trunc_real (fix_longitude fx * 10 ^ 7)),
     speed := if itsGnIsMobile (m_mib env) then word_of_int (trunc_real (fix_speed fx * 100)) else 0,
     heading := if itsGnIsMobile (m_mib env) then word_of_int (trunc_real (fix_course fx * 10)) else 0,
     position_accuracy_indicator := fix_semi_major fx * 2 < itsGnPaiInterval (m_mib env)\<rparr>\<rparr>"

definition set_address :: "Address \<Rightarrow> Router \<Rightarrow> Router" where
  "set_address addr s = s\<lparr>m_local_position_vector := (m_local_position_vector s)\<lparr>gn_addr := addr\<rparr>\<rparr>"

definition local_position :: "Router \<Rightarrow> GeodeticPosition" where
  "local_position s = lpv_position (m_local_position_vector s)"

subsection \<open>Passing packets down\<close>

definition geonet_ether_type :: u16 where "geonet_ether_type = 0x8947"

definition pass_down_request ::
  "('h \<Rightarrow> HeaderVariant) \<Rightarrow> DccDataRequest \<Rightarrow> 'h ExtendedPdu \<Rightarrow> DownPacket \<Rightarrow> Router \<Rightarrow> Router" where
  "pass_down_request variant request pd p s =
    (case secured pd of
       Some _ \<Rightarrow>
         if bh_next_header (basic pd) \<noteq> NHB_Secured then emit (Threw ''PDU with secured message but Secured not set in basic header'') s
         else if chunk_size_range Transport max_osi_layer p > 0 then emit (Threw ''PDU with secured message and illegal upper layer payload'') s
         else emit (PassDown request (p(Network := serialize_pdu variant pd))) s
     | None \<Rightarrow>
         if bh_next_header (basic pd) = NHB_Secured then emit (Threw ''PDU without secured message but Secured set in basic header'') s
         else emit (PassDown request (p(Network := serialize_pdu variant pd))) s)"

definition pass_down ::
  "('h \<Rightarrow> HeaderVariant) \<Rightarrow> MacAddress \<Rightarrow> 'h ExtendedPdu \<Rightarrow> DownPacket \<Rightarrow> Router \<Rightarrow> Router" where
  "pass_down variant addr pd p s =
     pass_down_request variant \<lparr>dr_ether_type = geonet_ether_type, dr_source = mid (gn_addr (m_local_position_vector s)),
       dr_destination = addr, dr_dcc_profile = map_tc_onto_profile (traffic_class_field (common pd)),
       dr_lifetime = clock_cast (lifetime_decode (lifetime (basic pd)))\<rparr> pd p s"

text \<open>Forwarded packets always use the lowest priority.\<close>

definition forward_request :: "MacAddress \<Rightarrow> 'h ExtendedPdu \<Rightarrow> Router \<Rightarrow> DccDataRequest" where
  "forward_request mac pd s = \<lparr>dr_ether_type = geonet_ether_type, dr_source = mid (gn_addr (m_local_position_vector s)),
     dr_destination = mac, dr_dcc_profile = DP3, dr_lifetime = clock_cast (lifetime_decode (lifetime (basic pd)))\<rparr>"

text \<open>The upper layers move into the message to be signed; the rest of the packet is returned.\<close>

definition encap_packet ::
  "Environment \<Rightarrow> ItsAid \<Rightarrow> bytes \<Rightarrow> bytes \<Rightarrow> ('h \<Rightarrow> HeaderVariant) \<Rightarrow> 'h ExtendedPdu \<Rightarrow> DownPacket \<Rightarrow> Router
     \<Rightarrow> ('h ExtendedPdu \<times> DownPacket) option" where
  "encap_packet env aid ssp ctx variant pd p s = (case m_security_entity env of
      None \<Rightarrow> None
    | Some entity \<Rightarrow>
        (let (sec_payload, rest) = chunk_merge Transport max_osi_layer p (empty_chunk(Network := convert_for_signing variant pd))
         in case encapsulate_packet entity (m_now s) \<lparr>plain_message = sec_payload, sign_its_aid = aid,
                   sign_permissions = ssp, context_information = ctx\<rparr> of
              None \<Rightarrow> None
            | Some msg \<Rightarrow> Some (pd\<lparr>secured := Some msg\<rparr>, rest)))"

text \<open>Media-dependent procedures have no effect for any interface type.\<close>

fun execute_media_procedures :: "CommunicationProfile \<Rightarrow> Router \<Rightarrow> Router" where
  "execute_media_procedures ITS_G5 s = s"
| "execute_media_procedures IF_Unspecified s = s"
| "execute_media_procedures LTE_V2X s = s"

definition encap_if_secured ::
  "Environment \<Rightarrow> ControlInfo \<Rightarrow> ('h \<Rightarrow> HeaderVariant) \<Rightarrow> 'h ExtendedPdu \<Rightarrow> DownPacket \<Rightarrow> Router
     \<Rightarrow> ('h ExtendedPdu \<times> DownPacket) option" where
  "encap_if_secured env ctrl variant pd p s =
    (if itsGnSecurity (m_mib env)
     then encap_packet env (ctrl_its_aid ctrl) (ctrl_permissions ctrl) (ctrl_security_context ctrl) variant pd p s
     else Some (pd, p))"

definition shb_transmit :: "Environment \<Rightarrow> (ShbHeader, ControlInfo) PendingPacket \<Rightarrow> Router \<Rightarrow> Router" where
  "shb_transmit env pk s =
    (let ctrl = action pk;
         pd = (pdu pk)\<lparr>extended := (extended (pdu pk))\<lparr>shb_source_position := m_local_position_vector s\<rparr>\<rparr>
     in case encap_if_secured env ctrl HV_Shb pd (payload_of pk) s of
          None \<Rightarrow> s
        | Some (pd, p) \<Rightarrow>
            reset_beacon_timer env (pass_down HV_Shb cBroadcastMacAddress pd p
              (execute_media_procedures (ctrl_communication_profile ctrl) s)))"

definition tsb_transmit :: "Environment \<Rightarrow> (TsbHeader, unit) PendingPacket \<Rightarrow> Router \<Rightarrow> Router" where
  "tsb_transmit env pk s =
     pass_down_request HV_Tsb (forward_request cBroadcastMacAddress (pdu pk) s) (pdu pk) (payload_of pk)
       (execute_media_procedures (itsGnIfType (m_mib env)) s)"

fun run_mac_action ::
  "Environment \<Rightarrow> MacAction \<Rightarrow> GeoBroadcastHeader ExtendedPdu \<Rightarrow> DownPacket \<Rightarrow> MacAddress \<Rightarrow> Router \<Rightarrow> Router" where
  "run_mac_action env (TransmitLocal ctrl) pd p mac s =
    (let pd = pd\<lparr>extended := (extended pd)\<lparr>gbc_source_position := m_local_position_vector s\<rparr>\<rparr>
     in case encap_if_secured env ctrl HV_Gbc pd p s of
          None \<Rightarrow> s
        | Some (pd, p) \<Rightarrow> pass_down HV_Gbc mac pd p (execute_media_procedures (ctrl_communication_profile ctrl) s))"
| "run_mac_action env TransmitForward pd p mac s =
     pass_down_request HV_Gbc (forward_request mac pd s) pd p (execute_media_procedures (itsGnIfType (m_mib env)) s)"
| "run_mac_action env Noop pd p mac s = s"

definition next_hop_process :: "Environment \<Rightarrow> NextHop \<Rightarrow> Router \<Rightarrow> Router" where
  "next_hop_process env nh s = (case nh of
      Valid p mac \<Rightarrow> run_mac_action env (action p) (pdu p) (payload_of p) mac s
    | _ \<Rightarrow> s)"

subsection \<open>Buffers\<close>

definition bc_push :: "BufferedData \<Rightarrow> Router \<Rightarrow> Router" where
  "bc_push d s = s\<lparr>m_bc_forward_buffer :=
     snd (pb_push data_length data_reduce_lifetime d (m_now s) (m_bc_forward_buffer s))\<rparr>"

text \<open>A packet in the contention buffer is bound to the broadcast address.\<close>

definition cbf_packet :: "PendingPacketForwarding \<Rightarrow> MacAddress \<Rightarrow> GbcAction CbfPacket" where
  "cbf_packet p se = \<lparr>m_packet = \<lparr>pdu = pdu p, payload_of = payload_of p, action = Bound (action p) cBroadcastMacAddress\<rparr>,
     m_sender = se\<rparr>"

definition router_cbf_add :: "GbcAction CbfPacket \<Rightarrow> real \<Rightarrow> Router \<Rightarrow> Router" where
  "router_cbf_add p timeout s =
    (let (b, s) = cbf_add CbfFlush ScopeCbf p (clock_cast timeout) (m_cbf_buffer s) s in s\<lparr>m_cbf_buffer := b\<rparr>)"

definition router_cbf_remove :: "CbfPacketIdentifier \<Rightarrow> Router \<Rightarrow> bool \<times> Router" where
  "router_cbf_remove i s =
    (let (r, b, s) = cbf_remove CbfFlush ScopeCbf i (m_cbf_buffer s) s in (r, s\<lparr>m_cbf_buffer := b\<rparr>))"

definition router_cbf_update :: "CbfPacketIdentifier \<Rightarrow> real \<Rightarrow> Router \<Rightarrow> Router" where
  "router_cbf_update i timeout s = s\<lparr>m_cbf_buffer := cbf_update i (clock_cast timeout) (m_now s) (m_cbf_buffer s)\<rparr>"

subsection \<open>Forwarding algorithms\<close>

text \<open>The loop over the neighbours: address and distance of the best candidate so far.\<close>

fun most_forward :: "(GeodeticPosition \<Rightarrow> real) \<Rightarrow> LocationTableEntry list \<Rightarrow> MacAddress \<times> real \<Rightarrow> MacAddress \<times> real" where
  "most_forward to_dest [] mfr = mfr"
| "most_forward to_dest (e # es) mfr =
    most_forward to_dest es
      (if m_has_position_vector e \<and> to_dest (lpv_position (m_position_vector e)) < snd mfr
       then (link_layer_address e, to_dest (lpv_position (m_position_vector e))) else mfr)"

definition greedy_forwarding :: "Environment \<Rightarrow> PendingPacketForwarding \<Rightarrow> Router \<Rightarrow> NextHop \<times> Router" where
  "greedy_forwarding env p s =
    (let dest = gbc_position (extended (pdu p));
         own = geo_distance env dest (local_position s);
         (mfr_addr, mfr_dist) = most_forward (geo_distance env dest)
           (neighbours (m_now s) (m_location_table s)) (mac_zero, own)
     in if mfr_dist < own then (Valid p mfr_addr, s)
        else if store_carry_forward (traffic_class_field (common (pdu p)))
        then (Buffered, bc_push (BufferedGbc \<lparr>pdu = pdu p, payload_of = payload_of p, action = GreedyAgain (action p)\<rparr>) s)
        else (Valid p cBroadcastMacAddress, s))"

definition timeout_cbf_progress :: "MIB \<Rightarrow> real \<Rightarrow> real" where
  "timeout_cbf_progress mib prog =
    (let dist_max = itsGnDefaultMaxCommunicationRange mib;
         to_cbf_min = itsGnCbfMinTime mib; to_cbf_max = itsGnCbfMaxTime mib
     in if prog > dist_max then to_cbf_min
        else if prog > 0 then to_cbf_max + (to_cbf_min - to_cbf_max) / dist_max * prog
        else to_cbf_max)"

definition timeout_cbf :: "Environment \<Rightarrow> MacAddress \<Rightarrow> Router \<Rightarrow> real" where
  "timeout_cbf env se s = (case get_position (m_now s) se (m_location_table s) of
      Some pv_se \<Rightarrow>
        if position_accuracy_indicator pv_se
        then timeout_cbf_progress (m_mib env) (geo_distance env (lpv_position pv_se) (local_position s))
        else itsGnCbfMaxTime (m_mib env)
    | None \<Rightarrow> itsGnCbfMaxTime (m_mib env))"

definition gbc_identifier :: "GeoBroadcastHeader \<Rightarrow> CbfPacketIdentifier" where
  "gbc_identifier gbc = (gn_addr (gbc_source_position gbc), gbc_sequence_number gbc)"

definition non_area_contention_based_forwarding ::
  "Environment \<Rightarrow> PendingPacketForwarding \<Rightarrow> MacAddress option \<Rightarrow> Router \<Rightarrow> NextHop \<times> Router" where
  "non_area_contention_based_forwarding env p sender s =
    (let gbc = extended (pdu p) in case sender of
       None \<Rightarrow> (Valid p cBroadcastMacAddress, s)
     | Some se \<Rightarrow>
         (let (removed, s) = router_cbf_remove (gbc_identifier gbc) s in
          if removed then (Discarded, s)
          else case get_position (m_now s) se (m_location_table s) of
            Some pv_se \<Rightarrow>
              if position_accuracy_indicator pv_se then
                (let dist_sender = geo_distance env (gbc_position gbc) (lpv_position pv_se);
                     dist_local = geo_distance env (gbc_position gbc) (local_position s)
                 in if dist_sender > dist_local
                    then (Buffered, router_cbf_add (cbf_packet p se) (timeout_cbf_progress (m_mib env) (dist_sender - dist_local)) s)
                    else (Discarded, s))
              else (Buffered, router_cbf_add (cbf_packet p se) (itsGnCbfMaxTime (m_mib env)) s)
          | None \<Rightarrow> (Buffered, router_cbf_add (cbf_packet p se) (itsGnCbfMaxTime (m_mib env)) s)))"

definition area_contention_based_forwarding ::
  "Environment \<Rightarrow> PendingPacketForwarding \<Rightarrow> MacAddress option \<Rightarrow> Router \<Rightarrow> NextHop \<times> Router" where
  "area_contention_based_forwarding env p sender s = (case sender of
      None \<Rightarrow> (Valid p cBroadcastMacAddress, s)
    | Some se \<Rightarrow>
        (let i = gbc_identifier (extended (pdu p)); (removed, s) = router_cbf_remove i s in
         if removed \<or> cbf_count (m_now s) i (m_cbf_buffer s) \<ge> vanetzaCbfMaxCounter (m_mib env) then (Discarded, s)
         else (Buffered, router_cbf_add (cbf_packet p se) (timeout_cbf env se s) s)))"

text \<open>The arc cosine of a number outside of its domain is not a number, and less than nothing.\<close>

definition outside_sectorial_contention_area :: "Environment \<Rightarrow> MacAddress \<Rightarrow> MacAddress \<Rightarrow> Router \<Rightarrow> bool" where
  "outside_sectorial_contention_area env sender forwarder s =
    (case (get_position (m_now s) sender (m_location_table s), get_position (m_now s) forwarder (m_location_table s)) of
       (Some pv_s, Some pv_f) \<Rightarrow>
         (let dist_r = geo_distance env (lpv_position pv_s) (local_position s);
              dist_f = geo_distance env (lpv_position pv_f) (lpv_position pv_s);
              dist_max = itsGnDefaultMaxCommunicationRange (m_mib env);
              dist_rf = geo_distance env (lpv_position pv_f) (local_position s);
              cos_fsr = (dist_rf * dist_rf - dist_r * dist_r - dist_f * dist_f) / (- 2 * dist_r * dist_f);
              angle_small =
                (if dist_r > 0 \<and> dist_f > 0
                 then \<bar>cos_fsr\<bar> \<le> 1 \<and> arccos cos_fsr < itsGnBroadcastCBFDefSectorAngle (m_mib env)
                 else 0 < itsGnBroadcastCBFDefSectorAngle (m_mib env))
          in \<not> (dist_r < dist_f \<and> dist_f < dist_max \<and> angle_small))
     | _ \<Rightarrow> True)"

definition area_advanced_forwarding ::
  "Environment \<Rightarrow> PendingPacketForwarding \<Rightarrow> LinkLayer option \<Rightarrow> Router \<Rightarrow> NextHop \<times> Router" where
  "area_advanced_forwarding env p ll s = (case ll of
      None \<Rightarrow> (Valid p cBroadcastMacAddress, s)
    | Some ll \<Rightarrow>
        (let i = gbc_identifier (extended (pdu p)) in
         case cbf_find i (m_cbf_buffer s) of
           Some buffered \<Rightarrow>
             if cbf_count (m_now s) i (m_cbf_buffer s) \<ge> vanetzaCbfMaxCounter (m_mib env)
             then (Discarded, snd (router_cbf_remove i s))
             else if \<not> outside_sectorial_contention_area env (m_sender buffered) (ll_sender ll) s
             then (Discarded, snd (router_cbf_remove i s))
             else (Buffered, router_cbf_update i (timeout_cbf env (ll_sender ll) s) s)
         | None \<Rightarrow>
             if mac_eq (ll_destination ll) (mid (gn_addr (m_local_position_vector s))) then
               (let (nh, s) = greedy_forwarding env (pending_duplicate p) s;
                    contending = (case nh of Valid _ mac \<Rightarrow> if mac_eq mac cBroadcastMacAddress then p\<lparr>action := Noop\<rparr> else p | _ \<Rightarrow> p)
                in (nh, router_cbf_add (cbf_packet contending (ll_sender ll)) (itsGnCbfMaxTime (m_mib env)) s))
             else (Buffered, router_cbf_add (cbf_packet p (ll_sender ll)) (timeout_cbf env (ll_sender ll) s) s)))"

text \<open>A header type without destination area makes the accessor throw.\<close>

definition forwarding_algorithm_selection ::
  "Environment \<Rightarrow> PendingPacketForwarding \<Rightarrow> LinkLayer option \<Rightarrow> Router \<Rightarrow> NextHop \<times> Router" where
  "forwarding_algorithm_selection env p ll s =
    (case gbc_destination (header_type (common (pdu p))) (extended (pdu p)) of
       None \<Rightarrow> (Discarded, emit (Threw ''Invalid GBC header type'') s)
     | Some dest \<Rightarrow>
         if inside_or_at_border (geo_local_cartesian env) dest (local_position s) then
           (case itsGnAreaForwardingAlgorithm (m_mib env) of
              BF_Unspecified \<Rightarrow> (Valid p cBroadcastMacAddress, s)
            | BF_SIMPLE \<Rightarrow> (Valid p cBroadcastMacAddress, s)
            | BF_CBF \<Rightarrow> area_contention_based_forwarding env p (map_option ll_sender ll) s
            | BF_Advanced \<Rightarrow> area_advanced_forwarding env p ll s)
         else if (case ll of
               None \<Rightarrow> False
             | Some ll \<Rightarrow> (case get_position (m_now s) (ll_sender ll) (m_location_table s) of
                 None \<Rightarrow> False
               | Some pv_se \<Rightarrow> position_accuracy_indicator pv_se
                   \<and> inside_or_at_border (geo_local_cartesian env) dest (lpv_position pv_se)))
         then (Discarded, forwarding_stopped Stop_Outside_Destination_Area s)
         else
           (case itsGnNonAreaForwardingAlgorithm (m_mib env) of
              UF_Unspecified \<Rightarrow> greedy_forwarding env p s
            | UF_Greedy \<Rightarrow> greedy_forwarding env p s
            | UF_CBF \<Rightarrow> non_area_contention_based_forwarding env p (map_option ll_sender ll) s))"

end
