(* ===== verification/RouterOps.thy ===== *)
theory RouterOps
  imports RouterCore
begin

text \<open>
  Operations of the GeoNetworking router (\<open>vanetza/geonet/router.cpp\<close>): requests, callbacks of
  the runtime and the reception of packets. Received packets are byte strings; the variant of
  \<open>indicate\<close> that takes over packets as objects without serialising them is not represented.
\<close>

subsection \<open>Pending packets\<close>

fun run_gbc_action :: "Environment \<Rightarrow> (GeoBroadcastHeader, GbcAction) PendingPacket \<Rightarrow> Router \<Rightarrow> Router" where
  "run_gbc_action env pk s = (case action pk of
      Forwarding m ll \<Rightarrow>
        (let (nh, s) = forwarding_algorithm_selection env \<lparr>pdu = pdu pk, payload_of = payload_of pk, action = m\<rparr> ll s
         in next_hop_process env nh s)
    | GreedyAgain m \<Rightarrow>
        (let (nh, s) = greedy_forwarding env \<lparr>pdu = pdu pk, payload_of = payload_of pk, action = m\<rparr> s
         in next_hop_process env nh s)
    | Bound m mac \<Rightarrow> run_mac_action env m (pdu pk) (payload_of pk) mac s)"

declare run_gbc_action.simps [simp del]

fun process_data :: "Environment \<Rightarrow> BufferedData \<Rightarrow> Router \<Rightarrow> Router" where
  "process_data env (BufferedShb p) s = shb_transmit env p s"
| "process_data env (BufferedGbc p) s = run_gbc_action env p s"
| "process_data env (BufferedTsb p) s = tsb_transmit env p s"

definition flush_broadcast_forwarding_buffer :: "Environment \<Rightarrow> Router \<Rightarrow> Router" where
  "flush_broadcast_forwarding_buffer env s =
    (let (out, b) = pb_flush data_reduce_lifetime (m_now s) (m_bc_forward_buffer s)
     in fold (process_data env) out (s\<lparr>m_bc_forward_buffer := b\<rparr>))"

definition flush_unicast_forwarding_buffer :: "Environment \<Rightarrow> Router \<Rightarrow> Router" where
  "flush_unicast_forwarding_buffer env s =
    (let (out, b) = pb_flush data_reduce_lifetime (m_now s) (m_uc_forward_buffer s)
     in fold (process_data env) out (s\<lparr>m_uc_forward_buffer := b\<rparr>))"

definition flush_forwarding_buffers :: "Environment \<Rightarrow> Router \<Rightarrow> Router" where
  "flush_forwarding_buffers env s = flush_unicast_forwarding_buffer env (flush_broadcast_forwarding_buffer env s)"

subsection \<open>Requests\<close>

definition create_shb_pdu :: "Environment \<Rightarrow> DataRequest \<Rightarrow> Router \<Rightarrow> ShbHeader ExtendedPdu" where
  "create_shb_pdu env request s = \<lparr>
     basic = (basic_of_request request (m_mib env))\<lparr>hop_limit := 1\<rparr>,
     common = (common_of_request request (m_mib env))\<lparr>header_type := TSB_Single_Hop, maximum_hop_limit := 1\<rparr>,
     extended = \<lparr>shb_source_position = m_local_position_vector s, dcc = generate_dcc_field env (m_now s)\<rparr>,
     secured = None\<rparr>"

definition create_gbc_pdu :: "Environment \<Rightarrow> DataRequest \<Rightarrow> Area \<Rightarrow> Router \<Rightarrow> GeoBroadcastHeader ExtendedPdu \<times> Router" where
  "create_gbc_pdu env request dest s = (\<lparr>
     basic = basic_of_request request (m_mib env),
     common = (common_of_request request (m_mib env))\<lparr>header_type := gbc_header_type (shape dest)\<rparr>,
     extended = gbc_set_destination dest (gbc_default\<lparr>gbc_sequence_number := m_local_sequence_number s,
       gbc_source_position := m_local_position_vector s\<rparr>),
     secured = None\<rparr>, s\<lparr>m_local_sequence_number := m_local_sequence_number s + 1\<rparr>)"

definition create_beacon_pdu :: "Environment \<Rightarrow> Router \<Rightarrow> BeaconHeader ExtendedPdu" where
  "create_beacon_pdu env s = \<lparr>
     basic = (basic_of_mib (m_mib env))\<lparr>hop_limit := 1\<rparr>,
     common = (common_of_mib (m_mib env))\<lparr>ch_next_header := NHC_Any, header_type := HT_Beacon, maximum_hop_limit := 1,
       traffic_class_field := itsGnDefaultTrafficClass (m_mib env)\<rparr>,
     extended = \<lparr>beacon_source_position = m_local_position_vector s\<rparr>, secured = None\<rparr>"

definition repeat_request :: "DataRequestVariant \<Rightarrow> DownPacket \<Rightarrow> Router \<Rightarrow> Router" where
  "repeat_request v p s =
    (let (r, s) = repeater_add RepeaterTrigger ScopeRepeater v p (m_repeater s) s in s\<lparr>m_repeater := r\<rparr>)"

definition request_shb :: "Environment \<Rightarrow> DataRequest \<Rightarrow> DownPacket option \<Rightarrow> Router \<Rightarrow> ResultCode \<times> Router" where
  "request_shb env request sdu s =
    (let result = confirm_xor (confirm_xor Accepted (validate_data_request (m_mib env) request)) (validate_payload (m_mib env) sdu)
     in case sdu of
          None \<Rightarrow> (result, s)
        | Some p \<Rightarrow>
            if result \<noteq> Accepted then (result, s)
            else
              (let s = (if repetition request \<noteq> None then repeat_request (ShbDataRequest request) p s else s);
                   pd = create_shb_pdu env request s;
                   pd = pd\<lparr>common := (common pd)\<lparr>payload := of_nat (chunk_size p)\<rparr>\<rparr>;
                   pk = \<lparr>pdu = pd, payload_of = p, action = control_info request\<rparr>
               in (result,
                   if store_carry_forward (request_traffic_class request) \<and> \<not> has_neighbours (m_now s) (m_location_table s)
                   then bc_push (BufferedShb pk) s else shb_transmit env pk s)))"

definition request_gbc :: "Environment \<Rightarrow> DataRequest \<Rightarrow> Area \<Rightarrow> DownPacket option \<Rightarrow> Router \<Rightarrow> ResultCode \<times> Router" where
  "request_gbc env request dest sdu s =
    (let result = confirm_xor (confirm_xor Accepted (validate_area_request (m_mib env) request dest)) (validate_payload (m_mib env) sdu)
     in case sdu of
          None \<Rightarrow> (result, s)
        | Some p \<Rightarrow>
            if result \<noteq> Accepted then (result, s)
            else
              (let s = (if repetition request \<noteq> None then repeat_request (GbcDataRequest request dest) p s else s);
                   (pd, s) = create_gbc_pdu env request dest s;
                   pd = pd\<lparr>common := (common pd)\<lparr>payload := of_nat (chunk_size p)\<rparr>\<rparr>;
                   pk = \<lparr>pdu = pd, payload_of = p, action = Forwarding (TransmitLocal (control_info request)) None\<rparr>
               in (result,
                   if store_carry_forward (request_traffic_class request) \<and> \<not> has_neighbours (m_now s) (m_location_table s)
                   then bc_push (BufferedGbc pk) s else run_gbc_action env pk s)))"

fun router_request :: "Environment \<Rightarrow> DataRequestVariant \<Rightarrow> DownPacket option \<Rightarrow> Router \<Rightarrow> ResultCode \<times> Router" where
  "router_request env (ShbDataRequest r) p s = request_shb env r p s"
| "router_request env (GbcDataRequest r dest) p s = request_gbc env r dest p s"
| "router_request env (GacDataRequest r dest) p s = (Rejected_Unspecified, s)"
| "router_request env (GucDataRequest r dest) p s = (Rejected_Unspecified, s)"
| "router_request env (TsbDataRequest r) p s = (Rejected_Unspecified, s)"

subsection \<open>Callbacks of the runtime\<close>

definition aid_GN_MGMT :: ItsAid where "aid_GN_MGMT = 141"

definition on_beacon_timer_expired :: "Environment \<Rightarrow> Router \<Rightarrow> Router" where
  "on_beacon_timer_expired env s =
    (if vanetzaDisableBeaconing (m_mib env) then s
     else if timestamp (m_local_position_vector s) = 0 then reset_beacon_timer env s
     else
       (let pd = create_beacon_pdu env s;
            pd = pd\<lparr>basic := (basic pd)\<lparr>bh_next_header := if itsGnSecurity (m_mib env) then NHB_Secured else NHB_Common\<rparr>\<rparr>;
            encap = (if itsGnSecurity (m_mib env) then encap_packet env aid_GN_MGMT [] [] HV_Beacon pd empty_chunk s
                     else Some (pd, empty_chunk))
        in case encap of
             None \<Rightarrow> s
           | Some (pd, p) \<Rightarrow>
               reset_beacon_timer env (pass_down HV_Beacon cBroadcastMacAddress pd p
                 (execute_media_procedures (itsGnIfType (m_mib env)) s))))"

definition on_cbf_flush :: "Environment \<Rightarrow> Router \<Rightarrow> Router" where
  "on_cbf_flush env s =
    (let (b, s) = cbf_flush (run_gbc_action env) CbfFlush ScopeCbf (m_cbf_buffer s) s in s\<lparr>m_cbf_buffer := b\<rparr>)"

definition on_repetition :: "Environment \<Rightarrow> nat \<Rightarrow> time_point \<Rightarrow> Router \<Rightarrow> Router" where
  "on_repetition env n invocation s =
    (let (due, r) = repeater_trigger n invocation (m_now s) (m_repeater s); s = s\<lparr>m_repeater := r\<rparr>
     in case due of None \<Rightarrow> s | Some (v, p) \<Rightarrow> snd (router_request env v (Some p) s))"

fun router_run :: "Environment \<Rightarrow> RouterCallback \<Rightarrow> time_point \<Rightarrow> Router \<Rightarrow> Router" where
  "router_run env OnBeaconTimer deadline s = on_beacon_timer_expired env s"
| "router_run env CbfFlush deadline s = on_cbf_flush env s"
| "router_run env (RepeaterTrigger n) deadline s = on_repetition env n deadline s"
| "router_run env Foreign deadline s = s"

subsection \<open>Duplicate detection\<close>

definition detect_duplicate_address :: "Environment \<Rightarrow> Address \<Rightarrow> MacAddress \<Rightarrow> Router \<Rightarrow> Router" where
  "detect_duplicate_address env source sender s =
    (let local = gn_addr (m_local_position_vector s) in
     if itsGnLocalAddrConfMethod (m_mib env) = Auto \<and> (address_eq source local \<or> mac_eq sender (mid local)) then
       (let n = m_random_gen s;
            octet = (\<lambda>i. random_octet env (n + i));
            random_mac_addr = MacAddress (octet 0) (octet 1) (octet 2) (octet 3) (octet 4) (octet 5)
        in set_address (local\<lparr>mid := random_mac_addr\<rparr>) (s\<lparr>m_random_gen := n + 6\<rparr>))
     else s)"

definition detect_duplicate_packet :: "Environment \<Rightarrow> Address \<Rightarrow> SequenceNumber \<Rightarrow> Router \<Rightarrow> bool \<times> Router" where
  "detect_duplicate_packet env addr_so sn s =
    (let mac = mid addr_so;
         t = get_or_create_entry (m_now s) mac (m_location_table s);
         dpl = (case ext_dpl (value_at (location_table_entry (m_now s)) mac t) of
             Some dpl \<Rightarrow> dpl | None \<Rightarrow> duplicate_packet_list (itsGnDPLLength (m_mib env)));
         (is_duplicate, dpl) = dpl_check sn dpl
     in (is_duplicate, s\<lparr>m_location_table := modify_entry (m_now s) mac (\<lambda>e. e\<lparr>ext_dpl := Some dpl\<rparr>) t\<rparr>))"

subsection \<open>Receiver operations\<close>

definition update_location ::
  "LongPositionVector \<Rightarrow> (LocationTableEntry \<Rightarrow> LocationTableEntry) \<Rightarrow> Router \<Rightarrow> Router" where
  "update_location pv f s = s\<lparr>m_location_table :=
     modify_entry (m_now s) (mid (gn_addr pv)) f (location_update (m_now s) pv (m_location_table s))\<rparr>"

definition received_size :: "CohesivePacket \<Rightarrow> nat" where
  "received_size packet = cohesive_size_range Network Application packet"

definition process_shb :: "Environment \<Rightarrow> ShbHeader ExtendedPdu \<Rightarrow> CohesivePacket \<Rightarrow> LinkLayer \<Rightarrow> Router \<Rightarrow> bool \<times> Router" where
  "process_shb env pd packet ll s =
    (let shb = extended pd;
         s = detect_duplicate_address env (gn_addr (shb_source_position shb)) (ll_sender ll) s;
         now = m_now s;
         loctex = (\<lambda>e. if itsGnIfType (m_mib env) = ITS_G5 then
             (case get_dcc_mco (dcc shb) of
                None \<Rightarrow> e
              | Some mco \<Rightarrow> e\<lparr>ext_loctex := Some \<lparr>local_update = timestamp_of now,
                  source_update = timestamp (shb_source_position shb), dcc_mco = mco\<rparr>\<rparr>)
           else e)
     in (True, update_location (shb_source_position shb)
           (loctex \<circ> set_neighbour_for now True (vanetzaNeighbourFlagExpiry (m_mib env))
            \<circ> update_pdr now (received_size packet) (itsGnMaxPacketDataRateEmaBeta (m_mib env))) s))"

definition process_beacon :: "Environment \<Rightarrow> BeaconHeader ExtendedPdu \<Rightarrow> CohesivePacket \<Rightarrow> LinkLayer \<Rightarrow> Router \<Rightarrow> bool \<times> Router" where
  "process_beacon env pd packet ll s =
    (let beacon = extended pd;
         s = detect_duplicate_address env (gn_addr (beacon_source_position beacon)) (ll_sender ll) s;
         now = m_now s
     in (False, update_location (beacon_source_position beacon)
           (set_neighbour_for now True (vanetzaNeighbourFlagExpiry (m_mib env))
            \<circ> update_pdr now (received_size packet) (itsGnMaxPacketDataRateEmaBeta (m_mib env))) s))"

definition exceeds_rate :: "MIB \<Rightarrow> LocationTableEntry option \<Rightarrow> bool" where
  "exceeds_rate mib e = (case e of
      None \<Rightarrow> False
    | Some e \<Rightarrow> (case m_pdr e of None \<Rightarrow> False | Some pdr \<Rightarrow> pdr > real (unat (itsGnMaxPacketDataRate mib)) * 1000))"

text \<open>The data rate checks that precede forwarding; no check if the maximum is not bounded.\<close>

definition rate_stop :: "Environment \<Rightarrow> Address \<Rightarrow> LinkLayer \<Rightarrow> Router \<Rightarrow> ForwardingStopReason option" where
  "rate_stop env source ll s =
    (let mib = m_mib env; t = m_location_table s in
     if itsGnMaxPacketDataRate mib < 0xFFFFFFFF then
       if exceeds_rate mib (Some (value_at (location_table_entry (m_now s)) (mid source) t)) then Some Stop_Source_PDR
       else if exceeds_rate mib (get_entry (m_now s) (ll_sender ll) t) then Some Stop_Sender_PDR
       else None
     else None)"

definition create_forwarding_duplicate :: "'h ExtendedPdu \<Rightarrow> CohesivePacket \<Rightarrow> 'h ExtendedPdu \<times> DownPacket" where
  "create_forwarding_duplicate pd packet =
    (pd, case secured pd of Some _ \<Rightarrow> empty_chunk | None \<Rightarrow> duplicate (Cohesive packet))"

definition decrement_hop_limit :: "'h ExtendedPdu \<Rightarrow> 'h ExtendedPdu" where
  "decrement_hop_limit pd = pd\<lparr>basic := (basic pd)\<lparr>hop_limit := hop_limit (basic pd) - 1\<rparr>\<rparr>"

definition process_tsb :: "Environment \<Rightarrow> TsbHeader ExtendedPdu \<Rightarrow> CohesivePacket \<Rightarrow> LinkLayer \<Rightarrow> Router \<Rightarrow> bool \<times> Router" where
  "process_tsb env pd packet ll s =
    (let tsb = extended pd; source_addr = gn_addr (tsb_source_position tsb); now = m_now s;
         locte_exists = has_entry now source_addr (m_location_table s);
         (is_duplicate, s) = detect_duplicate_packet env source_addr (tsb_sequence_number tsb) s
     in if is_duplicate then (False, s)
        else
          (let s = (if vanetzaMultiHopDuplicateAddressDetection (m_mib env)
                    then detect_duplicate_address env source_addr (ll_sender ll) s else s);
               s = update_location (tsb_source_position tsb)
                 (update_pdr now (received_size packet) (itsGnMaxPacketDataRateEmaBeta (m_mib env))
                  \<circ> (if locte_exists then id else set_neighbour False)) s;
               s = flush_unicast_forwarding_buffer env s
           in if hop_limit (basic pd) \<le> 1 then (True, forwarding_stopped Stop_Hop_Limit s)
              else case rate_stop env source_addr ll s of
                Some reason \<Rightarrow> (True, forwarding_stopped reason s)
              | None \<Rightarrow>
                  (let (fwd, p) = create_forwarding_duplicate pd packet;
                       pk = \<lparr>pdu = decrement_hop_limit fwd, payload_of = p, action = ()\<rparr>
                   in (True,
                       if store_carry_forward (traffic_class_field (common pd)) \<and> \<not> has_neighbours now (m_location_table s)
                       then bc_push (BufferedTsb pk) s else tsb_transmit env pk s))))"

definition decide_pass_up :: "Environment \<Rightarrow> bool \<Rightarrow> GeoBroadcastHeader \<Rightarrow> Router \<Rightarrow> bool \<times> Router" where
  "decide_pass_up env within_destination gbc s =
    (let accept = within_destination \<or> vanetzaGbcPassUpOutsideDestination (m_mib env) in
     if vanetzaGbcMemoryCapacity (m_mib env) = 0 then (accept, s)
     else if accept then
       (let (known, m) = gbc_remember (gbc_identifier gbc) (m_gbc_memory s) in (\<not> known, s\<lparr>m_gbc_memory := m\<rparr>))
     else (False, s))"

definition process_gbc :: "Environment \<Rightarrow> GeoBroadcastHeader ExtendedPdu \<Rightarrow> CohesivePacket \<Rightarrow> LinkLayer \<Rightarrow> Router \<Rightarrow> bool \<times> Router" where
  "process_gbc env pd packet ll s =
    (case gbc_destination (header_type (common pd)) (extended pd) of
       None \<Rightarrow> (False, emit (Threw ''Invalid GBC header type'') s)
     | Some dest_area \<Rightarrow>
    (let gbc = extended pd; mib = m_mib env; source_addr = gn_addr (gbc_source_position gbc); now = m_now s;
         locte_exists = has_entry now source_addr (m_location_table s);
         within_destination = inside_or_at_border (geo_local_cartesian env) dest_area (local_position s);
         check_duplicate =
           (if within_destination then itsGnAreaForwardingAlgorithm mib \<in> {BF_Unspecified, BF_SIMPLE}
            else itsGnNonAreaForwardingAlgorithm mib \<in> {UF_Unspecified, UF_Greedy});
         (is_duplicate, s) =
           (if check_duplicate then detect_duplicate_packet env source_addr (gbc_sequence_number gbc) s else (False, s))
     in if is_duplicate then (False, s)
        else
          (let s = (if vanetzaMultiHopDuplicateAddressDetection mib
                    then detect_duplicate_address env source_addr (ll_sender ll) s else s);
               s = update_location (gbc_source_position gbc)
                 ((if locte_exists then id else set_neighbour False)
                  \<circ> update_pdr now (received_size packet) (itsGnMaxPacketDataRateEmaBeta mib)) s;
               s = flush_unicast_forwarding_buffer env s
           in if hop_limit (basic pd) \<le> 1
              then decide_pass_up env within_destination gbc (forwarding_stopped Stop_Hop_Limit s)
              else if area_size dest_area > itsGnMaxGeoAreaSize mib
              then decide_pass_up env within_destination gbc (forwarding_stopped Stop_Geo_Area_Size s)
              else case rate_stop env source_addr ll s of
                Some reason \<Rightarrow> decide_pass_up env within_destination gbc (forwarding_stopped reason s)
              | None \<Rightarrow>
                  (let (fwd, p) = create_forwarding_duplicate pd packet;
                       pk = \<lparr>pdu = decrement_hop_limit fwd, payload_of = p, action = Forwarding TransmitForward (Some ll)\<rparr>;
                       s = (if store_carry_forward (traffic_class_field (common pd)) \<and> \<not> has_neighbours now (m_location_table s)
                            then bc_push (BufferedGbc pk) s else run_gbc_action env pk s)
                   in decide_pass_up env within_destination gbc s))))"

subsection \<open>Indication\<close>

text \<open>
  The context of an indication: the packet and the parser over its network layer. The context
  of a decapsulated payload has the packet and the parser of the received packet as parent; it
  leaves its payload untrimmed.
\<close>

record IndicationContext =
  ctx_packet :: CohesivePacket
  ctx_parser :: Parser
  ctx_parent :: "(CohesivePacket \<times> Parser) option"

definition indication_context :: "CohesivePacket \<Rightarrow> (CohesivePacket \<times> Parser) option \<Rightarrow> IndicationContext" where
  "indication_context packet parent =
     \<lparr>ctx_packet = packet, ctx_parser = parser_init (cohesive_layer packet Network), ctx_parent = parent\<rparr>"

text \<open>
  The boundary must lie within the network layer, as the code asserts. Finishing the context of
  a decapsulated payload finishes its parent, too, and replaces the packet of the parent.
\<close>

definition finish_context :: "IndicationContext \<Rightarrow> CommonHeader \<Rightarrow> CohesivePacket option" where
  "finish_context ctx cm = (case set_boundary Network (read_bytes (ctx_parser ctx)) (ctx_packet ctx) of
      None \<Rightarrow> None
    | Some packet \<Rightarrow>
        (case ctx_parent ctx of
           None \<Rightarrow> Some (trim Transport (unat (payload cm)) packet)
         | Some (outer, parser) \<Rightarrow>
             if set_boundary Network (read_bytes parser) outer = None then None else Some packet))"

definition pass_up :: "Environment \<Rightarrow> DataIndication \<Rightarrow> CohesivePacket \<Rightarrow> Router \<Rightarrow> Router" where
  "pass_up env ind packet s = (case ind_upper_protocol ind of
      None \<Rightarrow> s
    | Some proto \<Rightarrow> if m_transport_ifcs env proto then emit (PassUp ind (Cohesive packet)) s else s)"

definition indicate_variant ::
  "Environment \<Rightarrow> BasicHeader \<Rightarrow> CommonHeader \<Rightarrow> SecuredMessage option \<Rightarrow> LinkLayer \<Rightarrow> DataIndication \<Rightarrow> CohesivePacket
     \<Rightarrow> HeaderVariant \<Rightarrow> Router \<Rightarrow> (bool \<times> Router) \<times> DataIndication" where
  "indicate_variant env bh ch sec ll ind packet hv s = (case hv of
      HV_Shb shb \<Rightarrow>
        (process_shb env \<lparr>basic = bh, common = ch, extended = shb, secured = sec\<rparr> packet ll s,
         ind\<lparr>ind_transport_type := Some SHB, ind_source_position := Some (short_position_vector (shb_source_position shb))\<rparr>)
    | HV_Tsb tsb \<Rightarrow>
        (process_tsb env \<lparr>basic = bh, common = ch, extended = tsb, secured = sec\<rparr> packet ll s,
         ind\<lparr>ind_transport_type := Some TSB, ind_source_position := Some (short_position_vector (tsb_source_position tsb))\<rparr>)
    | HV_Gbc gbc \<Rightarrow>
        (process_gbc env \<lparr>basic = bh, common = ch, extended = gbc, secured = sec\<rparr> packet ll s,
         ind\<lparr>ind_transport_type := Some GBC, ind_source_position := Some (short_position_vector (gbc_source_position gbc)),
           ind_destination := map_option DestinationArea (gbc_destination (header_type ch) gbc)\<rparr>)
    | HV_Beacon beacon \<Rightarrow>
        (process_beacon env \<lparr>basic = bh, common = ch, extended = beacon, secured = sec\<rparr> packet ll s, ind))"

text \<open>Once its extended header is known, the payload of the packet is checked and the packet processed.\<close>

definition indicate_header ::
  "Environment \<Rightarrow> BasicHeader \<Rightarrow> CommonHeader \<Rightarrow> SecuredMessage option \<Rightarrow> LinkLayer \<Rightarrow> CohesivePacket \<Rightarrow> HeaderVariant
     \<Rightarrow> DataIndication \<Rightarrow> Router \<Rightarrow> Router" where
  "indicate_header env bh ch sec ll packet hv ind s =
    (if unat (payload ch) \<noteq> cohesive_size_range Transport max_osi_layer packet then packet_dropped Drop_Payload_Size s
     else
       (let ((up, s), ind) = indicate_variant env bh ch sec ll ind packet hv s
        in if up then pass_up env ind packet s else s))"

definition indicate_extended ::
  "Environment \<Rightarrow> IndicationContext \<Rightarrow> BasicHeader \<Rightarrow> CommonHeader \<Rightarrow> SecuredMessage option \<Rightarrow> LinkLayer \<Rightarrow> DataIndication
     \<Rightarrow> Router \<Rightarrow> Router" where
  "indicate_extended env ctx bh ch sec ll ind s =
    (let ((_, ext), parser) = parse_extended (header_type ch) (ctx_parser ctx)
     in case finish_context (ctx\<lparr>ctx_parser := parser\<rparr>) ch of
          None \<Rightarrow> emit (Threw ''assertion failed: boundary'') s
        | Some packet \<Rightarrow>
            (case ext of
               None \<Rightarrow> packet_dropped Drop_Parse_Extended_Header s
             | Some hv \<Rightarrow> indicate_header env bh ch sec ll packet hv ind s))"

fun protocol_of_next_header :: "NextHeaderCommon \<Rightarrow> UpperProtocol" where
  "protocol_of_next_header NHC_BTP_A = UP_BTP_A"
| "protocol_of_next_header NHC_BTP_B = UP_BTP_B"
| "protocol_of_next_header NHC_IPv6 = UP_IPv6"
| "protocol_of_next_header _ = UP_Unknown"

definition indicate_with_common ::
  "Environment \<Rightarrow> BasicHeader \<Rightarrow> CommonHeader \<Rightarrow> (DataIndication \<Rightarrow> Router \<Rightarrow> Router) \<Rightarrow> DataIndication \<Rightarrow> Router \<Rightarrow> Router" where
  "indicate_with_common env bh ch extended_step ind s =
    (if maximum_hop_limit ch < hop_limit bh then packet_dropped Drop_Hop_Limit s
     else
       (let ind = ind\<lparr>ind_traffic_class := traffic_class_field ch,
              ind_upper_protocol := Some (protocol_of_next_header (ch_next_header ch))\<rparr>;
            s = s\<lparr>m_location_table := drop_expired (m_now s) (m_location_table s)\<rparr>;
            s = flush_broadcast_forwarding_buffer env s
        in extended_step ind s))"

definition indicate_common ::
  "Environment \<Rightarrow> IndicationContext \<Rightarrow> BasicHeader \<Rightarrow> SecuredMessage option \<Rightarrow> LinkLayer \<Rightarrow> DataIndication \<Rightarrow> Router \<Rightarrow> Router" where
  "indicate_common env ctx bh sec ll ind s =
    (let ((_, ch), parser) = parse_common (ctx_parser ctx)
     in case ch of
          None \<Rightarrow> packet_dropped Drop_Parse_Common_Header s
        | Some ch \<Rightarrow> indicate_with_common env bh ch (indicate_extended env (ctx\<lparr>ctx_parser := parser\<rparr>) bh ch sec ll) ind s)"

text \<open>
  The context of a payload that is a chunk packet takes its headers from the secured PDU in the
  network layer and has nothing left to parse. The received packet is finished first, with the
  payload length of a default header. Its octets are then replaced by those of the upper layers
  of the payload, which follow as many zero octets as the payload has altogether: the buffer is
  constructed with that size before the layers are appended.
\<close>

definition secured_cast_packet :: "ChunkPacket \<Rightarrow> CohesivePacket" where
  "secured_cast_packet packet = cohesive_packet
     (replicate (chunk_size packet) 0 @ concat (map packet (osi_layer_range Transport max_osi_layer))) Transport"

definition indicate_secured_cast ::
  "Environment \<Rightarrow> IndicationContext \<Rightarrow> SecuredPdu option \<Rightarrow> ChunkPacket \<Rightarrow> BasicHeader \<Rightarrow> SecuredMessage \<Rightarrow> LinkLayer
     \<Rightarrow> DataIndication \<Rightarrow> Router \<Rightarrow> Router" where
  "indicate_secured_cast env parent secured_pdu packet bh msg ll ind s = (case finish_context parent common_default of
      None \<Rightarrow> emit (Threw ''assertion failed: boundary'') s
    | Some _ \<Rightarrow>
        (case secured_pdu of
           None \<Rightarrow> emit (Threw ''Casting to SecuredPdu failed'') s
         | Some sp \<Rightarrow> indicate_with_common env bh (sp_common sp)
             (indicate_header env bh (sp_common sp) (Some msg) ll (secured_cast_packet packet) (sp_extended sp)) ind s))"

text \<open>
  The plaintext payload is a variant that always holds a packet, so its test for emptiness
  never succeeds.
\<close>

definition indicate_secured ::
  "Environment \<Rightarrow> IndicationContext \<Rightarrow> BasicHeader \<Rightarrow> LinkLayer \<Rightarrow> DataIndication \<Rightarrow> Router \<Rightarrow> Router" where
  "indicate_secured env ctx bh ll ind s =
    (let ((n, msg), parser) = parse_secured (secured_v2 env) (secured_v3 env) (ctx_parser ctx)
     in case (if n > 0 then msg else None) of
          None \<Rightarrow> packet_dropped Drop_Parse_Secured_Header s
        | Some msg \<Rightarrow>
            (case m_security_entity env of
               None \<Rightarrow> packet_dropped Drop_Security_Entity_Missing s
             | Some entity \<Rightarrow>
                 (let confirm = decapsulate_packet entity (m_now s) msg;
                      ind = ind\<lparr>ind_security_report := decap_report confirm, ind_its_aid := Some (decap_its_aid confirm),
                        ind_permissions := Some (decap_permissions confirm), ind_certificate_id := decap_certificate_id confirm\<rparr>;
                      visit = (case plaintext_payload confirm of
                          PlainChunk secured_pdu packet \<Rightarrow>
                            indicate_secured_cast env (ctx\<lparr>ctx_parser := parser\<rparr>) secured_pdu packet bh msg ll ind s
                        | PlainCohesive packet \<Rightarrow>
                            indicate_common env (indication_context packet (Some (ctx_packet ctx, parser))) bh (Some msg) ll ind s);
                      payload_empty = False
                  in if is_successful (decap_report confirm) then visit
                     else if itsGnSnDecapResultHandling (m_mib env) = Non_Strict then
                       if \<not> payload_empty then visit else packet_dropped Drop_Decap_Unsuccessful_Non_Strict s
                     else packet_dropped Drop_Decap_Unsuccessful_Strict s)))"

definition indication_init :: DataIndication where
  "indication_init = \<lparr>ind_upper_protocol = None, ind_transport_type = None, ind_destination = None,
     ind_source_position = None, ind_security_report = DecapBlank, ind_its_aid = None, ind_permissions = None,
     ind_certificate_id = None, ind_traffic_class = 0, ind_remaining_packet_lifetime = None, ind_remaining_hop_limit = None\<rparr>"

definition indicate_basic :: "Environment \<Rightarrow> IndicationContext \<Rightarrow> LinkLayer \<Rightarrow> Router \<Rightarrow> Router" where
  "indicate_basic env ctx ll s =
    (let ((_, bh), parser) = parse_basic (ctx_parser ctx); ctx = ctx\<lparr>ctx_parser := parser\<rparr>
     in case bh of
          None \<Rightarrow> packet_dropped Drop_Parse_Basic_Header s
        | Some bh \<Rightarrow>
            if unat (version bh) \<noteq> itsGnProtocolVersion (m_mib env) then packet_dropped Drop_ITS_Protocol_Version s
            else
              (let ind = indication_init\<lparr>ind_remaining_packet_lifetime := Some (lifetime bh),
                     ind_remaining_hop_limit := Some (unat (hop_limit bh))\<rparr>
               in case bh_next_header bh of
                    NHB_Secured \<Rightarrow> indicate_secured env ctx bh ll ind s
                  | NHB_Common \<Rightarrow>
                      if \<not> itsGnSecurity (m_mib env) \<or> itsGnSnDecapResultHandling (m_mib env) = Non_Strict
                      then indicate_common env ctx bh None ll (ind\<lparr>ind_security_report := DecapBlank\<rparr>) s
                      else packet_dropped Drop_Decap_Unsuccessful_Strict s
                  | _ \<Rightarrow> s))"

definition indicate :: "Environment \<Rightarrow> CohesivePacket \<Rightarrow> MacAddress \<Rightarrow> MacAddress \<Rightarrow> Router \<Rightarrow> Router" where
  "indicate env packet sender dest s =
     indicate_basic env (indication_context packet None) \<lparr>ll_sender = sender, ll_destination = dest\<rparr> s"

end
