(* ===== verification/RouterInv.thy ===== *)
theory RouterInv
  imports RouterOps
begin

text \<open>
  The invariant of the router and its preservation by every operation. All packets it holds
  are consistent with what is left to be done with them, so that none of the checks made when
  a packet is passed down can fail.
\<close>

subsection \<open>Consistent packets\<close>

text \<open>A packet ready to be passed down, and one of local origin that has yet to be secured.\<close>

definition fwd_ok :: "'h ExtendedPdu \<Rightarrow> DownPacket \<Rightarrow> bool" where
  "fwd_ok pd p = (case secured pd of
      Some _ \<Rightarrow> bh_next_header (basic pd) = NHB_Secured \<and> chunk_size_range Transport max_osi_layer p = 0
    | None \<Rightarrow> bh_next_header (basic pd) \<noteq> NHB_Secured)"

definition local_ok :: "Environment \<Rightarrow> 'h ExtendedPdu \<Rightarrow> bool" where
  "local_ok env pd \<longleftrightarrow> secured pd = None
     \<and> bh_next_header (basic pd) = (if itsGnSecurity (m_mib env) then NHB_Secured else NHB_Common)"

fun mac_action_ok :: "Environment \<Rightarrow> MacAction \<Rightarrow> 'h ExtendedPdu \<Rightarrow> DownPacket \<Rightarrow> bool" where
  "mac_action_ok env (TransmitLocal _) pd p = local_ok env pd"
| "mac_action_ok env TransmitForward pd p = fwd_ok pd p"
| "mac_action_ok env Noop pd p = True"

definition has_destination :: "GeoBroadcastHeader ExtendedPdu \<Rightarrow> bool" where
  "has_destination pd \<longleftrightarrow> gbc_destination (header_type (common pd)) (extended pd) \<noteq> None"

definition gbc_pending_ok :: "Environment \<Rightarrow> (GeoBroadcastHeader, GbcAction) PendingPacket \<Rightarrow> bool" where
  "gbc_pending_ok env pk = (case action pk of
      Forwarding m _ \<Rightarrow> mac_action_ok env m (pdu pk) (payload_of pk) \<and> has_destination (pdu pk)
    | GreedyAgain m \<Rightarrow> mac_action_ok env m (pdu pk) (payload_of pk)
    | Bound m _ \<Rightarrow> mac_action_ok env m (pdu pk) (payload_of pk))"

fun data_ok :: "Environment \<Rightarrow> BufferedData \<Rightarrow> bool" where
  "data_ok env (BufferedShb p) = local_ok env (pdu p)"
| "data_ok env (BufferedGbc p) = gbc_pending_ok env p"
| "data_ok env (BufferedTsb p) = fwd_ok (pdu p) (payload_of p)"

definition contending_ok :: "Environment \<Rightarrow> GbcAction CbfPacket \<Rightarrow> bool" where
  "contending_ok env p \<longleftrightarrow> (\<exists>m mac. action (m_packet p) = Bound m mac) \<and> gbc_pending_ok env (m_packet p)"

text \<open>Duplicate packet lists have the configured length.\<close>

definition dpl_entry_ok :: "nat \<Rightarrow> LocationTableEntry \<Rightarrow> bool" where
  "dpl_entry_ok n e = (case ext_dpl e of None \<Rightarrow> True | Some d \<Rightarrow> dpl_ok d \<and> dpl_capacity d = n)"

definition table_ok :: "Environment \<Rightarrow> LocationTable \<Rightarrow> bool" where
  "table_ok env t \<longleftrightarrow> location_table_ok t \<and> all_entries (dpl_entry_ok (itsGnDPLLength (m_mib env))) t"

text \<open>The outputs of an operation that throws nothing.\<close>

definition no_throw :: "Output list \<Rightarrow> bool" where
  "no_throw os \<longleftrightarrow> (\<forall>msg. Threw msg \<notin> set os)"

definition quiet :: "Router \<Rightarrow> Router \<Rightarrow> bool" where
  "quiet s s' \<longleftrightarrow> (\<exists>os. outputs s' = outputs s @ os \<and> no_throw os)"

definition router_ok :: "Environment \<Rightarrow> Router \<Rightarrow> bool" where
  "router_ok env s \<longleftrightarrow> queue_ok s
     \<and> cbf_ok (m_cbf_buffer s) \<and> (\<forall>p\<in>set (m_packets (m_cbf_buffer s)). contending_ok env p)
     \<and> pb_ok data_length (m_bc_forward_buffer s) \<and> (\<forall>n\<in>set (m_nodes (m_bc_forward_buffer s)). data_ok env (snd n))
     \<and> m_nodes (m_uc_forward_buffer s) = []
     \<and> table_ok env (m_location_table s) \<and> gbc_ok (m_gbc_memory s)"

text \<open>
  What the router relies on: timers that are not shorter than a tick of the clock, jitter that
  is not negative, and parsers of secured messages that do not claim to have read more bytes
  than there are.
\<close>

definition reader_ok :: "'m secured_reader \<Rightarrow> bool" where
  "reader_ok rd \<longleftrightarrow> (\<forall>bs n m rest. rd bs = Some ((n, m), rest) \<longrightarrow> n \<le> length bs)"

definition env_ok :: "Environment \<Rightarrow> bool" where
  "env_ok env \<longleftrightarrow> itsGnBeaconServiceRetransmitTimer (m_mib env) \<ge> 1 / 1000000
     \<and> itsGnBeaconServiceMaxJitter (m_mib env) \<ge> 0 \<and> (\<forall>n. random_jitter env n \<ge> 0)
     \<and> itsGnMinPacketRepetitionInterval (m_mib env) \<ge> 1 / 1000000 \<and> itsGnLifetimeLocTE (m_mib env) \<ge> 0
     \<and> reader_ok (secured_v2 env) \<and> reader_ok (secured_v3 env)"

subsection \<open>Simple state changes\<close>

lemma emit_simps [simp]:
  "m_now (emit x s) = m_now s" "m_queue (emit x s) = m_queue s"
  "m_local_position_vector (emit x s) = m_local_position_vector s" "m_location_table (emit x s) = m_location_table s"
  "m_bc_forward_buffer (emit x s) = m_bc_forward_buffer s" "m_uc_forward_buffer (emit x s) = m_uc_forward_buffer s"
  "m_cbf_buffer (emit x s) = m_cbf_buffer s" "m_local_sequence_number (emit x s) = m_local_sequence_number s"
  "m_repeater (emit x s) = m_repeater s" "m_random_gen (emit x s) = m_random_gen s"
  "m_gbc_memory (emit x s) = m_gbc_memory s" "outputs (emit x s) = outputs s @ [x]"
  by (simp_all add: emit_def)

lemma queue_ok_emit [simp]: "queue_ok (emit x s) = queue_ok s" "expired_count (emit x s) = expired_count s"
  by (simp_all add: queue_ok_def expired_count_def)

lemma no_throw_simps [simp]:
  "no_throw []" "no_throw (os @ os') \<longleftrightarrow> no_throw os \<and> no_throw os'" "no_throw [x] \<longleftrightarrow> (\<nexists>msg. x = Threw msg)"
  by (auto simp: no_throw_def)

lemma quiet_same [simp]: "outputs s' = outputs s \<Longrightarrow> quiet s s'"
  by (simp add: quiet_def)

lemma quiet_trans: "quiet s s' \<Longrightarrow> quiet s' s'' \<Longrightarrow> quiet s s''"
  unfolding quiet_def by (metis append.assoc no_throw_simps(2))

lemma quiet_cong: "outputs s1 = outputs s \<Longrightarrow> outputs s1' = outputs s' \<Longrightarrow> quiet s1 s1' = quiet s s'"
  by (simp add: quiet_def)

lemma quiet_emit [simp]: "outputs s' = outputs s \<Longrightarrow> \<nexists>msg. x = Threw msg \<Longrightarrow> quiet s (emit x s')"
  by (simp add: quiet_def)

lemma no_throw_quiet: "quiet s s' \<Longrightarrow> no_throw (outputs s) \<Longrightarrow> no_throw (outputs s')"
  by (auto simp: quiet_def)

lemma router_ok_emit: "router_ok env s \<Longrightarrow> router_ok env (emit x s)"
  by (simp add: router_ok_def)

lemma media_simps [simp]: "execute_media_procedures c s = s"
  by (cases c) simp_all

lemma router_ok_hooks:
  "router_ok env s \<Longrightarrow> router_ok env (packet_dropped r s)"
  "router_ok env s \<Longrightarrow> router_ok env (forwarding_stopped r' s)"
  by (simp_all add: packet_dropped_def forwarding_stopped_def router_ok_emit)

lemma hooks_simps [simp]:
  "m_now (packet_dropped r s) = m_now s" "m_now (forwarding_stopped r' s) = m_now s"
  by (simp_all add: packet_dropped_def forwarding_stopped_def)

text \<open>Timers of the router itself.\<close>

lemma reset_beacon_timer_in_simps [simp]:
  "m_now (reset_beacon_timer_in d s) = m_now s"
  "m_location_table (reset_beacon_timer_in d s) = m_location_table s"
  "m_bc_forward_buffer (reset_beacon_timer_in d s) = m_bc_forward_buffer s"
  "m_uc_forward_buffer (reset_beacon_timer_in d s) = m_uc_forward_buffer s"
  "m_cbf_buffer (reset_beacon_timer_in d s) = m_cbf_buffer s"
  "m_gbc_memory (reset_beacon_timer_in d s) = m_gbc_memory s"
  "m_local_position_vector (reset_beacon_timer_in d s) = m_local_position_vector s"
  "m_repeater (reset_beacon_timer_in d s) = m_repeater s"
  "outputs (reset_beacon_timer_in d s) = outputs s"
  by (simp_all add: reset_beacon_timer_in_def schedule_in_def schedule_at_def cancel_def)

lemma reset_beacon_timer_simps [simp]:
  "m_now (reset_beacon_timer env s) = m_now s"
  "m_location_table (reset_beacon_timer env s) = m_location_table s"
  "m_bc_forward_buffer (reset_beacon_timer env s) = m_bc_forward_buffer s"
  "m_uc_forward_buffer (reset_beacon_timer env s) = m_uc_forward_buffer s"
  "m_cbf_buffer (reset_beacon_timer env s) = m_cbf_buffer s"
  "m_gbc_memory (reset_beacon_timer env s) = m_gbc_memory s"
  "m_local_position_vector (reset_beacon_timer env s) = m_local_position_vector s"
  "m_repeater (reset_beacon_timer env s) = m_repeater s"
  "outputs (reset_beacon_timer env s) = outputs s"
  by (simp_all add: reset_beacon_timer_def Let_def)

lemma queue_ok_random [simp]:
  "queue_ok (s\<lparr>m_random_gen := n\<rparr>) = queue_ok s" "expired_count (s\<lparr>m_random_gen := n\<rparr>) = expired_count s"
  by (simp_all add: queue_ok_def expired_count_def)

lemma queue_ok_reset [simp]:
  "queue_ok s \<Longrightarrow> queue_ok (reset_beacon_timer_in d s)" "queue_ok s \<Longrightarrow> queue_ok (reset_beacon_timer env s)"
  by (simp_all add: reset_beacon_timer_in_def reset_beacon_timer_def Let_def)

lemma router_ok_reset: "router_ok env s \<Longrightarrow> router_ok env (reset_beacon_timer env' s)"
  by (simp add: router_ok_def)

lemma next_beacon_positive:
  assumes "env_ok env"
  shows "0 < clock_cast (itsGnBeaconServiceRetransmitTimer (m_mib env) + random_jitter env n * itsGnBeaconServiceMaxJitter (m_mib env))"
proof -
  have "0 \<le> random_jitter env n * itsGnBeaconServiceMaxJitter (m_mib env)" using assms by (simp add: env_ok_def)
  then have "1 / 1000000 \<le> itsGnBeaconServiceRetransmitTimer (m_mib env) + random_jitter env n * itsGnBeaconServiceMaxJitter (m_mib env)"
    using assms unfolding env_ok_def by linarith
  then have "clock_cast (1 / 1000000) \<le> clock_cast (itsGnBeaconServiceRetransmitTimer (m_mib env) + random_jitter env n * itsGnBeaconServiceMaxJitter (m_mib env))"
    by (rule clock_cast_mono)
  then show ?thesis by (simp add: clock_cast_def trunc_real_def)
qed

lemma expired_reset: "env_ok env \<Longrightarrow> expired_count (reset_beacon_timer env s) \<le> expired_count s"
  using next_beacon_positive [of env "m_random_gen s"] cancel_simps(3) [of "Some ScopeRouter" "s\<lparr>m_random_gen := Suc (m_random_gen s)\<rparr>"]
  by (simp add: reset_beacon_timer_def reset_beacon_timer_in_def Let_def)

subsection \<open>Passing packets down\<close>

lemma pass_down_request_eq:
  "fwd_ok pd p \<Longrightarrow> pass_down_request v r pd p s = emit (PassDown r (p(Network := serialize_pdu v pd))) s"
  by (cases "secured pd") (simp_all add: fwd_ok_def pass_down_request_def)

lemma chunk_merge_upper:
  "snd (chunk_merge Transport max_osi_layer src dst) = src(Transport := [], Session := [], Presentation := [], Application := [])"
  by (simp add: chunk_merge_def osi_layer_range_def layer_distance_def min_osi_layer_def max_osi_layer_def osi_layers_def
      less_eq_OsiLayer_def)

lemma chunk_size_upper_empty:
  "chunk_size_range Transport max_osi_layer (p(Transport := [], Session := [], Presentation := [], Application := [])) = 0"
  by (simp add: chunk_size_range_def osi_layers_def max_osi_layer_def less_eq_OsiLayer_def)

lemma encap_packet_ok:
  assumes "encap_packet env aid ssp ctx v pd p s = Some (pd', p')" and "bh_next_header (basic pd) = NHB_Secured"
  shows "fwd_ok pd' p'"
proof -
  obtain msg where "pd' = pd\<lparr>secured := Some msg\<rparr>"
    "p' = snd (chunk_merge Transport max_osi_layer p (empty_chunk(Network := convert_for_signing v pd)))"
    using assms(1) by (auto simp: encap_packet_def Let_def case_prod_beta split: option.splits)
  then show ?thesis using assms(2) by (simp add: fwd_ok_def chunk_merge_upper chunk_size_upper_empty)
qed

lemma encap_if_secured_ok:
  assumes "encap_if_secured env ctrl v pd p s = Some (pd', p')" and "local_ok env pd"
  shows "fwd_ok pd' p'"
proof (cases "itsGnSecurity (m_mib env)")
  case True
  then have "encap_packet env (ctrl_its_aid ctrl) (ctrl_permissions ctrl) (ctrl_security_context ctrl) v pd p s = Some (pd', p')"
    using assms(1) by (simp add: encap_if_secured_def)
  then show ?thesis by (rule encap_packet_ok) (use True assms(2) in \<open>simp add: local_ok_def\<close>)
next
  case False
  then show ?thesis using assms by (auto simp: encap_if_secured_def local_ok_def fwd_ok_def)
qed

text \<open>Sending either does nothing, because the packet could not be secured, or passes one packet down.\<close>

lemma pass_down_cases:
  assumes "fwd_ok pd p"
  obtains r q where "pass_down v mac pd p s = emit (PassDown r q) s"
  by (simp add: pass_down_def pass_down_request_eq [OF assms])

lemma local_ok_extended [simp]: "local_ok env (pd\<lparr>extended := x\<rparr>) = local_ok env pd"
  by (simp add: local_ok_def)

lemma run_mac_action_cases:
  assumes "mac_action_ok env m pd p"
  shows "run_mac_action env m pd p mac s = s \<or> (\<exists>r q. run_mac_action env m pd p mac s = emit (PassDown r q) s)"
proof (cases m)
  case (TransmitLocal ctrl)
  let ?pd = "pd\<lparr>extended := (extended pd)\<lparr>gbc_source_position := m_local_position_vector s\<rparr>\<rparr>"
  show ?thesis
  proof (cases "encap_if_secured env ctrl HV_Gbc ?pd p s")
    case (Some x)
    obtain pd' p' where x: "x = (pd', p')" by fastforce
    have "fwd_ok pd' p'"
      using encap_if_secured_ok [of env ctrl HV_Gbc ?pd p s pd' p'] Some x assms TransmitLocal by simp
    from pass_down_cases [OF this] obtain r q where "pass_down HV_Gbc mac pd' p' s = emit (PassDown r q) s" by blast
    then show ?thesis using Some x TransmitLocal by auto
  qed (simp add: TransmitLocal)
next
  case TransmitForward
  then show ?thesis using assms by (auto simp: pass_down_request_eq)
qed simp

lemma next_hop_process_cases:
  assumes "\<And>p mac. nh = Valid p mac \<Longrightarrow> mac_action_ok env (action p) (pdu p) (payload_of p)"
  shows "next_hop_process env nh s = s \<or> (\<exists>r q. next_hop_process env nh s = emit (PassDown r q) s)"
  using assms run_mac_action_cases by (auto simp: next_hop_process_def split: NextHop.split)

lemma shb_transmit_cases:
  assumes "local_ok env (pdu pk)"
  shows "shb_transmit env pk s = s \<or> (\<exists>r q. shb_transmit env pk s = reset_beacon_timer env (emit (PassDown r q) s))"
proof -
  let ?pd = "(pdu pk)\<lparr>extended := (extended (pdu pk))\<lparr>shb_source_position := m_local_position_vector s\<rparr>\<rparr>"
  show ?thesis
  proof (cases "encap_if_secured env (action pk) HV_Shb ?pd (payload_of pk) s")
    case (Some x)
    obtain pd' p' where x: "x = (pd', p')" by fastforce
    have "fwd_ok pd' p'"
      using encap_if_secured_ok [of env "action pk" HV_Shb ?pd "payload_of pk" s pd' p'] Some x assms by simp
    from pass_down_cases [OF this] obtain r q where
      "pass_down HV_Shb cBroadcastMacAddress pd' p' s = emit (PassDown r q) s" by blast
    then show ?thesis using Some x by (auto simp: shb_transmit_def Let_def)
  qed (simp add: shb_transmit_def Let_def)
qed

lemma tsb_transmit_eq:
  assumes "fwd_ok (pdu pk) (payload_of pk)"
  shows "\<exists>r q. tsb_transmit env pk s = emit (PassDown r q) s"
  using pass_down_request_eq [OF assms] by (auto simp: tsb_transmit_def)

subsection \<open>Buffers keep consistent packets\<close>

lemma data_reduce_simps [simp]:
  "data_length (snd (data_reduce_lifetime t d)) = data_length d"
  "fst (data_reduce_lifetime t d) \<ge> 0"
  by (cases d; simp add: Let_def case_prod_beta reduce_lifetime_remaining pending_lifetime_nonneg)+

interpretation bc_data: buffered_data data_length data_reduce_lifetime
  by unfold_locales simp_all

lemma reduce_lifetime_frame:
  "action (snd (reduce_lifetime t p)) = action p" "payload_of (snd (reduce_lifetime t p)) = payload_of p"
  "secured (pdu (snd (reduce_lifetime t p))) = secured (pdu p)" "common (pdu (snd (reduce_lifetime t p))) = common (pdu p)"
  "extended (pdu (snd (reduce_lifetime t p))) = extended (pdu p)"
  "bh_next_header (basic (pdu (snd (reduce_lifetime t p)))) = bh_next_header (basic (pdu p))"
  "hop_limit (basic (pdu (snd (reduce_lifetime t p)))) = hop_limit (basic (pdu p))"
  by (simp_all add: reduce_lifetime_def Let_def set_pending_lifetime_def)

lemma ok_reduce [simp]:
  "fwd_ok (pdu (snd (reduce_lifetime t p))) q = fwd_ok (pdu p) q"
  "local_ok env (pdu (snd (reduce_lifetime t p))) = local_ok env (pdu p)"
  by (simp_all add: fwd_ok_def local_ok_def reduce_lifetime_frame split: option.split)

lemma mac_action_ok_reduce [simp]:
  "mac_action_ok env m (pdu (snd (reduce_lifetime t p))) q = mac_action_ok env m (pdu p) q"
  by (cases m) simp_all

lemma gbc_pending_ok_reduce [simp]: "gbc_pending_ok env (snd (reduce_lifetime t p)) = gbc_pending_ok env p"
  by (simp add: gbc_pending_ok_def has_destination_def reduce_lifetime_frame cong: GbcAction.case_cong)

lemma data_ok_reduce [simp]: "data_ok env (snd (data_reduce_lifetime t d)) = data_ok env d"
  by (cases d) (simp_all add: Let_def case_prod_beta reduce_lifetime_frame)

lemma bc_push_simps [simp]:
  "m_now (bc_push d s) = m_now s" "m_queue (bc_push d s) = m_queue s"
  "m_location_table (bc_push d s) = m_location_table s" "m_uc_forward_buffer (bc_push d s) = m_uc_forward_buffer s"
  "m_cbf_buffer (bc_push d s) = m_cbf_buffer s" "m_gbc_memory (bc_push d s) = m_gbc_memory s"
  "m_local_position_vector (bc_push d s) = m_local_position_vector s" "m_repeater (bc_push d s) = m_repeater s"
  "outputs (bc_push d s) = outputs s"
  by (simp_all add: bc_push_def)

lemma queue_ok_bc_push [simp]: "queue_ok (bc_push d s) = queue_ok s" "expired_count (bc_push d s) = expired_count s"
  by (simp_all add: queue_ok_def expired_count_def)

lemma router_ok_bc_push:
  assumes "router_ok env s" and "data_ok env d"
  shows "router_ok env (bc_push d s)"
proof -
  have "pb_ok data_length (m_bc_forward_buffer s)" "\<forall>n\<in>set (m_nodes (m_bc_forward_buffer s)). data_ok env (snd n)"
    "data_ok env (snd (data_reduce_lifetime 0 d))" using assms by (simp_all add: router_ok_def)
  from bc_data.push_keeps [OF this] show ?thesis using assms(1) by (simp add: router_ok_def bc_push_def queue_ok_def)
qed

end
