(* ===== verification/CbfSpec.thy ===== *)
theory CbfSpec
  imports CbfBuffer
begin

text \<open>
  What the contention buffer (\<open>vanetza/geonet/cbf_packet_buffer.cpp\<close>) promises, without lists
  and timers: a finite map from packet identifiers to the contending packet, the time its
  timer expires and the time it was started.
\<close>

subsection \<open>Which packets are stored\<close>

lemma packets_remove: "set (m_packets (fst (snd (cbf_remove cb this i b rt)))) \<subseteq> set (m_packets b)"
  by (auto simp: cbf_remove_def erase_packet_def split: option.split)

lemma packets_head_drop: "set (m_packets (cbf_head_drop b)) \<subseteq> set (m_packets b)"
proof (induction b rule: cbf_head_drop.induct)
  case (1 b)
  show ?case
  proof (cases "m_packets b")
    case Nil
    then show ?thesis by (subst cbf_head_drop.simps) simp
  next
    case (Cons p ps)
    then show ?thesis using "1" by (subst cbf_head_drop.simps) auto
  qed
qed

lemma packets_add: "set (m_packets (fst (cbf_add cb this p t b rt))) \<subseteq> insert p (set (m_packets b))"
  using packets_head_drop [of "b\<lparr>m_stored_bytes := m_stored_bytes b + cbf_length p\<rparr>"]
  by (auto simp: cbf_add_def Let_def split: option.split)

lemma packets_update:
  assumes "p \<in> set (m_packets (cbf_update i timeout now b))"
  shows "\<exists>q\<in>set (m_packets b). p = q \<or> (\<exists>t. p = snd (timer_reduce now t q))"
proof (cases "find_timer i b")
  case None
  then have "p \<in> set (m_packets b)" using assms by (simp add: cbf_update_def)
  then show ?thesis by blast
next
  case (Some t)
  then obtain q where "q \<in> set (m_packets b)" "p = (if packet_identifier q = i then snd (timer_reduce now t q) else q)"
    using assms by (auto simp: cbf_update_def)
  then show ?thesis by metis
qed

lemma packets_flush: "set (m_packets (snd (cbf_flush_expired now b))) \<subseteq> set (m_packets b)"
proof (induction now b rule: cbf_flush_expired.induct)
  case (1 now b)
  show ?case
  proof (cases "m_timers b")
    case Nil
    then show ?thesis by (simp add: cbf_flush_expired.simps)
  next
    case (Cons t ts)
    show ?thesis
    proof (cases "fst t \<le> now")
      case True
      show ?thesis
      proof (cases "cbf_find (timer_id t) b")
        case None
        from "1.IH"(1) [OF Cons True None] show ?thesis
          by (subst cbf_flush_expired.simps) (simp add: Cons True None)
      next
        case (Some p)
        from "1.IH"(2) [OF Cons True Some, of _ "fst (timer_reduce now t p)" "snd (timer_reduce now t p)"] show ?thesis
          by (subst cbf_flush_expired.simps) (auto simp: Cons True Some Let_def case_prod_beta erase_packet_def)
      qed
    qed (simp add: cbf_flush_expired.simps Cons)
  qed
qed

subsection \<open>Abstract buffer\<close>

type_synonym 'a contention = "CbfPacketIdentifier \<rightharpoonup> 'a CbfPacket \<times> time_point \<times> time_point"

definition cbf_abs :: "'a CbfPacketBuffer \<Rightarrow> 'a contention" where
  "cbf_abs b i = (case (cbf_find i b, find_timer i b) of
      (Some p, Some (expires, start, _)) \<Rightarrow> Some (p, expires, start)
    | _ \<Rightarrow> None)"

definition spec_update :: "CbfPacketIdentifier \<Rightarrow> duration \<Rightarrow> time_point \<Rightarrow> 'a contention \<Rightarrow> 'a contention" where
  "spec_update i timeout now c = (case c i of
      None \<Rightarrow> c
    | Some (p, _, start) \<Rightarrow> c(i \<mapsto> (snd (cbf_reduce_lifetime (now - start) p), now + timeout, now)))"

definition spec_flush :: "time_point \<Rightarrow> 'a contention \<Rightarrow> 'a contention" where
  "spec_flush now c i = (case c i of
      Some (p, expires, start) \<Rightarrow> if expires \<le> now then None else Some (p, expires, start)
    | None \<Rightarrow> None)"

definition spec_add :: "'a CbfPacket \<Rightarrow> duration \<Rightarrow> time_point \<Rightarrow> 'a contention \<Rightarrow> 'a contention" where
  "spec_add p timeout now c =
    (if timeout \<le> 0 \<or> c (packet_identifier p) \<noteq> None then c else c(packet_identifier p \<mapsto> (p, now + timeout, now)))"

lemma find_unique:
  assumes "distinct (map f xs)"
  shows "find (\<lambda>x. f x = k) xs = Some y \<longleftrightarrow> y \<in> set xs \<and> f y = k"
  using assms by (induction xs) auto

lemma cbf_abs_iff:
  assumes "cbf_ok b"
  shows "cbf_abs b i = Some (p, expires, start) \<longleftrightarrow>
    p \<in> set (m_packets b) \<and> packet_identifier p = i \<and> (expires, start, i) \<in> set (m_timers b)"
proof -
  have l: "distinct (map timer_id (m_timers b))" "distinct (map packet_identifier (m_packets b))"
    using assms by (simp_all add: cbf_ok_def cbf_linked_def)
  have t: "find_timer i b = Some t \<longleftrightarrow> t \<in> set (m_timers b) \<and> timer_id t = i" for t
    unfolding find_timer_def by (rule find_unique [OF l(1)])
  show ?thesis
  proof (cases "find_timer i b")
    case None
    then have "(expires, start, i) \<notin> set (m_timers b)" using t [of "(expires, start, i)"] by auto
    then show ?thesis using None by (simp add: cbf_abs_def cbf_find_def)
  next
    case (Some u)
    obtain x st j where u: "u = (x, st, j)" by (cases u)
    then have j: "j = i" using t [of u] Some by simp
    have "(expires, start, i) \<in> set (m_timers b) \<longleftrightarrow> (x, st) = (expires, start)"
      using t [of "(expires, start, i)"] Some u j by auto
    moreover have "cbf_find i b = Some p \<longleftrightarrow> p \<in> set (m_packets b) \<and> packet_identifier p = i"
      unfolding cbf_find_def Some option.case by (rule find_unique [OF l(2)])
    ultimately show ?thesis by (auto simp: cbf_abs_def Some u split: option.split)
  qed
qed

lemma cbf_abs_dom: "cbf_ok b \<Longrightarrow> cbf_abs b i = None \<longleftrightarrow> find_timer i b = None"
  using cbf_find_None [of b i] by (auto simp: cbf_abs_def cbf_ok_def split: option.split)

lemma cbf_abs_eqI:
  assumes "\<And>i p x st. cbf_abs b i = Some (p, x, st) \<longleftrightarrow> c i = Some (p, x, st)"
  shows "cbf_abs b = c"
proof
  fix i
  have "cbf_abs b i = Some y \<longleftrightarrow> c i = Some y" for y using assms [of i] by (cases y) simp
  then show "cbf_abs b i = c i" by (metis option.exhaust)
qed

subsection \<open>Operations refine those of the map\<close>

lemma packets_ids:
  assumes "cbf_ok b" and "cbf_ok b'" and "set (m_packets b') \<subseteq> set (m_packets b)" and "p \<in> set (m_packets b)"
  shows "p \<in> set (m_packets b') \<longleftrightarrow> packet_identifier p \<in> timer_id ` set (m_timers b')"
proof
  assume "packet_identifier p \<in> timer_id ` set (m_timers b')"
  then have "packet_identifier p \<in> packet_identifier ` set (m_packets b')" using assms(2) by (simp add: cbf_ok_def cbf_linked_def)
  then obtain q where q: "q \<in> set (m_packets b')" "packet_identifier q = packet_identifier p" by auto
  have "distinct (map packet_identifier (m_packets b))" using assms(1) by (simp add: cbf_ok_def cbf_linked_def)
  then have "q = p" using q assms(3,4) by (auto simp: distinct_map inj_on_def)
  then show "p \<in> set (m_packets b')" using q by simp
qed (use assms(2) in \<open>auto simp: cbf_ok_def cbf_linked_def\<close>)

text \<open>Removing packets and timers restricts the map to the timers that are left.\<close>

lemma cbf_abs_restrict:
  assumes "cbf_ok b" and "cbf_ok b'" and "set (m_packets b') \<subseteq> set (m_packets b)"
    and "\<And>x st i. (x, st, i) \<in> set (m_timers b') \<longleftrightarrow> (x, st, i) \<in> set (m_timers b) \<and> P x i"
    and "\<And>p x st i. c i = Some (p, x, st) \<longleftrightarrow> cbf_abs b i = Some (p, x, st) \<and> P x i"
  shows "cbf_abs b' = c"
proof (rule cbf_abs_eqI)
  fix i p x st
  have "(x, st, i) \<in> set (m_timers b') \<Longrightarrow> i \<in> timer_id ` set (m_timers b')" by force
  then show "cbf_abs b' i = Some (p, x, st) \<longleftrightarrow> c i = Some (p, x, st)"
    unfolding cbf_abs_iff [OF assms(2)] assms(5) cbf_abs_iff [OF assms(1)]
    using packets_ids [OF assms(1-3), of p] assms(3,4) by auto
qed

lemma cbf_remove_refines:
  assumes "cbf_ok b"
  shows "cbf_abs (fst (snd (cbf_remove cb this i b rt))) = (cbf_abs b)(i := None)"
    and "fst (cbf_remove cb this i b rt) \<longleftrightarrow> cbf_abs b i \<noteq> None"
proof -
  let ?b = "fst (snd (cbf_remove cb this i b rt))"
  have f: "cbf_find i b = None \<longleftrightarrow> find_timer i b = None" using assms by (intro cbf_find_None) (simp add: cbf_ok_def)
  have t: "(x, st, j) \<in> set (m_timers ?b) \<longleftrightarrow> (x, st, j) \<in> set (m_timers b) \<and> j \<noteq> i" for x st j
  proof (cases "cbf_find i b")
    case None
    then have "i \<notin> timer_id ` set (m_timers b)" using f find_timer_iff [of i b] by simp
    then show ?thesis using None by (force simp: cbf_remove_def)
  qed (auto simp: cbf_remove_def erase_timer_def)
  show "cbf_abs ?b = (cbf_abs b)(i := None)"
    by (rule cbf_abs_restrict [OF assms cbf_ok_remove [OF assms] packets_remove t]) auto
  show "fst (cbf_remove cb this i b rt) \<longleftrightarrow> cbf_abs b i \<noteq> None"
    using f by (auto simp: cbf_remove_def cbf_abs_dom [OF assms] split: option.split)
qed

lemma cbf_fetch_refines:
  assumes "cbf_ok b"
  shows "cbf_abs (fst (snd (cbf_fetch cb this i b rt))) = (cbf_abs b)(i := None)"
    and "fst (cbf_fetch cb this i b rt) = (case cbf_abs b i of None \<Rightarrow> None
       | Some (p, _, start) \<Rightarrow> let (remaining, q) = cbf_reduce_lifetime (m_now rt - start) p in if 0 < remaining then Some q else None)"
proof -
  let ?b = "fst (snd (cbf_fetch cb this i b rt))"
  have f: "cbf_find i b = None \<longleftrightarrow> find_timer i b = None" using assms by (intro cbf_find_None) (simp add: cbf_ok_def)
  have t: "(x, st, j) \<in> set (m_timers ?b) \<longleftrightarrow> (x, st, j) \<in> set (m_timers b) \<and> j \<noteq> i" for x st j
  proof (cases "find_timer i b")
    case None
    then have "i \<notin> timer_id ` set (m_timers b)" using find_timer_iff [of i b] by simp
    then show ?thesis using None f by (force simp: cbf_fetch_def)
  next
    case (Some u)
    then obtain p where "cbf_find i b = Some p" using f by auto
    then show ?thesis using Some by (auto simp: cbf_fetch_def Let_def case_prod_beta erase_timer_def)
  qed
  have "set (m_packets ?b) \<subseteq> set (m_packets b)"
    by (auto simp: cbf_fetch_def Let_def case_prod_beta erase_packet_def split: option.split)
  from cbf_abs_restrict [OF assms cbf_ok_fetch [OF assms] this t] show "cbf_abs ?b = (cbf_abs b)(i := None)" by auto
  show "fst (cbf_fetch cb this i b rt) = (case cbf_abs b i of None \<Rightarrow> None
       | Some (p, _, start) \<Rightarrow> let (remaining, q) = cbf_reduce_lifetime (m_now rt - start) p in if 0 < remaining then Some q else None)"
    by (auto simp: cbf_fetch_def cbf_abs_def timer_reduce_def Let_def case_prod_beta split: option.split)
qed

lemma cbf_flush_refines:
  assumes "cbf_ok b"
  shows "cbf_abs (snd (cbf_flush_expired now b)) = spec_flush now (cbf_abs b)"
proof (rule cbf_abs_restrict [OF assms cbf_ok_flush [OF assms] packets_flush])
  show "(x, st, i) \<in> set (m_timers (snd (cbf_flush_expired now b))) \<longleftrightarrow> (x, st, i) \<in> set (m_timers b) \<and> now < x" for x st i
    using cbf_flush_expired_spec [OF assms, of now] by simp
  show "spec_flush now (cbf_abs b) i = Some (p, x, st) \<longleftrightarrow> cbf_abs b i = Some (p, x, st) \<and> now < x" for i p x st
    by (auto simp: spec_flush_def split: option.split)
qed

lemma set_replace_timer:
  assumes "distinct (map timer_id ts)" and "i \<in> timer_id ` set ts"
  shows "set (replace_timer i new ts) = insert (fst new, snd new, i) {t \<in> set ts. timer_id t \<noteq> i}"
proof -
  obtain before t after where s: "ts = before @ t # after" "timer_id t = i" "i \<notin> timer_id ` set before"
    "takeWhile (\<lambda>t. timer_id t \<noteq> i) ts = before" "tl (dropWhile (\<lambda>t. timer_id t \<noteq> i) ts) = after"
    by (rule split_at_timer [OF assms(2)])
  have "set (replace_timer i new ts) = insert (fst new, snd new, i) (set before \<union> set after)"
    unfolding replace_timer_def s(4,5) Let_def by auto
  moreover have "{t \<in> set ts. timer_id t \<noteq> i} = set before \<union> set after"
  proof -
    have "i \<notin> timer_id ` set after" using assms(1) s(1,2) by simp
    then have n: "timer_id u \<noteq> i" if "u \<in> set before \<union> set after" for u using that s(3) by blast
    show ?thesis
    proof (rule set_eqI)
      fix u
      show "u \<in> {t \<in> set ts. timer_id t \<noteq> i} \<longleftrightarrow> u \<in> set before \<union> set after"
        using n [of u] s(2) unfolding s(1) by (cases "u = t") auto
    qed
  qed
  ultimately show ?thesis by simp
qed

lemma cbf_update_refines:
  assumes "cbf_ok b"
  shows "cbf_abs (cbf_update i timeout now b) = spec_update i timeout now (cbf_abs b)"
proof (cases "find_timer i b")
  case None
  then show ?thesis using cbf_abs_dom [OF assms, of i] by (simp add: cbf_update_def spec_update_def)
next
  case (Some u)
  obtain x0 st0 where u: "u = (x0, st0, i)" "(x0, st0, i) \<in> set (m_timers b)"
    using find_timer_SomeD [OF Some] by (cases u) auto
  then obtain p0 where p0: "cbf_abs b i = Some (p0, x0, st0)"
    using Some cbf_abs_dom [OF assms, of i] by (auto simp: cbf_abs_def split: option.splits)
  let ?q = "snd (cbf_reduce_lifetime (now - st0) p0)"
  have red: "snd (timer_reduce now u p) = snd (cbf_reduce_lifetime (now - st0) p)" for p
    by (simp add: timer_reduce_def u(1) case_prod_beta Let_def)
  have idq: "packet_identifier (snd (cbf_reduce_lifetime (now - st0) p)) = packet_identifier p" for p
    using identifier_reduce(1) [of now u p] by (simp add: red)
  have d: "distinct (map timer_id (m_timers b))" using assms by (simp add: cbf_ok_def cbf_linked_def)
  have "i \<in> timer_id ` set (m_timers b)" using u(2) by force
  from set_replace_timer [OF d this, of "(now + timeout, now)"]
  have ts: "set (m_timers (cbf_update i timeout now b)) = insert (now + timeout, now, i) {t \<in> set (m_timers b). timer_id t \<noteq> i}"
    by (simp add: cbf_update_def Some)
  have ps: "p \<in> set (m_packets (cbf_update i timeout now b)) \<longleftrightarrow>
      (\<exists>q\<in>set (m_packets b). p = (if packet_identifier q = i then snd (cbf_reduce_lifetime (now - st0) q) else q))" for p
  proof -
    have "m_packets (cbf_update i timeout now b) =
        map (\<lambda>q. if packet_identifier q = i then snd (cbf_reduce_lifetime (now - st0) q) else q) (m_packets b)"
      by (simp add: cbf_update_def Some red)
    then show ?thesis by (simp only: set_map image_iff)
  qed
  have same: "q = p0" if "q \<in> set (m_packets b)" "packet_identifier q = i" for q
    using that p0 u(2) cbf_abs_iff [OF assms, of i q x0 st0] by simp
  have p0b: "p0 \<in> set (m_packets b)" "packet_identifier p0 = i" using p0 cbf_abs_iff [OF assms] by simp_all
  show ?thesis
  proof (rule cbf_abs_eqI)
    fix j p x st
    show "cbf_abs (cbf_update i timeout now b) j = Some (p, x, st) \<longleftrightarrow> spec_update i timeout now (cbf_abs b) j = Some (p, x, st)"
    proof (cases "j = i")
      case True
      have "p \<in> set (m_packets (cbf_update i timeout now b)) \<and> packet_identifier p = i \<longleftrightarrow> p = ?q"
      proof
        assume a: "p \<in> set (m_packets (cbf_update i timeout now b)) \<and> packet_identifier p = i"
        then obtain q where q: "q \<in> set (m_packets b)"
          "p = (if packet_identifier q = i then snd (cbf_reduce_lifetime (now - st0) q) else q)" unfolding ps by blast
        then have "packet_identifier q = i" using a idq [of q] by (cases "packet_identifier q = i") simp_all
        then show "p = ?q" using q same [of q] by simp
      next
        assume "p = ?q"
        then show "p \<in> set (m_packets (cbf_update i timeout now b)) \<and> packet_identifier p = i"
          unfolding ps using p0b idq [of p0] by (intro conjI bexI [of _ p0]) simp_all
      qed
      then show ?thesis unfolding cbf_abs_iff [OF cbf_ok_update [OF assms]] ts True
        by (auto simp: spec_update_def p0)
    next
      case False
      have "p \<in> set (m_packets (cbf_update i timeout now b)) \<and> packet_identifier p = j \<longleftrightarrow> p \<in> set (m_packets b) \<and> packet_identifier p = j"
      proof
        assume a: "p \<in> set (m_packets (cbf_update i timeout now b)) \<and> packet_identifier p = j"
        then obtain q where q: "q \<in> set (m_packets b)"
          "p = (if packet_identifier q = i then snd (cbf_reduce_lifetime (now - st0) q) else q)" unfolding ps by blast
        then have "packet_identifier q \<noteq> i" using a False idq [of q] by (cases "packet_identifier q = i") simp_all
        then show "p \<in> set (m_packets b) \<and> packet_identifier p = j" using a q by simp
      next
        assume "p \<in> set (m_packets b) \<and> packet_identifier p = j"
        then show "p \<in> set (m_packets (cbf_update i timeout now b)) \<and> packet_identifier p = j"
          unfolding ps using False by (intro conjI bexI [of _ p]) simp_all
      qed
      then show ?thesis using False unfolding cbf_abs_iff [OF cbf_ok_update [OF assms]] ts
        by (auto simp: spec_update_def p0 cbf_abs_iff [OF assms])
    qed
  qed
qed

lemma cbf_add_refines:
  assumes "cbf_ok b" and "m_stored_bytes b + cbf_length p \<le> m_capacity_bytes b"
  shows "cbf_abs (fst (cbf_add cb this p timeout b rt)) = spec_add p timeout (m_now rt) (cbf_abs b)"
proof (cases "timeout \<le> 0")
  case True
  then show ?thesis by (simp add: cbf_add_def spec_add_def)
next
  case False
  let ?b = "b\<lparr>m_stored_bytes := m_stored_bytes b + cbf_length p\<rparr>" and ?i = "packet_identifier p"
  let ?b' = "fst (cbf_add cb this p timeout b rt)"
  have nodrop: "cbf_head_drop ?b = ?b"
    using assms(2) by (subst cbf_head_drop.simps) (simp split: list.split)
  have ft: "find_timer j (b\<lparr>m_stored_bytes := n\<rparr>) = find_timer j b" for j n by (simp add: find_timer_def)
  show ?thesis
  proof (cases "find_timer ?i b")
    case None
    have ok: "cbf_ok ?b'" by (rule cbf_ok_add [OF assms(1)])
    have new: "m_packets ?b' = m_packets b @ [p]" "m_timers ?b' = insert_upper (m_now rt + timeout, m_now rt, ?i) (m_timers b)"
      using False None by (simp_all add: cbf_add_def nodrop ft Let_def)
    have absent: "cbf_abs b ?i = None" using None cbf_abs_dom [OF assms(1)] by simp
    have fresh: "(x, st, ?i) \<notin> set (m_timers b)" for x st using None find_timer_iff [of ?i b] by force
    have noid: "?i \<notin> packet_identifier ` set (m_packets b)"
      using None find_timer_iff [of ?i b] assms(1) by (simp add: cbf_ok_def cbf_linked_def)
    have noid': "packet_identifier q \<noteq> ?i" if "q \<in> set (m_packets b)" for q using that noid by (metis imageI)
    have "cbf_abs ?b' = (cbf_abs b)(?i \<mapsto> (p, m_now rt + timeout, m_now rt))"
    proof (rule cbf_abs_eqI)
      fix j q x st
      show "cbf_abs ?b' j = Some (q, x, st) \<longleftrightarrow> ((cbf_abs b)(?i \<mapsto> (p, m_now rt + timeout, m_now rt))) j = Some (q, x, st)"
        unfolding cbf_abs_iff [OF ok] new using fresh [of x st] noid' [of q] cbf_abs_iff [OF assms(1), of j q x st] by auto
    qed
    then show ?thesis using False absent by (simp add: spec_add_def)
  next
    case (Some t)
    then have "cbf_abs b ?i \<noteq> None" using cbf_abs_dom [OF assms(1)] by simp
    moreover have "fst (cbf_add cb this p timeout b rt) = b"
      using False Some by (simp add: cbf_add_def nodrop ft Let_def)
    ultimately show ?thesis by (simp add: spec_add_def)
  qed
qed

subsection \<open>Properties\<close>

text \<open>C19: The contention buffer, with its list of packets, its timers ordered by expiry and its
  byte counter, implements a map from packet identifiers to contending packets: adding a
  packet that fits (and is not contending yet), removing, updating, fetching and flushing
  change the map as the specification says, and fetching returns the stored packet with its
  lifetime reduced by the time it waited, unless that is used up.\<close>

theorem cbf_refines_map:
  assumes "cbf_ok b"
  shows "cbf_abs (fst (snd (cbf_remove cb this i b rt))) = (cbf_abs b)(i := None)
    \<and> fst (cbf_remove cb this i b rt) = (cbf_abs b i \<noteq> None)
    \<and> cbf_abs (cbf_update i timeout now b) = spec_update i timeout now (cbf_abs b)
    \<and> cbf_abs (fst (snd (cbf_fetch cb this i b rt))) = (cbf_abs b)(i := None)
    \<and> fst (cbf_fetch cb this i b rt) = (case cbf_abs b i of None \<Rightarrow> None
       | Some (p, _, start) \<Rightarrow> let (remaining, q) = cbf_reduce_lifetime (m_now rt - start) p in if 0 < remaining then Some q else None)
    \<and> cbf_abs (snd (cbf_flush_expired now b)) = spec_flush now (cbf_abs b)
    \<and> (m_stored_bytes b + cbf_length p \<le> m_capacity_bytes b \<longrightarrow>
         cbf_abs (fst (cbf_add cb this p timeout b rt)) = spec_add p timeout (m_now rt) (cbf_abs b))"
  by (intro conjI impI cbf_remove_refines [OF assms] cbf_update_refines [OF assms] cbf_fetch_refines [OF assms]
      cbf_flush_refines [OF assms] cbf_add_refines [OF assms])

theorem cbf_refines_map_witness:
  "let b = cbf_packet_buffer (\<lambda>_ _. False) (CbfCounterContending Map.empty) 100; i = packet_identifier sample_cbf;
       b' = fst (cbf_add () () sample_cbf 100 b sample_runtime)
   in cbf_abs b' = [i \<mapsto> (sample_cbf, m_now sample_runtime + 100, m_now sample_runtime)]
      \<and> cbf_abs (fst (snd (cbf_remove () () i b' sample_runtime))) = Map.empty
      \<and> fst (cbf_remove () () i b' sample_runtime)"
proof -
  let ?b = "cbf_packet_buffer (\<lambda>_ _. False) (CbfCounterContending Map.empty) 100 :: unit CbfPacketBuffer" and ?i = "packet_identifier sample_cbf"
  let ?b' = "fst (cbf_add () () sample_cbf 100 ?b sample_runtime)"
  have e: "cbf_abs ?b = Map.empty" by (simp add: fun_eq_iff cbf_abs_def cbf_find_def find_timer_def cbf_packet_buffer_def)
  have "m_stored_bytes ?b + cbf_length sample_cbf \<le> m_capacity_bytes ?b"
    by (simp add: cbf_packet_buffer_def sample_cbf_length)
  then have a: "cbf_abs ?b' = [?i \<mapsto> (sample_cbf, m_now sample_runtime + 100, m_now sample_runtime)]"
    using cbf_refines_map [OF cbf_ok_start, where p = sample_cbf and timeout = 100 and rt = sample_runtime and cb = "()" and this = "()"]
    by (simp add: e spec_add_def)
  have "cbf_ok ?b'" by (rule cbf_ok_add [OF cbf_ok_start])
  from cbf_refines_map [OF this, of "()" "()" ?i sample_runtime] a show ?thesis by (simp add: Let_def)
qed

end
