(* ===== verification/RouterSteps.thy ===== *)
theory RouterSteps
  imports RouterInv CbfSpec
begin

text \<open>
  Every operation of the router (\<open>vanetza/geonet/router.cpp\<close>) keeps its invariant, and those
  that run as callbacks of the runtime schedule nothing that is due already.
\<close>

subsection \<open>Contention buffer of the router\<close>

lemma schedule_timer_frame:
  "\<exists>q. schedule_timer cb this b rt = rt\<lparr>m_queue := q\<rparr> \<and> (queue_ok rt \<longrightarrow> sorted (map fst q))"
proof (cases "m_timers b")
  case Nil
  then have "schedule_timer cb this b rt = rt\<lparr>m_queue := m_queue rt\<rparr>" by (simp add: schedule_timer_def)
  then show ?thesis unfolding queue_ok_def by blast
next
  case (Cons t ts)
  obtain d x where t: "t = (d, x)" by (cases t)
  let ?q = "insert_upper (d, cb, Some this) (filter (\<lambda>(_, _, sc'). sc' \<noteq> Some this) (m_queue rt))"
  have "schedule_timer cb this b rt = rt\<lparr>m_queue := ?q\<rparr>"
    by (simp add: schedule_timer_def Cons t schedule_at_def cancel_def)
  moreover have "queue_ok rt \<longrightarrow> sorted (map fst ?q)"
    by (simp add: queue_ok_def sorted_insert_upper sorted_map_filter)
  ultimately show ?thesis by blast
qed

text \<open>An operation of the contention buffer changes the queue of the runtime only.\<close>

definition queue_frame :: "('cb, 'sc, 'z) Runtime_scheme \<Rightarrow> ('cb, 'sc, 'z) Runtime_scheme \<Rightarrow> bool" where
  "queue_frame rt rt' \<longleftrightarrow> (\<exists>q. rt' = rt\<lparr>m_queue := q\<rparr> \<and> (queue_ok rt \<longrightarrow> sorted (map fst q)))"

lemma queue_frame_refl: "queue_frame rt rt"
  unfolding queue_frame_def by (intro exI [of _ "m_queue rt"]) (simp add: queue_ok_def)

lemma queue_frame_schedule: "queue_frame rt (schedule_timer cb this b rt)"
  unfolding queue_frame_def by (rule schedule_timer_frame)

lemma queue_frame_remove: "queue_frame rt (snd (snd (cbf_remove cb this i b rt)))"
  by (simp add: cbf_remove_def remove_timer_def Let_def queue_frame_refl queue_frame_schedule split: option.split)

lemma queue_frame_add: "queue_frame rt (snd (cbf_add cb this p t b rt))"
  by (simp add: cbf_add_def Let_def queue_frame_refl queue_frame_schedule)

lemma contending_ok_reduce [simp]: "contending_ok env (snd (timer_reduce now t p)) = contending_ok env p"
  by (simp add: contending_ok_def timer_reduce_def cbf_reduce_lifetime_def case_prod_beta reduce_lifetime_frame)

lemma router_ok_cbf:
  assumes "router_ok env s" and "queue_frame s s'" and "cbf_ok b" and "\<forall>p\<in>set (m_packets b). contending_ok env p"
  shows "router_ok env (s'\<lparr>m_cbf_buffer := b\<rparr>)" and "m_now s' = m_now s"
    and "m_location_table s' = m_location_table s" and "m_local_position_vector s' = m_local_position_vector s"
    and "outputs s' = outputs s"
proof -
  obtain q where q: "s' = s\<lparr>m_queue := q\<rparr>" "sorted (map fst q)"
    using assms(1,2) unfolding queue_frame_def router_ok_def by blast
  show "router_ok env (s'\<lparr>m_cbf_buffer := b\<rparr>)"
    using assms q(2) unfolding q(1) by (simp add: router_ok_def queue_ok_def)
  show "m_now s' = m_now s" "m_location_table s' = m_location_table s"
    "m_local_position_vector s' = m_local_position_vector s" "outputs s' = outputs s" by (simp_all add: q(1))
qed

lemma router_cbf_add_ok:
  assumes "router_ok env s" and "contending_ok env p"
  shows "router_ok env (router_cbf_add p t s)" and "m_now (router_cbf_add p t s) = m_now s"
    and "outputs (router_cbf_add p t s) = outputs s"
proof -
  let ?r = "cbf_add CbfFlush ScopeCbf p (clock_cast t) (m_cbf_buffer s) s"
  have eq: "router_cbf_add p t s = (snd ?r)\<lparr>m_cbf_buffer := fst ?r\<rparr>"
    by (simp add: router_cbf_add_def case_prod_beta Let_def)
  have "cbf_ok (fst ?r)" using assms(1) by (simp add: cbf_ok_add router_ok_def)
  moreover have "\<forall>p\<in>set (m_packets (fst ?r)). contending_ok env p"
    using packets_add [of CbfFlush ScopeCbf p "clock_cast t" "m_cbf_buffer s" s] assms unfolding router_ok_def by blast
  ultimately show "router_ok env (router_cbf_add p t s)" "m_now (router_cbf_add p t s) = m_now s"
    "outputs (router_cbf_add p t s) = outputs s"
    using router_ok_cbf(1,2,5) [OF assms(1) queue_frame_add] unfolding eq by simp_all
qed

lemma router_cbf_remove_ok:
  assumes "router_ok env s"
  shows "router_ok env (snd (router_cbf_remove i s))" and "m_now (snd (router_cbf_remove i s)) = m_now s"
    and "m_location_table (snd (router_cbf_remove i s)) = m_location_table s"
    and "outputs (snd (router_cbf_remove i s)) = outputs s"
proof -
  let ?r = "cbf_remove CbfFlush ScopeCbf i (m_cbf_buffer s) s"
  have eq: "snd (router_cbf_remove i s) = (snd (snd ?r))\<lparr>m_cbf_buffer := fst (snd ?r)\<rparr>"
    by (simp add: router_cbf_remove_def case_prod_beta Let_def)
  have "cbf_ok (fst (snd ?r))" using assms(1) by (simp add: cbf_ok_remove router_ok_def)
  moreover have "\<forall>p\<in>set (m_packets (fst (snd ?r))). contending_ok env p"
    using packets_remove [of CbfFlush ScopeCbf i "m_cbf_buffer s" s] assms unfolding router_ok_def by blast
  ultimately show "router_ok env (snd (router_cbf_remove i s))" "m_now (snd (router_cbf_remove i s)) = m_now s"
    "m_location_table (snd (router_cbf_remove i s)) = m_location_table s" "outputs (snd (router_cbf_remove i s)) = outputs s"
    using router_ok_cbf(1,2,3,5) [OF assms(1) queue_frame_remove] unfolding eq by simp_all
qed

lemma router_cbf_update_ok:
  assumes "router_ok env s"
  shows "router_ok env (router_cbf_update i t s)" and "m_now (router_cbf_update i t s) = m_now s"
    and "outputs (router_cbf_update i t s) = outputs s"
proof -
  let ?b = "cbf_update i (clock_cast t) (m_now s) (m_cbf_buffer s)"
  have "cbf_ok ?b" using assms by (simp add: cbf_ok_update router_ok_def)
  moreover have "contending_ok env p" if "p \<in> set (m_packets ?b)" for p
    using packets_update [OF that] assms unfolding router_ok_def by auto
  ultimately show "router_ok env (router_cbf_update i t s)" "m_now (router_cbf_update i t s) = m_now s"
    "outputs (router_cbf_update i t s) = outputs s"
    using router_ok_cbf(1) [OF assms queue_frame_refl] by (simp_all add: router_cbf_update_def)
qed

subsection \<open>Forwarding algorithms\<close>

definition forwardable :: "Environment \<Rightarrow> PendingPacketForwarding \<Rightarrow> bool" where
  "forwardable env p \<longleftrightarrow> mac_action_ok env (action p) (pdu p) (payload_of p)"

fun next_hop_ok :: "Environment \<Rightarrow> NextHop \<Rightarrow> bool" where
  "next_hop_ok env (Valid p _) = forwardable env p"
| "next_hop_ok env _ = True"

text \<open>What a forwarding algorithm guarantees.\<close>

definition forwarded :: "Environment \<Rightarrow> Router \<Rightarrow> NextHop \<times> Router \<Rightarrow> bool" where
  "forwarded env s r \<longleftrightarrow> next_hop_ok env (fst r) \<and> router_ok env (snd r) \<and> m_now (snd r) = m_now s
     \<and> quiet s (snd r)"

lemma forwardedI:
  "next_hop_ok env nh \<Longrightarrow> router_ok env s' \<Longrightarrow> m_now s' = m_now s \<Longrightarrow> outputs s' = outputs s \<Longrightarrow> forwarded env s (nh, s')"
  by (simp add: forwarded_def)

lemma contending_cbf_packet [simp]: "contending_ok env (cbf_packet p se) \<longleftrightarrow> forwardable env p"
  by (simp add: contending_ok_def cbf_packet_def gbc_pending_ok_def forwardable_def)

lemma greedy_forwarding_ok:
  assumes "router_ok env s" and "forwardable env p"
  shows "forwarded env s (greedy_forwarding env p s)"
proof -
  let ?d = "BufferedGbc \<lparr>pdu = pdu p, payload_of = payload_of p, action = GreedyAgain (action p)\<rparr>"
  have "router_ok env (bc_push ?d s)"
    using assms by (intro router_ok_bc_push) (simp_all add: gbc_pending_ok_def forwardable_def)
  then show ?thesis using assms by (simp add: greedy_forwarding_def Let_def case_prod_beta forwarded_def)
qed

lemma non_area_cbf_ok:
  assumes "router_ok env s" and "forwardable env p"
  shows "forwarded env s (non_area_contention_based_forwarding env p sender s)"
proof (cases sender)
  case (Some se)
  obtain removed s' where r: "router_cbf_remove (gbc_identifier (extended (pdu p))) s = (removed, s')" by fastforce
  then have s': "router_ok env s'" "m_now s' = m_now s" "outputs s' = outputs s"
    using router_cbf_remove_ok [OF assms(1), of "gbc_identifier (extended (pdu p))"] by simp_all
  have add: "router_ok env (router_cbf_add (cbf_packet p se) t s')" "m_now (router_cbf_add (cbf_packet p se) t s') = m_now s"
    "outputs (router_cbf_add (cbf_packet p se) t s') = outputs s" for t
    using router_cbf_add_ok [OF s'(1), of "cbf_packet p se" t] s'(2,3) assms(2) by simp_all
  show ?thesis
    by (simp add: non_area_contention_based_forwarding_def Some r Let_def forwarded_def s' add split: option.split)
qed (use assms in \<open>simp add: non_area_contention_based_forwarding_def forwarded_def Let_def\<close>)

lemma area_cbf_ok:
  assumes "router_ok env s" and "forwardable env p"
  shows "forwarded env s (area_contention_based_forwarding env p sender s)"
proof (cases sender)
  case (Some se)
  obtain removed s' where r: "router_cbf_remove (gbc_identifier (extended (pdu p))) s = (removed, s')" by fastforce
  then have s': "router_ok env s'" "m_now s' = m_now s" "outputs s' = outputs s"
    using router_cbf_remove_ok [OF assms(1), of "gbc_identifier (extended (pdu p))"] by simp_all
  have add: "router_ok env (router_cbf_add (cbf_packet p se) t s')" "m_now (router_cbf_add (cbf_packet p se) t s') = m_now s"
    "outputs (router_cbf_add (cbf_packet p se) t s') = outputs s" for t
    using router_cbf_add_ok [OF s'(1), of "cbf_packet p se" t] s'(2,3) assms(2) by simp_all
  show ?thesis
    by (simp add: area_contention_based_forwarding_def Some r Let_def forwarded_def s' add)
qed (use assms in \<open>simp add: area_contention_based_forwarding_def forwarded_def\<close>)

lemma chunk_size_empty [simp]: "chunk_size_range from to empty_chunk = 0"
  by (simp add: chunk_size_range_def empty_chunk_def osi_layers_def)

lemma forwardable_duplicate: "forwardable env p \<Longrightarrow> forwardable env (pending_duplicate p)"
  by (cases "action p"; cases "secured (pdu p)") (simp_all add: forwardable_def pending_duplicate_def fwd_ok_def)

lemma advanced_greedy_ok:
  assumes "router_ok env s" and "forwardable env p"
  shows "forwarded env s (let (nh, s) = greedy_forwarding env (pending_duplicate p) s;
       contending = (case nh of Valid _ mac \<Rightarrow> if mac_eq mac cBroadcastMacAddress then p\<lparr>action := Noop\<rparr> else p | _ \<Rightarrow> p)
     in (nh, router_cbf_add (cbf_packet contending se) t s))"
proof -
  obtain nh s' where g: "greedy_forwarding env (pending_duplicate p) s = (nh, s')" by fastforce
  from greedy_forwarding_ok [OF assms(1) forwardable_duplicate [OF assms(2)]] have s': "next_hop_ok env nh" "router_ok env s'" "m_now s' = m_now s" "quiet s s'"
    by (simp_all add: forwarded_def g)
  let ?c = "case nh of Valid _ mac \<Rightarrow> if mac_eq mac cBroadcastMacAddress then p\<lparr>action := Noop\<rparr> else p | _ \<Rightarrow> p"
  have "forwardable env ?c" using assms(2) by (simp add: forwardable_def split: NextHop.split)
  then have "contending_ok env (cbf_packet ?c se)" by simp
  from router_cbf_add_ok [OF s'(2) this] show ?thesis using s' quiet_trans [OF s'(4)] by (simp add: g forwarded_def)
qed

lemma area_advanced_ok:
  assumes "router_ok env s" and "forwardable env p"
  shows "forwarded env s (area_advanced_forwarding env p ll s)"
proof (cases ll)
  case (Some l)
  have add: "router_ok env (router_cbf_add (cbf_packet p se) t s)" "m_now (router_cbf_add (cbf_packet p se) t s) = m_now s"
    "outputs (router_cbf_add (cbf_packet p se) t s) = outputs s" for t se
    using router_cbf_add_ok [OF assms(1), of "cbf_packet p se" t] assms(2) by simp_all
  note remove = router_cbf_remove_ok [OF assms(1)] and update = router_cbf_update_ok [OF assms(1)]
  show ?thesis
    using advanced_greedy_ok [OF assms, of "ll_sender l" "itsGnCbfMaxTime (m_mib env)"]
    by (simp add: area_advanced_forwarding_def Some Let_def add remove update forwardedI split: option.split)
qed (use assms in \<open>simp add: area_advanced_forwarding_def forwarded_def\<close>)

lemma forwarding_selection_ok:
  assumes "router_ok env s" and "forwardable env p" and "has_destination (pdu p)"
  shows "forwarded env s (forwarding_algorithm_selection env p ll s)"
proof -
  obtain dest where "gbc_destination (header_type (common (pdu p))) (extended (pdu p)) = Some dest"
    using assms(3) by (auto simp: has_destination_def)
  moreover have "forwarded env s (Valid p cBroadcastMacAddress, s)" using assms by (simp add: forwarded_def)
  moreover have "forwarded env s (Discarded, forwarding_stopped r s)" for r
    using assms by (simp add: forwarded_def router_ok_emit forwarding_stopped_def)
  ultimately show ?thesis
    using greedy_forwarding_ok [OF assms(1,2)] non_area_cbf_ok [OF assms(1,2)] area_cbf_ok [OF assms(1,2)] area_advanced_ok [OF assms(1,2)]
    by (simp add: forwarding_algorithm_selection_def split: BroadcastForwarding.split UnicastForwarding.split)
qed

subsection \<open>Transmission\<close>

text \<open>
  An operation keeps the invariant and the clock and throws nothing; a calm one schedules
  nothing that is due already.
\<close>

definition kept :: "Environment \<Rightarrow> Router \<Rightarrow> Router \<Rightarrow> bool" where
  "kept env s s' \<longleftrightarrow> router_ok env s' \<and> m_now s' = m_now s \<and> quiet s s'"

definition calm :: "Environment \<Rightarrow> Router \<Rightarrow> Router \<Rightarrow> bool" where
  "calm env s s' \<longleftrightarrow> kept env s s' \<and> expired_count s' \<le> expired_count s"

lemma kept_refl: "router_ok env s \<Longrightarrow> kept env s s"
  by (simp add: kept_def)

lemma kept_trans: "kept env s s' \<Longrightarrow> kept env s' s'' \<Longrightarrow> kept env s s''"
  by (auto simp: kept_def intro: quiet_trans)

lemma calm_refl: "router_ok env s \<Longrightarrow> calm env s s"
  by (simp add: calm_def kept_def)

lemma calm_trans: "calm env s s' \<Longrightarrow> calm env s' s'' \<Longrightarrow> calm env s s''"
  by (auto simp: calm_def kept_def intro: quiet_trans)

lemma calm_kept: "calm env s s' \<Longrightarrow> kept env s s'"
  by (simp add: calm_def)

lemma kept_ok: "kept env s s' \<Longrightarrow> router_ok env s'"
  by (simp add: kept_def)

lemma calm_emit: "router_ok env s \<Longrightarrow> \<nexists>msg. x = Threw msg \<Longrightarrow> calm env s (emit x s)"
  by (simp add: calm_def kept_def router_ok_emit)

lemma calm_hooks:
  "router_ok env s \<Longrightarrow> calm env s (packet_dropped r s)"
  "router_ok env s \<Longrightarrow> calm env s (forwarding_stopped r' s)"
  by (simp_all add: packet_dropped_def forwarding_stopped_def calm_emit)

lemma calm_reset: "env_ok env \<Longrightarrow> router_ok env s \<Longrightarrow> calm env s (reset_beacon_timer env s)"
  by (simp add: calm_def kept_def router_ok_reset expired_reset)

lemma calm_bc_push: "router_ok env s \<Longrightarrow> data_ok env d \<Longrightarrow> calm env s (bc_push d s)"
  by (simp add: calm_def kept_def router_ok_bc_push)

lemma calm_mac_action:
  assumes "router_ok env s" and "mac_action_ok env m pd p"
  shows "calm env s (run_mac_action env m pd p mac s)"
  using run_mac_action_cases [OF assms(2), of mac s] calm_refl [OF assms(1)] calm_emit [OF assms(1)] by fastforce

lemma calm_next_hop:
  assumes "router_ok env s" and "next_hop_ok env nh"
  shows "calm env s (next_hop_process env nh s)"
  using assms calm_mac_action [OF assms(1)] calm_refl [OF assms(1)]
  by (cases nh) (simp_all add: next_hop_process_def forwardable_def)

lemma calm_shb_transmit:
  assumes "env_ok env" and "router_ok env s" and "local_ok env (pdu pk)"
  shows "calm env s (shb_transmit env pk s)"
proof (rule disjE [OF shb_transmit_cases [OF assms(3), of s]])
  assume "shb_transmit env pk s = s"
  then show ?thesis using calm_refl [OF assms(2)] by simp
next
  assume "\<exists>r q. shb_transmit env pk s = reset_beacon_timer env (emit (PassDown r q) s)"
  then obtain r q where e: "shb_transmit env pk s = reset_beacon_timer env (emit (PassDown r q) s)" by blast
  have "calm env s (emit (PassDown r q) s)" using assms(2) by (simp add: calm_emit)
  then show ?thesis unfolding e
    using calm_trans calm_reset [OF assms(1)] kept_ok calm_kept by blast
qed

lemma calm_tsb_transmit:
  assumes "router_ok env s" and "fwd_ok (pdu pk) (payload_of pk)"
  shows "calm env s (tsb_transmit env pk s)"
  using tsb_transmit_eq [OF assms(2), of env s] calm_emit [OF assms(1)] by fastforce

lemma kept_gbc_action:
  assumes "router_ok env s" and "gbc_pending_ok env pk"
  shows "kept env s (run_gbc_action env pk s)"
proof -
  have hop: "kept env s (let (nh, s) = r in next_hop_process env nh s)" if "forwarded env s r" for r
  proof -
    obtain nh s' where r: "r = (nh, s')" by (cases r)
    from that have s': "next_hop_ok env nh" "kept env s s'" by (simp_all add: forwarded_def r kept_def)
    have "kept env s' (next_hop_process env nh s')" using calm_kept [OF calm_next_hop] s' kept_ok by blast
    from kept_trans [OF s'(2) this] show ?thesis unfolding r by simp
  qed
  show ?thesis
  proof (cases "action pk")
    case (Forwarding m ll)
    let ?p = "\<lparr>pdu = pdu pk, payload_of = payload_of pk, action = m\<rparr>"
    have "forwarded env s (forwarding_algorithm_selection env ?p ll s)"
      using assms Forwarding by (intro forwarding_selection_ok) (simp_all add: gbc_pending_ok_def forwardable_def)
    from hop [OF this] show ?thesis by (simp add: run_gbc_action.simps Forwarding)
  next
    case (GreedyAgain m)
    let ?p = "\<lparr>pdu = pdu pk, payload_of = payload_of pk, action = m\<rparr>"
    have "forwarded env s (greedy_forwarding env ?p s)"
      using assms GreedyAgain by (intro greedy_forwarding_ok) (simp_all add: gbc_pending_ok_def forwardable_def)
    from hop [OF this] show ?thesis by (simp add: run_gbc_action.simps GreedyAgain)
  next
    case (Bound m mac)
    then show ?thesis
      using assms calm_kept [OF calm_mac_action [OF assms(1)]] by (simp add: run_gbc_action.simps gbc_pending_ok_def)
  qed
qed

lemma kept_process_data:
  assumes "env_ok env" and "router_ok env s" and "data_ok env d"
  shows "kept env s (process_data env d s)"
  using assms calm_kept [OF calm_shb_transmit] kept_gbc_action calm_kept [OF calm_tsb_transmit] by (cases d) simp_all

lemma kept_fold:
  assumes "\<And>x s. x \<in> set xs \<Longrightarrow> router_ok env s \<Longrightarrow> kept env s (f x s)" and "router_ok env s"
  shows "kept env s (fold f xs s)"
  using assms
proof (induction xs arbitrary: s)
  case (Cons x xs)
  have k: "kept env s (f x s)" using Cons.prems by simp
  have "kept env (f x s) (fold f xs (f x s))" using Cons.IH [OF _ kept_ok [OF k]] Cons.prems(1) by simp
  with k show ?case using kept_trans by simp
qed (simp add: kept_refl)

lemma kept_flush_broadcast:
  assumes "env_ok env" and "router_ok env s"
  shows "kept env s (flush_broadcast_forwarding_buffer env s)"
proof -
  let ?r = "pb_flush data_reduce_lifetime (m_now s) (m_bc_forward_buffer s)"
  let ?s = "s\<lparr>m_bc_forward_buffer := snd ?r\<rparr>"
  have n: "\<forall>n\<in>set (m_nodes (m_bc_forward_buffer s)). data_ok env (snd n)" using assms(2) by (simp add: router_ok_def)
  have "router_ok env ?s"
    using assms(2) bc_data.flush_spec [of "m_now s" "m_bc_forward_buffer s"] by (simp add: router_ok_def queue_ok_def)
  moreover have "\<forall>d\<in>set (fst ?r). data_ok env d" by (rule bc_data.flush_keeps [OF n]) simp
  ultimately have "kept env ?s (fold (process_data env) (fst ?r) ?s)"
    using kept_process_data [OF assms(1)] by (intro kept_fold) blast+
  then show ?thesis
    by (simp add: flush_broadcast_forwarding_buffer_def case_prod_beta Let_def kept_def quiet_cong [of ?s s])
qed

lemma flush_unicast_calm:
  assumes "router_ok env s"
  shows "calm env s (flush_unicast_forwarding_buffer env s)"
    and "m_location_table (flush_unicast_forwarding_buffer env s) = m_location_table s"
    and "outputs (flush_unicast_forwarding_buffer env s) = outputs s"
  using assms by (simp_all add: flush_unicast_forwarding_buffer_def pb_flush_def router_ok_def calm_def kept_def
      queue_ok_def expired_count_def)

subsection \<open>Requests\<close>

lemma local_gbc_action_queue:
  assumes "action pk = Forwarding m None" and "gbc_pending_ok env pk"
  shows "m_queue (run_gbc_action env pk s) = m_queue s \<and> m_now (run_gbc_action env pk s) = m_now s"
proof -
  let ?p = "\<lparr>pdu = pdu pk, payload_of = payload_of pk, action = m\<rparr>"
  obtain nh s' where f: "forwarding_algorithm_selection env ?p None s = (nh, s')" by fastforce
  have ok: "mac_action_ok env m (pdu pk) (payload_of pk)" using assms by (simp add: gbc_pending_ok_def)
  have g: "m_queue (snd (greedy_forwarding env ?p s)) = m_queue s" "m_now (snd (greedy_forwarding env ?p s)) = m_now s"
    "fst (greedy_forwarding env ?p s) \<in> {Buffered} \<union> range (Valid ?p)"
    by (simp_all add: greedy_forwarding_def Let_def case_prod_beta)
  have s': "m_queue s' = m_queue s \<and> m_now s' = m_now s \<and> nh \<in> {Discarded, Buffered} \<union> range (Valid ?p)"
    using f g unfolding forwarding_algorithm_selection_def
    by (auto simp: non_area_contention_based_forwarding_def area_contention_based_forwarding_def
        area_advanced_forwarding_def split: option.splits if_splits BroadcastForwarding.splits UnicastForwarding.splits)
  have "next_hop_process env nh s' = s' \<or> (\<exists>r q. next_hop_process env nh s' = emit (PassDown r q) s')"
    by (rule next_hop_process_cases) (use s' ok in auto)
  then show ?thesis using s' by (auto simp: run_gbc_action.simps assms(1) f)
qed

lemma calm_local_gbc_action:
  assumes "router_ok env s" and "action pk = Forwarding m None" and "gbc_pending_ok env pk"
  shows "calm env s (run_gbc_action env pk s)"
  using kept_gbc_action [OF assms(1,3)] local_gbc_action_queue [OF assms(2,3), of s] by (simp add: calm_def expired_count_def)

lemma router_ok_repeater [simp]: "router_ok env (s\<lparr>m_repeater := r\<rparr>) = router_ok env s"
  by (simp add: router_ok_def queue_ok_def)

lemma router_ok_sequence [simp]: "router_ok env (s\<lparr>m_local_sequence_number := n\<rparr>) = router_ok env s"
  by (simp add: router_ok_def queue_ok_def)

lemma calm_update [simp]:
  "calm env s (s'\<lparr>m_repeater := r\<rparr>) = calm env s s'" "calm env s (s'\<lparr>m_local_sequence_number := n\<rparr>) = calm env s s'"
  by (simp_all add: calm_def kept_def expired_count_def quiet_def)

lemma calm_repeat_request:
  assumes "env_ok env" and "router_ok env s"
    and "\<And>r. repetition (access_request v) = Some r \<Longrightarrow> itsGnMinPacketRepetitionInterval (m_mib env) \<le> interval r"
  shows "calm env s (repeat_request v p s)"
proof (cases "\<exists>r. repetition (access_request v) = Some r \<and> repetition_left r")
  case True
  then obtain r where r: "repetition (access_request v) = Some r" "repetition_left r" by blast
  have "1 / 1000000 \<le> interval r" using assms(1) assms(3) [OF r(1)] unfolding env_ok_def by linarith
  then have "clock_cast (1 / 1000000) \<le> clock_cast (interval r)" by (rule clock_cast_mono)
  then have pos: "0 < clock_cast (interval r)" by (simp add: clock_cast_def trunc_real_def)
  let ?s = "schedule_at (m_now s + clock_cast (interval r)) (RepeaterTrigger (m_next_repetition (m_repeater s))) (Some ScopeRepeater) s"
  have "calm env s ?s"
    using assms(2) pos by (simp add: calm_def kept_def router_ok_def) (simp add: schedule_at_def)
  then show ?thesis by (simp add: repeat_request_def repeater_add_def r Let_def)
next
  case False
  then have "repeater_add RepeaterTrigger ScopeRepeater v p (m_repeater s) s = (m_repeater s, s)"
    by (auto simp: repeater_add_def split: option.split)
  then show ?thesis using calm_refl [OF assms(2)] by (simp add: repeat_request_def)
qed

lemma accepted_interval:
  "validate_data_request mib req = Accepted \<Longrightarrow> repetition req = Some r \<Longrightarrow> itsGnMinPacketRepetitionInterval mib \<le> interval r"
  by (simp add: validate_data_request_def split: if_splits)

lemma confirm_Accepted: "confirm_xor (confirm_xor Accepted a) b = Accepted \<longleftrightarrow> a = Accepted \<and> b = Accepted"
  by (auto simp: confirm_xor_def)

lemma local_ok_shb: "local_ok env (create_shb_pdu env req s)"
  by (simp add: local_ok_def create_shb_pdu_def basic_of_request_def)

lemma gbc_destination_own: "gbc_destination (gbc_header_type (shape dest)) h \<noteq> None"
  by (cases "shape dest") (simp_all add: gbc_destination_def)

lemma local_ok_gbc: "local_ok env (fst (create_gbc_pdu env req dest s))" "has_destination (fst (create_gbc_pdu env req dest s))"
  using gbc_destination_own [of dest] by (simp_all add: local_ok_def create_gbc_pdu_def basic_of_request_def has_destination_def)

lemma ok_payload [simp]:
  "local_ok env (pd\<lparr>common := (common pd)\<lparr>payload := n\<rparr>\<rparr>) = local_ok env pd"
  "has_destination (pd\<lparr>common := (common pd)\<lparr>payload := n\<rparr>\<rparr>) = has_destination pd"
  by (simp_all add: local_ok_def has_destination_def)

lemma calm_request_shb:
  assumes "env_ok env" and "router_ok env s"
  shows "calm env s (snd (request_shb env req sdu s))"
proof (cases "\<exists>p. sdu = Some p \<and> validate_data_request (m_mib env) req = Accepted \<and> validate_payload (m_mib env) sdu = Accepted")
  case True
  then obtain p where p: "sdu = Some p" "validate_data_request (m_mib env) req = Accepted" "validate_payload (m_mib env) (Some p) = Accepted"
    by blast
  define S where "S = (if repetition req \<noteq> None then repeat_request (ShbDataRequest req) p s else s)"
  have s: "calm env s S"
    using calm_repeat_request [OF assms, of "ShbDataRequest req" p] accepted_interval [OF p(2)] calm_refl [OF assms(2)] by (simp add: S_def)
  let ?pd = "create_shb_pdu env req S"
  let ?pk = "\<lparr>pdu = ?pd\<lparr>common := (common ?pd)\<lparr>payload := of_nat (chunk_size p)\<rparr>\<rparr>, payload_of = p, action = control_info req\<rparr>"
  have ok: "router_ok env S" using s calm_kept kept_ok by blast
  have pk: "local_ok env (pdu ?pk)" using local_ok_shb [of env req S] by (simp add: local_ok_def)
  have "calm env s (bc_push (BufferedShb ?pk) S)"
    by (rule calm_trans [OF s calm_bc_push [OF ok]]) (use pk in simp)
  moreover have "calm env s (shb_transmit env ?pk S)" by (rule calm_trans [OF s calm_shb_transmit [OF assms(1) ok pk]])
  ultimately show ?thesis unfolding request_shb_def p(1) option.case Let_def S_def [symmetric] by (simp add: p(2,3) confirm_xor_def)
next
  case False
  then show ?thesis using calm_refl [OF assms(2)]
    by (cases sdu) (auto simp: request_shb_def Let_def confirm_Accepted)
qed

lemma calm_request_gbc:
  assumes "env_ok env" and "router_ok env s"
  shows "calm env s (snd (request_gbc env req dest sdu s))"
proof (cases "\<exists>p. sdu = Some p \<and> validate_area_request (m_mib env) req dest = Accepted \<and> validate_payload (m_mib env) sdu = Accepted")
  case True
  then obtain p where p: "sdu = Some p" "validate_area_request (m_mib env) req dest = Accepted" "validate_payload (m_mib env) (Some p) = Accepted"
    by blast
  then have v: "validate_data_request (m_mib env) req = Accepted" by (simp add: validate_area_request_def split: if_splits)
  define S where "S = (if repetition req \<noteq> None then repeat_request (GbcDataRequest req dest) p s else s)"
  have s: "calm env s S"
    using calm_repeat_request [OF assms, of "GbcDataRequest req dest" p] accepted_interval [OF v] calm_refl [OF assms(2)] by (simp add: S_def)
  obtain pd s' where c: "create_gbc_pdu env req dest S = (pd, s')" by fastforce
  have s': "calm env s s'" using s c by (auto simp: create_gbc_pdu_def)
  let ?pk = "\<lparr>pdu = pd\<lparr>common := (common pd)\<lparr>payload := of_nat (chunk_size p)\<rparr>\<rparr>, payload_of = p,
      action = Forwarding (TransmitLocal (control_info req)) None\<rparr>"
  have ok: "router_ok env s'" using s' calm_kept kept_ok by blast
  have pk: "gbc_pending_ok env ?pk" using local_ok_gbc [of env req dest S] by (simp add: gbc_pending_ok_def c)
  have "calm env s (bc_push (BufferedGbc ?pk) s')"
    by (rule calm_trans [OF s' calm_bc_push [OF ok]]) (use pk in simp)
  moreover have "calm env s (run_gbc_action env ?pk s')"
    by (rule calm_trans [OF s' calm_local_gbc_action [OF ok _ pk]]) simp
  ultimately show ?thesis unfolding request_gbc_def p(1) option.case Let_def S_def [symmetric] c prod.case by (simp add: p(2,3) confirm_xor_def)
next
  case False
  then show ?thesis using calm_refl [OF assms(2)]
    by (cases sdu) (auto simp: request_gbc_def Let_def confirm_Accepted)
qed

lemma calm_request: "env_ok env \<Longrightarrow> router_ok env s \<Longrightarrow> calm env s (snd (router_request env v p s))"
  by (cases v) (simp_all add: calm_request_shb calm_request_gbc calm_refl)

subsection \<open>Callbacks of the runtime\<close>

lemma calm_beacon_timer:
  assumes "env_ok env" and "router_ok env s"
  shows "calm env s (on_beacon_timer_expired env s)"
proof -
  let ?pd = "(create_beacon_pdu env s)\<lparr>basic := (basic (create_beacon_pdu env s))
    \<lparr>bh_next_header := if itsGnSecurity (m_mib env) then NHB_Secured else NHB_Common\<rparr>\<rparr>"
  let ?encap = "if itsGnSecurity (m_mib env) then encap_packet env aid_GN_MGMT [] [] HV_Beacon ?pd empty_chunk s else Some (?pd, empty_chunk)"
  have "calm env s (case ?encap of None \<Rightarrow> s
    | Some (pd, p) \<Rightarrow> reset_beacon_timer env (pass_down HV_Beacon cBroadcastMacAddress pd p s))"
  proof (cases ?encap)
    case (Some x)
    obtain pd p where x: "x = (pd, p)" by fastforce
    have "fwd_ok pd p"
    proof (cases "itsGnSecurity (m_mib env)")
      case True
      then show ?thesis using Some x encap_packet_ok [of env aid_GN_MGMT "[]" "[]" HV_Beacon ?pd empty_chunk s pd p] by simp
    next
      case False
      then show ?thesis using Some x by (auto simp: fwd_ok_def create_beacon_pdu_def)
    qed
    from pass_down_cases [OF this] obtain r q where
      e: "pass_down HV_Beacon cBroadcastMacAddress pd p s = emit (PassDown r q) s" by blast
    have c: "calm env s (emit (PassDown r q) s)" using assms(2) by (simp add: calm_emit)
    from calm_trans [OF c calm_reset [OF assms(1) kept_ok [OF calm_kept [OF c]]]] show ?thesis by (simp add: Some x e)
  qed (simp add: calm_refl [OF assms(2)])
  then show ?thesis using calm_refl [OF assms(2)] calm_reset [OF assms]
    unfolding on_beacon_timer_expired_def Let_def media_simps by simp
qed

lemma flushed_contending:
  assumes "cbf_ok b" and "\<forall>p\<in>set (m_packets b). contending_ok env p" and "pk \<in> set (fst (cbf_flush_expired now b))"
  shows "\<exists>m mac. action pk = Bound m mac \<and> mac_action_ok env m (pdu pk) (payload_of pk)"
proof -
  have "pk \<in> set (List.map_filter (flushed now b) (filter (\<lambda>t. fst t \<le> now) (m_timers b)))"
    using assms(3) cbf_flush_expired_spec [OF assms(1), of now] by metis
  then obtain t where "flushed now b t = Some pk" by (auto simp: map_filter_def)
  then obtain p where p: "cbf_find (timer_id t) b = Some p" "pk = m_packet (snd (timer_reduce now t p))"
    by (auto simp: flushed_def split: option.splits if_splits)
  have "contending_ok env (snd (timer_reduce now t p))" using assms(2) cbf_find_SomeD [OF p(1)] by simp
  then show ?thesis unfolding p(2) contending_ok_def gbc_pending_ok_def by auto
qed

lemma fold_bound_actions:
  assumes "\<forall>pk\<in>set pks. \<exists>m mac. action pk = Bound m mac \<and> mac_action_ok env m (pdu pk) (payload_of pk)" and "router_ok env s"
  shows "\<exists>os. fold (run_gbc_action env) pks s = s\<lparr>outputs := outputs s @ os\<rparr> \<and> router_ok env (s\<lparr>outputs := outputs s @ os\<rparr>) \<and> no_throw os"
  using assms
proof (induction pks arbitrary: s)
  case Nil
  then show ?case by (intro exI [of _ "[]"]) simp
next
  case (Cons pk pks)
  from Cons.prems(1) obtain m mac where m: "action pk = Bound m mac" "mac_action_ok env m (pdu pk) (payload_of pk)" by auto
  let ?s = "run_gbc_action env pk s"
  have r: "?s = run_mac_action env m (pdu pk) (payload_of pk) mac s" by (simp add: run_gbc_action.simps m(1))
  have "\<exists>os. ?s = s\<lparr>outputs := outputs s @ os\<rparr> \<and> no_throw os"
  proof (rule disjE [OF run_mac_action_cases [OF m(2), of mac s]])
    assume "run_mac_action env m (pdu pk) (payload_of pk) mac s = s"
    then show ?thesis unfolding r by (intro exI [of _ "[]"]) simp
  next
    assume "\<exists>r q. run_mac_action env m (pdu pk) (payload_of pk) mac s = emit (PassDown r q) s"
    then obtain x y where "?s = s\<lparr>outputs := outputs s @ [PassDown x y]\<rparr>" unfolding r emit_def by blast
    then show ?thesis by (intro exI [of _ "[PassDown x y]"]) simp
  qed
  then obtain os where os: "?s = s\<lparr>outputs := outputs s @ os\<rparr>" "no_throw os" by blast
  have "router_ok env ?s" unfolding r using calm_mac_action [OF Cons.prems(2) m(2)] calm_kept kept_ok by blast
  from Cons.IH [OF _ this] Cons.prems(1) obtain os' where
    os': "fold (run_gbc_action env) pks ?s = ?s\<lparr>outputs := outputs ?s @ os'\<rparr>" "router_ok env (?s\<lparr>outputs := outputs ?s @ os'\<rparr>)" "no_throw os'"
    by auto
  have "?s\<lparr>outputs := outputs ?s @ os'\<rparr> = s\<lparr>outputs := outputs s @ (os @ os')\<rparr>" unfolding os(1) by simp
  then show ?case using os' os(2) by (intro exI [of _ "os @ os'"]) simp
qed

lemma calm_cbf_flush:
  assumes "router_ok env s"
  shows "calm env s (on_cbf_flush env s)"
proof -
  let ?b = "m_cbf_buffer s"
  obtain out b' where f: "cbf_flush_expired (m_now s) ?b = (out, b')" by fastforce
  have b: "cbf_ok ?b" "\<forall>p\<in>set (m_packets ?b). contending_ok env p" using assms by (simp_all add: router_ok_def)
  have b': "cbf_ok b'" "\<forall>p\<in>set (m_packets b'). contending_ok env p" "m_timers b' = filter (\<lambda>t. m_now s < fst t) (m_timers ?b)"
    using cbf_ok_flush [OF b(1), of "m_now s"] packets_flush [of "m_now s" ?b] b(2) cbf_flush_expired_spec [OF b(1), of "m_now s"]
    by (auto simp: f)
  have "\<forall>pk\<in>set out. \<exists>m mac. action pk = Bound m mac \<and> mac_action_ok env m (pdu pk) (payload_of pk)"
    using flushed_contending [OF b] f by (metis fst_conv)
  from fold_bound_actions [OF this assms] obtain os where
    os: "fold (run_gbc_action env) out s = s\<lparr>outputs := outputs s @ os\<rparr>" "router_ok env (s\<lparr>outputs := outputs s @ os\<rparr>)" "no_throw os" by blast
  let ?s = "s\<lparr>outputs := outputs s @ os\<rparr>"
  let ?t = "if m_timers b' = [] then ?s else schedule_timer CbfFlush ScopeCbf b' ?s"
  have "queue_frame ?s ?t" by (simp add: queue_frame_refl queue_frame_schedule)
  from router_ok_cbf(1,2,5) [OF os(2) this b'(1,2)] os(3) have k: "kept env s (?t\<lparr>m_cbf_buffer := b'\<rparr>)"
    by (simp add: kept_def quiet_def)
  have "expired_count ?t \<le> expired_count s"
  proof (cases "m_timers b'")
    case (Cons t ts)
    have "t \<in> set (filter (\<lambda>t. m_now s < fst t) (m_timers ?b))"
      unfolding b'(3) [symmetric] Cons by simp
    then have d: "m_now ?s < fst t" by simp
    have "?t = schedule_at (fst t) CbfFlush (Some ScopeCbf) (cancel (Some ScopeCbf) ?s)"
      by (simp add: Cons schedule_timer_def case_prod_beta)
    moreover have "expired_count (cancel (Some ScopeCbf) ?s) \<le> expired_count ?s" by (rule cancel_simps)
    ultimately have "expired_count ?t \<le> expired_count ?s" using d by simp
    then show ?thesis by (simp add: expired_count_def)
  qed (simp add: expired_count_def)
  moreover have "on_cbf_flush env s = ?t\<lparr>m_cbf_buffer := b'\<rparr>"
    by (simp add: on_cbf_flush_def cbf_flush_def f os(1))
  ultimately show ?thesis using k by (simp add: calm_def expired_count_def)
qed

lemma calm_repetition:
  assumes "env_ok env" and "router_ok env s"
  shows "calm env s (on_repetition env n d s)"
proof -
  obtain due r where t: "repeater_trigger n d (m_now s) (m_repeater s) = (due, r)" by fastforce
  let ?s = "s\<lparr>m_repeater := r\<rparr>"
  have s: "calm env s ?s" using calm_refl [OF assms(2)] by simp
  show ?thesis
  proof (cases due)
    case (Some x)
    have "calm env ?s (snd (router_request env (fst x) (Some (snd x)) ?s))"
      using calm_request [OF assms(1)] assms(2) by simp
    from calm_trans [OF s this] show ?thesis by (simp add: on_repetition_def t Some case_prod_beta)
  qed (use s in \<open>simp add: on_repetition_def t\<close>)
qed

lemma calm_run: "env_ok env \<Longrightarrow> router_ok env s \<Longrightarrow> calm env s (router_run env cb d s)"
  by (cases cb) (simp_all add: calm_beacon_timer calm_cbf_flush calm_repetition calm_refl)

text \<open>The router is a client of the runtime, which therefore stops triggering its callbacks.\<close>

interpretation router_timers: timer_client "router_run env" "\<lambda>s. env_ok env \<and> router_ok env s \<and> quiet s0 s" for env s0
proof
  fix s :: Router and cb d e q
  assume s: "env_ok env \<and> router_ok env s \<and> quiet s0 s"
  then have c: "calm env s (router_run env cb d s)" by (simp add: calm_run)
  have "quiet s (router_run env cb d s)" using c by (simp add: calm_def kept_def)
  then show "env_ok env \<and> router_ok env (router_run env cb d s) \<and> quiet s0 (router_run env cb d s)"
    using s kept_ok [OF calm_kept [OF c]] quiet_trans by blast
  show "m_now (router_run env cb d s) = m_now s" "expired_count (router_run env cb d s) \<le> expired_count s"
    using c by (simp_all add: calm_def kept_def)
  show "queue_ok s" using s by (simp add: router_ok_def)
  show "env_ok env \<and> router_ok env (s\<lparr>m_queue := q\<rparr>) \<and> quiet s0 (s\<lparr>m_queue := q\<rparr>)" if "m_queue s = e # q"
    using s that by (simp add: router_ok_def queue_ok_def quiet_def)
qed

end
