(* ===== verification/RouterRecv.thy ===== *)
theory RouterRecv
  imports RouterSteps
begin

text \<open>
  Reception (\<open>indicate\<close> of \<open>vanetza/geonet/router.cpp\<close>) keeps the invariant of the router,
  whatever bytes are received, and the invariant holds in every state a router reaches. It
  throws only if the security entity hands over a chunk packet that does not hold a secured PDU
  or one whose header type contradicts its extended header.
\<close>

subsection \<open>Location table and addresses\<close>

definition keeps_entry :: "(LocationTableEntry \<Rightarrow> LocationTableEntry) \<Rightarrow> bool" where
  "keeps_entry f \<longleftrightarrow> (\<forall>e. m_has_position_vector (f e) = m_has_position_vector e
     \<and> m_position_vector (f e) = m_position_vector e \<and> ext_dpl (f e) = ext_dpl e)"

lemma keeps_entry_simps [simp]:
  "keeps_entry id" "keeps_entry (update_pdr now n beta)" "keeps_entry (set_neighbour b)"
  "keeps_entry (set_neighbour_for now b d)"
  by (simp_all add: keeps_entry_def update_pdr_def set_neighbour_def set_neighbour_for_def Let_def split: option.split)

lemma keeps_entry_comp: "keeps_entry f \<Longrightarrow> keeps_entry g \<Longrightarrow> keeps_entry (f \<circ> g)"
  by (simp add: keeps_entry_def)

lemma table_okD: "table_ok env t \<Longrightarrow> location_table_ok t \<and> ss_ok t \<and> all_entries (dpl_entry_ok (itsGnDPLLength (m_mib env))) t"
  by (simp add: table_ok_def location_table_ok_def)

lemma dpl_entry_ok_new [simp]: "dpl_entry_ok n (location_table_entry now)"
  by (simp add: dpl_entry_ok_def location_table_entry_def)

lemma ext_dpl_update [simp]: "ext_dpl (snd (update_position_vector lpv e)) = ext_dpl e"
  by (simp add: update_position_vector_def set_position_vector_def)

lemma table_ok_update: "table_ok env t \<Longrightarrow> table_ok env (location_update now lpv t)"
  using table_okD [of env t] unfolding table_ok_def [of env "location_update now lpv t"]
  by (intro conjI location_table_ok_update all_entries_update) (auto simp: dpl_entry_ok_def location_table_entry_def)

lemma table_ok_modify: "table_ok env t \<Longrightarrow> keeps_entry f \<Longrightarrow> table_ok env (modify_entry now mac f t)"
  using table_okD [of env t] unfolding table_ok_def [of env "modify_entry now mac f t"]
  by (intro conjI location_table_ok_modify all_entries_modify) (auto simp: dpl_entry_ok_def keeps_entry_def entry_ok_def)

lemma table_ok_drop: "table_ok env t \<Longrightarrow> table_ok env (drop_expired now t)"
  using table_okD [of env t] unfolding table_ok_def [of env "drop_expired now t"]
  by (intro conjI location_table_ok_drop all_entries_drop) simp_all

lemma kept_table:
  "router_ok env s \<Longrightarrow> table_ok env t \<Longrightarrow> kept env s (s\<lparr>m_location_table := t\<rparr>)"
  by (simp add: kept_def router_ok_def queue_ok_def)

lemma kept_update_location:
  assumes "router_ok env s" and "keeps_entry f"
  shows "kept env s (update_location pv f s)"
  using assms unfolding update_location_def
  by (intro kept_table table_ok_modify table_ok_update) (simp_all add: router_ok_def)

text \<open>The duplicate packet list of a source: the stored one or a new one.\<close>

definition source_dpl :: "Environment \<Rightarrow> MacAddress \<Rightarrow> Router \<Rightarrow> DuplicatePacketList" where
  "source_dpl env mac s = (case ext_dpl (value_at (location_table_entry (m_now s)) mac
       (get_or_create_entry (m_now s) mac (m_location_table s))) of
     Some dpl \<Rightarrow> dpl | None \<Rightarrow> duplicate_packet_list (itsGnDPLLength (m_mib env)))"

lemma source_dpl_ok:
  assumes "router_ok env s"
  shows "dpl_ok (source_dpl env mac s) \<and> dpl_capacity (source_dpl env mac s) = itsGnDPLLength (m_mib env)"
proof -
  let ?t = "get_or_create_entry (m_now s) mac (m_location_table s)"
  have t: "table_ok env (m_location_table s)" using assms by (simp add: router_ok_def)
  obtain e x where e: "get_data_ptr mac ?t = Some (e, x)" using get_or_create_present table_okD [OF t] by blast
  have "all_entries (dpl_entry_ok (itsGnDPLLength (m_mib env))) ?t"
    using table_okD [OF t] by (intro all_entries_get_or_create) simp_all
  then have "dpl_entry_ok (itsGnDPLLength (m_mib env)) e" using e unfolding all_entries_def by blast
  then show ?thesis
    by (auto simp: source_dpl_def value_at_entry [OF e] dpl_entry_ok_def duplicate_packet_list_def dpl_ok_def split: option.split)
qed

lemma detect_duplicate_packet_eq:
  "detect_duplicate_packet env addr sn s = (fst (dpl_check sn (source_dpl env (mid addr) s)),
     s\<lparr>m_location_table := modify_entry (m_now s) (mid addr) (\<lambda>e. e\<lparr>ext_dpl := Some (snd (dpl_check sn (source_dpl env (mid addr) s)))\<rparr>)
        (get_or_create_entry (m_now s) (mid addr) (m_location_table s))\<rparr>)"
  by (simp add: detect_duplicate_packet_def Let_def case_prod_beta source_dpl_def)

lemma kept_detect_packet:
  assumes "router_ok env s"
  shows "kept env s (snd (detect_duplicate_packet env addr sn s))"
proof -
  let ?d = "snd (dpl_check sn (source_dpl env (mid addr) s))"
  have t: "table_ok env (m_location_table s)" using assms by (simp add: router_ok_def)
  have d: "dpl_ok ?d" "dpl_capacity ?d = itsGnDPLLength (m_mib env)"
    using source_dpl_ok [OF assms, of "mid addr"] by (simp_all add: dpl_check_ok) (simp add: dpl_check_def)
  have "table_ok env (modify_entry (m_now s) (mid addr) (\<lambda>e. e\<lparr>ext_dpl := Some ?d\<rparr>)
      (get_or_create_entry (m_now s) (mid addr) (m_location_table s)))"
    using table_okD [OF t] d unfolding table_ok_def
    by (intro conjI location_table_ok_modify location_table_ok_get_or_create all_entries_modify all_entries_get_or_create)
      (auto simp: dpl_entry_ok_def entry_ok_def location_table_entry_def)
  then show ?thesis using kept_table [OF assms] by (simp add: detect_duplicate_packet_eq)
qed

lemma kept_detect_address: "router_ok env s \<Longrightarrow> kept env s (detect_duplicate_address env addr mac s)"
  by (simp add: detect_duplicate_address_def Let_def set_address_def kept_def router_ok_def queue_ok_def)

subsection \<open>Receiver operations\<close>

definition received_ok :: "'h ExtendedPdu \<Rightarrow> bool" where
  "received_ok pd \<longleftrightarrow> (secured pd = None \<longleftrightarrow> bh_next_header (basic pd) \<noteq> NHB_Secured)"

lemma duplicate_ok:
  assumes "received_ok pd"
  shows "fwd_ok (decrement_hop_limit (fst (create_forwarding_duplicate pd p))) (snd (create_forwarding_duplicate pd p))"
  using assms by (cases "secured pd")
    (simp_all add: received_ok_def create_forwarding_duplicate_def fwd_ok_def decrement_hop_limit_def)

lemma kept_shb:
  assumes "router_ok env s"
  shows "kept env s (snd (process_shb env pd p ll s))" and "fst (process_shb env pd p ll s)"
proof -
  let ?s = "detect_duplicate_address env (gn_addr (shb_source_position (extended pd))) (ll_sender ll) s"
  let ?x = "\<lambda>e. if itsGnIfType (m_mib env) = ITS_G5 then
             (case get_dcc_mco (dcc (extended pd)) of
                None \<Rightarrow> e
              | Some mco \<Rightarrow> e\<lparr>ext_loctex := Some \<lparr>local_update = timestamp_of (m_now ?s),
                  source_update = timestamp (shb_source_position (extended pd)), dcc_mco = mco\<rparr>\<rparr>)
           else e"
  have s: "kept env s ?s" by (rule kept_detect_address [OF assms])
  have "keeps_entry ?x" by (simp add: keeps_entry_def split: option.split)
  then have "kept env ?s (snd (process_shb env pd p ll s))"
    unfolding process_shb_def Let_def snd_conv
    by (intro kept_update_location kept_ok [OF s] keeps_entry_comp) simp_all
  with s show "kept env s (snd (process_shb env pd p ll s))" by (rule kept_trans)
  show "fst (process_shb env pd p ll s)" by (simp add: process_shb_def Let_def)
qed

lemma kept_beacon:
  assumes "router_ok env s"
  shows "kept env s (snd (process_beacon env pd p ll s))" and "\<not> fst (process_beacon env pd p ll s)"
proof -
  let ?s = "detect_duplicate_address env (gn_addr (beacon_source_position (extended pd))) (ll_sender ll) s"
  have s: "kept env s ?s" by (rule kept_detect_address [OF assms])
  have "kept env ?s (snd (process_beacon env pd p ll s))"
    unfolding process_beacon_def Let_def snd_conv
    by (intro kept_update_location kept_ok [OF s] keeps_entry_comp) simp_all
  with s show "kept env s (snd (process_beacon env pd p ll s))" by (rule kept_trans)
  show "\<not> fst (process_beacon env pd p ll s)" by (simp add: process_beacon_def Let_def)
qed

lemma kept_if: "kept env s a \<Longrightarrow> kept env s b \<Longrightarrow> kept env s (if c then a else b)"
  by simp

lemma kept_tsb:
  assumes "router_ok env s" and "received_ok pd"
  shows "kept env s (snd (process_tsb env pd p ll s))"
proof -
  let ?src = "gn_addr (tsb_source_position (extended pd))"
  obtain dup s1 where d: "detect_duplicate_packet env ?src (tsb_sequence_number (extended pd)) s = (dup, s1)" by fastforce
  have s1: "kept env s s1" using kept_detect_packet [OF assms(1), of ?src "tsb_sequence_number (extended pd)"] by (simp add: d)
  define s2 where "s2 = (if vanetzaMultiHopDuplicateAddressDetection (m_mib env) then detect_duplicate_address env ?src (ll_sender ll) s1 else s1)"
  have s2: "kept env s s2" unfolding s2_def
    using s1 kept_trans [OF s1 kept_detect_address [OF kept_ok [OF s1]]] by simp
  define s3 where "s3 = update_location (tsb_source_position (extended pd))
     (update_pdr (m_now s) (received_size p) (itsGnMaxPacketDataRateEmaBeta (m_mib env))
      \<circ> (if has_entry (m_now s) ?src (m_location_table s) then id else set_neighbour False)) s2"
  have s3: "kept env s s3" unfolding s3_def
    by (rule kept_trans [OF s2], rule kept_update_location [OF kept_ok [OF s2]], rule keeps_entry_comp) simp_all
  define s4 where "s4 = flush_unicast_forwarding_buffer env s3"
  have s4: "kept env s s4" unfolding s4_def using kept_trans [OF s3 calm_kept [OF flush_unicast_calm(1) [OF kept_ok [OF s3]]]] .
  let ?pk = "\<lparr>pdu = decrement_hop_limit (fst (create_forwarding_duplicate pd p)), payload_of = snd (create_forwarding_duplicate pd p),
      action = ()\<rparr>"
  have "kept env s (forwarding_stopped r s4)" for r
    using kept_trans [OF s4 calm_kept [OF calm_hooks(2) [OF kept_ok [OF s4]]]] .
  moreover have "kept env s (bc_push (BufferedTsb ?pk) s4)" "kept env s (tsb_transmit env ?pk s4)"
    using kept_trans [OF s4 calm_kept [OF calm_bc_push [OF kept_ok [OF s4], of "BufferedTsb ?pk"]]]
      kept_trans [OF s4 calm_kept [OF calm_tsb_transmit [OF kept_ok [OF s4], of ?pk]]] duplicate_ok [OF assms(2), of p] by simp_all
  ultimately show ?thesis using s1
    unfolding process_tsb_def Let_def d prod.case s2_def [symmetric] s3_def [symmetric] s4_def [symmetric]
    by (simp add: case_prod_beta split: option.split)
qed

lemma kept_decide:
  assumes "kept env s s'"
  shows "kept env s (snd (decide_pass_up env w gbc s'))"
proof -
  have "gbc_ok (snd (gbc_remember i (m_gbc_memory s')))" for i
    using assms by (simp add: kept_def router_ok_def gbc_remember_ok)
  then show ?thesis using assms
    by (simp add: decide_pass_up_def Let_def case_prod_beta kept_def router_ok_def queue_ok_def quiet_def)
qed

lemma kept_gbc:
  assumes "router_ok env s" and "received_ok pd" and "has_destination pd"
  shows "kept env s (snd (process_gbc env pd p ll s))"
proof -
  let ?gbc = "extended pd" and ?mib = "m_mib env"
  let ?src = "gn_addr (gbc_source_position ?gbc)"
  obtain dest where dest: "gbc_destination (header_type (common pd)) ?gbc = Some dest"
    using assms(3) by (auto simp: has_destination_def)
  define w where "w = inside_or_at_border (geo_local_cartesian env) dest (local_position s)"
  define c where "c = (if w then itsGnAreaForwardingAlgorithm ?mib \<in> {BF_Unspecified, BF_SIMPLE}
            else itsGnNonAreaForwardingAlgorithm ?mib \<in> {UF_Unspecified, UF_Greedy})"
  obtain dup s1 where d: "(if c then detect_duplicate_packet env ?src (gbc_sequence_number ?gbc) s else (False, s)) = (dup, s1)" by fastforce
  have s1: "kept env s s1"
    using kept_detect_packet [OF assms(1), of ?src "gbc_sequence_number ?gbc"] kept_refl [OF assms(1)] d by (cases c) simp_all
  define s2 where "s2 = (if vanetzaMultiHopDuplicateAddressDetection ?mib then detect_duplicate_address env ?src (ll_sender ll) s1 else s1)"
  have s2: "kept env s s2" unfolding s2_def
    using s1 kept_trans [OF s1 kept_detect_address [OF kept_ok [OF s1]]] by simp
  define s3 where "s3 = update_location (gbc_source_position ?gbc)
     ((if has_entry (m_now s) ?src (m_location_table s) then id else set_neighbour False)
      \<circ> update_pdr (m_now s) (received_size p) (itsGnMaxPacketDataRateEmaBeta ?mib)) s2"
  have s3: "kept env s s3" unfolding s3_def
    by (rule kept_trans [OF s2], rule kept_update_location [OF kept_ok [OF s2]], rule keeps_entry_comp) simp_all
  define s4 where "s4 = flush_unicast_forwarding_buffer env s3"
  have s4: "kept env s s4" unfolding s4_def using kept_trans [OF s3 calm_kept [OF flush_unicast_calm(1) [OF kept_ok [OF s3]]]] .
  let ?pk = "\<lparr>pdu = decrement_hop_limit (fst (create_forwarding_duplicate pd p)), payload_of = snd (create_forwarding_duplicate pd p),
      action = Forwarding TransmitForward (Some ll)\<rparr>"
  have "has_destination (decrement_hop_limit (fst (create_forwarding_duplicate pd p)))"
    using assms(3) by (simp add: has_destination_def decrement_hop_limit_def create_forwarding_duplicate_def)
  then have pk: "gbc_pending_ok env ?pk" using duplicate_ok [OF assms(2), of p] by (simp add: gbc_pending_ok_def)
  have stop: "kept env s (forwarding_stopped r s4)" for r
    using kept_trans [OF s4 calm_kept [OF calm_hooks(2) [OF kept_ok [OF s4]]]] .
  have "kept env s (bc_push (BufferedGbc ?pk) s4)" "kept env s (run_gbc_action env ?pk s4)"
    using kept_trans [OF s4 calm_kept [OF calm_bc_push [OF kept_ok [OF s4], of "BufferedGbc ?pk"]]]
      kept_trans [OF s4 kept_gbc_action [OF kept_ok [OF s4] pk]] pk by simp_all
  then have run: "kept env s (if b then bc_push (BufferedGbc ?pk) s4 else run_gbc_action env ?pk s4)" for b by simp
  show ?thesis using s1 kept_decide [OF stop] kept_decide [OF run]
    unfolding process_gbc_def dest option.case Let_def w_def [symmetric] c_def [symmetric] d prod.case
      s2_def [symmetric] s3_def [symmetric] s4_def [symmetric]
    by (simp add: case_prod_beta split: option.split)
qed

subsection \<open>Parsing stays within the packet\<close>

definition parser_fits :: "nat \<Rightarrow> Parser \<Rightarrow> bool" where
  "parser_fits n p \<longleftrightarrow> read_bytes p + length (archive p) \<le> n"

lemma parser_fits_init: "parser_fits (length bs) (parser_init bs)"
  by (simp add: parser_fits_def parser_init_def)

lemma parser_fits_with:
  assumes "parser_fits n p" and "\<And>h r. rd (archive p) = Some (h, r) \<Longrightarrow> length (archive p) = len + length r"
  shows "parser_fits n (snd (parse_with rd len p))"
  using assms by (auto simp: parser_fits_def parse_with_def split: option.split)

lemma parser_fits_basic: "parser_fits n p \<Longrightarrow> parser_fits n (snd (parse_basic p))"
  unfolding parse_basic_def by (rule parser_fits_with) (auto dest: basic_codec.des_rest_length)

lemma parser_fits_common: "parser_fits n p \<Longrightarrow> parser_fits n (snd (parse_common p))"
  unfolding parse_common_def by (rule parser_fits_with) (auto dest: common_codec.des_rest_length)

lemma parser_fits_extended: "parser_fits n p \<Longrightarrow> parser_fits n (snd (parse_extended ht p))"
  by (cases ht) (auto simp: parse_extended_def map_reader_def intro!: parser_fits_with
      dest: beacon_codec.des_rest_length shb_codec.des_rest_length tsb_codec.des_rest_length gbc_codec.des_rest_length)

lemma parser_fits_secured:
  assumes "parser_fits n p" and "reader_ok v2" and "reader_ok v3"
  shows "read_bytes (snd (parse_secured v2 v3 p)) \<le> n"
  using assms by (force simp: parser_fits_def parse_secured_def reader_ok_def split: list.split option.split)

definition context_ok :: "IndicationContext \<Rightarrow> bool" where
  "context_ok ctx \<longleftrightarrow> parser_fits (length (cohesive_layer (ctx_packet ctx) Network)) (ctx_parser ctx)
     \<and> (case ctx_parent ctx of None \<Rightarrow> True
        | Some (outer, parser) \<Rightarrow> read_bytes parser \<le> length (cohesive_layer outer Network))"

lemma finish_context_fits:
  assumes "read_bytes (ctx_parser ctx) \<le> length (cohesive_layer (ctx_packet ctx) Network)" and "context_ok (ctx\<lparr>ctx_parser := p\<rparr>)"
  shows "finish_context ctx cm \<noteq> None"
  using assms by (auto simp: finish_context_def set_boundary_def context_ok_def split: option.splits)

lemma finish_context_ok:
  assumes "context_ok ctx"
  obtains packet where "finish_context ctx cm = Some packet"
proof -
  have "read_bytes (ctx_parser ctx) \<le> length (cohesive_layer (ctx_packet ctx) Network)"
    using assms by (simp add: context_ok_def parser_fits_def)
  then have "finish_context ctx cm \<noteq> None" using assms finish_context_fits [of ctx "ctx_parser ctx"] by simp
  then show thesis using that by auto
qed

subsection \<open>Indication\<close>

lemma announced_destination: "announces (header_type ch) (HV_Gbc gbc) \<Longrightarrow> gbc_destination (header_type ch) gbc \<noteq> None"
  by (cases "header_type ch") (simp_all add: gbc_destination_def)

lemma kept_variant:
  assumes "router_ok env s" and "sec = None \<longleftrightarrow> bh_next_header bh \<noteq> NHB_Secured" and "announces (header_type ch) hv"
  shows "kept env s (snd (fst (indicate_variant env bh ch sec ll ind packet hv s)))"
proof (cases hv)
  case (HV_Gbc gbc)
  let ?pd = "\<lparr>basic = bh, common = ch, extended = gbc, secured = sec\<rparr>"
  have "kept env s (snd (process_gbc env ?pd packet ll s))"
    using assms announced_destination [of ch gbc] HV_Gbc
    by (intro kept_gbc) (simp_all add: received_ok_def has_destination_def)
  then show ?thesis by (simp add: indicate_variant_def HV_Gbc)
next
  case (HV_Tsb tsb)
  then show ?thesis using kept_tsb [OF assms(1)] assms(2) by (simp add: indicate_variant_def received_ok_def)
qed (simp_all add: indicate_variant_def kept_shb(1) [OF assms(1)] kept_beacon(1) [OF assms(1)])

lemma kept_pass_up: "kept env s s' \<Longrightarrow> kept env s (pass_up env ind packet s')"
  using calm_emit [of env s'] kept_trans [OF _ calm_kept [OF calm_emit [of env s']]] kept_ok
  by (auto simp: pass_up_def split: option.split)

lemma kept_dropped: "router_ok env s \<Longrightarrow> kept env s (packet_dropped r s)"
  using calm_hooks(1) calm_kept by blast

text \<open>
  Payloads the router can process: octets, and chunk packets with a secured PDU whose extended
  header is of the announced kind. The security entity is asked for a payload to process if it
  reports success or if decapsulation results are not handled strictly.
\<close>

fun plaintext_ok :: "PlaintextPayload \<Rightarrow> bool" where
  "plaintext_ok (PlainCohesive _) = True"
| "plaintext_ok (PlainChunk None _) = False"
| "plaintext_ok (PlainChunk (Some sp) _) = announces (header_type (sp_common sp)) (sp_extended sp)"

definition entity_ok :: "Environment \<Rightarrow> bool" where
  "entity_ok env \<longleftrightarrow> (\<forall>entity now msg. m_security_entity env = Some entity \<longrightarrow>
     is_successful (decap_report (decapsulate_packet entity now msg)) \<or> itsGnSnDecapResultHandling (m_mib env) = Non_Strict \<longrightarrow>
     plaintext_ok (plaintext_payload (decapsulate_packet entity now msg)))"

text \<open>Reception keeps the invariant and the clock, and throws nothing if the payload is one of these.\<close>

definition handled :: "bool \<Rightarrow> Environment \<Rightarrow> Router \<Rightarrow> Router \<Rightarrow> bool" where
  "handled plain env s s' \<longleftrightarrow> router_ok env s' \<and> m_now s' = m_now s \<and> (plain \<longrightarrow> quiet s s')"

lemma kept_handled: "kept env s s' \<Longrightarrow> handled plain env s s'"
  by (simp add: kept_def handled_def)

lemma handled_trans: "kept env s s' \<Longrightarrow> handled plain env s' s'' \<Longrightarrow> handled plain env s s''"
  by (auto simp: kept_def handled_def intro: quiet_trans)

lemma handled_pass_up: "handled plain env s s' \<Longrightarrow> handled plain env s (pass_up env ind packet s')"
  by (auto simp: pass_up_def handled_def router_ok_emit intro: quiet_trans split: option.split)

lemma handled_header:
  assumes "router_ok env s" and "sec = None \<longleftrightarrow> bh_next_header bh \<noteq> NHB_Secured" and "plain \<Longrightarrow> announces (header_type ch) hv"
  shows "handled plain env s (indicate_header env bh ch sec ll packet hv ind s)"
proof -
  have "handled plain env s (snd (fst (indicate_variant env bh ch sec ll ind packet hv s)))"
  proof (cases "announces (header_type ch) hv")
    case True
    then show ?thesis by (intro kept_handled kept_variant assms(1,2))
  next
    case False
    then have p: "\<not> plain" using assms(3) by blast
    show ?thesis
    proof (cases hv)
      case (HV_Gbc gbc)
      let ?pd = "\<lparr>basic = bh, common = ch, extended = gbc, secured = sec\<rparr>"
      have "handled plain env s (snd (process_gbc env ?pd packet ll s))"
      proof (cases "gbc_destination (header_type ch) gbc")
        case None
        then show ?thesis using assms(1) p by (simp add: process_gbc_def handled_def router_ok_emit)
      next
        case (Some dest)
        then show ?thesis using assms(1,2) by (intro kept_handled kept_gbc) (simp_all add: received_ok_def has_destination_def)
      qed
      then show ?thesis by (simp add: indicate_variant_def HV_Gbc)
    next
      case (HV_Tsb tsb)
      then show ?thesis using kept_handled [OF kept_tsb [OF assms(1)]] assms(2) by (simp add: indicate_variant_def received_ok_def)
    qed (simp_all add: indicate_variant_def kept_handled kept_shb(1) [OF assms(1)] kept_beacon(1) [OF assms(1)])
  qed
  then show ?thesis
    by (simp add: indicate_header_def case_prod_beta Let_def handled_pass_up kept_handled [OF kept_dropped [OF assms(1)]])
qed

lemma kept_header:
  assumes "router_ok env s" and "sec = None \<longleftrightarrow> bh_next_header bh \<noteq> NHB_Secured" and "announces (header_type ch) hv"
  shows "kept env s (indicate_header env bh ch sec ll packet hv ind s)"
  using handled_header [OF assms(1,2), of True ch hv ll packet ind] assms(3) by (simp add: handled_def kept_def)

lemma kept_extended:
  assumes "router_ok env s" and "sec = None \<longleftrightarrow> bh_next_header bh \<noteq> NHB_Secured" and "context_ok ctx"
  shows "kept env s (indicate_extended env ctx bh ch sec ll ind s)"
proof -
  obtain n ext parser where e: "parse_extended (header_type ch) (ctx_parser ctx) = ((n, ext), parser)"
    by (metis surj_pair)
  have "context_ok (ctx\<lparr>ctx_parser := parser\<rparr>)"
    using assms(3) parser_fits_extended [of _ "ctx_parser ctx" "header_type ch"] by (simp add: context_ok_def e)
  then obtain packet where f: "finish_context (ctx\<lparr>ctx_parser := parser\<rparr>) ch = Some packet"
    by (rule finish_context_ok)
  show ?thesis
  proof (cases ext)
    case None
    then show ?thesis using kept_dropped [OF assms(1)] by (simp add: indicate_extended_def e f)
  next
    case (Some hv)
    then have "announces (header_type ch) hv" using parse_extended_sound e by blast
    from kept_header [OF assms(1,2) this] show ?thesis by (simp add: indicate_extended_def e f Some)
  qed
qed

lemma handled_with_common:
  assumes "env_ok env" and "router_ok env s" and "\<And>ind s. router_ok env s \<Longrightarrow> handled plain env s (extended_step ind s)"
  shows "handled plain env s (indicate_with_common env bh ch extended_step ind s)"
proof -
  let ?s = "s\<lparr>m_location_table := drop_expired (m_now s) (m_location_table s)\<rparr>"
  have "kept env s ?s" using assms(2) by (intro kept_table table_ok_drop) (simp_all add: router_ok_def)
  then have f: "kept env s (flush_broadcast_forwarding_buffer env ?s)"
    using kept_trans kept_flush_broadcast [OF assms(1)] kept_ok by blast
  show ?thesis
    using kept_handled [OF kept_dropped [OF assms(2)]] handled_trans [OF f assms(3) [OF kept_ok [OF f]]]
    by (simp add: indicate_with_common_def Let_def)
qed

lemma kept_common:
  assumes "env_ok env" and "router_ok env s" and "sec = None \<longleftrightarrow> bh_next_header bh \<noteq> NHB_Secured" and "context_ok ctx"
  shows "kept env s (indicate_common env ctx bh sec ll ind s)"
proof -
  obtain n ch parser where e: "parse_common (ctx_parser ctx) = ((n, ch), parser)" by (metis surj_pair)
  have c: "context_ok (ctx\<lparr>ctx_parser := parser\<rparr>)"
    using assms(4) parser_fits_common [of _ "ctx_parser ctx"] by (simp add: context_ok_def e)
  show ?thesis
  proof (cases ch)
    case (Some h)
    have "handled True env s (indicate_with_common env bh h (indicate_extended env (ctx\<lparr>ctx_parser := parser\<rparr>) bh h sec ll) ind s)"
      by (intro handled_with_common assms(1,2) kept_handled kept_extended assms(3) c)
    then show ?thesis by (simp add: indicate_common_def e Some handled_def kept_def)
  qed (simp add: indicate_common_def e kept_dropped [OF assms(2)])
qed

lemma handled_secured:
  assumes "env_ok env" and "router_ok env s" and "bh_next_header bh = NHB_Secured" and "context_ok ctx"
  shows "handled (entity_ok env) env s (indicate_secured env ctx bh ll ind s)"
proof -
  obtain n msg parser where e: "parse_secured (secured_v2 env) (secured_v3 env) (ctx_parser ctx) = ((n, msg), parser)"
    by (metis surj_pair)
  have r: "read_bytes parser \<le> length (cohesive_layer (ctx_packet ctx) Network)"
    using assms(1,4) parser_fits_secured [of _ "ctx_parser ctx" "secured_v2 env" "secured_v3 env"]
    by (simp add: context_ok_def env_ok_def e)
  then have c: "context_ok (indication_context p (Some (ctx_packet ctx, parser)))" for p
    by (simp add: context_ok_def indication_context_def parser_fits_init)
  have v: "handled plain env s (indicate_common env (indication_context p (Some (ctx_packet ctx, parser))) bh (Some m) ll ind s)" for p m ind plain
    using kept_common [OF assms(1,2) _ c] assms(3) by (simp add: kept_handled)
  have "finish_context (ctx\<lparr>ctx_parser := parser\<rparr>) common_default \<noteq> None"
    using r assms(4) finish_context_fits [of "ctx\<lparr>ctx_parser := parser\<rparr>" "ctx_parser ctx"] by simp
  then obtain packet where f: "finish_context (ctx\<lparr>ctx_parser := parser\<rparr>) common_default = Some packet" by blast
  have w: "handled plain env s (indicate_secured_cast env (ctx\<lparr>ctx_parser := parser\<rparr>) sp p bh m ll ind s)"
    if "plain \<Longrightarrow> plaintext_ok (PlainChunk sp p)" for plain sp p m ind
  proof (cases sp)
    case None
    then have "\<not> plain" using that by auto
    with None show ?thesis using assms(2) by (simp add: indicate_secured_cast_def f handled_def router_ok_emit)
  next
    case (Some x)
    have "handled plain env s (indicate_header env bh (sp_common x) (Some m) ll (secured_cast_packet p) (sp_extended x) ind s)"
      if "router_ok env s" for ind s
      by (rule handled_header [OF that]) (use assms(3) \<open>plain \<Longrightarrow> _\<close> Some in simp_all)
    then show ?thesis
      by (simp add: indicate_secured_cast_def f Some handled_with_common [OF assms(1,2)])
  qed
  show ?thesis
  proof (cases "if n > 0 then msg else None")
    case None
    then show ?thesis using kept_handled [OF kept_dropped [OF assms(2)]] by (simp add: indicate_secured_def e)
  next
    case m: (Some m)
    show ?thesis
    proof (cases "m_security_entity env")
      case None
      then show ?thesis using kept_handled [OF kept_dropped [OF assms(2)]] m by (simp add: indicate_secured_def e)
    next
      case (Some entity)
      let ?c = "decapsulate_packet entity (m_now s) m"
      show ?thesis
      proof (cases "is_successful (decap_report ?c) \<or> itsGnSnDecapResultHandling (m_mib env) = Non_Strict")
        case True
        then have p: "entity_ok env \<Longrightarrow> plaintext_ok (plaintext_payload ?c)" using Some unfolding entity_ok_def by blast
        show ?thesis using True v w p
          by (cases "plaintext_payload ?c") (auto simp: indicate_secured_def e m Some Let_def)
      next
        case False
        then show ?thesis using kept_handled [OF kept_dropped [OF assms(2)]] m Some by (simp add: indicate_secured_def e Let_def)
      qed
    qed
  qed
qed

lemma handled_indicate:
  assumes "env_ok env" and "router_ok env s"
  shows "handled (entity_ok env) env s (indicate env packet sender dest s)"
proof -
  let ?ctx = "indication_context packet None"
  obtain n bh parser where e: "parse_basic (ctx_parser ?ctx) = ((n, bh), parser)" by (metis surj_pair)
  have c: "context_ok (?ctx\<lparr>ctx_parser := parser\<rparr>)"
    using parser_fits_basic [OF parser_fits_init, of "cohesive_layer packet Network"] e
    by (simp add: context_ok_def indication_context_def)
  have "handled (entity_ok env) env s (indicate_basic env ?ctx \<lparr>ll_sender = sender, ll_destination = dest\<rparr> s)"
    unfolding indicate_basic_def Let_def e prod.case
    using kept_handled [OF kept_common [OF assms _ c, of None]] handled_secured [OF assms _ c]
      kept_handled [OF kept_dropped [OF assms(2)]] kept_handled [OF kept_refl [OF assms(2)]]
    by (simp split: option.split NextHeaderBasic.split)
  then show ?thesis by (simp add: indicate_def)
qed

end
