(* ===== verification/RouterReach.thy ===== *)
theory RouterReach
  imports RouterRecv
begin

text \<open>
  The states a router reaches from its construction (\<open>vanetza/geonet/router.cpp\<close>): requests,
  received packets, new positions and addresses and the runtime being triggered, in any order.
\<close>

inductive router_reach :: "Environment \<Rightarrow> Router \<Rightarrow> bool" for env where
  start: "router_reach env (router_init env now)"
| request: "router_reach env s \<Longrightarrow> router_reach env (snd (router_request env v p s))"
| indicate: "router_reach env s \<Longrightarrow> router_reach env (indicate env packet sender dest s)"
| position: "router_reach env s \<Longrightarrow> router_reach env (update_position env fx s)"
| address: "router_reach env s \<Longrightarrow> router_reach env (set_address addr s)"
| trigger: "router_reach env s \<Longrightarrow> trigger_at (router_run env) tp s = Some s' \<Longrightarrow> router_reach env s'"

subsection \<open>The invariant holds\<close>

lemma router_ok_init:
  assumes "env_ok env"
  shows "router_ok env (router_init env now)"
proof -
  let ?s = "\<lparr>m_now = now, m_queue = [], m_local_position_vector = lpv_default,
       m_location_table = location_table (itsGnLifetimeLocTE (m_mib env)),
       m_bc_forward_buffer = packet_buffer (itsGnBcForwardingPacketBufferSize (m_mib env) * 1024),
       m_uc_forward_buffer = packet_buffer (itsGnUcForwardingPacketBufferSize (m_mib env) * 1024),
       m_cbf_buffer = cbf_packet_buffer (cbf_node_reuse env) (create_cbf_counter (m_mib env)) (itsGnCbfPacketBufferSize (m_mib env) * 1024),
       m_local_sequence_number = 0, m_repeater = repeater_init, m_random_gen = 0,
       m_gbc_memory = set_gbc_capacity (vanetzaGbcMemoryCapacity (m_mib env)) gbc_memory, outputs = []\<rparr>"
  have "table_ok env (location_table (itsGnLifetimeLocTE (m_mib env)))"
    using assms location_table_ok_init [of "itsGnLifetimeLocTE (m_mib env)"]
    by (simp add: env_ok_def table_ok_def all_entries_def location_table_def set_lifetime_def ss_empty_def get_data_ptr_def)
  moreover have "gbc_ok (set_gbc_capacity (vanetzaGbcMemoryCapacity (m_mib env)) gbc_memory)"
    by (rule set_gbc_capacity_ok) (simp add: gbc_ok_def gbc_memory_def)
  moreover have "cbf_ok (cbf_packet_buffer r c n)" for r c n by (rule cbf_ok_start)
  ultimately have s: "router_ok env (?s\<lparr>m_random_gen := n\<rparr>)" for n
    by (simp add: router_ok_def queue_ok_def cbf_packet_buffer_def packet_buffer_def pb_ok_def)
  then have "router_ok env (reset_beacon_timer_in d (?s\<lparr>m_random_gen := n\<rparr>))" for d n
    by (simp add: router_ok_def)
  from this [of _ 0] this s [of 0] show ?thesis unfolding router_init_def Let_def by simp
qed

lemma router_ok_position: "router_ok env s \<Longrightarrow> router_ok env (update_position env' fx s)"
  by (simp add: router_ok_def update_position_def queue_ok_def)

lemma router_ok_address: "router_ok env s \<Longrightarrow> router_ok env (set_address addr s)"
  by (simp add: router_ok_def set_address_def queue_ok_def)

lemma trigger_at_result:
  assumes "env_ok env" and "router_ok env s" and "m_now s \<le> tp"
  shows "\<exists>s'. trigger_at (router_run env) tp s = Some s' \<and> router_ok env s' \<and> quiet s s' \<and> m_now s' = tp \<and> expired_count s' = 0"
proof -
  have "router_ok env (s\<lparr>m_now := tp\<rparr>)" using assms(2) by (simp add: router_ok_def queue_ok_def)
  then show ?thesis
    using router_timers.trigger_terminates [of env "s\<lparr>m_now := tp\<rparr>" s] assms(1,3) by (auto simp: trigger_at_def)
qed

lemma router_reach_ok:
  assumes "env_ok env" and "router_reach env s"
  shows "router_ok env s"
  using assms(2)
proof (induction rule: router_reach.induct)
  case (start now)
  show ?case by (rule router_ok_init [OF assms(1)])
next
  case (request s v p)
  then show ?case using calm_request [OF assms(1)] calm_kept kept_ok by blast
next
  case (indicate s packet sender dest)
  then show ?case using handled_indicate [OF assms(1)] unfolding handled_def by blast
next
  case (trigger s tp s')
  then have "m_now s \<le> tp" by (simp add: trigger_at_def split: if_splits)
  then show ?case using trigger trigger_at_result [OF assms(1)] by fastforce
qed (simp_all add: router_ok_position router_ok_address)

lemma router_reach_no_throw:
  assumes "env_ok env" and "entity_ok env" and "router_reach env s"
  shows "no_throw (outputs s)"
  using assms(3)
proof (induction rule: router_reach.induct)
  case (start now)
  show ?case by (simp add: router_init_def Let_def)
next
  case (request s v p)
  then show ?case
    using calm_kept [OF calm_request [OF assms(1) router_reach_ok [OF assms(1) request.hyps]]] no_throw_quiet unfolding kept_def by blast
next
  case (indicate s packet sender dest)
  then show ?case
    using handled_indicate [OF assms(1) router_reach_ok [OF assms(1) indicate.hyps]] assms(2) no_throw_quiet unfolding handled_def by blast
next
  case (trigger s tp s')
  then have "m_now s \<le> tp" by (simp add: trigger_at_def split: if_splits)
  with trigger have "quiet s s'" using trigger_at_result [OF assms(1) router_reach_ok [OF assms(1) trigger.hyps(1)]] by fastforce
  then show ?case using trigger.IH by (rule no_throw_quiet)
qed (simp_all add: update_position_def set_address_def)

subsection \<open>An environment\<close>

text \<open>
  A flat world without security, with a reader for secured messages that accepts one byte and
  all transport protocols in place.
\<close>

definition sample_env :: Environment where
  "sample_env = \<lparr>m_mib = mib_default,
     geo_distance = (\<lambda>p q. \<bar>glatitude p - glatitude q\<bar> + \<bar>glongitude p - glongitude q\<bar>),
     geo_local_cartesian = (\<lambda>o' p. \<lparr>cx = glongitude p - glongitude o', cy = glatitude p - glatitude o'\<rparr>),
     m_security_entity = None, generate_dcc_field = (\<lambda>_. DccRaw 0), m_transport_ifcs = (\<lambda>_. True),
     random_jitter = (\<lambda>_. 1 / 2), random_octet = (\<lambda>_. 7),
     secured_v2 = (\<lambda>bs. case bs of [] \<Rightarrow> None | b # r \<Rightarrow> Some ((1, [b]), r)), secured_v3 = (\<lambda>_. None),
     cbf_node_reuse = (\<lambda>_ _. False)\<rparr>"

lemma sample_env_simps [simp]:
  "m_mib sample_env = mib_default" "m_transport_ifcs sample_env u" "m_security_entity sample_env = None"
  "random_jitter sample_env n = 1 / 2"
  by (simp_all add: sample_env_def)

lemma env_ok_sample: "env_ok sample_env"
  by (auto simp: env_ok_def sample_env_def mib_default_def reader_ok_def split: list.splits)

text \<open>The same with a security entity that fails for every message and hands over its octets, and lenient handling.\<close>

definition decap_env :: Environment where
  "decap_env = sample_env\<lparr>m_mib := mib_default\<lparr>itsGnSnDecapResultHandling := Non_Strict\<rparr>,
     m_security_entity := Some \<lparr>encapsulate_packet = (\<lambda>_ _. None),
       decapsulate_packet = (\<lambda>_ msg. \<lparr>plaintext_payload = PlainCohesive (cohesive_packet msg Network),
         decap_report = DecapVerification False_Signature, decap_certificate_id = None, decap_its_aid = 0, decap_permissions = []\<rparr>)\<rparr>\<rparr>"

lemma env_ok_decap: "env_ok decap_env"
  using env_ok_sample by (simp add: env_ok_def decap_env_def)

lemma entity_ok_decap: "entity_ok decap_env"
  by (simp add: entity_ok_def decap_env_def)

subsection \<open>Properties\<close>

text \<open>C2: Whatever requests are made and whatever octets are received, in any order and with the
  timers triggered in between, the router never throws, provided that the security entity, for
  a message it reports as successfully decapsulated and, without strict handling of the
  results, for every message, hands over octets or a chunk packet that holds a secured PDU of
  the announced type: no PDU is passed down whose security flag contradicts its contents, no
  secured PDU carries payload of upper layers, no geobroadcast packet lacks a destination area
  and parsing never leaves the packet.\<close>

theorem router_never_throws:
  assumes "env_ok env" and "entity_ok env" and "router_reach env s"
  shows "\<nexists>msg. Threw msg \<in> set (outputs s)"
  using router_reach_no_throw [OF assms] by (simp add: no_throw_def)

theorem router_never_throws_witness:
  "\<nexists>msg. Threw msg \<in> set (outputs (indicate decap_env \<lparr>m_buffer = [0x12, 0, 5, 10, 2, 7], m_iterators = [0, 0, 0, 6, 6, 6, 6, 6]\<rparr>
     (MacAddress 1 2 3 4 5 6) cBroadcastMacAddress (router_init decap_env 0)))"
  by (rule router_never_throws [OF env_ok_decap entity_ok_decap router_reach.indicate [OF router_reach.start]])

text \<open>
  Without that assumption it does throw. A security entity that hands over a default constructed
  payload, as it does when decapsulation fails with an exception, makes a router without strict
  handling of decapsulation results throw: the payload is never found to be empty, and an empty
  chunk packet holds no secured PDU.
\<close>

theorem default_payload_throws:
  assumes "m_security_entity env = Some entity" and "itsGnSnDecapResultHandling (m_mib env) = Non_Strict"
    and "plaintext_payload (decapsulate_packet entity (m_now s) msg) = PlainChunk None empty_chunk"
    and "parse_secured (secured_v2 env) (secured_v3 env) (ctx_parser ctx) = ((n, Some msg), parser)" and "0 < n"
    and "finish_context (ctx\<lparr>ctx_parser := parser\<rparr>) common_default \<noteq> None"
  shows "indicate_secured env ctx bh ll ind s = emit (Threw ''Casting to SecuredPdu failed'') s"
  using assms by (auto simp: indicate_secured_def indicate_secured_cast_def Let_def)

text \<open>C3: Triggering the runtime of a router returns, for every state the router can reach and
  every time that is not in the past: the beacon service, the contention buffer and the
  repeater schedule no callback that is due already, so that afterwards the clock shows the
  given time, no callback is overdue and the state is one the router can reach.\<close>

theorem router_trigger_returns:
  assumes "env_ok env" and "router_reach env s" and "m_now s \<le> tp"
  shows "\<exists>s'. trigger_at (router_run env) tp s = Some s' \<and> m_now s' = tp
    \<and> list_all (\<lambda>e. tp < fst e) (m_queue s') \<and> router_reach env s'"
proof -
  obtain s' where s': "trigger_at (router_run env) tp s = Some s'" "m_now s' = tp" "expired_count s' = 0"
    using trigger_at_result [OF assms(1) router_reach_ok [OF assms(1,2)] assms(3)] by blast
  have "list_all (\<lambda>e. tp < fst e) (m_queue s')"
    using s'(2,3) by (simp add: expired_count_def filter_empty_conv list_all_iff not_le)
  then show ?thesis using s' router_reach.trigger [OF assms(2) s'(1)] by blast
qed

theorem router_trigger_returns_witness:
  "\<exists>s'. trigger_at (router_run sample_env) 5000000 (router_init sample_env 0) = Some s' \<and> m_now s' = 5000000
    \<and> list_all (\<lambda>e. 5000000 < fst e) (m_queue s') \<and> router_reach sample_env s'"
  by (rule router_trigger_returns [OF env_ok_sample router_reach.start])
    (simp add: router_init_def Let_def mib_default_def)

end
