(* ===== verification/RouterFwd.thy ===== *)
theory RouterFwd
  imports RouterReach
begin

text \<open>
  What the forwarding algorithms and the beacon service of the router decide
  (\<open>greedy_forwarding\<close>, \<open>timeout_cbf\<close> and \<open>on_beacon_timer_expired\<close> of
  \<open>vanetza/geonet/router.cpp\<close>).
\<close>

subsection \<open>Greedy forwarding\<close>

definition closer_neighbours :: "(GeodeticPosition \<Rightarrow> real) \<Rightarrow> real \<Rightarrow> LocationTableEntry list \<Rightarrow> LocationTableEntry list" where
  "closer_neighbours to_dest self es =
     filter (\<lambda>e. m_has_position_vector e \<and> to_dest (lpv_position (m_position_vector e)) < self) es"

lemma most_forward_spec:
  "case closer_neighbours to_dest (snd mfr) es of
     [] \<Rightarrow> most_forward to_dest es mfr = mfr
   | c # cs \<Rightarrow> \<exists>e\<in>set (c # cs). most_forward to_dest es mfr = (link_layer_address e, to_dest (lpv_position (m_position_vector e)))
       \<and> list_all (\<lambda>e'. to_dest (lpv_position (m_position_vector e)) \<le> to_dest (lpv_position (m_position_vector e'))) (c # cs)"
proof (induction es arbitrary: mfr)
  case Nil
  then show ?case by (simp add: closer_neighbours_def)
next
  case (Cons e es)
  let ?d = "\<lambda>e. to_dest (lpv_position (m_position_vector e))"
  show ?case
  proof (cases "m_has_position_vector e \<and> ?d e < snd mfr")
    case False
    then have cm: "closer_neighbours to_dest (snd mfr) (e # es) = closer_neighbours to_dest (snd mfr) es"
      "most_forward to_dest (e # es) mfr = most_forward to_dest es mfr" by (auto simp: closer_neighbours_def)
    show ?thesis using Cons.IH [of mfr] unfolding cm .
  next
    case True
    let ?m = "(link_layer_address e, ?d e)"
    have m: "most_forward to_dest (e # es) mfr = most_forward to_dest es ?m" using True by simp
    have c: "closer_neighbours to_dest (snd mfr) (e # es) = e # closer_neighbours to_dest (snd mfr) es"
      using True by (simp add: closer_neighbours_def)
    show ?thesis
    proof (cases "closer_neighbours to_dest (?d e) es")
      case Nil
      then have "\<forall>e'\<in>set (closer_neighbours to_dest (snd mfr) es). ?d e \<le> ?d e'"
        by (auto simp: closer_neighbours_def filter_empty_conv not_less)
      moreover have "most_forward to_dest es ?m = ?m" using Cons.IH [of ?m] Nil by simp
      ultimately show ?thesis unfolding c m by (simp add: list_all_iff)
    next
      case (Cons f fs)
      have "\<exists>e'\<in>set (f # fs). most_forward to_dest es ?m = (link_layer_address e', ?d e') \<and> list_all (\<lambda>e''. ?d e' \<le> ?d e'') (f # fs)"
        using Cons.IH [of ?m] unfolding snd_conv Cons list.case .
      then obtain e' where e': "e' \<in> set (f # fs)" "most_forward to_dest es ?m = (link_layer_address e', ?d e')"
        "list_all (\<lambda>e''. ?d e' \<le> ?d e'') (f # fs)" by blast
      have in': "e' \<in> set (closer_neighbours to_dest (?d e) es)" using e'(1) Cons by simp
      then have lt: "?d e' < ?d e" "e' \<in> set (closer_neighbours to_dest (snd mfr) es)"
        using True by (auto simp: closer_neighbours_def)
      have "?d e' \<le> ?d x" if "x \<in> set (closer_neighbours to_dest (snd mfr) es)" for x
        using e'(3) that lt(1) unfolding Cons [symmetric] list_all_iff
        by (cases "?d x < ?d e") (auto simp: closer_neighbours_def)
      then show ?thesis unfolding c m using e'(2) lt by (auto simp: list_all_iff)
    qed
  qed
qed

text \<open>C18: Greedy forwarding hands a packet to the neighbour whose known position is closest to the
  centre of the destination area, provided that one is strictly closer than the router itself.
  If no neighbour is closer, the packet is buffered when its traffic class asks for
  store-carry-forward, and broadcast otherwise; the packet is never discarded.\<close>

theorem greedy_forwarding_best:
  "let dest = gbc_position (extended (pdu p));
       own = geo_distance env dest (local_position s);
       to_dest = (\<lambda>e. geo_distance env dest (lpv_position (m_position_vector e)));
       closer = closer_neighbours (geo_distance env dest) own (neighbours (m_now s) (m_location_table s))
   in case closer of
        [] \<Rightarrow> greedy_forwarding env p s =
          (if store_carry_forward (traffic_class_field (common (pdu p)))
           then (Buffered, bc_push (BufferedGbc \<lparr>pdu = pdu p, payload_of = payload_of p, action = GreedyAgain (action p)\<rparr>) s)
           else (Valid p cBroadcastMacAddress, s))
      | _ # _ \<Rightarrow> \<exists>e\<in>set closer. greedy_forwarding env p s = (Valid p (link_layer_address e), s)
          \<and> to_dest e < own \<and> list_all (\<lambda>e'. to_dest e \<le> to_dest e') closer"
proof -
  let ?dest = "gbc_position (extended (pdu p))"
  let ?own = "geo_distance env ?dest (local_position s)"
  let ?closer = "closer_neighbours (geo_distance env ?dest) ?own (neighbours (m_now s) (m_location_table s))"
  note m = most_forward_spec [where to_dest = "geo_distance env ?dest" and mfr = "(mac_zero, ?own)"
      and es = "neighbours (m_now s) (m_location_table s)", unfolded snd_conv]
  show ?thesis
  proof (cases ?closer)
    case Nil
    with m show ?thesis by (simp add: greedy_forwarding_def)
  next
    case (Cons c cs)
    let ?d = "\<lambda>e. geo_distance env ?dest (lpv_position (m_position_vector e))"
    from m [unfolded Cons list.case] obtain e where e: "e \<in> set (c # cs)"
      "most_forward (geo_distance env ?dest) (neighbours (m_now s) (m_location_table s)) (mac_zero, ?own) = (link_layer_address e, ?d e)"
      "list_all (\<lambda>e'. ?d e \<le> ?d e') (c # cs)" by blast
    have "e \<in> set ?closer" using e(1) unfolding Cons .
    then have lt: "?d e < ?own" by (simp add: closer_neighbours_def)
    then have "greedy_forwarding env p s = (Valid p (link_layer_address e), s)"
      by (simp add: greedy_forwarding_def Let_def e(2))
    then show ?thesis using e(1,3) lt unfolding Let_def Cons list.case by blast
  qed
qed

subsection \<open>Contention timeouts\<close>

text \<open>C21: With a positive maximum communication range and a minimum time that is not above the
  maximum time, the contention timeout lies between the minimum and the maximum time, is the
  maximum without progress and the minimum at or beyond the maximum communication range, and
  in between shrinks linearly with the progress. It never grows with the progress, and of two
  contenders within the range the one further ahead has the strictly smaller timeout, if the
  minimum time is below the maximum time. Times and distances are exact here.\<close>

theorem timeout_cbf_bounds:
  assumes "0 < itsGnDefaultMaxCommunicationRange mib" and "itsGnCbfMinTime mib \<le> itsGnCbfMaxTime mib"
  shows "itsGnCbfMinTime mib \<le> timeout_cbf_progress mib x \<and> timeout_cbf_progress mib x \<le> itsGnCbfMaxTime mib
    \<and> (x \<le> 0 \<longrightarrow> timeout_cbf_progress mib x = itsGnCbfMaxTime mib)
    \<and> (itsGnDefaultMaxCommunicationRange mib \<le> x \<longrightarrow> timeout_cbf_progress mib x = itsGnCbfMinTime mib)
    \<and> (0 \<le> x \<and> x \<le> itsGnDefaultMaxCommunicationRange mib \<longrightarrow> (itsGnCbfMaxTime mib - timeout_cbf_progress mib x)
          * itsGnDefaultMaxCommunicationRange mib = (itsGnCbfMaxTime mib - itsGnCbfMinTime mib) * x)
    \<and> (x \<le> y \<longrightarrow> timeout_cbf_progress mib y \<le> timeout_cbf_progress mib x)
    \<and> (itsGnCbfMinTime mib < itsGnCbfMaxTime mib \<and> 0 \<le> x \<and> x < y \<and> y \<le> itsGnDefaultMaxCommunicationRange mib
        \<longrightarrow> timeout_cbf_progress mib y < timeout_cbf_progress mib x)"
proof -
  define r where "r = itsGnDefaultMaxCommunicationRange mib"
  define lo where "lo = itsGnCbfMinTime mib"
  define hi where "hi = itsGnCbfMaxTime mib"
  define f where "f z = hi + (lo - hi) / r * z" for z
  have a: "0 < r" "lo \<le> hi" using assms by (simp_all add: r_def lo_def hi_def)
  have t: "timeout_cbf_progress mib z = f (max 0 (min r z))" for z
    using a by (simp add: timeout_cbf_progress_def Let_def r_def [symmetric] lo_def [symmetric] hi_def [symmetric] f_def min_def max_def)
  have mono: "f z \<le> f w" if "w \<le> z" for w z
    using mult_left_mono_neg [OF that, of "(lo - hi) / r"] a by (simp add: f_def divide_nonpos_pos)
  have strict: "f z < f w" if "w < z" "lo < hi" for w z
    using mult_strict_left_mono_neg [OF that(1), of "(lo - hi) / r"] a that(2) by (simp add: f_def divide_neg_pos)
  have linear: "(hi - f z) * r = (hi - lo) * z" for z using a by (simp add: f_def field_simps)
  have ends: "f 0 = hi" "f r = lo" using a by (simp_all add: f_def)
  have inside: "timeout_cbf_progress mib z = f z" if "0 \<le> z" "z \<le> r" for z using that by (simp add: t)
  have "timeout_cbf_progress mib y < timeout_cbf_progress mib x" if "lo < hi" "0 \<le> x" "x < y" "y \<le> r"
    using strict [of x y] inside [of x] inside [of y] that by simp
  moreover have "(hi - timeout_cbf_progress mib x) * r = (hi - lo) * x" if "0 \<le> x" "x \<le> r"
    using linear inside [OF that] by simp
  moreover have "lo \<le> timeout_cbf_progress mib x \<and> timeout_cbf_progress mib x \<le> hi \<and> (x \<le> 0 \<longrightarrow> timeout_cbf_progress mib x = hi)
      \<and> (r \<le> x \<longrightarrow> timeout_cbf_progress mib x = lo) \<and> (x \<le> y \<longrightarrow> timeout_cbf_progress mib y \<le> timeout_cbf_progress mib x)"
    unfolding t
    using mono [of "max 0 (min r x)" r] mono [of 0 "max 0 (min r x)"] mono [of "max 0 (min r x)" "max 0 (min r y)"] ends a
    by (simp add: max_def min_def)
  ultimately show ?thesis unfolding r_def lo_def hi_def by blast
qed

theorem timeout_cbf_bounds_witness:
  "timeout_cbf_progress mib_default 500 = 101 / 2000 \<and> timeout_cbf_progress mib_default 700 < timeout_cbf_progress mib_default 500
   \<and> timeout_cbf_progress mib_default 0 = 1 / 10 \<and> timeout_cbf_progress mib_default 1500 = 1 / 1000"
proof -
  note t = timeout_cbf_bounds [of mib_default]
  have "0 < itsGnDefaultMaxCommunicationRange mib_default" "itsGnCbfMinTime mib_default \<le> itsGnCbfMaxTime mib_default"
    by (simp_all add: mib_default_def)
  from t [OF this, of 500 700] t [OF this, of 0 0] t [OF this, of 1500 1500] show ?thesis
    by (simp add: mib_default_def)
qed

subsection \<open>Beacons\<close>

lemma own_reset:
  "own ScopeRouter (m_queue (reset_beacon_timer env s)) =
     [(m_now s + clock_cast (itsGnBeaconServiceRetransmitTimer (m_mib env)
         + random_jitter env (m_random_gen s) * itsGnBeaconServiceMaxJitter (m_mib env)), OnBeaconTimer, Some ScopeRouter)]"
  unfolding reset_beacon_timer_def reset_beacon_timer_in_def Let_def schedule_in_def schedule_at_def own_def
  by (simp add: cancel_def filter_insert_upper_alone case_prod_beta)

lemma m_random_emit [simp]: "m_random_gen (pass_down_request v r pd p s) = m_random_gen s" "m_now (pass_down_request v r pd p s) = m_now s"
  by (simp_all add: pass_down_request_def split: option.split)

text \<open>C20: When the beacon timer expires, precisely one next beacon is scheduled, after the
  retransmit time plus jitter, whether or not the position is known yet. The only exceptions
  are disabled beaconing and a beacon that the security entity does not sign: then no beacon
  is scheduled any more.\<close>

theorem beacon_rescheduled_iff:
  assumes "own ScopeRouter (m_queue s) = []"
  shows "own ScopeRouter (m_queue (on_beacon_timer_expired env s)) =
    (let pd = create_beacon_pdu env s in
     if vanetzaDisableBeaconing (m_mib env)
        \<or> timestamp (m_local_position_vector s) \<noteq> 0 \<and> itsGnSecurity (m_mib env)
          \<and> encap_packet env aid_GN_MGMT [] [] HV_Beacon
              (pd\<lparr>basic := (basic pd)\<lparr>bh_next_header := NHB_Secured\<rparr>\<rparr>) empty_chunk s = None
     then []
     else [(m_now s + clock_cast (itsGnBeaconServiceRetransmitTimer (m_mib env)
         + random_jitter env (m_random_gen s) * itsGnBeaconServiceMaxJitter (m_mib env)), OnBeaconTimer, Some ScopeRouter)])"
  using assms by (auto simp: on_beacon_timer_expired_def Let_def own_reset pass_down_def split: option.split)

theorem beacon_rescheduled_iff_witness:
  "own ScopeRouter (m_queue (on_beacon_timer_expired sample_env
      ((router_init sample_env 0)\<lparr>m_queue := [], m_local_position_vector := lpv_default\<lparr>timestamp := 1\<rparr>\<rparr>)))
   = [(3375000, OnBeaconTimer, Some ScopeRouter)]"
proof -
  let ?s = "(router_init sample_env 0)\<lparr>m_queue := [], m_local_position_vector := lpv_default\<lparr>timestamp := 1\<rparr>\<rparr>"
  have "m_now ?s = 0" by (simp add: router_init_def Let_def mib_default_def)
  moreover have "own ScopeRouter (m_queue ?s) = []" by (simp add: own_def)
  ultimately show ?thesis
    using beacon_rescheduled_iff [of ?s sample_env]
    by (simp add: mib_default_def clock_cast_def trunc_real_def)
qed

end
