(* ===== verification/RouterLog.thy ===== *)
theory RouterLog
  imports RouterFwd
begin

text \<open>
  What the router (\<open>vanetza/geonet/router.cpp\<close>) passes up: only reception does, at the end of
  the processing of an extended header, and with the report of the security entity.
\<close>

subsection \<open>Growth of the log\<close>

definition logs :: "(DataIndication \<Rightarrow> bool) \<Rightarrow> Router \<Rightarrow> Router \<Rightarrow> bool" where
  "logs P s s' \<longleftrightarrow> (\<exists>os. outputs s' = outputs s @ os \<and> list_all (\<lambda>x. case x of PassUp ind _ \<Rightarrow> P ind | _ \<Rightarrow> True) os)"

lemma logs_same: "outputs s' = outputs s \<Longrightarrow> logs P s s'"
  unfolding logs_def by (intro exI [of _ "[]"]) simp

lemma logs_trans:
  assumes "logs P s s'" and "logs P s' s''"
  shows "logs P s s''"
proof -
  obtain os where "outputs s' = outputs s @ os" "list_all (\<lambda>x. case x of PassUp ind _ \<Rightarrow> P ind | _ \<Rightarrow> True) os"
    using assms(1) unfolding logs_def by blast
  moreover obtain os' where "outputs s'' = outputs s' @ os'" "list_all (\<lambda>x. case x of PassUp ind _ \<Rightarrow> P ind | _ \<Rightarrow> True) os'"
    using assms(2) unfolding logs_def by blast
  ultimately show ?thesis unfolding logs_def by (intro exI [of _ "os @ os'"]) simp
qed

lemma logs_mono:
  assumes "logs P s s'" and "\<And>ind. P ind \<Longrightarrow> Q ind"
  shows "logs Q s s'"
proof -
  obtain os where os: "outputs s' = outputs s @ os" "list_all (\<lambda>x. case x of PassUp ind _ \<Rightarrow> P ind | _ \<Rightarrow> True) os"
    using assms(1) unfolding logs_def by blast
  have "list_all (\<lambda>x. case x of PassUp ind _ \<Rightarrow> Q ind | _ \<Rightarrow> True) os"
    using os(2) by (rule list.pred_mono_strong) (use assms(2) in \<open>simp split: Output.splits\<close>)
  then show ?thesis unfolding logs_def using os(1) by blast
qed

lemma logs_emit: "(case x of PassUp ind _ \<Rightarrow> P ind | _ \<Rightarrow> True) \<Longrightarrow> logs P s (emit x s)"
  unfolding logs_def by (intro exI [of _ "[x]"]) simp

lemma logs_outputs: "outputs s1 = outputs s \<Longrightarrow> outputs s1' = outputs s' \<Longrightarrow> logs P s1 s1' = logs P s s'"
  by (simp add: logs_def)

lemma logs_hooks: "logs P s (packet_dropped r s)" "logs P s (forwarding_stopped r' s)"
  by (simp_all add: packet_dropped_def forwarding_stopped_def logs_emit)

lemma logs_pass_down: "logs P s (pass_down_request v r pd p s)"
  by (simp add: pass_down_request_def logs_emit split: option.split)

lemma outputs_bc_push [simp]: "outputs (bc_push d s) = outputs s"
  by (simp add: bc_push_def)

lemma queue_frame_outputs: "queue_frame s s' \<Longrightarrow> outputs s' = outputs (s :: Router)"
  unfolding queue_frame_def by auto

lemma outputs_cbf [simp]:
  "outputs (router_cbf_add p t s) = outputs s" "outputs (snd (router_cbf_remove i s)) = outputs s"
  "outputs (router_cbf_update i t s) = outputs s"
  using queue_frame_outputs [OF queue_frame_add] queue_frame_outputs [OF queue_frame_remove]
  by (simp_all add: router_cbf_add_def router_cbf_remove_def router_cbf_update_def Let_def case_prod_beta)

subsection \<open>Sending and forwarding pass nothing up\<close>

lemma logs_mac_action: "logs P s (run_mac_action env m pd p mac s)"
  by (cases m) (auto simp: Let_def pass_down_def logs_pass_down logs_same split: option.split)

lemma logs_next_hop: "logs P s (next_hop_process env nh s)"
  by (auto simp: next_hop_process_def logs_mac_action logs_same split: NextHop.split)

lemma logs_shb_transmit: "logs P s (shb_transmit env pk s)"
proof -
  have "logs P s (reset_beacon_timer env (pass_down v mac pd p s))" for v mac and pd :: "'a ExtendedPdu" and p
    using logs_pass_down [of P s v] by (simp add: pass_down_def logs_def)
  then show ?thesis by (auto simp: shb_transmit_def Let_def logs_same split: option.split)
qed

lemma logs_tsb_transmit: "logs P s (tsb_transmit env pk s)"
  by (simp add: tsb_transmit_def logs_pass_down)

lemma logs_greedy: "logs P s (snd (greedy_forwarding env p s))"
  by (simp add: greedy_forwarding_def Let_def case_prod_beta logs_same)

lemma logs_selection: "logs P s (snd (forwarding_algorithm_selection env p ll s))"
proof -
  have "outputs (snd (non_area_contention_based_forwarding env p se s)) = outputs s" for se
    by (simp add: non_area_contention_based_forwarding_def Let_def case_prod_beta split: option.split)
  moreover have "outputs (snd (area_contention_based_forwarding env p se s)) = outputs s" for se
    by (simp add: area_contention_based_forwarding_def Let_def case_prod_beta split: option.split)
  moreover have "outputs (snd (greedy_forwarding env q s)) = outputs s" for q
    by (simp add: greedy_forwarding_def Let_def case_prod_beta)
  moreover from this have "outputs (snd (area_advanced_forwarding env p ll s)) = outputs s"
    by (simp add: area_advanced_forwarding_def Let_def case_prod_beta split: option.split)
  ultimately show ?thesis
    by (simp add: forwarding_algorithm_selection_def logs_hooks logs_emit logs_same
        split: option.split BroadcastForwarding.split UnicastForwarding.split)
qed

lemma logs_gbc_action: "logs P s (run_gbc_action env pk s)"
  using logs_trans [OF logs_selection logs_next_hop] logs_trans [OF logs_greedy logs_next_hop]
  by (simp add: run_gbc_action.simps case_prod_beta Let_def logs_mac_action split: GbcAction.split)

lemma logs_process_data: "logs P s (process_data env d s)"
  by (cases d) (simp_all add: logs_shb_transmit logs_gbc_action logs_tsb_transmit)

lemma logs_fold: "(\<And>x s. logs P s (f x s)) \<Longrightarrow> logs P s (fold f xs s)"
  by (induction xs arbitrary: s) (auto simp: logs_same intro: logs_trans)

lemma logs_flush:
  "logs P s (flush_broadcast_forwarding_buffer env s)" "logs P s (flush_unicast_forwarding_buffer env s)"
proof -
  have l: "logs P s (fold (process_data env) ds s')" if "outputs s' = outputs s" for ds s'
    using logs_trans [OF logs_same [OF that] logs_fold [OF logs_process_data]] .
  show "logs P s (flush_broadcast_forwarding_buffer env s)" "logs P s (flush_unicast_forwarding_buffer env s)"
    by (simp_all add: flush_broadcast_forwarding_buffer_def flush_unicast_forwarding_buffer_def case_prod_beta Let_def l)
qed

subsection \<open>Receiver operations pass nothing up themselves\<close>

lemma outputs_detect [simp]:
  "outputs (detect_duplicate_address env a m s) = outputs s"
  "outputs (snd (detect_duplicate_packet env a n s)) = outputs s"
  "outputs (update_location pv f s) = outputs s"
  "outputs (snd (decide_pass_up env w g s)) = outputs s"
  by (simp_all add: detect_duplicate_address_def Let_def set_address_def detect_duplicate_packet_def case_prod_beta
      update_location_def decide_pass_up_def)

lemma logs_shb: "logs P s (snd (process_shb env pd p ll s))"
  by (simp add: process_shb_def Let_def logs_same)

lemma logs_beacon: "logs P s (snd (process_beacon env pd p ll s))"
  by (simp add: process_beacon_def Let_def logs_same)

text \<open>Both multi-hop operations start by updating the location table and flushing the unicast buffer.\<close>

lemma logs_after_flush:
  assumes "outputs s' = outputs s" and "\<And>s. logs P s (f s)"
  shows "logs P s (f (flush_unicast_forwarding_buffer env s'))"
  by (rule logs_trans [OF logs_trans [OF logs_same [OF assms(1)] logs_flush(2)] assms(2)])

lemma logs_push: "logs P s (bc_push d s)"
  by (simp add: logs_same)

lemma logs_tsb: "logs P s (snd (process_tsb env pd p ll s))"
proof -
  note f = logs_after_flush [of _ s P]
  have "logs P s (forwarding_stopped r (flush_unicast_forwarding_buffer env s'))"
    "logs P s (bc_push d (flush_unicast_forwarding_buffer env s'))"
    "logs P s (tsb_transmit env pk (flush_unicast_forwarding_buffer env s'))" if "outputs s' = outputs s" for r d pk s'
    by (rule f [OF that], rule logs_hooks logs_push logs_tsb_transmit)+
  then show ?thesis
    by (simp add: process_tsb_def Let_def case_prod_beta logs_same split: option.split)
qed

lemma logs_gbc: "logs P s (snd (process_gbc env pd p ll s))"
proof (cases "gbc_destination (header_type (common pd)) (extended pd)")
  case None
  then show ?thesis by (simp add: process_gbc_def logs_emit)
next
  case (Some dest)
  let ?gbc = "extended pd" and ?mib = "m_mib env"
  let ?src = "gn_addr (gbc_source_position ?gbc)"
  have d: "logs P s (snd (decide_pass_up env w g s'))" if "logs P s s'" for w g s'
    using that by (simp add: logs_def)
  define w where "w = inside_or_at_border (geo_local_cartesian env) dest (local_position s)"
  define c where "c = (if w then itsGnAreaForwardingAlgorithm ?mib \<in> {BF_Unspecified, BF_SIMPLE}
            else itsGnNonAreaForwardingAlgorithm ?mib \<in> {UF_Unspecified, UF_Greedy})"
  obtain dup s1 where 1: "(if c then detect_duplicate_packet env ?src (gbc_sequence_number ?gbc) s else (False, s)) = (dup, s1)" by fastforce
  then have s1: "outputs s1 = outputs s"
    using outputs_detect(2) [of env ?src "gbc_sequence_number ?gbc" s] by (cases c) (simp_all del: outputs_detect)
  define s2 where "s2 = (if vanetzaMultiHopDuplicateAddressDetection ?mib then detect_duplicate_address env ?src (ll_sender ll) s1 else s1)"
  define s3 where "s3 = update_location (gbc_source_position ?gbc)
     ((if has_entry (m_now s) ?src (m_location_table s) then id else set_neighbour False)
      \<circ> update_pdr (m_now s) (received_size p) (itsGnMaxPacketDataRateEmaBeta ?mib)) s2"
  define s4 where "s4 = flush_unicast_forwarding_buffer env s3"
  have "outputs s3 = outputs s" by (simp add: s3_def s2_def s1)
  then have f: "logs P s (f s4)" if "\<And>s. logs P s (f s)" for f unfolding s4_def by (rule logs_after_flush [OF _ that])
  have run: "logs P s (forwarding_stopped r s4)" "logs P s (bc_push b s4)" "logs P s (run_gbc_action env pk s4)" for r b pk
    by (rule f, rule logs_hooks logs_push logs_gbc_action)+
  show ?thesis
    unfolding process_gbc_def Some option.case Let_def w_def [symmetric] c_def [symmetric] 1 prod.case
      s2_def [symmetric] s3_def [symmetric] s4_def [symmetric]
    by (simp add: case_prod_beta d run logs_same s1 split: option.split)
qed

lemma logs_variant: "logs P s (snd (fst (indicate_variant env bh ch sec ll ind packet hv s)))"
  by (cases hv) (simp_all add: indicate_variant_def logs_shb logs_beacon logs_tsb logs_gbc)

subsection \<open>Indications carry the security report\<close>

lemma report_variant [simp]:
  "ind_security_report (snd (indicate_variant env bh ch sec ll ind packet hv s)) = ind_security_report ind"
  by (cases hv) (simp_all add: indicate_variant_def)

lemma logs_pass_up: "P ind \<Longrightarrow> logs P s (pass_up env ind packet s)"
  by (simp add: pass_up_def logs_emit logs_same split: option.split)

lemma logs_header:
  "logs (\<lambda>i. ind_security_report i = ind_security_report ind) s (indicate_header env bh ch sec ll packet hv ind s)"
  by (auto simp: indicate_header_def case_prod_beta Let_def logs_hooks logs_variant
      intro!: logs_trans [OF logs_variant logs_pass_up])

lemma logs_extended:
  "logs (\<lambda>i. ind_security_report i = ind_security_report ind) s (indicate_extended env ctx bh ch sec ll ind s)"
  by (auto simp: indicate_extended_def case_prod_beta Let_def logs_hooks logs_emit logs_header split: option.split)

lemma logs_with_common:
  assumes "\<And>ind s. logs (\<lambda>i. ind_security_report i = ind_security_report ind) s (extended_step ind s)"
  shows "logs (\<lambda>i. ind_security_report i = ind_security_report ind) s (indicate_with_common env bh ch extended_step ind s)"
proof -
  have "logs (\<lambda>i. ind_security_report i = ind_security_report ind) s (extended_step ind'
      (flush_broadcast_forwarding_buffer env (s\<lparr>m_location_table := t\<rparr>)))"
    if "ind_security_report ind' = ind_security_report ind" for ind' t
    using logs_trans [OF logs_trans [OF logs_same logs_flush(1)] assms [of ind']] that by simp
  then show ?thesis
    by (auto simp: indicate_with_common_def Let_def logs_hooks)
qed

lemma logs_common:
  "logs (\<lambda>i. ind_security_report i = ind_security_report ind) s (indicate_common env ctx bh sec ll ind s)"
  by (auto simp: indicate_common_def case_prod_beta Let_def logs_hooks split: option.split
      intro!: logs_with_common logs_extended)

lemma logs_secured_cast:
  "logs (\<lambda>i. ind_security_report i = ind_security_report ind) s (indicate_secured_cast env parent sp packet bh msg ll ind s)"
  by (auto simp: indicate_secured_cast_def logs_emit split: option.split intro!: logs_with_common logs_header)

end
