(* ===== verification/RouterE2E.thy ===== *)
theory RouterE2E
  imports RouterLog
begin

text \<open>
  From the request at one router to the indication at another: the headers written by
  \<open>vanetza/geonet/router.cpp\<close> are those it reads, and the payload arrives unchanged.
\<close>

subsection \<open>Reception of a single-hop broadcast\<close>

lemma indicate_common_shb:
  assumes "ctx_parser ctx = \<lparr>archive = serialize_common ch @ serialize_variant (HV_Shb shb) @ pl, archive_good = g, read_bytes = n\<rparr>"
    and "wf_common ch" and "wf_shb shb" and "header_type ch = TSB_Single_Hop" and "hop_limit bh \<le> maximum_hop_limit ch"
    and "finish_context (ctx\<lparr>ctx_parser := \<lparr>archive = pl, archive_good = g, read_bytes = n + 36\<rparr>\<rparr>) ch = Some packet"
    and "cohesive_size_range Transport max_osi_layer packet = unat (payload ch)"
    and "m_transport_ifcs env (protocol_of_next_header (ch_next_header ch))"
  shows "\<exists>s'. indicate_common env ctx bh sec ll ind s = emit (PassUp (ind\<lparr>ind_traffic_class := traffic_class_field ch,
      ind_upper_protocol := Some (protocol_of_next_header (ch_next_header ch)), ind_transport_type := Some SHB,
      ind_source_position := Some (short_position_vector (shb_source_position shb))\<rparr>) (Cohesive packet)) s' \<and> logs (\<lambda>_. False) s s'"
proof -
  let ?p1 = "\<lparr>archive = serialize_variant (HV_Shb shb) @ pl, archive_good = g, read_bytes = n + 8\<rparr>"
  let ?p2 = "\<lparr>archive = pl, archive_good = g, read_bytes = n + 36\<rparr>"
  let ?ind = "ind\<lparr>ind_traffic_class := traffic_class_field ch, ind_upper_protocol := Some (protocol_of_next_header (ch_next_header ch))\<rparr>"
  have c: "parse_common (ctx_parser ctx) = ((8, Some ch), ?p1)"
    by (simp add: assms(1) parse_common_def parse_with_def common_codec.des_ser [OF assms(2)])
  have "announces (header_type ch) (HV_Shb shb)" "wf_variant (HV_Shb shb)" using assms(3,4) by simp_all
  then have e: "parse_extended (header_type ch) ?p1 = ((28, Some (HV_Shb shb)), ?p2)"
    using parse_extended_serialize [of "header_type ch" "HV_Shb shb" pl g "n + 8"] by simp
  let ?pd = "\<lparr>basic = bh, common = ch, extended = shb, secured = sec\<rparr>"
  let ?s = "flush_broadcast_forwarding_buffer env (s\<lparr>m_location_table := drop_expired (m_now s) (m_location_table s)\<rparr>)"
  obtain s1 where s1: "process_shb env ?pd packet ll ?s = (True, s1)" by (simp add: process_shb_def Let_def)
  have "logs (\<lambda>_. False) ?s s1" using logs_shb [of "\<lambda>_. False" ?s env ?pd packet ll] s1 by simp
  moreover have "logs (\<lambda>_. False) s ?s"
    using logs_flush(1) [of "\<lambda>_. False" "s\<lparr>m_location_table := drop_expired (m_now s) (m_location_table s)\<rparr>" env] by (simp add: logs_def)
  ultimately have l: "logs (\<lambda>_. False) s s1" by (blast intro: logs_trans)
  have "indicate_extended env (ctx\<lparr>ctx_parser := ?p1\<rparr>) bh ch sec ll ?ind ?s = pass_up env
      (?ind\<lparr>ind_transport_type := Some SHB, ind_source_position := Some (short_position_vector (shb_source_position shb))\<rparr>) packet s1"
    using assms(6,7) by (simp add: indicate_extended_def indicate_header_def e [simplified] indicate_variant_def s1)
  moreover have "indicate_common env ctx bh sec ll ind s = indicate_extended env (ctx\<lparr>ctx_parser := ?p1\<rparr>) bh ch sec ll ?ind ?s"
    unfolding indicate_common_def indicate_with_common_def c Let_def prod.case option.case using assms(5) by (simp add: not_less)
  ultimately show ?thesis using assms(8) l by (auto simp: pass_up_def)
qed

lemma cohesive_network [simp]: "cohesive_layer (cohesive_packet bs Network) Network = bs"
  by (simp add: cohesive_layer_def cohesive_packet_def reset_iterators_def max_osi_layer_def numeral_eq_Suc)

lemma network_boundary:
  assumes "n = length hdr"
  shows "\<exists>q. set_boundary Network n (cohesive_packet (hdr @ pl) Network) = Some q
    \<and> cohesive_size_range Transport max_osi_layer q = length pl \<and> cohesive_bytes Transport max_osi_layer q = pl"
proof -
  let ?p = "cohesive_packet (hdr @ pl) Network"
  let ?q = "?p\<lparr>m_iterators := (m_iterators ?p)[3 := n]\<rparr>"
  have it: "m_iterators ?q = [0, 0, 0, n, n + length pl, n + length pl, n + length pl, n + length pl]"
    using assms by (simp add: cohesive_packet_def reset_iterators_def max_osi_layer_def numeral_eq_Suc)
  have "set_boundary Network n ?p = Some ?q"
    using assms by (simp add: set_boundary_def cohesive_packet_def reset_iterators_def max_osi_layer_def numeral_eq_Suc
        cohesive_layer_def)
  moreover have "cohesive_size_range Transport max_osi_layer ?q = length pl"
    unfolding cohesive_size_range_def it by (simp add: max_osi_layer_def)
  moreover have "cohesive_bytes Transport max_osi_layer ?q = pl"
    unfolding cohesive_bytes_def it using assms by (simp add: max_osi_layer_def cohesive_packet_def)
  ultimately show ?thesis by blast
qed

lemma finish_unsecured:
  assumes "length pl = unat (payload ch)" and "n = length hdr"
  shows "\<exists>packet. finish_context (\<lparr>ctx_packet = cohesive_packet (hdr @ pl) Network,
      ctx_parser = \<lparr>archive = pl, archive_good = g, read_bytes = n\<rparr>, ctx_parent = None\<rparr>) ch = Some packet
    \<and> cohesive_size_range Transport max_osi_layer packet = unat (payload ch)
    \<and> cohesive_bytes Transport max_osi_layer packet = pl"
proof -
  obtain q where q: "set_boundary Network n (cohesive_packet (hdr @ pl) Network) = Some q"
    "cohesive_size_range Transport max_osi_layer q = length pl" "cohesive_bytes Transport max_osi_layer q = pl"
    using network_boundary [OF assms(2)] by blast
  then have "trim Transport (unat (payload ch)) q = q" using assms(1) by (simp add: trim_def)
  then show ?thesis using q assms(1) by (intro exI [of _ q]) (simp add: finish_context_def)
qed

subsection \<open>The packet a request sends\<close>

lemma dcc_wire: "serialize_shb h = serialize_shb (h\<lparr>dcc := DccRaw (dcc_field_raw (dcc h))\<rparr>)"
  by (simp add: serialize_shb_def serialize_dcc_def)

text \<open>The protocol data unit of an accepted request, with the position at the time of the request.\<close>

definition shb_request_pdu :: "Environment \<Rightarrow> DataRequest \<Rightarrow> DownPacket \<Rightarrow> Router \<Rightarrow> ShbHeader ExtendedPdu" where
  "shb_request_pdu env req p s =
     (let pd = create_shb_pdu env req s in pd\<lparr>common := (common pd)\<lparr>payload := of_nat (chunk_size p)\<rparr>\<rparr>)"

lemma repeat_request_frame:
  "outputs (repeat_request v p s) = outputs s" "m_now (repeat_request v p s) = m_now s"
  "m_local_position_vector (repeat_request v p s) = m_local_position_vector s"
  "m_location_table (repeat_request v p s) = m_location_table s"
  by (simp_all add: repeat_request_def repeater_add_def Let_def schedule_at_def split: option.split)

lemma shb_transmit_unsecured:
  assumes "\<not> itsGnSecurity (m_mib env)" and "local_ok env (pdu pk)" and "shb_source_position (extended (pdu pk)) = m_local_position_vector s"
  shows "outputs (shb_transmit env pk s) = outputs s @ [PassDown \<lparr>dr_ether_type = geonet_ether_type,
      dr_source = mid (gn_addr (m_local_position_vector s)), dr_destination = cBroadcastMacAddress,
      dr_dcc_profile = map_tc_onto_profile (traffic_class_field (common (pdu pk))),
      dr_lifetime = clock_cast (lifetime_decode (lifetime (basic (pdu pk))))\<rparr>
      ((payload_of pk)(Network := serialize_pdu HV_Shb (pdu pk)))]"
proof -
  have eq: "(pdu pk)\<lparr>extended := (extended (pdu pk))\<lparr>shb_source_position := m_local_position_vector s\<rparr>\<rparr> = pdu pk"
    using assms(3) by simp
  have "fwd_ok (pdu pk) (payload_of pk)" using assms(1,2) by (simp add: fwd_ok_def local_ok_def)
  then show ?thesis using assms(1) unfolding shb_transmit_def Let_def eq encap_if_secured_def
    by (simp add: pass_down_def pass_down_request_eq)
qed

lemma request_shb_transmits:
  assumes "fst (request_shb env req (Some p) s) = Accepted"
    and "\<not> store_carry_forward (request_traffic_class req) \<or> has_neighbours (m_now s) (m_location_table s)"
  obtains S where "snd (request_shb env req (Some p) s)
      = shb_transmit env \<lparr>pdu = shb_request_pdu env req p s, payload_of = p, action = control_info req\<rparr> S"
    and "outputs S = outputs s" and "m_now S = m_now s" and "m_local_position_vector S = m_local_position_vector s"
proof -
  define S where "S = (if repetition req \<noteq> None then repeat_request (ShbDataRequest req) p s else s)"
  have S: "outputs S = outputs s" "m_now S = m_now s" "m_local_position_vector S = m_local_position_vector s"
    "m_location_table S = m_location_table s" by (simp_all add: S_def repeat_request_frame)
  have pd: "create_shb_pdu env req S = create_shb_pdu env req s" by (simp add: create_shb_pdu_def S)
  define r where "r = confirm_xor (confirm_xor Accepted (validate_data_request (m_mib env) req)) (validate_payload (m_mib env) (Some p))"
  have "fst (request_shb env req (Some p) s) = r" by (simp add: request_shb_def Let_def r_def)
  then have r: "r = Accepted" using assms(1) by simp
  have n: "(store_carry_forward (request_traffic_class req) \<and> \<not> has_neighbours (m_now S) (m_location_table S)) = False"
    using assms(2) S(2,4) by simp
  have "snd (request_shb env req (Some p) s)
      = shb_transmit env \<lparr>pdu = shb_request_pdu env req p s, payload_of = p, action = control_info req\<rparr> S"
    unfolding request_shb_def Let_def option.case S_def [symmetric] r_def [symmetric] pd shb_request_pdu_def n
    by (simp add: r)
  then show thesis using S by (intro that)
qed

lemma shb_request_pdu_simps:
  "local_ok env (shb_request_pdu env req p s)" "shb_source_position (extended (shb_request_pdu env req p s)) = m_local_position_vector s"
  "traffic_class_field (common (shb_request_pdu env req p s)) = request_traffic_class req"
  "lifetime (basic (shb_request_pdu env req p s)) = maximum_lifetime req"
  using local_ok_shb [of env req s]
  by (simp_all add: shb_request_pdu_def Let_def local_ok_def create_shb_pdu_def common_of_request_def basic_of_request_def)

lemma request_shb_sends:
  assumes "\<not> itsGnSecurity (m_mib env)" and "fst (request_shb env req (Some p) s) = Accepted"
    and "\<not> store_carry_forward (request_traffic_class req) \<or> has_neighbours (m_now s) (m_location_table s)"
  shows "outputs (snd (request_shb env req (Some p) s)) = outputs s @ [PassDown \<lparr>dr_ether_type = geonet_ether_type,
      dr_source = mid (gn_addr (m_local_position_vector s)), dr_destination = cBroadcastMacAddress,
      dr_dcc_profile = map_tc_onto_profile (request_traffic_class req),
      dr_lifetime = clock_cast (lifetime_decode (maximum_lifetime req))\<rparr>
      (p(Network := serialize_pdu HV_Shb (shb_request_pdu env req p s)))]"
proof -
  let ?pk = "\<lparr>pdu = shb_request_pdu env req p s, payload_of = p, action = control_info req\<rparr>"
  obtain S where S: "snd (request_shb env req (Some p) s) = shb_transmit env ?pk S" "outputs S = outputs s"
    "m_local_position_vector S = m_local_position_vector s" using request_shb_transmits [OF assms(2,3)] by metis
  show ?thesis using shb_transmit_unsecured [OF assms(1), of ?pk S] by (simp add: S shb_request_pdu_simps)
qed

subsection \<open>Delivery\<close>

lemma wf_named [simp]:
  "wf_next_header_basic NHB_Common" "wf_next_header_common (next_header_of_protocol u)" "wf_header_type TSB_Single_Hop"
  by (simp_all add: wf_next_header_basic_def next_header_basic_cast_def wf_header_type_def header_type_cast_def)
    (cases u; simp add: wf_next_header_common_def next_header_common_cast_def)

lemma protocol_round_trip [simp]: "protocol_of_next_header (next_header_of_protocol u) = u"
  by (cases u) simp_all

lemma indicate_shb:
  assumes "wf_basic bh" and "bh_next_header bh = NHB_Common" and "unat (version bh) = itsGnProtocolVersion (m_mib env)"
    and "\<not> itsGnSecurity (m_mib env)" and "wf_common ch" and "wf_shb shb" and "header_type ch = TSB_Single_Hop"
    and "hop_limit bh \<le> maximum_hop_limit ch" and "length pl = unat (payload ch)"
    and "m_transport_ifcs env (protocol_of_next_header (ch_next_header ch))"
  shows "\<exists>s' packet ind. indicate env (cohesive_packet (serialize_basic bh @ serialize_common ch @ serialize_shb shb @ pl) Network) sender dest s
      = emit (PassUp ind (Cohesive packet)) s'
    \<and> cohesive_bytes Transport max_osi_layer packet = pl \<and> logs (\<lambda>_. False) s s'
    \<and> ind = indication_init\<lparr>ind_remaining_packet_lifetime := Some (lifetime bh), ind_remaining_hop_limit := Some (unat (hop_limit bh)),
        ind_security_report := DecapBlank, ind_traffic_class := traffic_class_field ch,
        ind_upper_protocol := Some (protocol_of_next_header (ch_next_header ch)), ind_transport_type := Some SHB,
        ind_source_position := Some (short_position_vector (shb_source_position shb))\<rparr>"
proof -
  let ?hdr = "serialize_basic bh @ serialize_common ch @ serialize_shb shb"
  let ?p = "cohesive_packet (?hdr @ pl) Network"
  let ?p1 = "\<lparr>archive = serialize_common ch @ serialize_variant (HV_Shb shb) @ pl, archive_good = True, read_bytes = 4\<rparr>"
  let ?ctx = "\<lparr>ctx_packet = ?p, ctx_parser = ?p1, ctx_parent = None\<rparr>"
  have b: "parse_basic (parser_init (?hdr @ pl)) = ((4, Some bh), ?p1)"
    using basic_codec.des_ser [OF assms(1), of "serialize_common ch @ serialize_shb shb @ pl"]
    by (simp add: parse_basic_def parse_with_def parser_init_def)
  obtain packet where packet: "finish_context \<lparr>ctx_packet = ?p, ctx_parser = \<lparr>archive = pl, archive_good = True, read_bytes = 40\<rparr>, ctx_parent = None\<rparr> ch = Some packet"
    "cohesive_size_range Transport max_osi_layer packet = unat (payload ch)" "cohesive_bytes Transport max_osi_layer packet = pl"
    using finish_unsecured [OF assms(9), of 40 ?hdr True] by (auto simp: basic_codec.ser_length common_codec.ser_length shb_codec.ser_length)
  let ?ind = "indication_init\<lparr>ind_remaining_packet_lifetime := Some (lifetime bh),
      ind_remaining_hop_limit := Some (unat (hop_limit bh)), ind_security_report := DecapBlank\<rparr>"
  let ?ll = "\<lparr>ll_sender = sender, ll_destination = dest\<rparr>"
  have i: "indicate env ?p sender dest s = indicate_common env ?ctx bh None ?ll ?ind s"
    using assms(2,3,4) b by (simp add: indicate_def indicate_basic_def indication_context_def)
  obtain s' where s': "indicate_common env ?ctx bh None ?ll ?ind s = emit (PassUp (?ind\<lparr>ind_traffic_class := traffic_class_field ch,
      ind_upper_protocol := Some (protocol_of_next_header (ch_next_header ch)), ind_transport_type := Some SHB,
      ind_source_position := Some (short_position_vector (shb_source_position shb))\<rparr>) (Cohesive packet)) s'" "logs (\<lambda>_. False) s s'"
    using indicate_common_shb [of ?ctx ch shb pl True 4 bh packet env None ?ll ?ind s] assms packet by auto
  show ?thesis using trans [OF i s'(1)] s'(2) packet(3) unfolding append_assoc by blast
qed

lemma chunk_bytes_upper:
  "chunk_bytes Transport max_osi_layer p = p Transport @ p Session @ p Presentation @ p Application"
  "chunk_bytes Network max_osi_layer p = p Network @ chunk_bytes Transport max_osi_layer p"
  by (simp_all add: chunk_bytes_def osi_layer_range_def layer_distance_def min_osi_layer_def max_osi_layer_def osi_layers_def
      less_eq_OsiLayer_def)

text \<open>A single-hop broadcast that is accepted at one router arrives at another one: the
  request passes down exactly one packet, addressed to all stations, and when its bytes are
  indicated at a router with the same protocol version, that router passes up the very same
  payload to the requested upper protocol, with the traffic class and lifetime of the request
  and the position of the sender.\<close>

theorem shb_end_to_end:
  assumes "\<not> itsGnSecurity (m_mib env)" and "\<not> itsGnSecurity (m_mib env')"
    and "itsGnProtocolVersion (m_mib env) < 16" and "itsGnProtocolVersion (m_mib env') = itsGnProtocolVersion (m_mib env)"
    and "fst (request_shb env req (Some p) s) = Accepted" and "itsGnMaxSduSize (m_mib env) < 65536"
    and "\<not> store_carry_forward (request_traffic_class req) \<or> has_neighbours (m_now s) (m_location_table s)"
    and "p Physical = []" and "p Link = []" and "p Network = []"
    and "wf_lpv (m_local_position_vector s)" and "m_transport_ifcs env' (upper_protocol req)"
  shows "\<exists>r q ind packet s''. outputs (snd (request_shb env req (Some p) s)) = outputs s @ [PassDown r q]
    \<and> dr_destination r = cBroadcastMacAddress \<and> length (chunk_bytes Network max_osi_layer q) = 40 + chunk_size p
    \<and> indicate env' (cohesive_packet (chunk_bytes Network max_osi_layer q) Network) sender dest s' = emit (PassUp ind (Cohesive packet)) s''
    \<and> cohesive_bytes Transport max_osi_layer packet = chunk_bytes Transport max_osi_layer p \<and> logs (\<lambda>_. False) s' s''
    \<and> ind_upper_protocol ind = Some (upper_protocol req) \<and> ind_transport_type ind = Some SHB
    \<and> ind_source_position ind = Some (short_position_vector (m_local_position_vector s))
    \<and> ind_traffic_class ind = request_traffic_class req \<and> ind_remaining_packet_lifetime ind = Some (maximum_lifetime req)
    \<and> ind_remaining_hop_limit ind = Some 1"
proof -
  let ?pd = "shb_request_pdu env req p s"
  let ?pl = "chunk_bytes Transport max_osi_layer p"
  let ?shb = "(extended ?pd)\<lparr>dcc := DccRaw (dcc_field_raw (dcc (extended ?pd)))\<rparr>"
  have pd: "bh_next_header (basic ?pd) = NHB_Common" "version (basic ?pd) = of_nat (itsGnProtocolVersion (m_mib env))"
    "hop_limit (basic ?pd) = 1" "lifetime (basic ?pd) = maximum_lifetime req" "secured ?pd = None"
    "maximum_hop_limit (common ?pd) = 1" "header_type (common ?pd) = TSB_Single_Hop"
    "ch_next_header (common ?pd) = next_header_of_protocol (upper_protocol req)"
    "traffic_class_field (common ?pd) = request_traffic_class req" "payload (common ?pd) = of_nat (chunk_size p)"
    "shb_source_position (extended ?pd) = m_local_position_vector s"
    using assms(1) by (simp_all add: shb_request_pdu_def Let_def create_shb_pdu_def basic_of_request_def basic_of_mib_def common_of_request_def)
  have size: "chunk_size p = length ?pl" using assms(8-10) by (simp add: chunk_size_def osi_layers_def chunk_bytes_upper)
  have "chunk_size p \<le> itsGnMaxSduSize (m_mib env)"
    using assms(5) by (auto simp: request_shb_def Let_def confirm_Accepted validate_payload_def split: if_splits)
  then have len: "length ?pl = unat (payload (common ?pd))" using assms(6) pd(10) size by (simp add: unsigned_of_nat take_bit_nat_eq_self)
  have wire: "serialize_pdu HV_Shb ?pd @ ?pl =
      serialize_basic (basic ?pd) @ serialize_common (common ?pd) @ serialize_shb ?shb @ ?pl"
    using dcc_wire [of "extended ?pd"] by (simp add: serialize_pdu_def pd(5))
  have q: "chunk_bytes Network max_osi_layer (p(Network := serialize_pdu HV_Shb ?pd)) = serialize_pdu HV_Shb ?pd @ ?pl"
    by (simp add: chunk_bytes_upper)
  have "unat (version (basic ?pd)) = itsGnProtocolVersion (m_mib env')" using assms(3,4) pd(2) by (simp add: unsigned_of_nat take_bit_nat_eq_self)
  then obtain s'' packet ind where up: "indicate env' (cohesive_packet (serialize_pdu HV_Shb ?pd @ ?pl) Network) sender dest s'
      = emit (PassUp ind (Cohesive packet)) s''" "cohesive_bytes Transport max_osi_layer packet = ?pl"
    "logs (\<lambda>_. False) s' s''"
    "ind = indication_init\<lparr>ind_remaining_packet_lifetime := Some (lifetime (basic ?pd)),
        ind_remaining_hop_limit := Some (unat (hop_limit (basic ?pd))),
        ind_security_report := DecapBlank, ind_traffic_class := traffic_class_field (common ?pd),
        ind_upper_protocol := Some (protocol_of_next_header (ch_next_header (common ?pd))), ind_transport_type := Some SHB,
        ind_source_position := Some (short_position_vector (shb_source_position ?shb))\<rparr>"
    unfolding wire
    using indicate_shb [of "basic ?pd" env' "common ?pd" ?shb ?pl sender dest s'] assms(2,11,12) pd len
    by (auto simp: wf_basic_def wf_common_def wf_shb_def)
  let ?q = "p(Network := serialize_pdu HV_Shb ?pd)"
  obtain r where r: "outputs (snd (request_shb env req (Some p) s)) = outputs s @ [PassDown r ?q]" "dr_destination r = cBroadcastMacAddress"
    using request_shb_sends [OF assms(1,5,7)] by fastforce
  have "indicate env' (cohesive_packet (chunk_bytes Network max_osi_layer ?q) Network) sender dest s' = emit (PassUp ind (Cohesive packet)) s''"
    unfolding q by (rule up(1))
  moreover have "ind_upper_protocol ind = Some (upper_protocol req)" "ind_transport_type ind = Some SHB"
    "ind_source_position ind = Some (short_position_vector (m_local_position_vector s))"
    "ind_traffic_class ind = request_traffic_class req" "ind_remaining_packet_lifetime ind = Some (maximum_lifetime req)"
    "ind_remaining_hop_limit ind = Some 1" by (simp_all add: up(4) pd)
  moreover have "length (chunk_bytes Network max_osi_layer ?q) = 40 + chunk_size p"
    unfolding q wire size by (simp add: basic_codec.ser_length common_codec.ser_length shb_codec.ser_length)
  ultimately show ?thesis using r up(2,3) by blast
qed

text \<open>A request with three bytes of payload at a router that has just started, received by another one.\<close>

definition sample_sdu :: DownPacket where
  "sample_sdu = empty_chunk(Transport := [1, 2, 3])"

lemma sample_accepted: "fst (request_shb sample_env (data_request mib_default 36) (Some sample_sdu) s) = Accepted"
proof -
  have "chunk_size sample_sdu = 3" by (simp add: sample_sdu_def chunk_size_def osi_layers_def empty_chunk_def)
  moreover have "\<not> lifetime_decode (itsGnMaxPacketLifetime mib_default) < lifetime_decode (itsGnDefaultPacketLifetime mib_default)"
    by (simp add: mib_default_def lifetime_decode_set)
  ultimately show ?thesis
    by (simp add: request_shb_def Let_def confirm_Accepted validate_payload_def validate_data_request_def data_request_def
        lifetime_less_def) (simp add: mib_default_def)
qed

theorem shb_end_to_end_witness:
  "\<exists>r q ind packet s''. outputs (snd (request_shb sample_env (data_request mib_default 36) (Some sample_sdu) (router_init sample_env 0)))
      = outputs (router_init sample_env 0) @ [PassDown r q]
    \<and> indicate sample_env (cohesive_packet (chunk_bytes Network max_osi_layer q) Network) (MacAddress 1 2 3 4 5 6) cBroadcastMacAddress
        (router_init sample_env 7) = emit (PassUp ind (Cohesive packet)) s''
    \<and> cohesive_bytes Transport max_osi_layer packet = [1, 2, 3] \<and> ind_upper_protocol ind = Some UP_BTP_A"
proof -
  let ?req = "data_request mib_default 36"
  have wf: "wf_lpv (m_local_position_vector (router_init sample_env 0))"
    by (simp add: router_init_def Let_def mib_default_def reset_beacon_timer_in_def schedule_in_def schedule_at_def cancel_def
        wf_lpv_def lpv_default_def wf_address_def address_default_def wf_station_type_def station_type_cast_def)
  have "\<not> store_carry_forward (traffic_class False False 0)" by code_simp
  then have scf: "\<not> store_carry_forward (request_traffic_class ?req)
      \<or> has_neighbours (m_now (router_init sample_env 0)) (m_location_table (router_init sample_env 0))"
    by (simp add: data_request_def mib_default_def)
  have mib: "\<not> itsGnSecurity (m_mib sample_env)" "itsGnProtocolVersion (m_mib sample_env) < 16" "itsGnMaxSduSize (m_mib sample_env) < 65536"
    "m_transport_ifcs sample_env (upper_protocol ?req)" "upper_protocol ?req = UP_BTP_A"
    by (simp_all add: mib_default_def data_request_def)
  have sdu: "sample_sdu Physical = []" "sample_sdu Link = []" "sample_sdu Network = []"
    "chunk_bytes Transport max_osi_layer sample_sdu = [1, 2, 3]"
    by (simp_all add: sample_sdu_def empty_chunk_def chunk_bytes_upper)
  from shb_end_to_end [OF mib(1) mib(1) mib(2) refl sample_accepted mib(3) scf sdu(1-3) wf mib(4),
      of "MacAddress 1 2 3 4 5 6" cBroadcastMacAddress "router_init sample_env 7"]
  show ?thesis unfolding sdu(4) mib(5) by blast
qed

text \<open>C7: With security enabled and strict handling of decapsulation results, whatever bytes are
  received, a packet is only ever passed up with the report of a successful verification:
  neither unsecured packets nor those that failed verification reach the upper layers.\<close>

theorem only_verified_passed_up:
  assumes "itsGnSecurity (m_mib env)" and "itsGnSnDecapResultHandling (m_mib env) = Strict"
    and "PassUp ind up \<in> set (drop (length (outputs s)) (outputs (indicate env packet sender dest s)))"
  shows "is_successful (ind_security_report ind)"
proof -
  have c: "logs (\<lambda>i. is_successful (ind_security_report i)) s (indicate_common env ctx bh sec ll ind' s)"
    if "is_successful (ind_security_report ind')" for ctx bh sec ll ind'
    using logs_mono [OF logs_common [of ind' s env ctx bh sec ll]] that by simp
  have d: "logs (\<lambda>i. is_successful (ind_security_report i)) s (indicate_secured_cast env ctx sp p bh msg ll ind' s)"
    if "is_successful (ind_security_report ind')" for ctx sp p bh msg ll ind'
    using logs_mono [OF logs_secured_cast [of ind' s env ctx sp p bh msg ll]] that by simp
  have sec: "logs (\<lambda>i. is_successful (ind_security_report i)) s (indicate_secured env ctx bh ll ind' s)" for ctx bh ll ind'
    using assms(2)
    by (auto simp: indicate_secured_def case_prod_beta Let_def logs_hooks c d split: option.split PlaintextPayload.split)
  have "logs (\<lambda>i. is_successful (ind_security_report i)) s (indicate env packet sender dest s)"
    using assms(1,2) by (auto simp: indicate_def indicate_basic_def case_prod_beta Let_def logs_hooks sec logs_same
        split: option.split NextHeaderBasic.split)
  then obtain os where "outputs (indicate env packet sender dest s) = outputs s @ os"
    "list_all (\<lambda>x. case x of PassUp ind _ \<Rightarrow> is_successful (ind_security_report ind) | _ \<Rightarrow> True) os" unfolding logs_def by blast
  then show ?thesis using assms(3) by (auto simp: list_all_iff)
qed

text \<open>
  A security entity that accepts every message and yields the same single-hop broadcast with
  one byte of payload.
\<close>

definition sample_common :: CommonHeader where
  "sample_common = common_default\<lparr>ch_next_header := NHC_BTP_B, header_type := TSB_Single_Hop, payload := 1, maximum_hop_limit := 1\<rparr>"

definition sample_shb :: ShbHeader where
  "sample_shb = \<lparr>shb_source_position = lpv_default, dcc = DccRaw 0\<rparr>"

definition sample_confirm :: DecapConfirm where
  "sample_confirm = \<lparr>
     plaintext_payload = PlainCohesive (cohesive_packet ((serialize_common sample_common @ serialize_shb sample_shb) @ [9]) Network),
     decap_report = DecapVerification Success, decap_certificate_id = None, decap_its_aid = 36, decap_permissions = []\<rparr>"

definition secure_env :: Environment where
  "secure_env = sample_env\<lparr>m_mib := mib_default\<lparr>itsGnSecurity := True\<rparr>,
     m_security_entity := Some \<lparr>encapsulate_packet = (\<lambda>_ _. None), decapsulate_packet = (\<lambda>_ _. sample_confirm)\<rparr>\<rparr>"

definition sample_basic :: BasicHeader where
  "sample_basic = basic_default\<lparr>version := 1, bh_next_header := NHB_Secured, hop_limit := 1\<rparr>"

lemma sample_wf: "wf_common sample_common" "wf_shb sample_shb" "wf_basic sample_basic"
  by (simp_all add: wf_common_def sample_common_def common_default_def wf_next_header_common_def next_header_common_cast_def
      wf_shb_def sample_shb_def wf_lpv_def lpv_default_def wf_address_def address_default_def wf_station_type_def station_type_cast_def
      wf_basic_def sample_basic_def wf_next_header_basic_def next_header_basic_cast_def)

lemma secure_facts:
  "itsGnProtocolVersion (m_mib secure_env) = 1" "m_transport_ifcs secure_env u"
  "m_security_entity secure_env = Some \<lparr>encapsulate_packet = (\<lambda>_ _. None), decapsulate_packet = (\<lambda>_ _. sample_confirm)\<rparr>"
  "bh_next_header sample_basic = NHB_Secured" "version sample_basic = 1" "hop_limit sample_basic = 1"
  by (simp_all add: secure_env_def mib_default_def sample_basic_def)

lemma sample_secured_up:
  "\<exists>ind up s'. indicate secure_env (cohesive_packet (serialize_basic sample_basic @ [2, 42]) Network)
     (MacAddress 1 2 3 4 5 6) cBroadcastMacAddress s = emit (PassUp ind up) s'"
proof -
  let ?p = "cohesive_packet (serialize_basic sample_basic @ [2, 42]) Network"
  let ?plain = "cohesive_packet ((serialize_common sample_common @ serialize_shb sample_shb) @ [9]) Network"
  let ?ll = "\<lparr>ll_sender = MacAddress 1 2 3 4 5 6, ll_destination = cBroadcastMacAddress\<rparr>"
  let ?p1 = "\<lparr>archive = [2, 42], archive_good = True, read_bytes = 4\<rparr>"
  let ?p2 = "\<lparr>archive = [42], archive_good = True, read_bytes = 5\<rparr>"
  let ?ctx = "indication_context ?plain (Some (?p, ?p2))"
  have b: "parse_basic (parser_init (serialize_basic sample_basic @ [2, 42])) = ((4, Some sample_basic), ?p1)"
    using basic_codec.des_ser [OF sample_wf(3)] by (simp add: parse_basic_def parse_with_def parser_init_def)
  have sec: "parse_secured (secured_v2 secure_env) (secured_v3 secure_env) ?p1 = ((1, Some [2]), ?p2)"
    by (simp add: parse_secured_def secure_env_def sample_env_def)
  have "\<exists>ind. indicate secure_env ?p (MacAddress 1 2 3 4 5 6) cBroadcastMacAddress s = indicate_common secure_env ?ctx sample_basic (Some [2]) ?ll ind s"
    by (simp add: indicate_def indicate_basic_def indication_context_def b indicate_secured_def sec secure_facts
        is_successful_def) (simp add: sample_confirm_def Let_def indication_context_def, blast)
  then obtain ind where i: "indicate secure_env ?p (MacAddress 1 2 3 4 5 6) cBroadcastMacAddress s = indicate_common secure_env ?ctx sample_basic (Some [2]) ?ll ind s"
    by blast
  obtain q where q: "set_boundary Network 36 ?plain = Some q" "cohesive_size_range Transport max_osi_layer q = 1"
    using network_boundary [of 36 "serialize_common sample_common @ serialize_shb sample_shb" "[9]"]
    by (auto simp: common_codec.ser_length shb_codec.ser_length)
  have outer: "set_boundary Network 5 ?p \<noteq> None" by (simp add: set_boundary_def basic_codec.ser_length)
  have fin: "finish_context (?ctx\<lparr>ctx_parser := \<lparr>archive = [9], archive_good = True, read_bytes = 0 + 36\<rparr>\<rparr>) sample_common = Some q"
    using q(1) outer by (simp add: finish_context_def indication_context_def)
  have "\<exists>s'. indicate_common secure_env ?ctx sample_basic (Some [2]) ?ll ind s = emit (PassUp (ind\<lparr>ind_traffic_class := traffic_class_field sample_common,
      ind_upper_protocol := Some (protocol_of_next_header (ch_next_header sample_common)), ind_transport_type := Some SHB,
      ind_source_position := Some (short_position_vector (shb_source_position sample_shb))\<rparr>) (Cohesive q)) s' \<and> logs (\<lambda>_. False) s s'"
    by (rule indicate_common_shb [OF _ sample_wf(1,2) _ _ fin])
      (simp_all add: indication_context_def parser_init_def sample_common_def secure_facts q(2))
  then show ?thesis unfolding i by blast
qed

theorem only_verified_passed_up_witness:
  "\<exists>ind up. PassUp ind up \<in> set (outputs (indicate secure_env (cohesive_packet (serialize_basic sample_basic @ [2, 42]) Network)
       (MacAddress 1 2 3 4 5 6) cBroadcastMacAddress (router_init secure_env 0)))
     \<and> is_successful (ind_security_report ind)"
proof -
  let ?s = "router_init secure_env 0"
  obtain ind up s' where i: "indicate secure_env (cohesive_packet (serialize_basic sample_basic @ [2, 42]) Network)
     (MacAddress 1 2 3 4 5 6) cBroadcastMacAddress ?s = emit (PassUp ind up) s'" using sample_secured_up by blast
  have "outputs ?s = []" by (simp add: router_init_def Let_def secure_env_def mib_default_def)
  then have up: "PassUp ind up \<in> set (drop (length (outputs ?s)) (outputs (indicate secure_env
      (cohesive_packet (serialize_basic sample_basic @ [2, 42]) Network) (MacAddress 1 2 3 4 5 6) cBroadcastMacAddress ?s)))"
    by (simp add: i)
  have "itsGnSecurity (m_mib secure_env)" "itsGnSnDecapResultHandling (m_mib secure_env) = Strict"
    by (simp_all add: secure_env_def mib_default_def)
  from only_verified_passed_up [OF this up] show ?thesis using i by auto
qed

end
