(* ===== verification/RouterHop.thy ===== *)
theory RouterHop
  imports RouterE2E
begin

text \<open>
  Multi-hop forwarding of topologically scoped broadcasts (\<open>process_extended\<close> for \<open>TsbPdu\<close> in
  \<open>vanetza/geonet/router.cpp\<close>): hop limits decrease, and duplicates stop.
\<close>

subsection \<open>Processing, step by step\<close>

text \<open>The state after location table and addresses are up to date, for a packet that is no duplicate.\<close>

definition tsb_located :: "Environment \<Rightarrow> TsbHeader ExtendedPdu \<Rightarrow> CohesivePacket \<Rightarrow> LinkLayer \<Rightarrow> Router \<Rightarrow> Router" where
  "tsb_located env pd p ll s =
    (let src = gn_addr (tsb_source_position (extended pd));
         s1 = snd (detect_duplicate_packet env src (tsb_sequence_number (extended pd)) s);
         s2 = (if vanetzaMultiHopDuplicateAddressDetection (m_mib env) then detect_duplicate_address env src (ll_sender ll) s1 else s1)
     in update_location (tsb_source_position (extended pd))
          (update_pdr (m_now s) (received_size p) (itsGnMaxPacketDataRateEmaBeta (m_mib env))
           \<circ> (if has_entry (m_now s) src (m_location_table s) then id else set_neighbour False)) s2)"

definition tsb_forward :: "TsbHeader ExtendedPdu \<Rightarrow> CohesivePacket \<Rightarrow> (TsbHeader, unit) PendingPacket" where
  "tsb_forward pd p = \<lparr>pdu = decrement_hop_limit pd,
     payload_of = (case secured pd of Some _ \<Rightarrow> empty_chunk | None \<Rightarrow> cohesive_layer p), action = ()\<rparr>"

lemma process_tsb_eq:
  "process_tsb env pd p ll s =
    (let src = gn_addr (tsb_source_position (extended pd)); sn = tsb_sequence_number (extended pd);
         s' = flush_unicast_forwarding_buffer env (tsb_located env pd p ll s)
     in if fst (detect_duplicate_packet env src sn s) then (False, snd (detect_duplicate_packet env src sn s))
        else if hop_limit (basic pd) \<le> 1 then (True, forwarding_stopped Stop_Hop_Limit s')
        else case rate_stop env src ll s' of
          Some reason \<Rightarrow> (True, forwarding_stopped reason s')
        | None \<Rightarrow> (True,
            if store_carry_forward (traffic_class_field (common pd)) \<and> \<not> has_neighbours (m_now s) (m_location_table s')
            then bc_push (BufferedTsb (tsb_forward pd p)) s' else tsb_transmit env (tsb_forward pd p) s'))"
  by (simp only: process_tsb_def tsb_located_def tsb_forward_def create_forwarding_duplicate_def Let_def case_prod_beta
      fst_conv snd_conv duplicate.simps)

lemma outputs_tsb_located [simp]: "outputs (tsb_located env pd p ll s) = outputs s"
  by (simp add: tsb_located_def Let_def)

lemma router_ok_located:
  assumes "router_ok env s"
  shows "kept env s (tsb_located env pd p ll s)"
proof -
  let ?src = "gn_addr (tsb_source_position (extended pd))"
  let ?s1 = "snd (detect_duplicate_packet env ?src (tsb_sequence_number (extended pd)) s)"
  let ?s2 = "if vanetzaMultiHopDuplicateAddressDetection (m_mib env) then detect_duplicate_address env ?src (ll_sender ll) ?s1 else ?s1"
  have s1: "kept env s ?s1" by (rule kept_detect_packet [OF assms])
  have s2: "kept env s ?s2" using s1 kept_trans [OF s1 kept_detect_address [OF kept_ok [OF s1]]] by simp
  show ?thesis unfolding tsb_located_def Let_def
    by (rule kept_trans [OF s2], rule kept_update_location [OF kept_ok [OF s2]], rule keeps_entry_comp) simp_all
qed

lemma tsb_transmit_outputs:
  assumes "received_ok pd"
  shows "tsb_transmit env (tsb_forward pd p) s = emit (PassDown (forward_request cBroadcastMacAddress (decrement_hop_limit pd) s)
     ((payload_of (tsb_forward pd p))(Network := serialize_pdu HV_Tsb (decrement_hop_limit pd)))) s"
proof -
  have "fwd_ok (pdu (tsb_forward pd p)) (payload_of (tsb_forward pd p))"
    using assms by (cases "secured pd") (simp_all add: tsb_forward_def fwd_ok_def decrement_hop_limit_def received_ok_def)
  then show ?thesis by (simp add: tsb_transmit_def pass_down_request_eq) (simp add: tsb_forward_def)
qed

lemma flush_unicast_frame:
  assumes "router_ok env s"
  shows "m_bc_forward_buffer (flush_unicast_forwarding_buffer env s) = m_bc_forward_buffer s"
    and "m_now (flush_unicast_forwarding_buffer env s) = m_now s"
  using assms by (simp_all add: flush_unicast_forwarding_buffer_def pb_flush_def router_ok_def)

lemma bc_buffer_located [simp]: "m_bc_forward_buffer (tsb_located env pd p ll s) = m_bc_forward_buffer s"
  by (simp add: tsb_located_def Let_def update_location_def detect_duplicate_address_def set_address_def detect_duplicate_packet_eq)

subsection \<open>Duplicates\<close>

definition dpl_of :: "MacAddress \<Rightarrow> LocationTable \<Rightarrow> DuplicatePacketList option" where
  "dpl_of mac t = (case get_data_ptr mac t of Some (e, _) \<Rightarrow> ext_dpl e | None \<Rightarrow> None)"

lemma dpl_of_modify: "keeps_entry f \<Longrightarrow> dpl_of mac (modify_entry now k f t) = dpl_of mac t"
  by (auto simp: dpl_of_def modify_entry_def get_data_ptr_set_value value_at_entry keeps_entry_def split: option.split)

lemma dpl_of_update: "ss_ok t \<Longrightarrow> dpl_of mac (location_update now lpv t) = dpl_of mac t"
  by (auto simp: dpl_of_def get_data_ptr_location_update location_table_entry_def split: option.split)

lemma dpl_of_detect:
  assumes "ss_ok t"
  shows "dpl_of mac (modify_entry now mac (\<lambda>e. e\<lparr>ext_dpl := Some d\<rparr>) (get_or_create_entry now mac t)) = Some d"
proof -
  obtain e x where "get_data_ptr mac (get_or_create_entry now mac t) = Some (e, x)" using get_or_create_present [OF assms] by blast
  then show ?thesis by (simp add: dpl_of_def modify_entry_def get_data_ptr_set_value)
qed

lemma source_dpl_eq:
  assumes "ss_ok (m_location_table s)"
  shows "source_dpl env mac s = (case dpl_of mac (m_location_table s) of Some d \<Rightarrow> d
     | None \<Rightarrow> duplicate_packet_list (itsGnDPLLength (m_mib env)))"
proof -
  let ?t = "get_or_create_entry (m_now s) mac (m_location_table s)"
  obtain e x where e: "get_data_ptr mac ?t = Some (e, x)" using get_or_create_present [OF assms] by blast
  have "ext_dpl e = dpl_of mac (m_location_table s)"
    using e assms by (auto simp: dpl_of_def get_or_create_entry_def get_value_def get_data_ptr_get_data location_table_entry_def
        split: option.splits)
  then show ?thesis by (simp add: source_dpl_def value_at_entry [OF e])
qed

lemma table_pass_down [simp]: "m_location_table (pass_down_request v r pd p s) = m_location_table s"
  by (simp add: pass_down_request_def split: option.split)

lemma table_detect_address [simp]: "m_location_table (detect_duplicate_address env a m s) = m_location_table s"
  "m_now (detect_duplicate_address env a m s) = m_now s"
  by (simp_all add: detect_duplicate_address_def Let_def set_address_def)

lemma dpl_of_located:
  assumes "router_ok env s"
  shows "dpl_of (mid (gn_addr (tsb_source_position (extended pd)))) (m_location_table (tsb_located env pd p ll s)) =
    Some (snd (dpl_check (tsb_sequence_number (extended pd)) (source_dpl env (mid (gn_addr (tsb_source_position (extended pd)))) s)))"
proof -
  let ?src = "gn_addr (tsb_source_position (extended pd))" and ?sn = "tsb_sequence_number (extended pd)"
  have ok: "ss_ok (m_location_table s)" using assms by (simp add: router_ok_def table_ok_def location_table_ok_def)
  have s1: "router_ok env (snd (detect_duplicate_packet env ?src ?sn s))" using kept_detect_packet [OF assms] kept_ok by blast
  then have ok1: "ss_ok (m_location_table (snd (detect_duplicate_packet env ?src ?sn s)))"
    by (simp add: router_ok_def table_ok_def location_table_ok_def)
  show ?thesis unfolding tsb_located_def Let_def update_location_def
    using ok ok1 by (simp add: dpl_of_modify keeps_entry_comp dpl_of_update) (simp add: detect_duplicate_packet_eq dpl_of_detect)
qed

lemma process_tsb_table:
  assumes "router_ok env s" and "\<not> fst (detect_duplicate_packet env (gn_addr (tsb_source_position (extended pd))) (tsb_sequence_number (extended pd)) s)"
  shows "m_location_table (snd (process_tsb env pd p ll s)) = m_location_table (tsb_located env pd p ll s)"
proof -
  have "router_ok env (tsb_located env pd p ll s)" using router_ok_located [OF assms(1)] kept_ok by blast
  then have "m_location_table (flush_unicast_forwarding_buffer env (tsb_located env pd p ll s)) = m_location_table (tsb_located env pd p ll s)"
    by (rule flush_unicast_calm(2))
  then show ?thesis unfolding process_tsb_eq Let_def using assms(2)
    by (simp add: tsb_transmit_def forwarding_stopped_def split: option.split)
qed

lemma dpl_of_detect_other:
  assumes "ss_ok t" and "k \<noteq> mac"
  shows "dpl_of k (modify_entry now mac f (get_or_create_entry now mac t)) = dpl_of k t"
  using assms by (simp add: dpl_of_def modify_entry_def get_data_ptr_set_value get_or_create_entry_def get_value_def get_data_ptr_get_data)

lemma dpl_of_located_other:
  assumes "router_ok env s" and "k \<noteq> mid (gn_addr (tsb_source_position (extended pd)))"
  shows "dpl_of k (m_location_table (tsb_located env pd p ll s)) = dpl_of k (m_location_table s)"
proof -
  let ?src = "gn_addr (tsb_source_position (extended pd))" and ?sn = "tsb_sequence_number (extended pd)"
  have ok: "ss_ok (m_location_table s)" using assms(1) by (simp add: router_ok_def table_ok_def location_table_ok_def)
  have "router_ok env (snd (detect_duplicate_packet env ?src ?sn s))" using kept_detect_packet [OF assms(1)] kept_ok by blast
  then have ok1: "ss_ok (m_location_table (snd (detect_duplicate_packet env ?src ?sn s)))"
    by (simp add: router_ok_def table_ok_def location_table_ok_def)
  show ?thesis unfolding tsb_located_def Let_def update_location_def
    using ok ok1 assms(2) by (simp add: dpl_of_modify keeps_entry_comp dpl_of_update) (simp add: detect_duplicate_packet_eq dpl_of_detect_other)
qed

text \<open>A broadcast is recorded in the duplicate packet list of its source and in no other.\<close>

lemma source_dpl_process:
  assumes "router_ok env s" and "received_ok pd"
  shows "source_dpl env mac (snd (process_tsb env pd p ll s)) =
    (if mac = mid (gn_addr (tsb_source_position (extended pd)))
     then snd (dpl_check (tsb_sequence_number (extended pd)) (source_dpl env mac s)) else source_dpl env mac s)"
proof -
  let ?src = "gn_addr (tsb_source_position (extended pd))" and ?sn = "tsb_sequence_number (extended pd)"
  let ?s1 = "snd (process_tsb env pd p ll s)"
  have "router_ok env ?s1" using kept_tsb [OF assms] kept_ok by blast
  then have ss: "ss_ok (m_location_table ?s1)" "ss_ok (m_location_table s)"
    using assms(1) by (simp_all add: router_ok_def table_ok_def location_table_ok_def)
  show ?thesis
  proof (cases "fst (detect_duplicate_packet env ?src ?sn s)")
    case True
    then have "?s1 = snd (detect_duplicate_packet env ?src ?sn s)" by (simp add: process_tsb_eq Let_def)
    then show ?thesis using ss by (simp add: source_dpl_eq detect_duplicate_packet_eq dpl_of_detect dpl_of_detect_other)
  next
    case False
    then show ?thesis
      using ss dpl_of_located [OF assms(1), of pd p ll] dpl_of_located_other [OF assms(1), of mac pd p ll]
      by (simp add: source_dpl_eq process_tsb_table [OF assms(1) False])
  qed
qed

text \<open>The processing of broadcasts one after the other, each at a time of its own.\<close>

definition tsb_received ::
  "Environment \<Rightarrow> time_point \<times> TsbHeader ExtendedPdu \<times> CohesivePacket \<times> LinkLayer \<Rightarrow> Router \<Rightarrow> Router" where
  "tsb_received env q s = (case q of (t, pd, p, ll) \<Rightarrow> snd (process_tsb env pd p ll (s\<lparr>m_now := t\<rparr>)))"

lemma router_ok_now: "router_ok env (s\<lparr>m_now := t\<rparr>) = router_ok env s"
  by (simp add: router_ok_def queue_ok_def)

lemma source_dpl_now:
  assumes "router_ok env s"
  shows "source_dpl env mac (s\<lparr>m_now := t\<rparr>) = source_dpl env mac s"
proof -
  have "ss_ok (m_location_table s)" using assms by (simp add: router_ok_def table_ok_def location_table_ok_def)
  then show ?thesis by (simp add: source_dpl_eq)
qed

lemma source_dpl_run:
  assumes "router_ok env s" and "list_all (\<lambda>(_, pd, _). received_ok pd) qs"
  shows "router_ok env (fold (tsb_received env) qs s)
    \<and> source_dpl env mac (fold (tsb_received env) qs s) = fold (\<lambda>sn d. snd (dpl_check sn d))
        (map (\<lambda>(_, pd, _). tsb_sequence_number (extended pd)) (filter (\<lambda>(_, pd, _). mid (gn_addr (tsb_source_position (extended pd))) = mac) qs))
        (source_dpl env mac s)"
  using assms
proof (induction qs arbitrary: s)
  case (Cons q qs)
  obtain t pd p ll where q: "q = (t, pd, p, ll)" by (cases q) auto
  have r: "received_ok pd" "list_all (\<lambda>(_, pd, _). received_ok pd) qs" using Cons.prems(2) by (simp_all add: q)
  have t: "router_ok env (s\<lparr>m_now := t\<rparr>)" using Cons.prems(1) by (simp add: router_ok_now)
  have k: "router_ok env (tsb_received env q s)" by (simp add: tsb_received_def q kept_ok [OF kept_tsb [OF t r(1)]])
  show ?case
    using Cons.IH [OF k r(2)] source_dpl_process [OF t r(1), of mac p ll] source_dpl_now [OF Cons.prems(1)]
    by (auto simp: q tsb_received_def)
qed simp

subsection \<open>Properties\<close>

text \<open>C8: A topologically scoped broadcast that was accepted is not accepted again: when another
  packet with the same source and sequence number is processed later, even by another way, it is
  neither passed up nor forwarded nor buffered, provided that fewer other broadcasts of the same
  source than the duplicate packet list has places have been processed in between, no matter how
  many of other sources and at what times. Packets count as secured exactly if they carry a
  secured message. Processing drops no location table entry; once reception drops the expired
  entry of the source, its duplicate packet list is lost with it.\<close>

theorem tsb_duplicate_suppressed:
  assumes "env_ok env" and "router_reach env s" and "received_ok pd" and "fst (process_tsb env pd p ll s)"
    and "list_all (\<lambda>(_, pd, _). received_ok pd) qs"
    and "length (filter (\<lambda>(_, q, _). mid (gn_addr (tsb_source_position (extended q))) = mid (gn_addr (tsb_source_position (extended pd)))) qs)
      < itsGnDPLLength (m_mib env)"
    and "mid (gn_addr (tsb_source_position (extended pd'))) = mid (gn_addr (tsb_source_position (extended pd)))"
    and "tsb_sequence_number (extended pd') = tsb_sequence_number (extended pd)"
  shows "let s1 = (fold (tsb_received env) qs (snd (process_tsb env pd p ll s)))\<lparr>m_now := t\<rparr>; (up, s2) = process_tsb env pd' p' ll' s1
    in \<not> up \<and> outputs s2 = outputs s1 \<and> m_bc_forward_buffer s2 = m_bc_forward_buffer s1"
proof -
  let ?src = "gn_addr (tsb_source_position (extended pd))" and ?sn = "tsb_sequence_number (extended pd)"
  let ?d = "source_dpl env (mid ?src) s"
  let ?s0 = "snd (process_tsb env pd p ll s)"
  let ?s1 = "fold (tsb_received env) qs ?s0"
  have ok: "router_ok env s" by (rule router_reach_ok [OF assms(1,2)])
  have ok0: "router_ok env ?s0" using kept_tsb [OF ok assms(3)] kept_ok by blast
  have new: "\<not> fst (dpl_check ?sn ?d)"
    using assms(4) by (auto simp: process_tsb_eq detect_duplicate_packet_eq Let_def split: if_splits)
  note run = source_dpl_run [OF ok0 assms(5), of "mid ?src"]
  have "source_dpl env (mid ?src) ?s0 = snd (dpl_check ?sn ?d)" using source_dpl_process [OF ok assms(3)] by simp
  moreover have "dpl_ok ?d" "dpl_capacity ?d = itsGnDPLLength (m_mib env)" using source_dpl_ok [OF ok] by blast+
  ultimately have "fst (dpl_check ?sn (source_dpl env (mid ?src) ?s1))"
    using run dpl_memory.remembers_recent [OF _ new, of "map (\<lambda>(_, pd, _). tsb_sequence_number (extended pd))
      (filter (\<lambda>(_, q, _). mid (gn_addr (tsb_source_position (extended q))) = mid ?src) qs)"] assms(6) by simp
  then have "fst (dpl_check ?sn (source_dpl env (mid ?src) (?s1\<lparr>m_now := t\<rparr>)))" using source_dpl_now run by metis
  then have "fst (detect_duplicate_packet env (gn_addr (tsb_source_position (extended pd'))) ?sn (?s1\<lparr>m_now := t\<rparr>))"
    unfolding detect_duplicate_packet_eq assms(7) by simp
  then show ?thesis by (simp add: process_tsb_eq [of env pd'] Let_def assms(8)) (simp add: detect_duplicate_packet_eq)
qed

text \<open>A topologically scoped broadcast with a hop limit of three.\<close>

definition sample_tsb :: "TsbHeader ExtendedPdu" where
  "sample_tsb = \<lparr>basic = basic_default\<lparr>bh_next_header := NHB_Common, hop_limit := 3\<rparr>,
     common = common_default\<lparr>header_type := TSB_Multi_Hop, maximum_hop_limit := 3\<rparr>, extended = \<lparr>tsb_sequence_number = 5, tsb_reserved = 0, tsb_source_position = lpv_default\<rparr>, secured = None\<rparr>"

definition sample_ll :: LinkLayer where
  "sample_ll = \<lparr>ll_sender = MacAddress 1 2 3 4 5 6, ll_destination = cBroadcastMacAddress\<rparr>"

lemma received_sample: "received_ok sample_tsb"
  by (simp add: received_ok_def sample_tsb_def)

theorem tsb_duplicate_suppressed_witness:
  "let p = cohesive_packet [] Network; s0 = snd (process_tsb sample_env sample_tsb p sample_ll (router_init sample_env 0));
       other = sample_tsb\<lparr>extended := (extended sample_tsb)\<lparr>tsb_sequence_number := 6\<rparr>\<rparr>;
       s1 = (fold (tsb_received sample_env) [(7, other, p, sample_ll)] s0)\<lparr>m_now := 9\<rparr>;
       (up, s2) = process_tsb sample_env sample_tsb p (sample_ll\<lparr>ll_sender := MacAddress 9 9 9 9 9 9\<rparr>) s1
   in \<not> up \<and> outputs s2 = outputs s1 \<and> m_bc_forward_buffer s2 = m_bc_forward_buffer s1"
proof -
  let ?s = "router_init sample_env 0" and ?p = "cohesive_packet [] Network"
  let ?o = "sample_tsb\<lparr>extended := (extended sample_tsb)\<lparr>tsb_sequence_number := 6\<rparr>\<rparr>"
  have "m_location_table ?s = location_table 20" by (simp add: router_init_def Let_def mib_default_def)
  then have "source_dpl sample_env mac ?s = duplicate_packet_list 8" for mac
    using source_dpl_eq [of ?s sample_env mac] router_ok_init [OF env_ok_sample, of 0]
    by (simp add: dpl_of_def get_data_ptr_def location_table_def set_lifetime_def ss_empty_def mib_default_def
        router_ok_def table_ok_def location_table_ok_def)
  then have up: "fst (process_tsb sample_env sample_tsb ?p sample_ll ?s)"
    by (simp add: process_tsb_eq Let_def detect_duplicate_packet_eq dpl_check_def dpl_find_iff duplicate_packet_list_def split: option.split)
  have r: "list_all (\<lambda>(_, pd, _). received_ok pd) [(7, ?o, ?p, sample_ll)]"
    "length (filter (\<lambda>(_, q, _). mid (gn_addr (tsb_source_position (extended q))) = mid (gn_addr (tsb_source_position (extended sample_tsb))))
       [(7, ?o, ?p, sample_ll)]) < itsGnDPLLength (m_mib sample_env)"
    by (simp_all add: received_ok_def sample_tsb_def mib_default_def)
  show ?thesis unfolding Let_def
    by (rule tsb_duplicate_suppressed [OF env_ok_sample router_reach.start received_sample up r refl refl, unfolded Let_def])
qed

text \<open>C9: Processing a topologically scoped broadcast sends at most one packet: the one received,
  with the hop limit reduced by one, to all neighbours and at the lowest priority, and only if
  the hop limit was above one. Nothing else is put into the broadcast forwarding buffer than
  that very packet, with the hop limit reduced by one, and then nothing is sent now: this is
  for packets with the store-carry-forward flag and a hop limit above one while there is no
  neighbour. Hence a packet dies after as many hops as its limit says. Flushing the buffer of
  earlier packets, which reception does before, is not part of the processing.\<close>

theorem tsb_forwarding_exact:
  assumes "env_ok env" and "router_reach env s" and "received_ok pd"
  shows "\<exists>os. outputs (snd (process_tsb env pd p ll s)) = outputs s @ os
    \<and> (os = [] \<or> (\<exists>reason. os = [ForwardingStopped reason])
       \<or> 1 < unat (hop_limit (basic pd))
         \<and> unat (hop_limit (basic (decrement_hop_limit pd))) = unat (hop_limit (basic pd)) - 1
         \<and> (\<exists>r. os = [PassDown r ((case secured pd of Some _ \<Rightarrow> empty_chunk | None \<Rightarrow> cohesive_layer p)
                  (Network := serialize_pdu HV_Tsb (decrement_hop_limit pd)))]
              \<and> dr_destination r = cBroadcastMacAddress \<and> dr_dcc_profile r = DP3))
    \<and> (m_bc_forward_buffer (snd (process_tsb env pd p ll s)) = m_bc_forward_buffer s
       \<or> os = [] \<and> 1 < unat (hop_limit (basic pd))
         \<and> unat (hop_limit (basic (decrement_hop_limit pd))) = unat (hop_limit (basic pd)) - 1
         \<and> store_carry_forward (traffic_class_field (common pd))
         \<and> \<not> has_neighbours (m_now s) (m_location_table (snd (process_tsb env pd p ll s)))
         \<and> m_bc_forward_buffer (snd (process_tsb env pd p ll s)) = m_bc_forward_buffer (bc_push (BufferedTsb
             \<lparr>pdu = decrement_hop_limit pd, payload_of = (case secured pd of Some _ \<Rightarrow> empty_chunk | None \<Rightarrow> cohesive_layer p), action = ()\<rparr>) s))"
proof -
  let ?src = "gn_addr (tsb_source_position (extended pd))"
  let ?s = "flush_unicast_forwarding_buffer env (tsb_located env pd p ll s)"
  have k: "kept env s (tsb_located env pd p ll s)" by (rule router_ok_located [OF router_reach_ok [OF assms(1,2)]])
  have out: "outputs ?s = outputs s" "m_bc_forward_buffer ?s = m_bc_forward_buffer s" "m_now ?s = m_now s"
    using flush_unicast_calm(3) [OF kept_ok [OF k]] flush_unicast_frame [of env "tsb_located env pd p ll s"] kept_ok [OF k] k
    by (simp_all add: kept_def)
  have hop: "1 < unat (hop_limit (basic pd)) \<and> unat (hop_limit (basic (decrement_hop_limit pd))) = unat (hop_limit (basic pd)) - 1"
    if "\<not> hop_limit (basic pd) \<le> 1"
  proof -
    have "1 < unat (hop_limit (basic pd))" using that by (simp add: word_le_nat_alt)
    moreover have "unat (hop_limit (basic pd) - 1) = unat (hop_limit (basic pd)) - 1"
      using that by (intro unat_minus_one) auto
    ultimately show ?thesis by (simp add: decrement_hop_limit_def)
  qed
  consider "outputs (snd (process_tsb env pd p ll s)) = outputs s" "m_bc_forward_buffer (snd (process_tsb env pd p ll s)) = m_bc_forward_buffer s"
    | reason where "outputs (snd (process_tsb env pd p ll s)) = outputs s @ [ForwardingStopped reason]"
        "m_bc_forward_buffer (snd (process_tsb env pd p ll s)) = m_bc_forward_buffer s"
    | "\<not> hop_limit (basic pd) \<le> 1" "snd (process_tsb env pd p ll s) = tsb_transmit env (tsb_forward pd p) ?s"
    | "\<not> hop_limit (basic pd) \<le> 1" "snd (process_tsb env pd p ll s) = bc_push (BufferedTsb (tsb_forward pd p)) ?s"
        "store_carry_forward (traffic_class_field (common pd))" "\<not> has_neighbours (m_now s) (m_location_table ?s)"
    using out unfolding process_tsb_eq Let_def
    by (fastforce simp: forwarding_stopped_def detect_duplicate_packet_eq split: option.splits if_splits)
  then show ?thesis
  proof cases
    case 3
    then have "outputs (snd (process_tsb env pd p ll s)) = outputs s @ [PassDown (forward_request cBroadcastMacAddress (decrement_hop_limit pd) ?s)
      ((payload_of (tsb_forward pd p))(Network := serialize_pdu HV_Tsb (decrement_hop_limit pd)))]"
      "m_bc_forward_buffer (snd (process_tsb env pd p ll s)) = m_bc_forward_buffer s"
      using out by (simp_all add: tsb_transmit_outputs [OF assms(3)])
    then show ?thesis using hop [OF 3(1)] by (auto simp: tsb_forward_def forward_request_def)
  next
    case 4
    then show ?thesis using hop [OF 4(1)] out by (intro exI [of _ "[]"]) (simp add: bc_push_def tsb_forward_def)
  qed auto
qed

theorem tsb_forwarding_exact_witness:
  "\<exists>os. outputs (snd (process_tsb sample_env sample_tsb (cohesive_packet [] Network) sample_ll (router_init sample_env 0)))
      = outputs (router_init sample_env 0) @ os
    \<and> (os = [] \<or> (\<exists>reason. os = [ForwardingStopped reason])
       \<or> (\<exists>r q. os = [PassDown r q] \<and> q Network = serialize_pdu HV_Tsb (decrement_hop_limit sample_tsb)
            \<and> unat (hop_limit (basic (decrement_hop_limit sample_tsb))) = 2))"
proof -
  have "unat (hop_limit (basic (decrement_hop_limit sample_tsb))) = 2" by (simp add: decrement_hop_limit_def sample_tsb_def)
  then show ?thesis
    using tsb_forwarding_exact [OF env_ok_sample router_reach.start received_sample, of "cohesive_packet [] Network" sample_ll 0]
    by fastforce
qed

end
