(* ===== verification/RouterSec.thy ===== *)
theory RouterSec
  imports RouterHop
begin

text \<open>
  The way of a secured single-hop broadcast from one router to the next
  (\<open>vanetza/geonet/router.cpp\<close>). What is assumed of the two security entities is the predicate
  \<open>secure_channel\<close>: a message that one makes is read back and verified by the other.
\<close>

subsection \<open>Security entities that understand each other\<close>

definition secure_channel :: "Environment \<Rightarrow> Environment \<Rightarrow> time_point \<Rightarrow> bool" where
  "secure_channel env env' now' \<longleftrightarrow> (\<exists>e e'. m_security_entity env = Some e \<and> m_security_entity env' = Some e'
     \<and> (\<forall>t req msg. encapsulate_packet e t req = Some msg \<longrightarrow> msg \<noteq> [] \<and> hd msg \<le> 3
          \<and> (if hd msg < 3 then secured_v2 env' else secured_v3 env') msg = Some ((length msg, msg), [])
          \<and> decap_report (decapsulate_packet e' now' msg) = DecapVerification Success
          \<and> decap_its_aid (decapsulate_packet e' now' msg) = sign_its_aid req
          \<and> plaintext_payload (decapsulate_packet e' now' msg)
              = PlainCohesive (cohesive_packet (chunk_bytes Network max_osi_layer (plain_message req)) Network)))"

text \<open>What the sender asks to be signed.\<close>

definition shb_sign_request :: "Environment \<Rightarrow> DataRequest \<Rightarrow> DownPacket \<Rightarrow> Router \<Rightarrow> SignRequest" where
  "shb_sign_request env req p s = \<lparr>
     plain_message = fst (chunk_merge Transport max_osi_layer p
       (empty_chunk(Network := convert_for_signing HV_Shb (shb_request_pdu env req p s)))),
     sign_its_aid = its_aid req, sign_permissions = permissions req, context_information = security_context req\<rparr>"

lemma chunk_merge_bytes:
  "chunk_bytes Network max_osi_layer (fst (chunk_merge Transport max_osi_layer p (empty_chunk(Network := hdr))))
     = hdr @ chunk_bytes Transport max_osi_layer p"
  by (simp add: chunk_merge_def chunk_bytes_def osi_layer_range_def layer_distance_def min_osi_layer_def max_osi_layer_def
      osi_layers_def less_eq_OsiLayer_def empty_chunk_def)

subsection \<open>Sending\<close>

lemma request_shb_sends_secured:
  assumes "itsGnSecurity (m_mib env)" and "m_security_entity env = Some e"
    and "encapsulate_packet e (m_now s) (shb_sign_request env req p s) = Some msg"
    and "fst (request_shb env req (Some p) s) = Accepted"
    and "\<not> store_carry_forward (request_traffic_class req) \<or> has_neighbours (m_now s) (m_location_table s)"
  shows "outputs (snd (request_shb env req (Some p) s)) = outputs s @ [PassDown \<lparr>dr_ether_type = geonet_ether_type,
      dr_source = mid (gn_addr (m_local_position_vector s)), dr_destination = cBroadcastMacAddress,
      dr_dcc_profile = map_tc_onto_profile (request_traffic_class req),
      dr_lifetime = clock_cast (lifetime_decode (maximum_lifetime req))\<rparr>
      (p(Transport := [], Session := [], Presentation := [], Application := [],
         Network := serialize_basic (basic (shb_request_pdu env req p s)) @ msg))]"
proof -
  let ?pd = "shb_request_pdu env req p s"
  let ?pk = "\<lparr>pdu = ?pd, payload_of = p, action = control_info req\<rparr>"
  let ?rest = "p(Transport := [], Session := [], Presentation := [], Application := [])"
  obtain S where S: "snd (request_shb env req (Some p) s) = shb_transmit env ?pk S" "outputs S = outputs s" "m_now S = m_now s"
    "m_local_position_vector S = m_local_position_vector s" using request_shb_transmits [OF assms(4,5)] by metis
  have eq: "?pd\<lparr>extended := (extended ?pd)\<lparr>shb_source_position := m_local_position_vector S\<rparr>\<rparr> = ?pd"
    using S(4) by (simp add: shb_request_pdu_simps)
  have enc: "encap_if_secured env (control_info req) HV_Shb ?pd p S = Some (?pd\<lparr>secured := Some msg\<rparr>, ?rest)"
    using assms(1-3) by (simp add: encap_if_secured_def encap_packet_def case_prod_beta Let_def S(3) control_info_def
        shb_sign_request_def chunk_merge_upper)
  have "fwd_ok (?pd\<lparr>secured := Some msg\<rparr>) ?rest" by (rule encap_if_secured_ok [OF enc]) (rule shb_request_pdu_simps)
  then show ?thesis
    unfolding S(1) shb_transmit_def Let_def PendingPacket.simps eq enc
    by (simp add: pass_down_def pass_down_request_eq S serialize_pdu_def shb_request_pdu_simps)
qed

subsection \<open>Reception\<close>

lemma indicate_shb_secured:
  assumes "wf_basic bh" and "bh_next_header bh = NHB_Secured" and "unat (version bh) = itsGnProtocolVersion (m_mib env)"
    and "msg \<noteq> []" and "hd msg \<le> 3"
    and "(if hd msg < 3 then secured_v2 env else secured_v3 env) msg = Some ((length msg, msg), [])"
    and "m_security_entity env = Some e" and "decap_report (decapsulate_packet e (m_now s) msg) = DecapVerification Success"
    and "plaintext_payload (decapsulate_packet e (m_now s) msg)
       = PlainCohesive (cohesive_packet (serialize_common ch @ serialize_shb shb @ pl) Network)"
    and "wf_common ch" and "wf_shb shb" and "header_type ch = TSB_Single_Hop" and "hop_limit bh \<le> maximum_hop_limit ch"
    and "length pl = unat (payload ch)" and "m_transport_ifcs env (protocol_of_next_header (ch_next_header ch))"
  shows "\<exists>s' packet ind. indicate env (cohesive_packet (serialize_basic bh @ msg) Network) sender dest s
      = emit (PassUp ind (Cohesive packet)) s'
    \<and> cohesive_bytes Transport max_osi_layer packet = pl \<and> logs (\<lambda>_. False) s s'
    \<and> ind = indication_init\<lparr>ind_remaining_packet_lifetime := Some (lifetime bh), ind_remaining_hop_limit := Some (unat (hop_limit bh)),
        ind_security_report := DecapVerification Success, ind_its_aid := Some (decap_its_aid (decapsulate_packet e (m_now s) msg)),
        ind_permissions := Some (decap_permissions (decapsulate_packet e (m_now s) msg)),
        ind_certificate_id := decap_certificate_id (decapsulate_packet e (m_now s) msg), ind_traffic_class := traffic_class_field ch,
        ind_upper_protocol := Some (protocol_of_next_header (ch_next_header ch)), ind_transport_type := Some SHB,
        ind_source_position := Some (short_position_vector (shb_source_position shb))\<rparr>"
proof -
  let ?p = "cohesive_packet (serialize_basic bh @ msg) Network"
  let ?hdr = "serialize_common ch @ serialize_shb shb"
  let ?plain = "cohesive_packet (?hdr @ pl) Network"
  let ?ll = "\<lparr>ll_sender = sender, ll_destination = dest\<rparr>"
  let ?p1 = "\<lparr>archive = msg, archive_good = True, read_bytes = 4\<rparr>"
  let ?p2 = "\<lparr>archive = [], archive_good = True, read_bytes = 4 + length msg\<rparr>"
  let ?ctx = "indication_context ?plain (Some (?p, ?p2))"
  let ?c = "decapsulate_packet e (m_now s) msg"
  let ?ind = "indication_init\<lparr>ind_remaining_packet_lifetime := Some (lifetime bh), ind_remaining_hop_limit := Some (unat (hop_limit bh)),
      ind_security_report := DecapVerification Success, ind_its_aid := Some (decap_its_aid ?c),
      ind_permissions := Some (decap_permissions ?c), ind_certificate_id := decap_certificate_id ?c\<rparr>"
  have b: "parse_basic (parser_init (serialize_basic bh @ msg)) = ((4, Some bh), ?p1)"
    using basic_codec.des_ser [OF assms(1)] by (simp add: parse_basic_def parse_with_def parser_init_def)
  have sec: "parse_secured (secured_v2 env) (secured_v3 env) ?p1 = ((length msg, Some msg), ?p2)"
    using assms(4-6) by (cases msg) (auto simp: parse_secured_def split: if_splits)
  have plain: "plaintext_payload ?c = PlainCohesive ?plain" using assms(9) by simp
  have i: "indicate env ?p sender dest s = indicate_common env ?ctx bh (Some msg) ?ll ?ind s"
    using assms(2-4,7,8) plain by (simp add: indicate_def indicate_basic_def indication_context_def b indicate_secured_def sec is_successful_def Let_def)
  obtain q where q: "set_boundary Network 36 ?plain = Some q" "cohesive_size_range Transport max_osi_layer q = length pl"
    "cohesive_bytes Transport max_osi_layer q = pl"
    using network_boundary [of 36 ?hdr pl] by (auto simp: common_codec.ser_length shb_codec.ser_length)
  have outer: "set_boundary Network (4 + length msg) ?p \<noteq> None" by (simp add: set_boundary_def basic_codec.ser_length)
  have fin: "finish_context (?ctx\<lparr>ctx_parser := \<lparr>archive = pl, archive_good = True, read_bytes = 0 + 36\<rparr>\<rparr>) ch = Some q"
    using q(1) outer by (simp add: finish_context_def indication_context_def)
  obtain s' where s': "indicate_common env ?ctx bh (Some msg) ?ll ?ind s = emit (PassUp (?ind\<lparr>ind_traffic_class := traffic_class_field ch,
      ind_upper_protocol := Some (protocol_of_next_header (ch_next_header ch)), ind_transport_type := Some SHB,
      ind_source_position := Some (short_position_vector (shb_source_position shb))\<rparr>) (Cohesive q)) s'" "logs (\<lambda>_. False) s s'"
    using indicate_common_shb [of ?ctx ch shb pl True 0 bh q env "Some msg" ?ll ?ind s] assms fin q(2)
    by (auto simp: indication_context_def parser_init_def)
  show ?thesis using trans [OF i s'(1)] s'(2) q(3) by blast
qed

subsection \<open>From request to indication\<close>

lemma shb_end_to_end_secured:
  assumes "itsGnSecurity (m_mib env)" and "secure_channel env env' (m_now s')" and "m_security_entity env = Some e"
    and "encapsulate_packet e (m_now s) (shb_sign_request env req p s) \<noteq> None"
    and "itsGnProtocolVersion (m_mib env) < 16" and "itsGnProtocolVersion (m_mib env') = itsGnProtocolVersion (m_mib env)"
    and "fst (request_shb env req (Some p) s) = Accepted" and "itsGnMaxSduSize (m_mib env) < 65536"
    and "\<not> store_carry_forward (request_traffic_class req) \<or> has_neighbours (m_now s) (m_location_table s)"
    and "p Physical = []" and "p Link = []" and "p Network = []"
    and "wf_lpv (m_local_position_vector s)" and "m_transport_ifcs env' (upper_protocol req)"
  shows "\<exists>r q ind packet s''. outputs (snd (request_shb env req (Some p) s)) = outputs s @ [PassDown r q]
    \<and> dr_destination r = cBroadcastMacAddress
    \<and> indicate env' (cohesive_packet (chunk_bytes Network max_osi_layer q) Network) sender dest s' = emit (PassUp ind (Cohesive packet)) s''
    \<and> cohesive_bytes Transport max_osi_layer packet = chunk_bytes Transport max_osi_layer p \<and> logs (\<lambda>_. False) s' s''
    \<and> ind_upper_protocol ind = Some (upper_protocol req) \<and> ind_transport_type ind = Some SHB
    \<and> ind_source_position ind = Some (short_position_vector (m_local_position_vector s))
    \<and> ind_traffic_class ind = request_traffic_class req \<and> ind_remaining_packet_lifetime ind = Some (maximum_lifetime req)
    \<and> ind_remaining_hop_limit ind = Some 1 \<and> is_successful (ind_security_report ind) \<and> ind_its_aid ind = Some (its_aid req)"
proof -
  let ?pd = "shb_request_pdu env req p s"
  let ?pl = "chunk_bytes Transport max_osi_layer p"
  let ?shb = "(extended ?pd)\<lparr>dcc := DccRaw (dcc_field_raw (dcc (extended ?pd)))\<rparr>"
  obtain msg where msg: "encapsulate_packet e (m_now s) (shb_sign_request env req p s) = Some msg" using assms(4) by blast
  obtain e' where e': "m_security_entity env' = Some e'" and ch: "msg \<noteq> []" "hd msg \<le> 3"
    "(if hd msg < 3 then secured_v2 env' else secured_v3 env') msg = Some ((length msg, msg), [])"
    "decap_report (decapsulate_packet e' (m_now s') msg) = DecapVerification Success"
    "decap_its_aid (decapsulate_packet e' (m_now s') msg) = its_aid req"
    "plaintext_payload (decapsulate_packet e' (m_now s') msg)
       = PlainCohesive (cohesive_packet (chunk_bytes Network max_osi_layer (plain_message (shb_sign_request env req p s))) Network)"
    using assms(2,3) msg unfolding secure_channel_def by (auto simp: shb_sign_request_def)
  have pd: "bh_next_header (basic ?pd) = NHB_Secured" "version (basic ?pd) = of_nat (itsGnProtocolVersion (m_mib env))"
    "hop_limit (basic ?pd) = 1" "lifetime (basic ?pd) = maximum_lifetime req"
    "maximum_hop_limit (common ?pd) = 1" "header_type (common ?pd) = TSB_Single_Hop"
    "ch_next_header (common ?pd) = next_header_of_protocol (upper_protocol req)"
    "traffic_class_field (common ?pd) = request_traffic_class req" "payload (common ?pd) = of_nat (chunk_size p)"
    "shb_source_position (extended ?pd) = m_local_position_vector s"
    using assms(1) by (simp_all add: shb_request_pdu_def Let_def create_shb_pdu_def basic_of_request_def basic_of_mib_def common_of_request_def)
  have size: "chunk_size p = length ?pl" using assms(10-12) by (simp add: chunk_size_def osi_layers_def chunk_bytes_upper)
  have "chunk_size p \<le> itsGnMaxSduSize (m_mib env)"
    using assms(7) by (auto simp: request_shb_def Let_def confirm_Accepted validate_payload_def split: if_splits)
  then have len: "length ?pl = unat (payload (common ?pd))" using assms(8) pd(9) size by (simp add: unsigned_of_nat take_bit_nat_eq_self)
  have plain: "plaintext_payload (decapsulate_packet e' (m_now s') msg)
      = PlainCohesive (cohesive_packet (serialize_common (common ?pd) @ serialize_shb ?shb @ ?pl) Network)"
    using ch(6) dcc_wire [of "extended ?pd"] by (simp add: shb_sign_request_def chunk_merge_bytes convert_for_signing_def)
  let ?q = "p(Transport := [], Session := [], Presentation := [], Application := [], Network := serialize_basic (basic ?pd) @ msg)"
  have q: "chunk_bytes Network max_osi_layer ?q = serialize_basic (basic ?pd) @ msg" by (simp add: chunk_bytes_upper)
  have "unat (version (basic ?pd)) = itsGnProtocolVersion (m_mib env')" using assms(5,6) pd(2) by (simp add: unsigned_of_nat take_bit_nat_eq_self)
  then obtain s'' packet ind where up: "indicate env' (cohesive_packet (serialize_basic (basic ?pd) @ msg) Network) sender dest s'
      = emit (PassUp ind (Cohesive packet)) s''" "cohesive_bytes Transport max_osi_layer packet = ?pl" "logs (\<lambda>_. False) s' s''"
    "ind = indication_init\<lparr>ind_remaining_packet_lifetime := Some (lifetime (basic ?pd)),
        ind_remaining_hop_limit := Some (unat (hop_limit (basic ?pd))), ind_security_report := DecapVerification Success,
        ind_its_aid := Some (decap_its_aid (decapsulate_packet e' (m_now s') msg)),
        ind_permissions := Some (decap_permissions (decapsulate_packet e' (m_now s') msg)),
        ind_certificate_id := decap_certificate_id (decapsulate_packet e' (m_now s') msg), ind_traffic_class := traffic_class_field (common ?pd),
        ind_upper_protocol := Some (protocol_of_next_header (ch_next_header (common ?pd))), ind_transport_type := Some SHB,
        ind_source_position := Some (short_position_vector (shb_source_position ?shb))\<rparr>"
    using indicate_shb_secured [of "basic ?pd" env' msg e' s' "common ?pd" ?shb ?pl sender dest] assms(13,14) pd len ch(1-4) e' plain
    by (auto simp: wf_basic_def wf_common_def wf_shb_def wf_next_header_basic_def next_header_basic_cast_def)
  obtain r where r: "outputs (snd (request_shb env req (Some p) s)) = outputs s @ [PassDown r ?q]" "dr_destination r = cBroadcastMacAddress"
    using request_shb_sends_secured [OF assms(1,3) msg assms(7,9)] by fastforce
  have "indicate env' (cohesive_packet (chunk_bytes Network max_osi_layer ?q) Network) sender dest s' = emit (PassUp ind (Cohesive packet)) s''"
    unfolding q by (rule up(1))
  moreover have "ind_upper_protocol ind = Some (upper_protocol req)" "ind_transport_type ind = Some SHB"
    "ind_source_position ind = Some (short_position_vector (m_local_position_vector s))"
    "ind_traffic_class ind = request_traffic_class req" "ind_remaining_packet_lifetime ind = Some (maximum_lifetime req)"
    "ind_remaining_hop_limit ind = Some 1" "is_successful (ind_security_report ind)" "ind_its_aid ind = Some (its_aid req)"
    by (simp_all add: up(4) pd is_successful_def ch(5))
  ultimately show ?thesis using r up(2,3) by blast
qed

end
