(* ===== verification/Btp.thy ===== *)
theory Btp
  imports RouterOps
begin

text \<open>
  The Basic Transport Protocol (\<open>vanetza/btp\<close>): its two headers and their parsers, data requests
  with the parameters they hand to the network layer (\<open>geonet/data_request.cpp\<close>), and the
  dispatcher that delivers received packets by destination port. Handlers and hooks are numbers
  in place of pointers; what the dispatcher calls is appended to a log. An exception of a parser
  is \<open>None\<close>, of the dispatcher the log entry \<open>DispatchThrew\<close>.
\<close>

subsection \<open>Headers\<close>

type_synonym port_type = u16

record HeaderA =
  ha_destination_port :: port_type
  ha_source_port :: port_type

record HeaderB =
  hb_destination_port :: port_type
  hb_destination_port_info :: u16

definition serialize_header_a :: "HeaderA \<Rightarrow> bytes" where
  "serialize_header_a hdr = put (ha_destination_port hdr) @ put (ha_source_port hdr)"

definition deserialize_header_a :: "HeaderA reader" where
  "deserialize_header_a bs = do {
     (d, bs) \<leftarrow> (get :: u16 reader) bs;
     (s, bs) \<leftarrow> (get :: u16 reader) bs;
     Some (\<lparr>ha_destination_port = d, ha_source_port = s\<rparr>, bs)
   }"

definition serialize_header_b :: "HeaderB \<Rightarrow> bytes" where
  "serialize_header_b hdr = put (hb_destination_port hdr) @ put (hb_destination_port_info hdr)"

definition deserialize_header_b :: "HeaderB reader" where
  "deserialize_header_b bs = do {
     (d, bs) \<leftarrow> (get :: u16 reader) bs;
     (i, bs) \<leftarrow> (get :: u16 reader) bs;
     Some (\<lparr>hb_destination_port = d, hb_destination_port_info = i\<rparr>, bs)
   }"

definition btp_length_bytes :: nat where "btp_length_bytes = 4"

text \<open>Parsing a cohesive packet moves the boundary behind the header; a chunk packet is left as it is.\<close>

fun parse_btp_a :: "PacketVariant \<Rightarrow> (HeaderA \<times> PacketVariant) option" where
  "parse_btp_a (Cohesive packet) = do {
     (hdr, _) \<leftarrow> deserialize_header_a (cohesive_layer packet Transport);
     packet \<leftarrow> set_boundary Transport btp_length_bytes packet;
     Some (hdr, Cohesive packet)
   }"
| "parse_btp_a (Chunk packet) = do {
     (hdr, _) \<leftarrow> deserialize_header_a (packet Transport);
     Some (hdr, Chunk packet)
   }"

fun parse_btp_b :: "PacketVariant \<Rightarrow> (HeaderB \<times> PacketVariant) option" where
  "parse_btp_b (Cohesive packet) = do {
     (hdr, _) \<leftarrow> deserialize_header_b (cohesive_layer packet Transport);
     packet \<leftarrow> set_boundary Transport btp_length_bytes packet;
     Some (hdr, Cohesive packet)
   }"
| "parse_btp_b (Chunk packet) = do {
     (hdr, _) \<leftarrow> deserialize_header_b (packet Transport);
     Some (hdr, Chunk packet)
   }"

subsection \<open>Requests\<close>

record DataRequestGeoNetParams =
  gn_transport_type :: TransportType
  gn_destination :: DestinationVariant
  gn_communication_profile :: CommunicationProfile
  gn_its_aid :: ItsAid
  gn_maximum_lifetime :: "Lifetime option"
  gn_maximum_hop_limit :: "nat option"
  gn_repetition :: "Repetition option"
  gn_traffic_class :: TrafficClass

record DataRequestB =
  drb_destination_port :: port_type
  drb_destination_port_info :: u16
  drb_gn :: DataRequestGeoNetParams

definition copy_request_parameters :: "DataRequestB \<Rightarrow> DataRequest \<Rightarrow> DataRequest" where
  "copy_request_parameters btp gn =
    (let p = drb_gn btp in gn\<lparr>upper_protocol := UP_BTP_B, communication_profile := gn_communication_profile p,
       its_aid := gn_its_aid p,
       maximum_lifetime := (case gn_maximum_lifetime p of None \<Rightarrow> maximum_lifetime gn | Some l \<Rightarrow> l),
       repetition := gn_repetition p,
       max_hop_limit := (case gn_maximum_hop_limit p of None \<Rightarrow> max_hop_limit gn | Some h \<Rightarrow> h),
       request_traffic_class := gn_traffic_class p\<rparr>)"

definition copy_request_address :: "DataRequestB \<Rightarrow> DataRequest \<Rightarrow> (DataRequest \<times> Address) option" where
  "copy_request_address btp gn = (case gn_destination (drb_gn btp) of
      DestinationAddress a \<Rightarrow> Some (copy_request_parameters btp gn, a) | _ \<Rightarrow> None)"

definition copy_request_area :: "DataRequestB \<Rightarrow> DataRequest \<Rightarrow> (DataRequest \<times> Area) option" where
  "copy_request_area btp gn = (case gn_destination (drb_gn btp) of
      DestinationArea a \<Rightarrow> Some (copy_request_parameters btp gn, a) | _ \<Rightarrow> None)"

subsection \<open>Indications\<close>

record BtpDataIndication =
  btp_source_port :: "port_type option"
  btp_destination_port :: port_type
  btp_destination_port_info :: "u16 option"
  btp_destination :: "DestinationVariant option"
  btp_its_aid :: "ItsAid option"
  btp_permissions :: "bytes option"
  btp_source_position :: "ShortPositionVector option"
  btp_traffic_class :: TrafficClass
  btp_remaining_packet_lifetime :: "Lifetime option"

definition btp_indication_a :: "DataIndication \<Rightarrow> HeaderA \<Rightarrow> BtpDataIndication" where
  "btp_indication_a ind btp = \<lparr>btp_source_port = Some (ha_source_port btp), btp_destination_port = ha_destination_port btp,
     btp_destination_port_info = None, btp_destination = ind_destination ind, btp_its_aid = ind_its_aid ind,
     btp_permissions = ind_permissions ind, btp_source_position = ind_source_position ind,
     btp_traffic_class = ind_traffic_class ind, btp_remaining_packet_lifetime = ind_remaining_packet_lifetime ind\<rparr>"

definition btp_indication_b :: "DataIndication \<Rightarrow> HeaderB \<Rightarrow> BtpDataIndication" where
  "btp_indication_b ind btp = \<lparr>btp_source_port = None, btp_destination_port = hb_destination_port btp,
     btp_destination_port_info = Some (hb_destination_port_info btp), btp_destination = ind_destination ind,
     btp_its_aid = ind_its_aid ind, btp_permissions = ind_permissions ind, btp_source_position = ind_source_position ind,
     btp_traffic_class = ind_traffic_class ind, btp_remaining_packet_lifetime = ind_remaining_packet_lifetime ind\<rparr>"

definition parse_btp_header ::
  "DataIndication \<Rightarrow> PacketVariant \<Rightarrow> (BtpDataIndication option \<times> PacketVariant) option" where
  "parse_btp_header gn_ind packet = (case ind_upper_protocol gn_ind of
      Some UP_BTP_A \<Rightarrow> map_option (\<lambda>(hdr, p). (Some (btp_indication_a gn_ind hdr), p)) (parse_btp_a packet)
    | Some UP_BTP_B \<Rightarrow> map_option (\<lambda>(hdr, p). (Some (btp_indication_b gn_ind hdr), p)) (parse_btp_b packet)
    | _ \<Rightarrow> Some (None, packet))"

subsection \<open>Port dispatcher\<close>

type_synonym handler_id = nat
type_synonym hook_id = nat

text \<open>A port that was looked up or cleared is bound to the null handler, \<open>Some None\<close>.\<close>

type_synonym port_map = "port_type \<Rightarrow> handler_id option option"

datatype DispatchEvent = TapPacket hook_id BtpDataIndication PacketVariant
  | Handled handler_id BtpDataIndication PacketVariant
  | Undispatched DataIndication "BtpDataIndication option"
  | DispatchThrew

record PortDispatcher =
  m_interactive_handlers :: port_map
  m_non_interactive_handlers :: port_map
  m_promiscuous_hooks :: "hook_id list"
  dispatch_log :: "DispatchEvent list"

definition port_dispatcher_init :: PortDispatcher where
  "port_dispatcher_init = \<lparr>m_interactive_handlers = (\<lambda>_. None), m_non_interactive_handlers = (\<lambda>_. None),
     m_promiscuous_hooks = [], dispatch_log = []\<rparr>"

definition add_promiscuous_hook :: "hook_id option \<Rightarrow> PortDispatcher \<Rightarrow> PortDispatcher" where
  "add_promiscuous_hook hook d = (case hook of
      None \<Rightarrow> d
    | Some h \<Rightarrow> if h \<in> set (m_promiscuous_hooks d) then d
                else d\<lparr>m_promiscuous_hooks := m_promiscuous_hooks d @ [h]\<rparr>)"

definition remove_promiscuous_hook :: "hook_id \<Rightarrow> PortDispatcher \<Rightarrow> PortDispatcher" where
  "remove_promiscuous_hook h d = d\<lparr>m_promiscuous_hooks := filter (\<lambda>k. k \<noteq> h) (m_promiscuous_hooks d)\<rparr>"

definition set_interactive_handler :: "port_type \<Rightarrow> handler_id option \<Rightarrow> PortDispatcher \<Rightarrow> PortDispatcher" where
  "set_interactive_handler port handler d =
     d\<lparr>m_interactive_handlers := (m_interactive_handlers d)(port \<mapsto> handler)\<rparr>"

definition set_non_interactive_handler :: "port_type \<Rightarrow> handler_id option \<Rightarrow> PortDispatcher \<Rightarrow> PortDispatcher" where
  "set_non_interactive_handler port handler d =
     d\<lparr>m_non_interactive_handlers := (m_non_interactive_handlers d)(port \<mapsto> handler)\<rparr>"

text \<open>Subscripting a map inserts the null handler for a port without entry.\<close>

definition subscript_port :: "port_type \<Rightarrow> port_map \<Rightarrow> handler_id option \<times> port_map" where
  "subscript_port port m = (case m port of None \<Rightarrow> (None, m(port \<mapsto> None)) | Some h \<Rightarrow> (h, m))"

definition find_handler :: "BtpDataIndication \<Rightarrow> PortDispatcher \<Rightarrow> handler_id option \<times> PortDispatcher" where
  "find_handler ind d =
    (if btp_source_port ind \<noteq> None
     then let (h, m) = subscript_port (btp_destination_port ind) (m_interactive_handlers d) in (h, d\<lparr>m_interactive_handlers := m\<rparr>)
     else let (h, m) = subscript_port (btp_destination_port ind) (m_non_interactive_handlers d)
          in (h, d\<lparr>m_non_interactive_handlers := m\<rparr>))"

definition dispatch_indicate :: "DataIndication \<Rightarrow> PacketVariant \<Rightarrow> PortDispatcher \<Rightarrow> PortDispatcher" where
  "dispatch_indicate gn_ind packet d = (case parse_btp_header gn_ind packet of
      None \<Rightarrow> d\<lparr>dispatch_log := dispatch_log d @ [DispatchThrew]\<rparr>
    | Some (None, _) \<Rightarrow> d\<lparr>dispatch_log := dispatch_log d @ [Undispatched gn_ind None]\<rparr>
    | Some (Some ind, packet) \<Rightarrow>
        (let (handler, d) = find_handler ind d;
             taps = map (\<lambda>h. TapPacket h ind packet) (m_promiscuous_hooks d);
             outcome = (case handler of Some h \<Rightarrow> Handled h ind packet | None \<Rightarrow> Undispatched gn_ind (Some ind))
         in d\<lparr>dispatch_log := dispatch_log d @ taps @ [outcome]\<rparr>))"

subsection \<open>The codecs\<close>

interpretation header_a_codec: fixed_codec serialize_header_a deserialize_header_a 4 "\<lambda>_. True"
proof
  show "length (serialize_header_a x) = 4" for x by (simp add: serialize_header_a_def codec_simps)
  show "deserialize_header_a (serialize_header_a x @ r) = Some (x, r)" for x r
    by (simp add: serialize_header_a_def deserialize_header_a_def codec_simps)
  show "True \<and> bs = serialize_header_a x @ r" if "deserialize_header_a bs = Some (x, r)" for bs x r
    using that by (auto simp: serialize_header_a_def deserialize_header_a_def split: bind_splits dest!: codec_dest)
  show "deserialize_header_a bs \<noteq> None" if "4 \<le> length bs" for bs
    using that by (auto simp: deserialize_header_a_def codec_simps split: bind_splits dest!: codec_rest)
qed

interpretation header_b_codec: fixed_codec serialize_header_b deserialize_header_b 4 "\<lambda>_. True"
proof
  show "length (serialize_header_b x) = 4" for x by (simp add: serialize_header_b_def codec_simps)
  show "deserialize_header_b (serialize_header_b x @ r) = Some (x, r)" for x r
    by (simp add: serialize_header_b_def deserialize_header_b_def codec_simps)
  show "True \<and> bs = serialize_header_b x @ r" if "deserialize_header_b bs = Some (x, r)" for bs x r
    using that by (auto simp: serialize_header_b_def deserialize_header_b_def split: bind_splits dest!: codec_dest)
  show "deserialize_header_b bs \<noteq> None" if "4 \<le> length bs" for bs
    using that by (auto simp: deserialize_header_b_def codec_simps split: bind_splits dest!: codec_rest)
qed

subsection \<open>Parsing received packets\<close>

lemma transport_boundary:
  assumes "cohesive_ok p" and "4 \<le> length (cohesive_layer p Transport)"
  obtains q where "set_boundary Transport btp_length_bytes p = Some q" and "cohesive_ok q"
    and "cohesive_layer q Transport = take 4 (cohesive_layer p Transport)"
    and "cohesive_layer q Session = drop 4 (cohesive_layer p Transport) @ cohesive_layer p Session"
    and "cohesive_layer q Presentation = cohesive_layer p Presentation"
    and "cohesive_layer q Application = cohesive_layer p Application"
proof -
  obtain q where q: "set_boundary Transport btp_length_bytes p = Some q"
    using assms(2) by (simp add: set_boundary_def btp_length_bytes_def)
  have "layer_index Session = Suc (layer_index Transport)" by simp
  from set_boundary_splits [OF assms(1) q this] q show thesis
    by (intro that [of q]) (auto simp: btp_length_bytes_def)
qed

lemma parse_btp_short:
  assumes "length (cohesive_layer p Transport) < 4"
  shows "parse_btp_a (Cohesive p) = None" "parse_btp_b (Cohesive p) = None"
  using assms by (simp_all add: header_a_codec.des_short header_b_codec.des_short)

lemma find_handler_result:
  "fst (find_handler ind d) = Option.bind ((if btp_source_port ind \<noteq> None then m_interactive_handlers d
      else m_non_interactive_handlers d) (btp_destination_port ind)) id"
  "m_promiscuous_hooks (snd (find_handler ind d)) = m_promiscuous_hooks d"
  "dispatch_log (snd (find_handler ind d)) = dispatch_log d"
  by (simp_all add: find_handler_def subscript_port_def split: option.split)

text \<open>Looking up a handler does not change which handler any port has.\<close>

lemma find_handler_keeps_ports:
  "Option.bind (m_interactive_handlers (snd (find_handler ind d)) port) id = Option.bind (m_interactive_handlers d port) id"
  "Option.bind (m_non_interactive_handlers (snd (find_handler ind d)) port) id = Option.bind (m_non_interactive_handlers d port) id"
  by (simp_all add: find_handler_def subscript_port_def split: option.split)

lemma dispatch_log_parsed:
  assumes "parse_btp_header gn_ind packet = Some (Some ind, q)"
  shows "dispatch_log (dispatch_indicate gn_ind packet d) = dispatch_log d
      @ map (\<lambda>h. TapPacket h ind q) (m_promiscuous_hooks d)
      @ [case fst (find_handler ind d) of Some h \<Rightarrow> Handled h ind q | None \<Rightarrow> Undispatched gn_ind (Some ind)]"
  using assms find_handler_result(2,3) [of ind d]
  by (simp add: dispatch_indicate_def Let_def case_prod_beta)

text \<open>
  A packet that the router passes up with fewer than four bytes above its network layer makes
  the dispatcher throw, so the exception leaves the indication of the router.
\<close>

lemma dispatch_short_throws:
  assumes "length (cohesive_layer p Transport) < 4" and "ind_upper_protocol ind \<in> {Some UP_BTP_A, Some UP_BTP_B}"
  shows "dispatch_log (dispatch_indicate ind (Cohesive p) d) = dispatch_log d @ [DispatchThrew]"
  using assms(2) parse_btp_short [OF assms(1)]
  by (auto simp del: parse_btp_a.simps parse_btp_b.simps simp: dispatch_indicate_def parse_btp_header_def)

subsection \<open>Properties\<close>

text \<open>C25: A received BTP packet is delivered by its destination port: the header that precedes the
  payload selects the handler registered for interactive packets if it is of type A and the one
  for non-interactive packets if it is of type B. Every promiscuous hook sees the packet
  once, before the handler gets it with the payload moved to the layers above the transport
  layer; without a handler the packet is reported as undispatched.\<close>

theorem port_dispatch_exact:
  assumes "cohesive_ok p" and "ind_upper_protocol gn_ind = Some (if interactive then UP_BTP_A else UP_BTP_B)"
    and "cohesive_layer p Transport = put (port :: u16) @ put (info :: u16) @ payl"
  shows "\<exists>q ind. cohesive_layer q Transport = put port @ put info \<and> cohesive_layer q Session = payl @ cohesive_layer p Session
    \<and> btp_destination_port ind = port
    \<and> btp_source_port ind = (if interactive then Some info else None)
    \<and> btp_destination_port_info ind = (if interactive then None else Some info)
    \<and> dispatch_log (dispatch_indicate gn_ind (Cohesive p) d) = dispatch_log d
        @ map (\<lambda>h. TapPacket h ind (Cohesive q)) (m_promiscuous_hooks d)
        @ [case (if interactive then m_interactive_handlers d else m_non_interactive_handlers d) port of
             Some (Some h) \<Rightarrow> Handled h ind (Cohesive q) | _ \<Rightarrow> Undispatched gn_ind (Some ind)]"
proof -
  have len: "4 \<le> length (cohesive_layer p Transport)" using assms(3) by (simp add: codec_simps)
  obtain q where q: "set_boundary Transport btp_length_bytes p = Some q"
    "cohesive_layer q Transport = take 4 (cohesive_layer p Transport)"
    "cohesive_layer q Session = drop 4 (cohesive_layer p Transport) @ cohesive_layer p Session"
    using transport_boundary [OF assms(1) len] by metis
  have parts: "take 4 (cohesive_layer p Transport) = put port @ put info" "drop 4 (cohesive_layer p Transport) = payl"
    using assms(3) by (simp_all add: codec_simps)
  let ?a = "btp_indication_a gn_ind \<lparr>ha_destination_port = port, ha_source_port = info\<rparr>"
  let ?b = "btp_indication_b gn_ind \<lparr>hb_destination_port = port, hb_destination_port_info = info\<rparr>"
  let ?ind = "if interactive then ?a else ?b"
  have "parse_btp_header gn_ind (Cohesive p) = Some (Some ?ind, Cohesive q)"
    using assms(2) q(1) by (simp add: parse_btp_header_def assms(3) deserialize_header_a_def deserialize_header_b_def codec_simps)
  note dispatch_log_parsed [OF this, of d]
  moreover have "fst (find_handler ?ind d)
      = Option.bind ((if interactive then m_interactive_handlers d else m_non_interactive_handlers d) port) id"
    unfolding find_handler_result(1) by (simp add: btp_indication_a_def btp_indication_b_def)
  ultimately have "dispatch_log (dispatch_indicate gn_ind (Cohesive p) d) = dispatch_log d
        @ map (\<lambda>h. TapPacket h ?ind (Cohesive q)) (m_promiscuous_hooks d)
        @ [case (if interactive then m_interactive_handlers d else m_non_interactive_handlers d) port of
             Some (Some h) \<Rightarrow> Handled h ?ind (Cohesive q) | _ \<Rightarrow> Undispatched gn_ind (Some ?ind)]"
    by (auto split: option.split)
  moreover have "btp_destination_port ?ind = port" "btp_source_port ?ind = (if interactive then Some info else None)"
    "btp_destination_port_info ?ind = (if interactive then None else Some info)"
    by (simp_all add: btp_indication_a_def btp_indication_b_def)
  ultimately show ?thesis using q(2,3) parts by metis
qed

theorem port_dispatch_exact_witness:
  "\<exists>q ind. cohesive_layer q Session = [7] \<and> btp_destination_port ind = 2001
    \<and> dispatch_log (dispatch_indicate (indication_init\<lparr>ind_upper_protocol := Some UP_BTP_B\<rparr>)
          (Cohesive (cohesive_packet [7, 209, 0, 0, 7] Transport)) (set_non_interactive_handler 2001 (Some 5) port_dispatcher_init))
        = [Handled 5 ind (Cohesive q)]"
proof -
  let ?p = "cohesive_packet [7, 209, 0, 0, 7] Transport"
  have t: "cohesive_layer ?p Transport = put (2001 :: u16) @ put (0 :: u16) @ [7]" "cohesive_layer ?p Session = []" by code_simp+
  have h: "m_non_interactive_handlers (set_non_interactive_handler 2001 (Some 5) port_dispatcher_init) 2001 = Some (Some 5)"
    "m_promiscuous_hooks (set_non_interactive_handler 2001 (Some 5) port_dispatcher_init) = []"
    "dispatch_log (set_non_interactive_handler 2001 (Some 5) port_dispatcher_init) = []"
    by (simp_all add: set_non_interactive_handler_def port_dispatcher_init_def)
  from port_dispatch_exact [of ?p "indication_init\<lparr>ind_upper_protocol := Some UP_BTP_B\<rparr>" False 2001 0 "[7]"
      "set_non_interactive_handler 2001 (Some 5) port_dispatcher_init"] t h
  show ?thesis by (auto simp: cohesive_packet_ok)
qed

end
