(* ===== verification/Access.thy ===== *)
theory Access
  imports MacAddr DccTypes
begin

text \<open>
  The access layer (\<open>vanetza/access\<close>): the data rates of ITS-G5 and the length of what the
  physical layer sends, and the link layer header of QoS data frames with its SNAP extension.
\<close>

subsection \<open>Data rates\<close>

record DataRateG5 =
  m_bytes_per_second :: u32
  m_coded_bits_per_symbol :: u32

definition data_rate_g5 :: "u32 \<Rightarrow> u32 \<Rightarrow> DataRateG5" where
  "data_rate_g5 kbps cbits = \<lparr>m_bytes_per_second = kbps * 1000 div 8, m_coded_bits_per_symbol = cbits\<rparr>"

definition G5_3Mbps :: DataRateG5 where "G5_3Mbps = data_rate_g5 3000 48"
definition G5_4dot5Mbps :: DataRateG5 where "G5_4dot5Mbps = data_rate_g5 4500 48"
definition G5_6Mbps :: DataRateG5 where "G5_6Mbps = data_rate_g5 6000 96"
definition G5_9Mbps :: DataRateG5 where "G5_9Mbps = data_rate_g5 9000 96"
definition G5_12Mbps :: DataRateG5 where "G5_12Mbps = data_rate_g5 12000 192"
definition G5_18bps :: DataRateG5 where "G5_18bps = data_rate_g5 18000 192"
definition G5_24Mbps :: DataRateG5 where "G5_24Mbps = data_rate_g5 24000 288"
definition G5_27Mbps :: DataRateG5 where "G5_27Mbps = data_rate_g5 27000 288"

text \<open>The number of bits is computed in 32 bit arithmetic; \<open>None\<close> is the failing assertion.\<close>

definition rate_data_length :: "DataRateG5 \<Rightarrow> nat \<Rightarrow> nat option" where
  "rate_data_length rate psdu =
    (let body = 16 + 6 + of_nat psdu * 8 :: u32;
         padding = body mod m_coded_bits_per_symbol rate;
         padding = (if padding > 0 then m_coded_bits_per_symbol rate - padding else padding)
     in if (body + padding) mod 8 = 0 then Some (unat ((body + padding) div 8)) else None)"

record AccessDataRequest =
  access_ether_type :: u16
  source_addr :: MacAddress
  destination_addr :: MacAddress
  access_category :: AccessCategory

fun pppp_from_ac :: "AccessCategory \<Rightarrow> byte" where
  "pppp_from_ac VO = 2"
| "pppp_from_ac VI = 4"
| "pppp_from_ac BE = 5"
| "pppp_from_ac BK = 7"

fun print_ac :: "AccessCategory \<Rightarrow> string" where
  "print_ac BK = ''AC_BK''"
| "print_ac BE = ''AC_BE''"
| "print_ac VI = ''AC_VI''"
| "print_ac VO = ''AC_VO''"

subsection \<open>Link layer header\<close>

definition ethertype_GeoNetworking :: u16 where "ethertype_GeoNetworking = 0x8947"

text \<open>
  A value of type \<open>uint16be_t\<close> is represented by the number it stands for, which is written with
  its upper octet first. The class stores it in network byte order: on a little-endian host
  \<open>get\<close> returns the number with its octets reversed, and the conversion of a plain number
  stores that number as it is.
\<close>

definition endian_get :: "ByteOrder \<Rightarrow> u16 \<Rightarrow> u16" where
  "endian_get host w = convert_endian host BigEndian w"

definition endian_of_stored :: "ByteOrder \<Rightarrow> u16 \<Rightarrow> u16" where
  "endian_of_stored host v = convert_endian BigEndian host v"

type_synonym QosControl = u16
type_synonym FrameControl = u16
type_synonym SequenceControl = u16

definition set_user_priority :: "ByteOrder \<Rightarrow> AccessCategory \<Rightarrow> QosControl \<Rightarrow> QosControl" where
  "set_user_priority host ac raw =
     endian_of_stored host ((endian_get host raw AND NOT 0x000F) OR (of_nat (ac_raw ac) AND 0x07))"

definition fc_protocol :: "ByteOrder \<Rightarrow> FrameControl \<Rightarrow> 2 word" where "fc_protocol host raw = ucast (endian_get host raw)"
definition fc_type :: "ByteOrder \<Rightarrow> FrameControl \<Rightarrow> 2 word" where "fc_type host raw = ucast (drop_bit 2 (endian_get host raw))"
definition fc_sub_type :: "ByteOrder \<Rightarrow> FrameControl \<Rightarrow> 4 word" where "fc_sub_type host raw = ucast (drop_bit 4 (endian_get host raw))"
definition fc_to_ds :: "ByteOrder \<Rightarrow> FrameControl \<Rightarrow> bool" where "fc_to_ds host raw \<longleftrightarrow> endian_get host raw AND 0x0100 \<noteq> 0"
definition fc_from_ds :: "ByteOrder \<Rightarrow> FrameControl \<Rightarrow> bool" where "fc_from_ds host raw \<longleftrightarrow> endian_get host raw AND 0x0200 \<noteq> 0"
definition fc_more_fragments :: "ByteOrder \<Rightarrow> FrameControl \<Rightarrow> bool" where "fc_more_fragments host raw \<longleftrightarrow> endian_get host raw AND 0x0400 \<noteq> 0"
definition fc_retry :: "ByteOrder \<Rightarrow> FrameControl \<Rightarrow> bool" where "fc_retry host raw \<longleftrightarrow> endian_get host raw AND 0x0800 \<noteq> 0"
definition qos_data_frame :: FrameControl where "qos_data_frame = 0x8800"

definition sc_sequence_number :: "ByteOrder \<Rightarrow> SequenceControl \<Rightarrow> 12 word" where
  "sc_sequence_number host raw = ucast (drop_bit 4 (endian_get host raw))"

definition sc_fragment_number :: "ByteOrder \<Rightarrow> SequenceControl \<Rightarrow> 4 word" where
  "sc_fragment_number host raw = ucast (endian_get host raw)"

definition bssid_wildcard :: MacAddress where
  "bssid_wildcard = MacAddress 0xFF 0xFF 0xFF 0xFF 0xFF 0xFF"

record QosDataHeader =
  frame_control :: FrameControl
  duration_or_id :: u16
  qos_destination :: MacAddress
  qos_source :: MacAddress
  bssid :: MacAddress
  sequence_control :: SequenceControl
  qos_control :: QosControl

record LlcSnapHeader =
  dsap :: byte
  ssap :: byte
  llc_control :: byte
  oui :: "byte \<times> byte \<times> byte"
  protocol_id :: u16

definition llc_snap_header_of :: "u16 \<Rightarrow> LlcSnapHeader" where
  "llc_snap_header_of proto = \<lparr>dsap = 0xAA, ssap = 0xAA, llc_control = 0x03, oui = (0, 0, 0), protocol_id = proto\<rparr>"

record G5LinkLayer =
  mac_header :: QosDataHeader
  llc_snap_header :: LlcSnapHeader

text \<open>The constructor; \<open>dur\<close>, \<open>dst\<close> and \<open>src\<close> are the fields it does not choose.\<close>

definition g5_link_layer :: "u16 \<Rightarrow> MacAddress \<Rightarrow> MacAddress \<Rightarrow> G5LinkLayer" where
  "g5_link_layer dur dst src = \<lparr>mac_header = \<lparr>frame_control = qos_data_frame, duration_or_id = dur, qos_destination = dst,
     qos_source = src, bssid = bssid_wildcard, sequence_control = 0, qos_control = 0\<rparr>,
     llc_snap_header = llc_snap_header_of ethertype_GeoNetworking\<rparr>"

definition serialize_qos :: "QosDataHeader \<Rightarrow> bytes" where
  "serialize_qos mac = put (frame_control mac) @ put (duration_or_id mac) @ serialize_mac (qos_destination mac)
     @ serialize_mac (qos_source mac) @ serialize_mac (bssid mac) @ put (sequence_control mac) @ put (qos_control mac)"

definition deserialize_qos :: "QosDataHeader reader" where
  "deserialize_qos bs = do {
     (fc, bs) \<leftarrow> (get :: u16 reader) bs;
     (dur, bs) \<leftarrow> (get :: u16 reader) bs;
     (dst, bs) \<leftarrow> deserialize_mac bs;
     (src, bs) \<leftarrow> deserialize_mac bs;
     (bss, bs) \<leftarrow> deserialize_mac bs;
     (seq, bs) \<leftarrow> (get :: u16 reader) bs;
     (qos, bs) \<leftarrow> (get :: u16 reader) bs;
     Some (\<lparr>frame_control = fc, duration_or_id = dur, qos_destination = dst, qos_source = src, bssid = bss,
            sequence_control = seq, qos_control = qos\<rparr>, bs)
   }"

definition serialize_llc :: "LlcSnapHeader \<Rightarrow> bytes" where
  "serialize_llc snap = put (dsap snap) @ put (ssap snap) @ put (llc_control snap)
     @ (case oui snap of (a, b, c) \<Rightarrow> put a @ put b @ put c) @ put (protocol_id snap)"

definition deserialize_llc :: "LlcSnapHeader reader" where
  "deserialize_llc bs = do {
     (ds, bs) \<leftarrow> (get :: byte reader) bs;
     (ss, bs) \<leftarrow> (get :: byte reader) bs;
     (ctl, bs) \<leftarrow> (get :: byte reader) bs;
     (a, bs) \<leftarrow> (get :: byte reader) bs;
     (b, bs) \<leftarrow> (get :: byte reader) bs;
     (c, bs) \<leftarrow> (get :: byte reader) bs;
     (proto, bs) \<leftarrow> (get :: u16 reader) bs;
     Some (\<lparr>dsap = ds, ssap = ss, llc_control = ctl, oui = (a, b, c), protocol_id = proto\<rparr>, bs)
   }"

definition serialize_g5 :: "G5LinkLayer \<Rightarrow> bytes" where
  "serialize_g5 g5 = serialize_qos (mac_header g5) @ serialize_llc (llc_snap_header g5)"

definition deserialize_g5 :: "G5LinkLayer reader" where
  "deserialize_g5 bs = do {
     (mac, bs) \<leftarrow> deserialize_qos bs;
     (llc, bs) \<leftarrow> deserialize_llc bs;
     Some (\<lparr>mac_header = mac, llc_snap_header = llc\<rparr>, bs)
   }"

definition llc_eq :: "LlcSnapHeader \<Rightarrow> LlcSnapHeader \<Rightarrow> bool" where
  "llc_eq a b \<longleftrightarrow> dsap a = dsap b \<and> ssap a = ssap b \<and> llc_control a = llc_control b \<and> oui a = oui b \<and> protocol_id a = protocol_id b"

definition check_fixed_fields :: "ByteOrder \<Rightarrow> G5LinkLayer \<Rightarrow> bool" where
  "check_fixed_fields host ll =
    (let mac = mac_header ll; frame_control_fixed = 0xFFFF; qos_control_fixed = 0xFF98
     in endian_get host (frame_control mac) AND frame_control_fixed = endian_get host qos_data_frame AND frame_control_fixed \<and>
        endian_get host (qos_control mac) AND qos_control_fixed = endian_get host 0 AND qos_control_fixed \<and>
        sc_fragment_number host (sequence_control mac) = 0 \<and>
        mac_eq (bssid mac) bssid_wildcard \<and>
        llc_eq (llc_snap_header ll) (llc_snap_header_of ethertype_GeoNetworking))"

subsection \<open>Facts\<close>

interpretation qos_codec: fixed_codec serialize_qos deserialize_qos 26 "\<lambda>_. True"
proof
  show "length (serialize_qos x) = 26" for x by (simp add: serialize_qos_def codec_simps)
  show "deserialize_qos (serialize_qos x @ r) = Some (x, r)" for x r
    by (simp add: serialize_qos_def deserialize_qos_def codec_simps)
  show "True \<and> bs = serialize_qos x @ r" if "deserialize_qos bs = Some (x, r)" for bs x r
    using that unfolding deserialize_qos_def
    by (auto simp: bind_eq_Some_conv serialize_qos_def dest!: codec_dest)
  show "deserialize_qos bs \<noteq> None" if "26 \<le> length bs" for bs
    using that unfolding deserialize_qos_def
    by (auto simp: codec_simps split: Option.bind_split dest!: codec_rest)
qed

interpretation llc_codec: fixed_codec serialize_llc deserialize_llc 8 "\<lambda>_. True"
proof
  show "length (serialize_llc x) = 8" for x by (simp add: serialize_llc_def codec_simps split: prod.split)
  show "deserialize_llc (serialize_llc x @ r) = Some (x, r)" for x r
    by (simp add: serialize_llc_def deserialize_llc_def codec_simps split: prod.split)
  show "True \<and> bs = serialize_llc x @ r" if "deserialize_llc bs = Some (x, r)" for bs x r
    using that unfolding deserialize_llc_def
    by (auto simp: bind_eq_Some_conv serialize_llc_def dest!: codec_dest)
  show "deserialize_llc bs \<noteq> None" if "8 \<le> length bs" for bs
    using that unfolding deserialize_llc_def
    by (auto simp: codec_simps split: Option.bind_split dest!: codec_rest)
qed

lemmas link_codec_laws [codec_simps] =
  qos_codec.ser_length qos_codec.des_ser [OF TrueI] qos_codec.des_None_iff
  llc_codec.ser_length llc_codec.des_ser [OF TrueI] llc_codec.des_None_iff

declare qos_codec.ser_des [THEN conjunct2, codec_dest] and llc_codec.ser_des [THEN conjunct2, codec_dest]
  and qos_codec.des_rest_length [codec_rest] and llc_codec.des_rest_length [codec_rest]

interpretation g5_codec: fixed_codec serialize_g5 deserialize_g5 34 "\<lambda>_. True"
proof
  show "length (serialize_g5 x) = 34" for x by (simp add: serialize_g5_def codec_simps)
  show "deserialize_g5 (serialize_g5 x @ r) = Some (x, r)" for x r
    by (simp add: serialize_g5_def deserialize_g5_def codec_simps)
  show "True \<and> bs = serialize_g5 x @ r" if "deserialize_g5 bs = Some (x, r)" for bs x r
    using that unfolding deserialize_g5_def
    by (auto simp: bind_eq_Some_conv serialize_g5_def dest!: codec_dest)
  show "deserialize_g5 bs \<noteq> None" if "34 \<le> length bs" for bs
    using that unfolding deserialize_g5_def
    by (auto simp: codec_simps split: Option.bind_split dest!: codec_rest)
qed

lemma endian_reverse_u16: "endian_reverse (w :: u16) = push_bit 8 w OR drop_bit 8 w"
  by (rule bit_word_eqI)
    (auto simp: endian_reverse_def word_size_def numeral_2_eq_2 bit_or_iff bit_push_bit_iff bit_drop_bit_eq bit_ucast_iff add.commute
      dest: bit_imp_le_length)

lemma endian_simps [simp]:
  "endian_get BigEndian w = w" "endian_get LittleEndian w = endian_reverse w"
  "endian_of_stored BigEndian v = v" "endian_of_stored LittleEndian v = endian_reverse v"
  by (simp_all add: endian_get_def endian_of_stored_def convert_endian_def)

lemma bit_endian_reverse: "bit (endian_reverse (w :: u16)) n \<longleftrightarrow> (if n < 8 then bit w (n + 8) else n < 16 \<and> bit w (n - 8))"
  by (auto simp: endian_reverse_u16 bit_or_iff bit_push_bit_iff bit_drop_bit_eq add.commute dest: bit_imp_le_length)

lemma endian_reverse_reverse [simp]: "endian_reverse (endian_reverse (w :: u16)) = w"
  by (rule bit_word_eqI) (auto simp: bit_endian_reverse)

lemma endian_get_of_stored [simp]: "endian_get host (endian_of_stored host v) = v" "endian_of_stored host (endian_get host v) = v"
  by (cases host; simp)+

lemma endian_get_zero [simp]: "endian_get host 0 = 0"
  by (cases host) (simp_all add: endian_reverse_u16)

lemma set_user_priority_fixed: "endian_get host (set_user_priority host ac raw) AND 0xFF98 = endian_get host raw AND 0xFF90"
  by (cases ac) (simp_all add: set_user_priority_def bit.conj_disj_distrib2 and.assoc)

lemma put_u16: "put (w :: u16) = [ucast (drop_bit 8 w), ucast w]"
proof -
  have "(2 :: nat) = Suc (Suc 0)" by simp
  then have "le_bytes 2 w = [ucast w, ucast (drop_bit 8 w)]" by (simp only: le_bytes.simps)
  then show ?thesis by (simp add: put_def word_size_def)
qed

text \<open>
  The octet that carries protocol version, type and subtype is written first. The accessors find
  the type and subtype of QoS data frames there on a little-endian host; on a big-endian host
  they look into the octet of flags.
\<close>

lemma frame_accessors:
  "put qos_data_frame = [0x88, 0]"
  "fc_type LittleEndian qos_data_frame = 2" "fc_sub_type LittleEndian qos_data_frame = 8" "\<not> fc_to_ds LittleEndian qos_data_frame"
  "fc_type BigEndian qos_data_frame = 0" "fc_sub_type BigEndian qos_data_frame = 0" "\<not> fc_to_ds BigEndian qos_data_frame"
  by (simp_all add: fc_type_def fc_sub_type_def fc_to_ds_def qos_data_frame_def put_u16 endian_reverse_u16 push_bit_eq_mult drop_bit_eq_div)

lemma priority_passes_check:
  "check_fixed_fields host (ll\<lparr>mac_header := (mac_header ll)\<lparr>qos_control := set_user_priority host ac (qos_control (mac_header ll))\<rparr>\<rparr>)"
  if "check_fixed_fields host ll"
proof -
  let ?q = "endian_get host (qos_control (mac_header ll))"
  have "?q AND 0xFF90 = (?q AND 0xFF98) AND 0xFF90" by (simp add: and.assoc)
  with that show ?thesis by (simp add: check_fixed_fields_def Let_def set_user_priority_fixed)
qed

lemma fresh_link_layer_passes_check: "check_fixed_fields host (g5_link_layer dur dst src)"
  by (simp add: check_fixed_fields_def g5_link_layer_def Let_def qos_data_frame_def sc_fragment_number_def
      llc_eq_def mac_eq_def bssid_wildcard_def)

text \<open>
  Every rate pads to whole symbols of a multiple of eight bits: the assertion holds, the
  result covers service bits, tail bits and the frame and exceeds them by less than a symbol.
\<close>

lemma rate_data_length_bounds:
  assumes c: "unat (m_coded_bits_per_symbol rate) = 8 * k" "0 < k" "k < 1000" and n: "n < 2 ^ 28"
  shows "\<exists>len. rate_data_length rate n = Some len \<and> 22 + 8 * n \<le> 8 * len \<and> 8 * len < 22 + 8 * n + 8 * k \<and> k dvd len"
proof -
  define body where "body = 22 + 8 * n"
  define m where "m = 8 * k"
  define pad where "pad = (if body mod m > 0 then m - body mod m else 0)"
  have m: "0 < m" using c by (simp add: m_def)
  have lt: "body mod m < m" by (rule mod_less_divisor [OF m])
  have fit: "body + m < 2 ^ 32" using c n by (simp add: body_def m_def)
  have w: "unat (16 + 6 + of_nat n * 8 :: u32) = body"
  proof -
    have "(16 + 6 + of_nat n * 8 :: u32) = of_nat body" by (simp add: body_def)
    moreover have "body < 2 ^ LENGTH(32)" using fit by simp
    ultimately show ?thesis by (simp only: unat_of_nat_small)
  qed
  define B C :: u32 where "B = 16 + 6 + of_nat n * 8" and "C = m_coded_bits_per_symbol rate"
  have uB: "unat B = body" and uC: "unat C = m" using w c by (simp_all add: B_def C_def m_def)
  define P where "P = (if B mod C > 0 then C - B mod C else B mod C)"
  have uP: "unat P = pad"
  proof (cases "body mod m > 0")
    case True
    have "B mod C \<le> C" using uB uC lt by (simp add: word_le_nat_alt unat_mod)
    then have "unat (C - B mod C) = m - body mod m" using uB uC by (simp add: unat_sub unat_mod)
    with True show ?thesis using uB uC by (simp add: P_def pad_def word_less_nat_alt unat_mod)
  next
    case False
    then show ?thesis using uB uC by (simp add: P_def pad_def word_less_nat_alt unat_mod)
  qed
  have pl: "pad < m" using lt m by (simp add: pad_def)
  have sum: "unat (B + P) = body + pad"
    using fit pl uB uP by (simp add: unat_word_ariths)
  have dv: "m dvd body + pad"
  proof (cases "body mod m > 0")
    case True
    have "m * (body div m) + body mod m = body" by (rule mult_div_mod_eq)
    moreover have "pad = m - body mod m" using True by (simp add: pad_def)
    ultimately have "body + pad = m * (body div m) + m" using lt by linarith
    then show ?thesis by simp
  qed (simp add: pad_def dvd_eq_mod_eq_0)
  then obtain q where q: "body + pad = m * q" by blast
  have "(B + P) mod 8 = 0"
    using sum q by (simp add: word_unat_eq_iff unat_mod m_def)
  moreover have "unat ((B + P) div 8) = k * q"
    using sum q by (simp add: unat_div m_def)
  ultimately have "rate_data_length rate n = Some (k * q)"
    unfolding rate_data_length_def Let_def B_def [symmetric] C_def [symmetric] P_def [symmetric] by simp
  moreover have "8 * (k * q) = body + pad" using q by (simp add: m_def)
  ultimately show ?thesis using pl by (auto simp: body_def m_def)
qed

end
