(* ===== verification/G5Frame.thy ===== *)
theory G5Frame
  imports Access
begin

text \<open>
  The access layer of the port to ESP-IDF (\<open>ports/esp_idf/src/access.cpp\<close>,
  \<open>its_g5_frame.cpp\<close>): requests to the radio, their validation, and the frames of ITS-G5 they
  are encoded in. A frame is built in a buffer of octets by writing at fixed offsets. A transmit
  power that is not finite is \<open>None\<close>. Encoding and decoding return the result code and, if it is
  \<open>Res_accepted\<close>, what they write to their output parameter.
\<close>

subsection \<open>Requests and indications\<close>

datatype Result = Res_accepted | Res_invalid_argument | Res_unsupported | Res_wrong_entry_point
  | Res_security_unavailable | Res_resource_limit | Res_rejected | Res_time_regression | Res_identity_change_pending

datatype OfdmMcs = Bpsk_1_2 | Bpsk_3_4 | Qpsk_1_2 | Qpsk_3_4 | Qam16_1_2 | Qam16_3_4 | Qam64_2_3 | Qam64_3_4

record AlDataRequest =
  al_source :: MacAddress
  al_destination :: MacAddress
  al_priority :: byte
  transmit_power_dbm :: "real option"
  mcs :: OfdmMcs
  bandwidth_mhz :: u16
  channel_number :: u16
  transceiver_id :: byte
  transceiver_mode :: "byte option"
  datastream_id :: "u32 option"
  al_data :: bytes

definition al_data_request :: AlDataRequest where
  "al_data_request = \<lparr>al_source = MacAddress 0 0 0 0 0 0, al_destination = MacAddress 0 0 0 0 0 0, al_priority = 0,
     transmit_power_dbm = Some 0, mcs = Qpsk_1_2, bandwidth_mhz = 10, channel_number = 180, transceiver_id = 0,
     transceiver_mode = None, datastream_id = None, al_data = []\<rparr>"

record AlDataIndication =
  ali_source :: MacAddress
  ali_destination :: MacAddress
  channel_busy_ratio :: "real option"
  received_power_dbm :: "real option"
  ali_channel_number :: u16
  receiver_id :: byte
  receiver_mode :: "byte option"
  ali_data :: bytes

definition al_data_indication :: AlDataIndication where
  "al_data_indication = \<lparr>ali_source = MacAddress 0 0 0 0 0 0, ali_destination = MacAddress 0 0 0 0 0 0,
     channel_busy_ratio = None, received_power_dbm = None, ali_channel_number = 180, receiver_id = 0, receiver_mode = None,
     ali_data = []\<rparr>"

definition validate_request :: "AlDataRequest \<Rightarrow> nat \<Rightarrow> Result" where
  "validate_request request limit =
    (if al_data request = [] \<or> length (al_data request) > limit \<or> al_priority request > 7
        \<or> transmit_power_dbm request = None \<or> bandwidth_mhz request = 0
     then Res_invalid_argument else Res_accepted)"

subsection \<open>Frames\<close>

definition snap :: bytes where "snap = [0xaa, 0xaa, 0x03, 0, 0, 0, 0x89, 0x47]"

definition maximum_gnpdu :: nat where "maximum_gnpdu = 2296"

text \<open>Overwriting a buffer from an offset on.\<close>

definition write_at :: "nat \<Rightarrow> 'a list \<Rightarrow> 'a list \<Rightarrow> 'a list" where
  "write_at i xs out = take i out @ xs @ drop (i + length xs) out"

definition encode_frame :: "AlDataRequest \<Rightarrow> u16 \<Rightarrow> Result \<times> bytes" where
  "encode_frame request sequence =
    (if validate_request request maximum_gnpdu \<noteq> Res_accepted \<or> sequence > 4095 then (Res_invalid_argument, [])
     else
       (let out = replicate (34 + length (al_data request)) 0;
            out = out[0 := 0x88];
            out = write_at 4 (octets (al_destination request)) out;
            out = write_at 10 (octets (al_source request)) out;
            out = write_at 16 (replicate 6 0xff) out;
            out = out[22 := ucast (push_bit 4 sequence AND 0xff)];
            out = out[23 := ucast (drop_bit 4 sequence)];
            out = out[24 := al_priority request];
            out = write_at 26 snap out;
            out = write_at 34 (al_data request) out
        in (Res_accepted, out)))"

text \<open>
  The caller says whether the last four octets are a frame check sequence; a null pointer is the
  empty list, which is too short as well. The indication that is filled in is a new one; on an
  error it stays as it is.
\<close>

definition decode_frame :: "bytes \<Rightarrow> bool \<Rightarrow> Result \<times> AlDataIndication option" where
  "decode_frame frame fcs =
    (if length frame < 34 + (if fcs then 4 else 0) then (Res_invalid_argument, None)
     else
       (let len = (if fcs then length frame - 4 else length frame)
        in if frame ! 0 \<noteq> 0x88 \<or> frame ! 1 AND 0xc7 \<noteq> 0 \<or> frame ! 22 AND 0x0f \<noteq> 0
              \<or> frame ! 24 AND 0x80 \<noteq> 0 \<or> \<not> list_all (\<lambda>b. b = 0xff) (take 6 (drop 16 frame))
           then (Res_unsupported, None)
           else if take 8 (drop 26 frame) \<noteq> snap then (Res_unsupported, None)
           else if len = 34 \<or> len - 34 > maximum_gnpdu then (Res_invalid_argument, None)
           else case (mac_of_octets (take 6 (drop 10 frame)), mac_of_octets (take 6 (drop 4 frame))) of
                  (Some src, Some dst) \<Rightarrow>
                    (Res_accepted, Some (al_data_indication\<lparr>ali_source := src, ali_destination := dst, ali_data := take (len - 34) (drop 34 frame)\<rparr>))
                | _ \<Rightarrow> (Res_invalid_argument, None)))"

subsection \<open>Facts\<close>

lemma length_write_at [simp]: "i + length xs \<le> length out \<Longrightarrow> length (write_at i xs out) = length out"
  by (simp add: write_at_def)

text \<open>The frame that a valid request becomes, written out octet by octet.\<close>

definition frame_octets :: "MacAddress \<Rightarrow> MacAddress \<Rightarrow> byte \<Rightarrow> byte \<Rightarrow> byte \<Rightarrow> bytes \<Rightarrow> bytes" where
  "frame_octets dst src lo hi prio body =
     [0x88, 0, 0, 0] @ octets dst @ octets src @ replicate 6 0xff @ [lo, hi, prio, 0] @ snap @ body"

lemma encode_frame_octets:
  assumes "validate_request r maximum_gnpdu = Res_accepted" and "sq \<le> 4095"
  shows "encode_frame r sq = (Res_accepted, frame_octets (al_destination r) (al_source r)
     (ucast (push_bit 4 sq AND 0xff)) (ucast (drop_bit 4 sq)) (al_priority r) (al_data r))"
proof -
  obtain a b c d e f where dst: "al_destination r = MacAddress a b c d e f" by (cases "al_destination r")
  obtain a' b' c' d' e' f' where src: "al_source r = MacAddress a' b' c' d' e' f'" by (cases "al_source r")
  have "34 + length (al_data r) = Suc (Suc (Suc (Suc (Suc (Suc (Suc (Suc (Suc (Suc (Suc (Suc (Suc (Suc (Suc (Suc (Suc (Suc
      (Suc (Suc (Suc (Suc (Suc (Suc (Suc (Suc (Suc (Suc (Suc (Suc (Suc (Suc (Suc (Suc (length (al_data r)))))))))))))))))))))))))))))))))))" by simp
  moreover have "\<not> sq > 4095" using assms(2) by (simp add: not_less)
  ultimately show ?thesis using assms(1)
    unfolding encode_frame_def frame_octets_def Let_def
    by (simp add: write_at_def snap_def dst src numeral_eq_Suc)
qed

lemma frame_octets_parts:
  "length (frame_octets dst src lo hi prio body) = 34 + length body"
  "frame_octets dst src lo hi prio body ! 0 = 0x88" "frame_octets dst src lo hi prio body ! Suc 0 = 0"
  "frame_octets dst src lo hi prio body ! 22 = lo" "frame_octets dst src lo hi prio body ! 24 = prio"
  "take 6 (drop 16 (frame_octets dst src lo hi prio body)) = replicate 6 0xff"
  "take 8 (drop 26 (frame_octets dst src lo hi prio body)) = snap"
  "take 6 (drop 10 (frame_octets dst src lo hi prio body)) = octets src"
  "take 6 (drop 4 (frame_octets dst src lo hi prio body)) = octets dst"
  "drop 34 (frame_octets dst src lo hi prio body) = body"
  by (cases src; cases dst; simp add: frame_octets_def snap_def numeral_eq_Suc)+

lemma decode_frame_octets:
  assumes "lo AND 0x0f = 0" and "prio AND 0x80 = 0" and "body \<noteq> []" and "length body \<le> maximum_gnpdu"
  shows "decode_frame (frame_octets dst src lo hi prio body) False
      = (Res_accepted, Some (al_data_indication\<lparr>ali_source := src, ali_destination := dst, ali_data := body\<rparr>))"
    and "length fcs = 4 \<Longrightarrow> decode_frame (frame_octets dst src lo hi prio body @ fcs) True
      = (Res_accepted, Some (al_data_indication\<lparr>ali_source := src, ali_destination := dst, ali_data := body\<rparr>))"
proof -
  show "decode_frame (frame_octets dst src lo hi prio body) False
      = (Res_accepted, Some (al_data_indication\<lparr>ali_source := src, ali_destination := dst, ali_data := body\<rparr>))"
    using assms by (simp add: decode_frame_def frame_octets_parts Let_def list_all_iff)
  assume f: "length fcs = 4"
  have split: "frame_octets dst src lo hi prio body @ fcs = frame_octets dst src lo hi prio (body @ fcs)"
    by (simp add: frame_octets_def)
  show "decode_frame (frame_octets dst src lo hi prio body @ fcs) True
      = (Res_accepted, Some (al_data_indication\<lparr>ali_source := src, ali_destination := dst, ali_data := body\<rparr>))"
    unfolding split using assms f by (simp add: decode_frame_def frame_octets_parts Let_def list_all_iff)
qed

lemma sequence_low_octet: "(ucast (push_bit 4 sq AND 0xff :: u16) :: byte) AND 0x0f = 0"
proof -
  have "x AND 0x0f = take_bit 4 x" for x :: byte by (simp add: take_bit_eq_mask mask_eq_exp_minus_1)
  moreover have "x AND 0xff = take_bit 8 x" for x :: u16 by (simp add: take_bit_eq_mask mask_eq_exp_minus_1)
  ultimately show ?thesis
    by (simp only:) (rule bit_word_eqI, auto simp: bit_take_bit_iff bit_ucast_iff bit_push_bit_iff)
qed

lemma priority_bit: "p \<le> (7 :: byte) \<Longrightarrow> p AND 0x80 = 0"
proof -
  assume "p \<le> 7"
  then have "unat p \<le> 7" by (simp add: word_le_nat_alt)
  then have "unat p \<in> {0..7}" by simp
  then have "p \<in> {0, 1, 2, 3, 4, 5, 6, 7}"
    by (auto simp: atLeastAtMost_upt upt_rec word_unat_eq_iff)
  then show ?thesis by (elim insertE) simp_all
qed

lemma encode_frame_accepted:
  "fst (encode_frame r sq) = Res_accepted \<longleftrightarrow> validate_request r maximum_gnpdu = Res_accepted \<and> sq \<le> 4095"
  by (auto simp: encode_frame_def Let_def)

lemma decode_encoded:
  assumes "encode_frame r sq = (Res_accepted, frame)"
  shows "decode_frame frame False = (Res_accepted, Some (al_data_indication\<lparr>ali_source := al_source r, ali_destination := al_destination r, ali_data := al_data r\<rparr>))"
    and "length fcs = 4 \<Longrightarrow> decode_frame (frame @ fcs) True
      = (Res_accepted, Some (al_data_indication\<lparr>ali_source := al_source r, ali_destination := al_destination r, ali_data := al_data r\<rparr>))"
    and "length frame = 34 + length (al_data r)"
proof -
  have v: "validate_request r maximum_gnpdu = Res_accepted" "sq \<le> 4095" using assms encode_frame_accepted [of r sq] by simp_all
  then have d: "al_data r \<noteq> []" "length (al_data r) \<le> maximum_gnpdu" "al_priority r \<le> 7"
    by (auto simp: validate_request_def not_less split: if_splits)
  have f: "frame = frame_octets (al_destination r) (al_source r) (ucast (push_bit 4 sq AND 0xff)) (ucast (drop_bit 4 sq))
      (al_priority r) (al_data r)" using assms encode_frame_octets [OF v] by simp
  note g = decode_frame_octets [OF sequence_low_octet priority_bit [OF d(3)] d(1,2)]
  show "decode_frame frame False = (Res_accepted, Some (al_data_indication\<lparr>ali_source := al_source r, ali_destination := al_destination r, ali_data := al_data r\<rparr>))"
    "length fcs = 4 \<Longrightarrow> decode_frame (frame @ fcs) True
      = (Res_accepted, Some (al_data_indication\<lparr>ali_source := al_source r, ali_destination := al_destination r, ali_data := al_data r\<rparr>))"
    "length frame = 34 + length (al_data r)"
    unfolding f by (rule g(1), rule g(2), assumption, rule frame_octets_parts(1))
qed

text \<open>Two octets as a 16 bit number in network byte order.\<close>

definition be16 :: "byte \<Rightarrow> byte \<Rightarrow> u16" where
  "be16 a b = push_bit 8 (ucast a) OR ucast b"

lemma bit_be16: "bit (be16 a b) n \<longleftrightarrow> (if n < 8 then bit b n else bit a (n - 8) \<and> n < 16)"
  by (auto simp: be16_def bit_or_iff bit_push_bit_iff bit_ucast_iff dest: bit_imp_le_length)

lemma put16: "put (w :: u16) = [ucast (drop_bit 8 w), ucast w]"
proof -
  have "le_bytes 2 w = [ucast w, ucast (drop_bit 8 w)]" by (simp add: numeral_2_eq_2)
  then show ?thesis by (simp add: put_def word_size_def)
qed

lemma put_be16: "put (be16 a b) = [a, b]"
  unfolding put16 by (simp, intro conjI; rule bit_word_eqI) (auto simp: bit_ucast_iff bit_drop_bit_eq bit_be16)

lemma put8: "put (w :: byte) = [w]"
proof -
  have "le_bytes 1 w = [w]" by (simp only: One_nat_def le_bytes.simps) simp
  then show ?thesis by (simp add: put_def word_size_def)
qed

lemma frame_octets_serialized:
  "frame_octets dst src lo hi prio body = serialize_g5 \<lparr>mac_header = \<lparr>frame_control = 0x8800, duration_or_id = 0,
      qos_destination = dst, qos_source = src, bssid = bssid_wildcard, sequence_control = be16 lo hi,
      qos_control = be16 prio 0\<rparr>, llc_snap_header = llc_snap_header_of 0x8947\<rparr> @ body"
proof -
  have "put (0x8800 :: u16) = [0x88, 0]" "put (0 :: u16) = [0, 0]" "put (0x8947 :: u16) = [0x89, 0x47]" by code_simp+
  then show ?thesis
    by (simp add: frame_octets_def serialize_g5_def serialize_qos_def serialize_llc_def llc_snap_header_of_def put_be16
        put8 serialize_mac_def bssid_wildcard_def snap_def numeral_eq_Suc)
qed

lemma endian_reverse_be16: "endian_reverse (be16 a b) = be16 b a"
  by (rule bit_word_eqI) (auto simp: bit_endian_reverse bit_be16 dest: bit_imp_le_length)

text \<open>The library reads, on a little-endian host, what the port writes.\<close>

lemma be16_zero_low: "be16 0 a = ucast a"
  by (rule bit_word_eqI) (auto simp: bit_be16 bit_ucast_iff dest: bit_imp_le_length)

lemma priority_fixed_bits:
  assumes "p \<le> (7 :: byte)"
  shows "(ucast p :: u16) AND 0xFF98 = 0" and "(ucast p :: u16) AND 0x07 = ucast p"
proof -
  have "unat p \<in> {0..7}" using assms by (simp add: word_le_nat_alt)
  then have "p \<in> {0, 1, 2, 3, 4, 5, 6, 7}"
    by (auto simp: atLeastAtMost_upt upt_rec word_unat_eq_iff)
  then show "(ucast p :: u16) AND 0xFF98 = 0" "(ucast p :: u16) AND 0x07 = ucast p" by (elim insertE; simp)+
qed

lemma sequence_octets:
  assumes "sq \<le> (4095 :: u16)"
  shows "be16 (ucast (drop_bit 4 sq)) (ucast (push_bit 4 sq AND 0xff)) = push_bit 4 sq"
proof -
  have "unat sq < 2 ^ 12" using assms by (simp add: word_le_nat_alt)
  then have t: "take_bit 12 sq = sq" by (simp add: word_unat_eq_iff unsigned_take_bit_eq take_bit_nat_eq_self)
  have h: "\<not> bit sq n" if "12 \<le> n" for n using that by (subst t [symmetric]) (simp add: bit_take_bit_iff)
  have m: "x AND 0xff = take_bit 8 x" for x :: u16 by (simp add: take_bit_eq_mask mask_eq_exp_minus_1)
  show ?thesis unfolding m
  proof (rule bit_word_eqI)
    fix n assume "n < LENGTH(16)"
    then show "bit (be16 (ucast (drop_bit 4 sq)) (ucast (take_bit 8 (push_bit 4 sq)))) n \<longleftrightarrow> bit (push_bit 4 sq) n"
      using h [of "n - 4"]
      by (auto simp: bit_be16 bit_ucast_iff bit_drop_bit_eq bit_take_bit_iff bit_push_bit_iff)
  qed
qed

lemma sequence_control_fields:
  assumes "sq \<le> (4095 :: u16)"
  shows "sc_fragment_number LittleEndian (be16 (ucast (push_bit 4 sq AND 0xff)) (ucast (drop_bit 4 sq))) = 0"
    and "sc_sequence_number LittleEndian (be16 (ucast (push_bit 4 sq AND 0xff)) (ucast (drop_bit 4 sq))) = ucast sq"
  unfolding sc_fragment_number_def sc_sequence_number_def endian_simps endian_reverse_be16 sequence_octets [OF assms]
  by (rule bit_word_eqI; auto simp: bit_ucast_iff bit_push_bit_iff bit_drop_bit_eq)+

text \<open>A header as the library sends it for an access category.\<close>

definition with_priority :: "ByteOrder \<Rightarrow> AccessCategory \<Rightarrow> G5LinkLayer \<Rightarrow> G5LinkLayer" where
  "with_priority host ac ll = ll\<lparr>mac_header := (mac_header ll)\<lparr>qos_control := set_user_priority host ac (qos_control (mac_header ll))\<rparr>\<rparr>"

lemma put_user_priority:
  "put (set_user_priority LittleEndian ac 0) = [of_nat (ac_raw ac), 0]" "put (set_user_priority BigEndian ac 0) = [0, of_nat (ac_raw ac)]"
  by (cases ac; simp add: set_user_priority_def put16 endian_reverse_u16 push_bit_eq_mult drop_bit_eq_div)+

lemma library_frame_octets:
  "serialize_g5 (with_priority LittleEndian ac (g5_link_layer 0 dst src)) @ body = frame_octets dst src 0 0 (of_nat (ac_raw ac)) body"
  "serialize_g5 (with_priority BigEndian ac (g5_link_layer 0 dst src)) @ body
     = [0x88, 0, 0, 0] @ octets dst @ octets src @ replicate 6 0xff @ [0, 0, 0, of_nat (ac_raw ac)] @ snap @ body"
proof -
  have "put (qos_data_frame) = [0x88, 0]" "put (0 :: u16) = [0, 0]" "put (ethertype_GeoNetworking) = [0x89, 0x47]" by code_simp+
  then show "serialize_g5 (with_priority LittleEndian ac (g5_link_layer 0 dst src)) @ body = frame_octets dst src 0 0 (of_nat (ac_raw ac)) body"
    "serialize_g5 (with_priority BigEndian ac (g5_link_layer 0 dst src)) @ body
       = [0x88, 0, 0, 0] @ octets dst @ octets src @ replicate 6 0xff @ [0, 0, 0, of_nat (ac_raw ac)] @ snap @ body"
    by (simp_all add: with_priority_def g5_link_layer_def serialize_g5_def serialize_qos_def serialize_llc_def llc_snap_header_of_def
        put8 serialize_mac_def bssid_wildcard_def snap_def numeral_eq_Suc frame_octets_def put_user_priority)
qed

lemma decode_library_frame:
  assumes "body \<noteq> []" and "length body \<le> maximum_gnpdu"
  shows "decode_frame (serialize_g5 (with_priority LittleEndian ac (g5_link_layer 0 dst src)) @ body) False
    = (Res_accepted, Some (al_data_indication\<lparr>ali_source := src, ali_destination := dst, ali_data := body\<rparr>))"
  unfolding library_frame_octets(1) by (rule decode_frame_octets) (use assms in \<open>cases ac; simp\<close>)+

text \<open>
  On a big-endian host the library would write the priority of its frames into the second octet of
  QoS control, where the port does not look, and would reject every frame of the port that has a
  priority.
\<close>

lemma big_endian_host_differs:
  assumes "encode_frame r sq = (Res_accepted, frame)" and "deserialize_g5 frame = Some (ll, rest)" and "check_fixed_fields BigEndian ll"
  shows "al_priority r = 0"
proof -
  have v: "validate_request r maximum_gnpdu = Res_accepted" "sq \<le> 4095" using assms(1) encode_frame_accepted [of r sq] by simp_all
  from encode_frame_octets [OF v] assms(1)
  have "frame = frame_octets (al_destination r) (al_source r) (ucast (push_bit 4 sq AND 0xff)) (ucast (drop_bit 4 sq)) (al_priority r) (al_data r)"
    by simp
  then have q: "be16 (al_priority r) 0 AND 0xFF98 = 0"
    using assms(2,3) by (auto simp: frame_octets_serialized g5_codec.des_ser check_fixed_fields_def Let_def)
  have "bit (0xFF98 :: u16) (n + 8)" if "n < 8" for n
    using that by (auto simp: less_Suc_eq numeral_eq_Suc)
  then have "\<not> bit (al_priority r) n" if "n < 8" for n
    using arg_cong [OF q, of "\<lambda>w. bit w (n + 8)"] that by (auto simp: bit_and_iff bit_be16)
  then show ?thesis by (intro bit_word_eqI) simp
qed

subsection \<open>Properties\<close>

text \<open>C23: What one station sends another one receives. Encoding a frame succeeds exactly if the
  payload is not empty and has at most 2296 octets, the priority is at most 7, the transmit
  power is finite, the bandwidth is not zero and the sequence number has 12 bits; otherwise it
  reports an invalid argument and yields nothing. An encoded frame is 34 octets longer than its
  payload and is decoded, with or without the four octets of a frame check sequence behind it,
  to the source, the destination and the very octets of the request.\<close>

theorem frame_round_trip:
  assumes "length fcs = 4"
  shows "case encode_frame r sq of (result, frame) \<Rightarrow>
    if al_data r \<noteq> [] \<and> length (al_data r) \<le> 2296 \<and> al_priority r \<le> 7 \<and> transmit_power_dbm r \<noteq> None \<and> bandwidth_mhz r \<noteq> 0 \<and> sq \<le> 4095
    then result = Res_accepted \<and> length frame = 34 + length (al_data r)
      \<and> decode_frame frame False = (Res_accepted, Some (al_data_indication\<lparr>ali_source := al_source r, ali_destination := al_destination r, ali_data := al_data r\<rparr>))
      \<and> decode_frame (frame @ fcs) True = decode_frame frame False
    else result = Res_invalid_argument \<and> frame = []"
proof -
  obtain result frame where e: "encode_frame r sq = (result, frame)" by fastforce
  have v: "validate_request r maximum_gnpdu = Res_accepted \<longleftrightarrow> al_data r \<noteq> [] \<and> length (al_data r) \<le> 2296 \<and> al_priority r \<le> 7
      \<and> transmit_power_dbm r \<noteq> None \<and> bandwidth_mhz r \<noteq> 0"
    by (auto simp: validate_request_def maximum_gnpdu_def not_less)
  show ?thesis
  proof (cases "validate_request r maximum_gnpdu = Res_accepted \<and> sq \<le> 4095")
    case True
    then have "encode_frame r sq = (Res_accepted, frame)" using e encode_frame_accepted [of r sq] by simp
    from decode_encoded [OF this] this True assms show ?thesis using v by simp
  next
    case False
    then have "encode_frame r sq = (Res_invalid_argument, [])" by (auto simp: encode_frame_def not_le)
    then show ?thesis using False v by auto
  qed
qed

theorem frame_round_trip_witness:
  "let r = al_data_request\<lparr>al_source := MacAddress 2 0 0 0 0 1, al_destination := bssid_wildcard, al_priority := 5, al_data := [1, 2, 3]\<rparr>
   in fst (encode_frame r 7) = Res_accepted
     \<and> decode_frame (snd (encode_frame r 7) @ [0, 0, 0, 0]) True
       = (Res_accepted, Some (al_data_indication\<lparr>ali_source := MacAddress 2 0 0 0 0 1, ali_destination := bssid_wildcard, ali_data := [1, 2, 3]\<rparr>))
     \<and> fst (encode_frame r 4096) = Res_invalid_argument"
proof -
  let ?r = "al_data_request\<lparr>al_source := MacAddress 2 0 0 0 0 1, al_destination := bssid_wildcard, al_priority := 5, al_data := [1, 2, 3]\<rparr>"
  show ?thesis
    using frame_round_trip [of "[0, 0, 0, 0]" ?r 7] frame_round_trip [of "[0, 0, 0, 0]" ?r 4096]
    unfolding Let_def case_prod_beta by (simp add: al_data_request_def)
qed



end
