(* ===== verification/DccLoad.thy ===== *)
theory DccLoad
  imports DccTypes
begin

text \<open>
  Numbers of the unit interval (\<open>vanetza/common/unit_interval.cpp\<close>), channel loads
  (\<open>vanetza/dcc/channel_load.cpp\<close>) and the smoothing of load measurements
  (\<open>smoothing_channel_probe_processor.cpp\<close>). A number of the unit interval is a real number;
  that it lies between zero and one is what every operation maintains.
\<close>

type_synonym UnitInterval = real
type_synonym ChannelLoad = real

definition clamp :: "real \<Rightarrow> real" where
  "clamp v = (if v > 1 then 1 else if v < 0 then 0 else v)"

definition unit_interval :: "real \<Rightarrow> UnitInterval" where
  "unit_interval v = clamp v"

definition ui_add :: "UnitInterval \<Rightarrow> real \<Rightarrow> UnitInterval" where "ui_add a v = clamp (a + v)"
definition ui_sub :: "UnitInterval \<Rightarrow> real \<Rightarrow> UnitInterval" where "ui_sub a v = clamp (a - v)"
definition ui_scale :: "UnitInterval \<Rightarrow> real \<Rightarrow> UnitInterval" where "ui_scale a v = clamp (a * v)"
definition ui_mult :: "UnitInterval \<Rightarrow> UnitInterval \<Rightarrow> UnitInterval" where "ui_mult a b = a * b"

text \<open>Division by (positive) zero gives infinity, which is cut to one, unless the dividend is zero, too.\<close>

definition ui_div :: "UnitInterval \<Rightarrow> UnitInterval \<Rightarrow> UnitInterval option" where
  "ui_div a b = (if b = 0 then (if a = 0 then None else Some 1) else Some (min (a / b) 1))"

definition ui_div_real :: "UnitInterval \<Rightarrow> real \<Rightarrow> UnitInterval option" where
  "ui_div_real a v = (if v = 0 then (if a = 0 then None else Some 1) else Some (clamp (a / v)))"

definition complement :: "UnitInterval \<Rightarrow> UnitInterval" where
  "complement a = 1 - a"

text \<open>Equality tolerates less than the machine epsilon.\<close>

definition ui_eq :: "UnitInterval \<Rightarrow> UnitInterval \<Rightarrow> bool" where
  "ui_eq a b \<longleftrightarrow> \<bar>a - b\<bar> < 1 / 2 ^ 52"

definition mean2 :: "UnitInterval \<Rightarrow> UnitInterval \<Rightarrow> UnitInterval" where
  "mean2 a b = unit_interval (0.5 * (a + b))"

fun mean_loop :: "UnitInterval list \<Rightarrow> nat \<Rightarrow> real \<Rightarrow> nat \<times> real" where
  "mean_loop [] count accu = (count, accu)"
| "mean_loop (x # xs) count accu = mean_loop xs (Suc count) (accu + x)"

definition mean :: "UnitInterval list \<Rightarrow> UnitInterval" where
  "mean xs = (let (count, accu) = mean_loop xs 0 0 in unit_interval (if count > 1 then accu / real count else accu))"

definition create_from_probes :: "u32 \<Rightarrow> u32 \<Rightarrow> ChannelLoad" where
  "create_from_probes probes_busy probes_total =
     unit_interval (if probes_total \<noteq> 0 then real (unat probes_busy) / real (unat probes_total) else 0)"

record SmoothingChannelProbeProcessor =
  m_alpha :: UnitInterval
  m_smoothed_load :: ChannelLoad

definition smoothing_processor :: "UnitInterval \<Rightarrow> SmoothingChannelProbeProcessor" where
  "smoothing_processor alpha = \<lparr>m_alpha = alpha, m_smoothed_load = 0\<rparr>"

text \<open>The smoothed load is what the hook is called with.\<close>

definition smoothing_indicate ::
  "ChannelLoad \<Rightarrow> SmoothingChannelProbeProcessor \<Rightarrow> ChannelLoad \<times> SmoothingChannelProbeProcessor" where
  "smoothing_indicate cl p =
    (let load = ui_add (ui_mult (m_alpha p) cl) (ui_mult (complement (m_alpha p)) (m_smoothed_load p))
     in (load, p\<lparr>m_smoothed_load := load\<rparr>))"

subsection \<open>Facts\<close>

definition in_unit :: "real \<Rightarrow> bool" where
  "in_unit v \<longleftrightarrow> 0 \<le> v \<and> v \<le> 1"

lemma in_unit_clamp [simp]: "in_unit (clamp v)"
  by (simp add: in_unit_def clamp_def)

lemma clamp_id: "in_unit v \<Longrightarrow> clamp v = v"
  by (simp add: in_unit_def clamp_def)

lemma clamp_mono: "a \<le> b \<Longrightarrow> clamp a \<le> clamp b"
  by (simp add: clamp_def)

lemma clamp_nonexpansive: "\<bar>clamp a - clamp b\<bar> \<le> \<bar>a - b\<bar>"
  by (simp add: clamp_def)

lemma in_unit_ui_div: "in_unit a \<Longrightarrow> in_unit b \<Longrightarrow> ui_div a b = Some q \<Longrightarrow> in_unit q"
  by (auto simp: ui_div_def in_unit_def min_def divide_nonneg_nonneg split: if_splits)

lemma in_unit_ui_div_real: "ui_div_real a v = Some q \<Longrightarrow> in_unit q"
  by (auto simp: ui_div_real_def in_unit_def clamp_def split: if_splits)

lemma in_unit_ui_mult: "in_unit a \<Longrightarrow> in_unit b \<Longrightarrow> in_unit (ui_mult a b)"
  by (auto simp: ui_mult_def in_unit_def mult_le_one)

lemma in_unit_complement: "in_unit a \<Longrightarrow> in_unit (complement a)"
  by (simp add: complement_def in_unit_def)

lemma in_unit_results [simp]:
  "in_unit (unit_interval v)" "in_unit (ui_add a v)" "in_unit (ui_sub a v)" "in_unit (ui_scale a v)"
  "in_unit (mean2 a b)" "in_unit (mean xs)" "in_unit (create_from_probes m n)"
  by (simp_all add: unit_interval_def ui_add_def ui_sub_def ui_scale_def mean2_def mean_def create_from_probes_def
      split: prod.split)

lemma convex_in_range:
  fixes a x y :: real
  assumes "in_unit a" "lo \<le> x" "x \<le> hi" "lo \<le> y" "y \<le> hi"
  shows "lo \<le> a * x + (1 - a) * y" "a * x + (1 - a) * y \<le> hi"
proof -
  have "a * lo + (1 - a) * lo \<le> a * x + (1 - a) * y" "a * x + (1 - a) * y \<le> a * hi + (1 - a) * hi"
    using assms by (auto simp: in_unit_def intro!: add_mono mult_left_mono)
  then show "lo \<le> a * x + (1 - a) * y" "a * x + (1 - a) * y \<le> hi" by (simp_all add: algebra_simps)
qed

lemma smoothing_indicate_eq:
  assumes "in_unit (m_alpha p)" "in_unit cl" "in_unit (m_smoothed_load p)"
  shows "m_smoothed_load (snd (smoothing_indicate cl p)) = m_alpha p * cl + (1 - m_alpha p) * m_smoothed_load p"
proof -
  have "in_unit (m_alpha p * cl + (1 - m_alpha p) * m_smoothed_load p)"
    using convex_in_range [OF assms(1), of 0 cl 1 "m_smoothed_load p"] assms by (simp add: in_unit_def)
  then show ?thesis by (simp add: smoothing_indicate_def Let_def ui_add_def ui_mult_def complement_def clamp_id)
qed

lemma smoothing_constant_input:
  assumes "in_unit (m_alpha p)" "in_unit cl" "in_unit (m_smoothed_load p)"
  shows "m_smoothed_load (((\<lambda>p. snd (smoothing_indicate cl p)) ^^ n) p) - cl = (1 - m_alpha p) ^ n * (m_smoothed_load p - cl)"
proof (induction n)
  case (Suc n)
  let ?q = "((\<lambda>p. snd (smoothing_indicate cl p)) ^^ n) p"
  have alpha: "m_alpha ?q = m_alpha p"
    by (induction n) (simp_all add: smoothing_indicate_def Let_def)
  have unit: "in_unit (m_smoothed_load ?q)"
    using assms(3) by (cases n) (simp_all add: smoothing_indicate_def Let_def)
  have "m_smoothed_load (snd (smoothing_indicate cl ?q)) - cl = (1 - m_alpha p) * (m_smoothed_load ?q - cl)"
    using assms unit alpha by (simp add: smoothing_indicate_eq algebra_simps)
  then show ?case by (simp add: Suc.IH mult.assoc)
qed simp

end
