(* ===== verification/DccNet.thy ===== *)
theory DccNet
  imports LocationTbl DccLoad "HOL-Library.Multiset"
begin

text \<open>
  Sharing of channel loads among stations (\<open>vanetza/geonet/cbr_aggregator.cpp\<close>,
  \<open>dcc_information_sharing.cpp\<close>): every station sends its own load and the load of its neighbours
  in the DCC field of its single-hop broadcasts; the aggregator combines the loads that neighbours
  have sent since the last aggregation with the own one. The order of the location table is the
  iteration order of a hash map. The running average of the loads is computed in double
  precision, so what the aggregator computes depends on that order only if the average is very
  close to the target.
\<close>

subsection \<open>Aggregation\<close>

record CbrAggregatorUnit =
  unit_n :: nat
  unit_average :: ChannelLoad
  maximum0 :: ChannelLoad
  maximum1 :: ChannelLoad

definition aggregator_unit :: CbrAggregatorUnit where
  "aggregator_unit = \<lparr>unit_n = 0, unit_average = 0, maximum0 = 0, maximum1 = 0\<rparr>"

definition unit_add :: "ChannelLoad \<Rightarrow> CbrAggregatorUnit \<Rightarrow> CbrAggregatorUnit" where
  "unit_add cbr u =
    (let u = u\<lparr>unit_average := unit_interval (round_double
                 (round_double (round_double (unit_average u * real (unit_n u)) + cbr) / real (unit_n u + 1))),
               unit_n := unit_n u + 1\<rparr>
     in if cbr \<ge> maximum0 u then u\<lparr>maximum1 := maximum0 u, maximum0 := cbr\<rparr>
        else if cbr > maximum1 u then u\<lparr>maximum1 := cbr\<rparr> else u)"

definition unit_result :: "ChannelLoad \<Rightarrow> CbrAggregatorUnit \<Rightarrow> ChannelLoad" where
  "unit_result target u = (if unit_average u > target then maximum0 u else maximum1 u)"

record CbrAggregator =
  m_local_cbr0 :: ChannelLoad
  m_local_cbr1 :: ChannelLoad
  m_one_hop_cbr :: ChannelLoad
  m_two_hop_cbr :: ChannelLoad
  m_global_cbr :: ChannelLoad

definition cbr_aggregator :: CbrAggregator where
  "cbr_aggregator = \<lparr>m_local_cbr0 = 0, m_local_cbr1 = 0, m_one_hop_cbr = 0, m_two_hop_cbr = 0, m_global_cbr = 0\<rparr>"

text \<open>The visitor of the location table, with both units as its state.\<close>

definition aggregate_entry ::
  "Timestamp \<Rightarrow> LocationTableEntry \<Rightarrow> CbrAggregatorUnit \<times> CbrAggregatorUnit \<Rightarrow> CbrAggregatorUnit \<times> CbrAggregatorUnit" where
  "aggregate_entry lt e us = (case ext_loctex e of
      None \<Rightarrow> us
    | Some loctex \<Rightarrow>
        if \<not> timestamp_less (local_update loctex) lt
        then (unit_add (local_cbr (dcc_mco loctex)) (fst us), unit_add (neighbour_cbr (dcc_mco loctex)) (snd us))
        else us)"

definition aggregate ::
  "time_point \<Rightarrow> ChannelLoad \<Rightarrow> LocationTable \<Rightarrow> Timestamp \<Rightarrow> ChannelLoad \<Rightarrow> CbrAggregator \<Rightarrow> CbrAggregator" where
  "aggregate now local table lt target a =
    (let a = a\<lparr>m_local_cbr1 := m_local_cbr0 a, m_local_cbr0 := local\<rparr>;
         (one_hop, two_hop) = visit now (\<lambda>_ e. aggregate_entry lt e) table (aggregator_unit, aggregator_unit);
         a = a\<lparr>m_one_hop_cbr := unit_result target one_hop, m_two_hop_cbr := unit_result target two_hop\<rparr>
     in a\<lparr>m_global_cbr := max (m_local_cbr1 a) (max (m_one_hop_cbr a) (m_two_hop_cbr a))\<rparr>)"

subsection \<open>Information sharing\<close>

record DccInformationSharing =
  m_cbr_target :: ChannelLoad
  m_cbr_local :: ChannelLoad
  m_tx_power :: nat
  m_aggregator :: CbrAggregator
  m_trigger_interval :: duration
  m_last_aggregation :: Timestamp

definition dcc_information_sharing :: "time_point \<Rightarrow> ChannelLoad \<Rightarrow> DccInformationSharing" where
  "dcc_information_sharing now target = \<lparr>m_cbr_target = target, m_cbr_local = 0, m_tx_power = 0,
     m_aggregator = cbr_aggregator, m_trigger_interval = 100000, m_last_aggregation = timestamp_of now\<rparr>"

text \<open>
  The delay of the first cycle. Multiplying a duration takes a factor of its integral
  representation type, so the fraction is cut to an integer before.
\<close>

definition initial_delay :: "UnitInterval \<Rightarrow> DccInformationSharing \<Rightarrow> duration" where
  "initial_delay delay d = m_trigger_interval d * trunc_real delay"

definition generate_shared_field :: "DccInformationSharing \<Rightarrow> DccField" where
  "generate_shared_field d =
    (let mco = \<lparr>cbr_l0_hop = 0, cbr_l1_hop = 0, m_output_power = 0\<rparr>;
         mco = set_local_cbr (m_local_cbr0 (m_aggregator d)) mco;
         mco = set_neighbour_cbr (m_one_hop_cbr (m_aggregator d)) mco
     in DccMco (set_output_power (m_tx_power d) mco))"

definition update_local_cbr :: "ChannelLoad \<Rightarrow> DccInformationSharing \<Rightarrow> DccInformationSharing" where
  "update_local_cbr cbr d = d\<lparr>m_cbr_local := cbr\<rparr>"

definition set_tx_power :: "nat \<Rightarrow> DccInformationSharing \<Rightarrow> DccInformationSharing" where
  "set_tx_power dbm d = d\<lparr>m_tx_power := dbm\<rparr>"

text \<open>One cycle; the caller schedules the next one after the trigger interval.\<close>

definition sharing_trigger :: "time_point \<Rightarrow> LocationTable \<Rightarrow> DccInformationSharing \<Rightarrow> DccInformationSharing" where
  "sharing_trigger now table d = d\<lparr>m_aggregator := aggregate now (m_cbr_local d) table (m_last_aggregation d) (m_cbr_target d)
     (m_aggregator d), m_last_aggregation := timestamp_of now\<rparr>"

subsection \<open>The two largest loads\<close>

text \<open>Two numbers are the largest of a list, which counts as padded with zeros.\<close>

definition two_largest :: "real list \<Rightarrow> real \<Rightarrow> real \<Rightarrow> bool" where
  "two_largest xs a b \<longleftrightarrow> b \<le> a \<and> (\<exists>r. mset xs + {#0, 0#} = {#a, b#} + r \<and> (\<forall>x\<in>#r. x \<le> b))"

lemma two_largest_snoc:
  assumes "two_largest xs a b"
  shows "two_largest (xs @ [x]) (max x a) (if x \<ge> a then a else max x b)"
proof -
  obtain r where r: "mset xs + {#0, 0#} = {#a, b#} + r" "\<forall>x\<in>#r. x \<le> b" and ba: "b \<le> a"
    using assms by (auto simp: two_largest_def)
  have m: "mset (xs @ [x]) + {#0, 0#} = {#a, b#} + r + {#x#}" using r(1) by simp
  consider "x \<ge> a" | "x < a" "x > b" | "x \<le> b" "x < a" by linarith
  then show ?thesis
  proof cases
    case 1
    then show ?thesis using m r(2) ba unfolding two_largest_def by (auto intro!: exI [of _ "r + {#b#}"])
  next
    case 2
    then show ?thesis using m r(2) unfolding two_largest_def by (auto intro!: exI [of _ "r + {#b#}"])
  next
    case 3
    then show ?thesis using m r(2) ba unfolding two_largest_def by (auto intro!: exI [of _ "r + {#x#}"])
  qed
qed

lemma two_largest_unique:
  assumes "two_largest xs a b" and "two_largest ys c d" and "mset xs = mset ys"
  shows "a = c \<and> b = d"
proof -
  obtain r where r: "mset xs + {#0, 0#} = {#a, b#} + r" "\<forall>x\<in>#r. x \<le> b" "b \<le> a" using assms(1) by (auto simp: two_largest_def)
  obtain q where q: "mset xs + {#0, 0#} = {#c, d#} + q" "\<forall>x\<in>#q. x \<le> d" "d \<le> c" using assms(2,3) by (auto simp: two_largest_def)
  have e: "{#a, b#} + r = {#c, d#} + q" using r(1) q(1) by metis
  have "a \<in># {#c, d#} + q" unfolding e [symmetric] by simp
  then have "a \<le> c" using q(2,3) by fastforce
  moreover have "c \<in># {#a, b#} + r" unfolding e by simp
  then have "c \<le> a" using r(2,3) by fastforce
  ultimately have ac: "a = c" by simp
  then have e': "{#b#} + r = {#d#} + q" using e by simp
  have "b \<in># {#d#} + q" unfolding e' [symmetric] by simp
  then have "b \<le> d" using q(2) by fastforce
  moreover have "d \<in># {#b#} + r" unfolding e' by simp
  then have "d \<le> b" using r(2) by fastforce
  ultimately have "b = d" by simp
  with ac show ?thesis by simp
qed

subsection \<open>Facts\<close>

text \<open>One step of the running average, with its three roundings.\<close>

lemma rounded_average_step:
  fixes n :: nat and a x b :: real
  assumes a: "in_unit a" and x: "in_unit x" and b: "\<bar>a * real n - b\<bar> \<le> real n * real n / 2 ^ 50"
  shows "\<bar>round_double (round_double (round_double (a * real n) + x) / real (n + 1)) * real (n + 1) - (b + x)\<bar>
    \<le> real (n + 1) * real (n + 1) / 2 ^ 50"
proof -
  define p where "p = round_double (a * real n)"
  define q where "q = round_double (p + x)"
  define r where "r = round_double (q / real (n + 1))"
  have an: "0 \<le> a * real n" "a * real n \<le> real n" using a by (simp_all add: in_unit_def mult_left_le_one_le)
  have x1: "0 \<le> x" "x \<le> 1" using x by (simp_all add: in_unit_def)
  have p: "0 \<le> p" "\<bar>p - a * real n\<bar> \<le> real n / 2 ^ 53"
  proof -
    show "0 \<le> p" using round_double_bounds(1) [OF an(1)] by (simp add: p_def)
    have "\<bar>p - a * real n\<bar> \<le> \<bar>a * real n\<bar> / 2 ^ 53" unfolding p_def by (rule round_double_error)
    also have "\<dots> \<le> real n / 2 ^ 53" using an by simp
    finally show "\<bar>p - a * real n\<bar> \<le> real n / 2 ^ 53" .
  qed
  have "real n / 2 ^ 53 \<le> real n" by simp
  then have p2: "p \<le> 2 * real n" using p(2) an(2) by linarith
  have q: "0 \<le> q" "\<bar>q - (p + x)\<bar> \<le> (2 * real n + 1) / 2 ^ 53"
  proof -
    have px: "0 \<le> p + x" using p(1) x1 by simp
    show "0 \<le> q" using round_double_bounds(1) [OF px] by (simp add: q_def)
    have "\<bar>q - (p + x)\<bar> \<le> \<bar>p + x\<bar> / 2 ^ 53" unfolding q_def by (rule round_double_error)
    also have "\<dots> \<le> (2 * real n + 1) / 2 ^ 53" using px p2 x1 by (intro divide_right_mono) simp_all
    finally show "\<bar>q - (p + x)\<bar> \<le> (2 * real n + 1) / 2 ^ 53" .
  qed
  define t where "t = (2 * real n + 1) / 2 ^ 53"
  have "t \<le> 2 * real n + 1" by (simp add: t_def)
  moreover have "q - (p + x) \<le> t" using abs_le_D1 [OF q(2)] by (simp only: t_def)
  ultimately have q4: "q \<le> 4 * real (n + 1)" using p2 x1 by simp
  have r: "\<bar>r * real (n + 1) - q\<bar> \<le> 4 * real (n + 1) / 2 ^ 53"
  proof -
    have "\<bar>r - q / real (n + 1)\<bar> \<le> \<bar>q / real (n + 1)\<bar> / 2 ^ 53" unfolding r_def by (rule round_double_error)
    then have "\<bar>r - q / real (n + 1)\<bar> * real (n + 1) \<le> \<bar>q / real (n + 1)\<bar> / 2 ^ 53 * real (n + 1)" by (rule mult_right_mono) simp
    moreover have "\<bar>r - q / real (n + 1)\<bar> * real (n + 1) = \<bar>r * real (n + 1) - q\<bar>"
    proof -
      have "(r - q / real (n + 1)) * real (n + 1) = r * real (n + 1) - q" by (simp add: left_diff_distrib)
      then show ?thesis by (metis abs_mult abs_of_nat)
    qed
    moreover have "\<bar>q / k\<bar> / 2 ^ 53 * k = q / 2 ^ 53" if "0 < k" for k :: real using q(1) that by (simp add: field_simps)
    from this [of "real (n + 1)"] have "\<bar>q / real (n + 1)\<bar> / 2 ^ 53 * real (n + 1) = q / 2 ^ 53" by (simp only: of_nat_0_less_iff)
    ultimately have "\<bar>r * real (n + 1) - q\<bar> \<le> q / 2 ^ 53" by metis
    also have "\<dots> \<le> 4 * real (n + 1) / 2 ^ 53" using q4 by (intro divide_right_mono) simp_all
    finally show ?thesis .
  qed
  have e: "real (n + 1) * real (n + 1) / 2 ^ 50 = real n * real n / 2 ^ 50 + (16 * real n + 8) / 2 ^ 53"
    by (simp add: field_simps)
  have "\<bar>r * real (n + 1) - (b + x)\<bar> \<le> 4 * real (n + 1) / 2 ^ 53 + (2 * real n + 1) / 2 ^ 53 + real n / 2 ^ 53 + real n * real n / 2 ^ 50"
    using r q(2) p(2) b by linarith
  also have "\<dots> \<le> real (n + 1) * real (n + 1) / 2 ^ 50" unfolding e by (simp add: field_simps)
  finally show ?thesis unfolding r_def q_def p_def .
qed

lemma clamp_nearer:
  assumes "0 \<le> s" and "s \<le> real n" and "\<bar>r * real n - s\<bar> \<le> e"
  shows "\<bar>unit_interval r * real n - s\<bar> \<le> e"
proof -
  consider "r < 0" | "1 < r" | "0 \<le> r" "r \<le> 1" by linarith
  then show ?thesis
  proof cases
    case 1
    then have "r * real n \<le> 0" by (simp add: mult_nonpos_nonneg)
    then show ?thesis using 1 assms by (simp add: unit_interval_def clamp_def)
  next
    case 2
    then have "1 * real n \<le> r * real n" by (intro mult_right_mono) simp_all
    then show ?thesis using 2 assms by (simp add: unit_interval_def clamp_def)
  qed (use assms in \<open>simp add: unit_interval_def clamp_def\<close>)
qed

lemma unit_fold:
  assumes "\<forall>x\<in>set xs. in_unit x"
  shows "unit_n (fold unit_add xs aggregator_unit) = length xs
    \<and> \<bar>unit_average (fold unit_add xs aggregator_unit) * real (length xs) - sum_list xs\<bar> \<le> real (length xs) * real (length xs) / 2 ^ 50
    \<and> in_unit (unit_average (fold unit_add xs aggregator_unit))
    \<and> 0 \<le> sum_list xs \<and> sum_list xs \<le> real (length xs)
    \<and> two_largest xs (maximum0 (fold unit_add xs aggregator_unit)) (maximum1 (fold unit_add xs aggregator_unit))"
  using assms
proof (induction xs rule: rev_induct)
  case Nil
  have "two_largest [] 0 0" by (simp add: two_largest_def)
  then show ?case by (simp add: aggregator_unit_def in_unit_def)
next
  case (snoc x xs)
  let ?u = "fold unit_add xs aggregator_unit"
  let ?avg = "round_double (round_double (round_double (unit_average ?u * real (length xs)) + x) / real (length xs + 1))"
  have IH: "unit_n ?u = length xs" "\<bar>unit_average ?u * real (length xs) - sum_list xs\<bar> \<le> real (length xs) * real (length xs) / 2 ^ 50"
    "in_unit (unit_average ?u)" "0 \<le> sum_list xs" "sum_list xs \<le> real (length xs)"
    "two_largest xs (maximum0 ?u) (maximum1 ?u)" using snoc by auto
  have x: "in_unit x" using snoc.prems by simp
  then have s: "0 \<le> sum_list xs + x" "sum_list xs + x \<le> real (length xs + 1)" using IH(4,5) by (simp_all add: in_unit_def)
  have "maximum1 ?u \<le> maximum0 ?u" using IH(6) by (simp add: two_largest_def)
  then have step: "maximum0 (unit_add x ?u) = max x (maximum0 ?u)"
    "maximum1 (unit_add x ?u) = (if x \<ge> maximum0 ?u then maximum0 ?u else max x (maximum1 ?u))"
    "unit_average (unit_add x ?u) = unit_interval ?avg" "unit_n (unit_add x ?u) = Suc (length xs)"
    by (auto simp: unit_add_def Let_def IH(1))
  have "\<bar>unit_interval ?avg * real (length xs + 1) - (sum_list xs + x)\<bar> \<le> real (length xs + 1) * real (length xs + 1) / 2 ^ 50"
    by (rule clamp_nearer [OF s rounded_average_step [OF IH(3) x IH(2)]])
  moreover have "in_unit (unit_interval ?avg)" by (simp add: in_unit_def unit_interval_def clamp_def)
  ultimately show ?case using step s two_largest_snoc [OF IH(6), of x] by (simp add: add.commute)
qed

text \<open>The loads that neighbours have sent since the given time.\<close>

definition shared_fields :: "time_point \<Rightarrow> Timestamp \<Rightarrow> LocationTable \<Rightarrow> DccMcoField list" where
  "shared_fields now lt table = map dcc_mco (filter (\<lambda>x. \<not> timestamp_less (local_update x) lt)
     (List.map_filter (\<lambda>(_, e). ext_loctex e) (ss_range now table)))"

lemma visit_units:
  "visit now (\<lambda>_ e. aggregate_entry lt e) table (u, v)
    = (fold unit_add (map local_cbr (shared_fields now lt table)) u, fold unit_add (map neighbour_cbr (shared_fields now lt table)) v)"
proof -
  have "fold (\<lambda>(k, e). aggregate_entry lt e) es (u, v)
      = (fold unit_add (map local_cbr (map dcc_mco (filter (\<lambda>x. \<not> timestamp_less (local_update x) lt) (List.map_filter (\<lambda>(_, e). ext_loctex e) es)))) u,
         fold unit_add (map neighbour_cbr (map dcc_mco (filter (\<lambda>x. \<not> timestamp_less (local_update x) lt) (List.map_filter (\<lambda>(_, e). ext_loctex e) es)))) v)" for es :: "(MacAddress \<times> LocationTableEntry) list"
    by (induction es arbitrary: u v) (auto simp: aggregate_entry_def map_filter_simps split: option.split)
  then show ?thesis unfolding visit_def shared_fields_def by blast
qed

lemma cbr_in_unit: "in_unit (local_cbr m)" "in_unit (neighbour_cbr m)"
proof -
  have "real (unat (w :: byte)) \<le> 255" for w
  proof -
    have "unat w \<le> 255" using unat_byte_less [of w] by linarith
    then have "real (unat w) \<le> real 255" by (simp only: of_nat_le_iff)
    then show ?thesis by simp
  qed
  from this [of "cbr_l0_hop m"] this [of "cbr_l1_hop m"] show "in_unit (local_cbr m)" "in_unit (neighbour_cbr m)"
    unfolding in_unit_def local_cbr_def neighbour_cbr_def
    using of_nat_0_le_iff [of "unat (cbr_l0_hop m)", where 'a = real] of_nat_0_le_iff [of "unat (cbr_l1_hop m)", where 'a = real]
    by linarith+
qed

text \<open>The delay of the first cycle is lost unless it is a whole interval.\<close>

lemma initial_delay_zero: "0 \<le> delay \<Longrightarrow> delay < 1 \<Longrightarrow> initial_delay delay d = 0"
  by (simp add: initial_delay_def trunc_real_def) linarith

subsection \<open>Properties\<close>

definition shared_loads :: "time_point \<Rightarrow> Timestamp \<Rightarrow> LocationTable \<Rightarrow> real list" where
  "shared_loads now lt table = map local_cbr (shared_fields now lt table)"

definition shared_neighbour_loads :: "time_point \<Rightarrow> Timestamp \<Rightarrow> LocationTable \<Rightarrow> real list" where
  "shared_neighbour_loads now lt table = map neighbour_cbr (shared_fields now lt table)"

text \<open>A bound of the error of the running average.\<close>

definition average_error :: "real list \<Rightarrow> real" where
  "average_error xs = real (length xs) / 2 ^ 50"

text \<open>
  What aggregation should choose: the largest load if the mean is above the target and the second
  largest if it is not. A mean within the given distance of the target may count as either.
\<close>

definition exact_mean :: "real list \<Rightarrow> real" where
  "exact_mean xs = sum_list xs / real (length xs)"

definition chosen_load :: "real list \<Rightarrow> real \<Rightarrow> real \<Rightarrow> real \<Rightarrow> real \<Rightarrow> real \<Rightarrow> bool" where
  "chosen_load xs tolerance target largest second chosen \<longleftrightarrow> chosen \<in> {largest, second}
     \<and> (target + tolerance < exact_mean xs \<longrightarrow> chosen = largest) \<and> (exact_mean xs < target - tolerance \<longrightarrow> chosen = second)"

lemma unit_result_chosen:
  assumes "\<forall>x\<in>set xs. in_unit x"
  defines "u \<equiv> fold unit_add xs aggregator_unit"
  shows "chosen_load xs (real (length xs) / 2 ^ 50) target (maximum0 u) (maximum1 u) (unit_result target u)"
proof -
  have "\<bar>unit_average u - exact_mean xs\<bar> \<le> real (length xs) / 2 ^ 50"
  proof (cases "xs = []")
    case True
    then show ?thesis by (simp add: u_def exact_mean_def aggregator_unit_def)
  next
    case False
    then have n: "0 < real (length xs)" by simp
    have "(unit_average u - exact_mean xs) * real (length xs) = unit_average u * real (length xs) - sum_list xs"
      using n by (simp add: exact_mean_def left_diff_distrib)
    then have "\<bar>unit_average u - exact_mean xs\<bar> * real (length xs) = \<bar>unit_average u * real (length xs) - sum_list xs\<bar>"
      by (metis abs_mult abs_of_nat)
    then have "\<bar>unit_average u - exact_mean xs\<bar> * real (length xs) \<le> real (length xs) / 2 ^ 50 * real (length xs)"
      using unit_fold [OF assms(1)] by (simp add: u_def)
    then show ?thesis using n by (simp only: mult_le_cancel_right)
  qed
  then show ?thesis by (auto simp: chosen_load_def unit_result_def abs_le_iff)
qed

lemma exact_mean_mset: "mset xs = mset ys \<Longrightarrow> exact_mean xs = exact_mean ys"
  unfolding exact_mean_def by (metis mset_eq_length sum_mset_sum_list)

lemma chosen_load_unique:
  assumes "chosen_load xs e target a b c" and "chosen_load ys e target a b c'" and "mset xs = mset ys"
    and "e < \<bar>exact_mean xs - target\<bar>"
  shows "c = c'"
  using assms exact_mean_mset [OF assms(3)] by (auto simp: chosen_load_def abs_if split: if_splits)

text \<open>C26: Aggregation compares the mean of the loads that neighbours have reported since the last
  cycle with the target: if it is above, the largest of them counts, otherwise the second
  largest, both for the neighbours' own loads and for those of their neighbours. The running
  average in double precision decides this correctly unless the exact mean is within n times 2
  to the power of -50 of the target, for n loads; then either of the two counts. The global load
  is the maximum of these two and the previous own load. For a mean that is not that close to the
  target, what is computed does not depend on the order in which the location table is visited.\<close>

theorem cbr_aggregation_exact:
  "(\<exists>x0 x1 y0 y1. two_largest (shared_loads now lt table) x0 x1 \<and> two_largest (shared_neighbour_loads now lt table) y0 y1
      \<and> chosen_load (shared_loads now lt table) (average_error (shared_loads now lt table)) target x0 x1 (m_one_hop_cbr (aggregate now local table lt target a))
      \<and> chosen_load (shared_neighbour_loads now lt table) (average_error (shared_neighbour_loads now lt table)) target y0 y1 (m_two_hop_cbr (aggregate now local table lt target a)))
    \<and> m_global_cbr (aggregate now local table lt target a) = max (m_local_cbr0 a)
        (max (m_one_hop_cbr (aggregate now local table lt target a)) (m_two_hop_cbr (aggregate now local table lt target a)))
    \<and> m_local_cbr0 (aggregate now local table lt target a) = local
    \<and> (mset (shared_fields now lt table') = mset (shared_fields now lt table)
        \<and> average_error (shared_loads now lt table) < \<bar>exact_mean (shared_loads now lt table) - target\<bar>
        \<and> average_error (shared_neighbour_loads now lt table) < \<bar>exact_mean (shared_neighbour_loads now lt table) - target\<bar>
        \<longrightarrow> aggregate now local table' lt target a = aggregate now local table lt target a)"
proof -
  define U V where "U t = fold unit_add (shared_loads now lt t) aggregator_unit" and "V t = fold unit_add (shared_neighbour_loads now lt t) aggregator_unit" for t
  have in1: "\<forall>x\<in>set (shared_loads now lt t). in_unit x" and in2: "\<forall>x\<in>set (shared_neighbour_loads now lt t). in_unit x" for t
    by (auto simp: cbr_in_unit shared_loads_def shared_neighbour_loads_def)
  have v: "visit now (\<lambda>_ e. aggregate_entry lt e) t (aggregator_unit, aggregator_unit) = (U t, V t)" for t
    unfolding U_def V_def shared_loads_def shared_neighbour_loads_def by (rule visit_units)
  have agg: "aggregate now local t lt target a = \<lparr>m_local_cbr0 = local, m_local_cbr1 = m_local_cbr0 a,
      m_one_hop_cbr = unit_result target (U t), m_two_hop_cbr = unit_result target (V t),
      m_global_cbr = max (m_local_cbr0 a) (max (unit_result target (U t)) (unit_result target (V t)))\<rparr>" for t
    unfolding aggregate_def Let_def v by simp
  have big: "two_largest (shared_loads now lt t) (maximum0 (U t)) (maximum1 (U t))" "two_largest (shared_neighbour_loads now lt t) (maximum0 (V t)) (maximum1 (V t))" for t
    using unit_fold [OF in1] unit_fold [OF in2] unfolding U_def V_def by blast+
  have pick: "chosen_load (shared_loads now lt t) (average_error (shared_loads now lt t)) target (maximum0 (U t)) (maximum1 (U t)) (unit_result target (U t))"
    "chosen_load (shared_neighbour_loads now lt t) (average_error (shared_neighbour_loads now lt t)) target (maximum0 (V t)) (maximum1 (V t)) (unit_result target (V t))" for t
    unfolding U_def V_def average_error_def by (rule unit_result_chosen [OF in1], rule unit_result_chosen [OF in2])
  have "aggregate now local table' lt target a = aggregate now local table lt target a"
    if m: "mset (shared_fields now lt table') = mset (shared_fields now lt table)"
      and far: "average_error (shared_loads now lt table) < \<bar>exact_mean (shared_loads now lt table) - target\<bar>"
        "average_error (shared_neighbour_loads now lt table) < \<bar>exact_mean (shared_neighbour_loads now lt table) - target\<bar>"
  proof -
    have ms: "mset (shared_loads now lt table) = mset (shared_loads now lt table')" "mset (shared_neighbour_loads now lt table) = mset (shared_neighbour_loads now lt table')"
      using m by (simp_all add: shared_loads_def shared_neighbour_loads_def)
    then have "length (shared_loads now lt table') = length (shared_loads now lt table)" "length (shared_neighbour_loads now lt table') = length (shared_neighbour_loads now lt table)"
      by (simp_all add: shared_loads_def shared_neighbour_loads_def flip: size_mset)
    then have c: "average_error (shared_loads now lt table') = average_error (shared_loads now lt table)" "average_error (shared_neighbour_loads now lt table') = average_error (shared_neighbour_loads now lt table)"
      by (simp_all add: average_error_def)
    have "maximum0 (U table') = maximum0 (U table) \<and> maximum1 (U table') = maximum1 (U table)"
      "maximum0 (V table') = maximum0 (V table) \<and> maximum1 (V table') = maximum1 (V table)"
      using two_largest_unique [OF big(1) big(1) ms(1) [symmetric]] two_largest_unique [OF big(2) big(2) ms(2) [symmetric]] by blast+
    then have "unit_result target (U table) = unit_result target (U table')" "unit_result target (V table) = unit_result target (V table')"
      using chosen_load_unique [OF pick(1) [of table] _ ms(1) far(1)] chosen_load_unique [OF pick(2) [of table] _ ms(2) far(2)]
        pick(1) [of table'] pick(2) [of table'] c by metis+
    then show ?thesis unfolding agg by simp
  qed
  then show ?thesis using big pick unfolding agg by (simp only: CbrAggregator.simps) blast
qed

text \<open>Two neighbours, in the one order and in the other.\<close>

definition sample_entry :: "byte \<Rightarrow> LocationTableEntry" where
  "sample_entry load = (location_table_entry 0)\<lparr>ext_loctex := Some \<lparr>local_update = 5, source_update = 5,
     dcc_mco = \<lparr>cbr_l0_hop = load, cbr_l1_hop = 0, m_output_power = 0\<rparr>\<rparr>\<rparr>"

definition sample_table :: "bool \<Rightarrow> LocationTable" where
  "sample_table swap =
    (let a = MacAddress 1 2 3 4 5 6; b = MacAddress 1 2 3 4 5 7; es = [(a, sample_entry 51), (b, sample_entry 102)]
     in \<lparr>ss_lifetime = 20, ss_heap = [(a, 20), (b, 20)], ss_map = (if swap then rev es else es)\<rparr>)"

lemma sample_fields: "shared_fields 10 5 (sample_table swap) = (let l = map (\<lambda>n. \<lparr>cbr_l0_hop = n, cbr_l1_hop = 0, m_output_power = 0\<rparr>) [51, 102]
   in if swap then rev l else l)"
proof -
  have "\<not> timestamp_less 5 5" by code_simp
  then show ?thesis
    by (simp add: shared_fields_def ss_range_def sample_table_def sample_entry_def is_expired_def map_filter_simps Let_def)
qed

theorem cbr_aggregation_exact_witness:
  "m_one_hop_cbr (aggregate 10 (1 / 2) (sample_table False) 5 (3 / 5) cbr_aggregator) = 1 / 5
   \<and> aggregate 10 (1 / 2) (sample_table True) 5 (3 / 5) cbr_aggregator = aggregate 10 (1 / 2) (sample_table False) 5 (3 / 5) cbr_aggregator"
proof -
  have l: "shared_loads 10 5 (sample_table False) = [1 / 5, 2 / 5]" "shared_neighbour_loads 10 5 (sample_table False) = [0, 0]"
    by (simp_all add: shared_loads_def shared_neighbour_loads_def sample_fields local_cbr_def neighbour_cbr_def)
  have m: "mset (shared_fields 10 5 (sample_table True)) = mset (shared_fields 10 5 (sample_table False))"
    by (simp add: sample_fields Let_def)
  have b: "two_largest [1 / 5, 2 / 5] (2 / 5) (1 / 5)" unfolding two_largest_def by (auto intro!: exI [of _ "{#0, 0#}"])
  note t = cbr_aggregation_exact [of 10 5 "sample_table False" "3 / 5" "1 / 2" cbr_aggregator "sample_table True", unfolded l]
  obtain x0 x1 where "two_largest [1 / 5, 2 / 5] x0 x1" "chosen_load [1 / 5, 2 / 5] (average_error [1 / 5, 2 / 5]) (3 / 5) x0 x1
      (m_one_hop_cbr (aggregate 10 (1 / 2) (sample_table False) 5 (3 / 5) cbr_aggregator))" using t by blast
  then have "m_one_hop_cbr (aggregate 10 (1 / 2) (sample_table False) 5 (3 / 5) cbr_aggregator) = 1 / 5"
    using two_largest_unique [OF b _ refl, of x0 x1] by (simp add: chosen_load_def average_error_def exact_mean_def)
  then show ?thesis using t m by (simp add: average_error_def exact_mean_def)
qed

end
