(* ===== verification/IdfStack.thy ===== *)
theory IdfStack
  imports RouterSec Btp G5Frame DccNet
begin

text \<open>
  The stack of the port to ESP-IDF (\<open>ports/esp_idf/src/stack.cpp\<close>): transport requests of the
  application, the router, sharing of channel loads and the access layer in one object, driven by
  one runtime. Its state extends the router's, so the callbacks of both share the queue. What the
  router hands down or up during an operation is delivered in the same order when the operation
  ends; the receivers do not act on the router. Calls of the application and of the access layer
  are appended to a log. What is outside the stack is an environment: that of the router, and the
  access layer, whose result may depend on the requests it had before.
\<close>

subsection \<open>Requests and indications\<close>

datatype BtpType = Btp_a | Btp_b

record BtpRequest =
  req_type :: BtpType
  req_source_port :: "u16 option"
  req_destination_port :: u16
  req_destination_port_info :: "u16 option"
  req_transport :: TransportType
  req_destination :: DestinationVariant
  req_communication_profile :: CommunicationProfile
  req_security_profile :: "u32 option"
  req_its_aid :: ItsAid
  req_permissions :: bytes
  req_security_context :: bytes
  req_maximum_lifetime :: "Lifetime option"
  req_repetition :: "Repetition option"
  req_maximum_hop_limit :: "nat option"
  req_traffic_class :: TrafficClass
  req_data :: bytes

record BtpIndication =
  bi_type :: BtpType
  bi_source_port :: "u16 option"
  bi_destination_port :: u16
  bi_destination_port_info :: "u16 option"
  bi_gn :: DataIndication
  bi_certificate_id :: "bytes option"
  bi_data :: bytes

record GnRequest =
  gnr_transport :: TransportType
  gnr_destination :: DestinationVariant
  gnr_communication_profile :: CommunicationProfile
  gnr_traffic_class :: TrafficClass
  gnr_maximum_lifetime :: "Lifetime option"
  gnr_maximum_hop_limit :: "nat option"
  gnr_repetition :: "Repetition option"
  gnr_its_aid :: ItsAid
  gnr_permissions :: bytes
  gnr_security_context :: bytes
  gnr_data :: bytes

record GnIndication =
  gni_gn :: DataIndication
  gni_data :: bytes

record StackConfig =
  mib :: MIB
  cfg_maximum_gnpdu :: nat
  cfg_security_profile :: u32
  radio_parameters :: AlDataRequest

definition stack_config :: StackConfig where
  "stack_config = \<lparr>mib = mib_default\<lparr>itsGnIfType := ITS_G5, itsGnSnDecapResultHandling := Strict, itsGnSecurity := True,
     vanetzaGbcMemoryCapacity := 128\<rparr>, cfg_maximum_gnpdu = 4096, cfg_security_profile = 0, radio_parameters = al_data_request\<rparr>"

datatype StackEvent = Received BtpIndication | ReceivedGn GnIndication | AccessRequested AlDataRequest | Reported Result

record Stack = Router +
  cfg :: StackConfig
  sharing :: DccInformationSharing
  global_cbr :: "ChannelLoad option"
  has_receive :: bool
  has_receive_gn :: bool
  has_report :: bool
  position_valid :: bool
  change_pending :: bool
  subscribed :: bool
  stack_log :: "StackEvent list"

record StackEnv =
  router_env :: Environment
  access_result :: "AlDataRequest list \<Rightarrow> AlDataRequest \<Rightarrow> Result"

text \<open>The router in its environment: its configuration is that of the stack, which also generates the DCC fields.\<close>

definition stack_env :: "StackEnv \<Rightarrow> Stack \<Rightarrow> Environment" where
  "stack_env env s = (router_env env)\<lparr>m_mib := mib (cfg s),
     generate_dcc_field := (\<lambda>_. generate_shared_field (sharing s)),
     m_transport_ifcs := (\<lambda>p. p \<in> {UP_BTP_A, UP_BTP_B, UP_Unknown})\<rparr>"

subsection \<open>Interfaces to the router\<close>

definition stack_emit :: "StackEvent \<Rightarrow> Stack \<Rightarrow> Stack" where
  "stack_emit e s = s\<lparr>stack_log := stack_log s @ [e]\<rparr>"

definition accessed :: "StackEvent list \<Rightarrow> AlDataRequest list" where
  "accessed es = List.map_filter (\<lambda>e. case e of AccessRequested r \<Rightarrow> Some r | _ \<Rightarrow> None) es"

definition al_request_of :: "DccDataRequest \<Rightarrow> DownPacket \<Rightarrow> Stack \<Rightarrow> AlDataRequest" where
  "al_request_of req packet s = (radio_parameters (cfg s))\<lparr>al_source := dr_source req, al_destination := dr_destination req,
     al_priority := user_priority (map_profile_onto_ac (dr_dcc_profile req)),
     al_data := create_byte_view (Chunk packet) Network max_osi_layer\<rparr>"

definition stack_access_request :: "StackEnv \<Rightarrow> DccDataRequest \<Rightarrow> DownPacket \<Rightarrow> Stack \<Rightarrow> Stack" where
  "stack_access_request env req packet s =
    (let out = al_request_of req packet s;
         result = validate_request out (cfg_maximum_gnpdu (cfg s));
         (result, s) = (if result = Res_accepted then (access_result env (accessed (stack_log s)) out, stack_emit (AccessRequested out) s)
                        else (result, s))
     in if has_report s then stack_emit (Reported result) s else s)"

definition stack_up :: "DataIndication \<Rightarrow> UpPacket \<Rightarrow> Stack \<Rightarrow> Stack" where
  "stack_up ind packet s =
    (let view = create_byte_view packet Transport max_osi_layer
     in if ind_upper_protocol ind = Some UP_Unknown then
          if \<not> has_receive_gn s then s else stack_emit (ReceivedGn \<lparr>gni_gn = ind, gni_data = view\<rparr>) s
        else if length view < 4 \<or> \<not> has_receive s then s
        else
          (let type = (if ind_upper_protocol ind = Some UP_BTP_A then Btp_a else Btp_b);
               port = push_bit 8 (ucast (view ! 0)) OR ucast (view ! 1) :: u16;
               second = push_bit 8 (ucast (view ! 2)) OR ucast (view ! 3) :: u16
           in stack_emit (Received \<lparr>bi_type = type, bi_source_port = (if type = Btp_a then Some second else None),
                bi_destination_port = port, bi_destination_port_info = (if type = Btp_a then None else Some second),
                bi_gn = ind, bi_certificate_id = ind_certificate_id ind, bi_data = drop 4 view\<rparr>) s))"

fun deliver :: "StackEnv \<Rightarrow> Output list \<Rightarrow> Stack \<Rightarrow> Stack" where
  "deliver env [] s = s"
| "deliver env (PassDown req packet # os) s = deliver env os (stack_access_request env req packet s)"
| "deliver env (PassUp ind packet # os) s = deliver env os (stack_up ind packet s)"
| "deliver env (_ # os) s = deliver env os s"

text \<open>An operation of the router within the stack.\<close>

definition on_router :: "StackEnv \<Rightarrow> (Router \<Rightarrow> Router) \<Rightarrow> Stack \<Rightarrow> Stack" where
  "on_router env f s =
    (let r = f (Router.truncate s)
     in deliver env (drop (length (outputs s)) (outputs r)) (Router.extend r (Router.more s)))"

definition threw :: "Output list \<Rightarrow> bool" where
  "threw os \<longleftrightarrow> list_ex (\<lambda>x. case x of Threw _ \<Rightarrow> True | _ \<Rightarrow> False) os"

subsection \<open>Construction and identifiers\<close>

text \<open>The last six of the eight octets of an identifier, as a local address of one station.\<close>

definition identifier_mac :: "bytes \<Rightarrow> MacAddress" where
  "identifier_mac i = MacAddress ((i ! 2 AND 0xfe) OR 0x02) (i ! 3) (i ! 4) (i ! 5) (i ! 6) (i ! 7)"

definition apply_identifier :: "StackEnv \<Rightarrow> bytes \<Rightarrow> Stack \<Rightarrow> Stack" where
  "apply_identifier env i s =
    (let addr = (itsGnLocalGnAddr (mib (cfg s)))\<lparr>mid := identifier_mac i\<rparr>
     in on_router env (set_address addr) (s\<lparr>cfg := (cfg s)\<lparr>mib := (mib (cfg s))\<lparr>itsGnLocalGnAddr := addr\<rparr>\<rparr>\<rparr>))"

datatype IdChangeCommand = ID_PREPARE | ID_COMMIT | ID_ABORT | ID_DEREG

text \<open>The hook of the identifier change service; also the response it gives, if any.\<close>

fun on_id_change :: "StackEnv \<Rightarrow> IdChangeCommand \<Rightarrow> bytes \<Rightarrow> Stack \<Rightarrow> bool option \<times> Stack" where
  "on_id_change env ID_PREPARE i s =
    (let s = s\<lparr>change_pending := True\<rparr> in (Some True, on_router env (flush_forwarding_buffers (stack_env env s)) s))"
| "on_id_change env ID_COMMIT i s = (Some True, (apply_identifier env i s)\<lparr>change_pending := False\<rparr>)"
| "on_id_change env ID_ABORT i s = (None, s\<lparr>change_pending := False\<rparr>)"
| "on_id_change env ID_DEREG i s = (None, s\<lparr>change_pending := False, subscribed := False\<rparr>)"

definition config_ok :: "StackConfig \<Rightarrow> bool" where
  "config_ok c \<longleftrightarrow> \<not> (itsGnMaxSduSize (mib c) < 4 \<or> itsGnMaxSduSize (mib c) > 65535
     \<or> cfg_maximum_gnpdu c < itsGnMaxSduSize (mib c) \<or> itsGnIfType (mib c) \<noteq> ITS_G5
     \<or> itsGnSnDecapResultHandling (mib c) \<noteq> Strict)"

text \<open>
  Construction; \<open>None\<close> is the exception for an invalid configuration. \<open>ids\<close> is the current
  identifier of the identifier change service, if there is one.
\<close>

definition stack_init :: "StackEnv \<Rightarrow> StackConfig \<Rightarrow> time_point \<Rightarrow> bytes option \<Rightarrow> Stack option" where
  "stack_init env c now ids =
    (if \<not> config_ok c then None
     else
       (let d = dcc_information_sharing now 0.62;
            offset = unit_interval (real_of_int (now - trunc_div now 100000 * 100000) / 100000);
            r = schedule_in (initial_delay offset d) Foreign None (router_init ((router_env env)\<lparr>m_mib := mib c\<rparr>) now);
            s = Router.extend r (Stack.fields c d None False False False False False False []);
            s = on_router env (set_address (itsGnLocalGnAddr (mib c))) s
        in case (if itsGnLocalAddrConfMethod (mib c) = Anonymous then ids else None) of
             None \<Rightarrow> Some s
           | Some i \<Rightarrow>
               (let s = s\<lparr>subscribed := True\<rparr> in Some (if i \<noteq> replicate 8 0 then apply_identifier env i s else s))))"

definition stack_set_address :: "StackEnv \<Rightarrow> Address \<Rightarrow> Stack \<Rightarrow> Result \<times> Stack" where
  "stack_set_address env addr s =
    (if itsGnLocalAddrConfMethod (mib (cfg s)) \<noteq> Managed then (Res_unsupported, s)
     else if change_pending s then (Res_identity_change_pending, s)
     else (Res_accepted, on_router env (set_address addr) (s\<lparr>cfg := (cfg s)\<lparr>mib := (mib (cfg s))\<lparr>itsGnLocalGnAddr := addr\<rparr>\<rparr>\<rparr>)))"

definition on_receive :: "bool \<Rightarrow> Stack \<Rightarrow> Stack" where "on_receive b s = s\<lparr>has_receive := b\<rparr>"
definition on_receive_gn :: "bool \<Rightarrow> Stack \<Rightarrow> Stack" where "on_receive_gn b s = s\<lparr>has_receive_gn := b\<rparr>"
definition on_access_result :: "bool \<Rightarrow> Stack \<Rightarrow> Stack" where "on_access_result b s = s\<lparr>has_report := b\<rparr>"

definition report_local_channel_load :: "ChannelLoad \<Rightarrow> Stack \<Rightarrow> Stack" where
  "report_local_channel_load load s = s\<lparr>sharing := update_local_cbr load (sharing s)\<rparr>"

definition report_tx_power :: "nat \<Rightarrow> Stack \<Rightarrow> Stack" where
  "report_tx_power dbm s = s\<lparr>sharing := set_tx_power dbm (sharing s)\<rparr>"

subsection \<open>Time and position\<close>

fun stack_run :: "StackEnv \<Rightarrow> RouterCallback \<Rightarrow> time_point \<Rightarrow> Stack \<Rightarrow> Stack" where
  "stack_run env Foreign deadline s =
    (let d = sharing_trigger (m_now s) (m_location_table s) (sharing s)
     in schedule_in (m_trigger_interval d) Foreign None (s\<lparr>sharing := d, global_cbr := Some (m_global_cbr (m_aggregator d))\<rparr>))"
| "stack_run env cb deadline s = on_router env (router_run (stack_env env s) cb deadline) s"

text \<open>\<open>None\<close> means that the callbacks never stop.\<close>

definition stack_advance :: "StackEnv \<Rightarrow> time_point \<Rightarrow> Stack \<Rightarrow> (Result \<times> Stack) option" where
  "stack_advance env time s =
    (if time < m_now s then Some (Res_time_regression, s)
     else map_option (\<lambda>s. (Res_accepted, s)) (trigger_at (stack_run env) time s))"

text \<open>The coordinates of a fix are finite numbers or not, \<open>finite_fix\<close>; \<open>fix_time\<close> is its time stamp.\<close>

definition stack_update_position :: "StackEnv \<Rightarrow> bool \<Rightarrow> time_point \<Rightarrow> PositionFix \<Rightarrow> Stack \<Rightarrow> Result \<times> Stack" where
  "stack_update_position env finite_fix fix_time fx s =
    (if \<not> finite_fix \<or> fix_latitude fx < -90 \<or> fix_latitude fx > 90 \<or> fix_longitude fx < -180 \<or> fix_longitude fx > 180
        \<or> fix_time > m_now s
     then (Res_invalid_argument, s)
     else (Res_accepted, (on_router env (update_position (stack_env env s) fx) s)\<lparr>position_valid := True\<rparr>))"

subsection \<open>Reception and requests\<close>

definition stack_indicate :: "StackEnv \<Rightarrow> AlDataIndication \<Rightarrow> Stack \<Rightarrow> Result \<times> Stack" where
  "stack_indicate env ind s =
    (if ali_data ind = [] \<or> length (ali_data ind) > cfg_maximum_gnpdu (cfg s) then (Res_invalid_argument, s)
     else
       (let s' = on_router env (indicate (stack_env env s) (cohesive_packet (ali_data ind) Network) (ali_source ind) (ali_destination ind)) s
        in (if threw (drop (length (outputs s)) (outputs s')) then Res_rejected else Res_accepted, s')))"

text \<open>The request to the router is confirmed; a rejection and an exception give the same result.\<close>

definition stack_router_request :: "StackEnv \<Rightarrow> DataRequestVariant \<Rightarrow> DownPacket \<Rightarrow> Stack \<Rightarrow> Result \<times> Stack" where
  "stack_router_request env v p s =
    (let (confirm, r) = router_request (stack_env env s) v (Some p) (Router.truncate s);
         s' = on_router env (\<lambda>_. r) s
     in (if threw (drop (length (outputs s)) (outputs r)) then Res_rejected
         else if confirm = Accepted then Res_accepted else Res_rejected, s'))"

fun stack_transport :: "DataRequest \<Rightarrow> TransportType \<Rightarrow> DestinationVariant \<Rightarrow> DataRequestVariant option" where
  "stack_transport r SHB DestinationNull = Some (ShbDataRequest r)"
| "stack_transport r GBC (DestinationArea a) = Some (GbcDataRequest r a)"
| "stack_transport r _ _ = None"

text \<open>The four octets of the header that precedes the data.\<close>

definition btp_header_bytes :: "BtpRequest \<Rightarrow> bytes" where
  "btp_header_bytes req = (case req_type req of
      Btp_a \<Rightarrow> serialize_header_a \<lparr>ha_destination_port = req_destination_port req, ha_source_port = the (req_source_port req)\<rparr>
    | Btp_b \<Rightarrow> serialize_header_b \<lparr>hb_destination_port = req_destination_port req,
        hb_destination_port_info = (case req_destination_port_info req of None \<Rightarrow> 0 | Some i \<Rightarrow> i)\<rparr>)"

definition btp_gn_request :: "MIB \<Rightarrow> BtpRequest \<Rightarrow> DataRequest" where
  "btp_gn_request m req =
    (let gn = data_request m 0
     in gn\<lparr>upper_protocol := (if req_type req = Btp_a then UP_BTP_A else UP_BTP_B),
           communication_profile := req_communication_profile req, its_aid := req_its_aid req,
           permissions := req_permissions req, security_context := req_security_context req,
           request_traffic_class := req_traffic_class req,
           maximum_lifetime := (case req_maximum_lifetime req of None \<Rightarrow> maximum_lifetime gn | Some l \<Rightarrow> l),
           max_hop_limit := (case req_maximum_hop_limit req of None \<Rightarrow> max_hop_limit gn | Some h \<Rightarrow> h),
           repetition := (case req_repetition req of None \<Rightarrow> repetition gn | Some r \<Rightarrow> Some r)\<rparr>)"

definition hop_limit_invalid :: "nat option \<Rightarrow> bool" where
  "hop_limit_invalid h \<longleftrightarrow> (case h of None \<Rightarrow> False | Some h \<Rightarrow> h = 0 \<or> h > 255)"

text \<open>The checks that precede the request, in the order of the code; the maximum size wraps around below four.\<close>

definition btp_request_check :: "StackEnv \<Rightarrow> BtpRequest \<Rightarrow> Stack \<Rightarrow> Result" where
  "btp_request_check env req s =
    (if (req_type req = Btp_a \<and> (req_source_port req = None \<or> req_destination_port_info req \<noteq> None))
        \<or> (req_type req = Btp_b \<and> req_source_port req \<noteq> None) then Res_invalid_argument
     else if length (req_data req) > unat (of_nat (itsGnMaxSduSize (mib (cfg s))) - 4 :: u32) then Res_resource_limit
     else if req_communication_profile req \<noteq> ITS_G5 \<and> req_communication_profile req \<noteq> IF_Unspecified then Res_unsupported
     else if (case req_security_profile req of None \<Rightarrow> False | Some p \<Rightarrow> p \<noteq> cfg_security_profile (cfg s)) then Res_unsupported
     else if itsGnSecurity (mib (cfg s)) \<and> m_security_entity (router_env env) = None then Res_security_unavailable
     else if change_pending s then Res_identity_change_pending
     else if \<not> position_valid s then Res_rejected
     else if hop_limit_invalid (req_maximum_hop_limit req) then Res_invalid_argument
     else if req_transport req \<noteq> SHB \<and> req_transport req \<noteq> GBC then Res_unsupported
     else if stack_transport (btp_gn_request (mib (cfg s)) req) (req_transport req) (req_destination req) = None then Res_invalid_argument
     else Res_accepted)"

definition stack_request :: "StackEnv \<Rightarrow> BtpRequest \<Rightarrow> Stack \<Rightarrow> Result \<times> Stack" where
  "stack_request env req s =
    (let check = btp_request_check env req s
     in if check \<noteq> Res_accepted then (check, s)
        else case stack_transport (btp_gn_request (mib (cfg s)) req) (req_transport req) (req_destination req) of
               None \<Rightarrow> (Res_invalid_argument, s)
             | Some v \<Rightarrow>
                 stack_router_request env v (empty_chunk(Transport := btp_header_bytes req, Application := req_data req)) s)"

definition gn_request_of :: "MIB \<Rightarrow> GnRequest \<Rightarrow> DataRequest" where
  "gn_request_of m req =
    (let gn = data_request m 0
     in gn\<lparr>upper_protocol := UP_Unknown, communication_profile := gnr_communication_profile req, its_aid := gnr_its_aid req,
           permissions := gnr_permissions req, security_context := gnr_security_context req,
           request_traffic_class := gnr_traffic_class req,
           maximum_lifetime := (case gnr_maximum_lifetime req of None \<Rightarrow> maximum_lifetime gn | Some l \<Rightarrow> l),
           max_hop_limit := (case gnr_maximum_hop_limit req of None \<Rightarrow> max_hop_limit gn | Some h \<Rightarrow> h),
           repetition := (case gnr_repetition req of None \<Rightarrow> repetition gn | Some r \<Rightarrow> Some r)\<rparr>)"

definition gn_request_check :: "StackEnv \<Rightarrow> GnRequest \<Rightarrow> Stack \<Rightarrow> Result" where
  "gn_request_check env req s =
    (if length (gnr_data req) > itsGnMaxSduSize (mib (cfg s)) then Res_resource_limit
     else if gnr_communication_profile req \<noteq> ITS_G5 \<and> gnr_communication_profile req \<noteq> IF_Unspecified then Res_unsupported
     else if itsGnSecurity (mib (cfg s)) \<and> m_security_entity (router_env env) = None then Res_security_unavailable
     else if change_pending s then Res_identity_change_pending
     else if \<not> position_valid s then Res_rejected
     else if hop_limit_invalid (gnr_maximum_hop_limit req) then Res_invalid_argument
     else if gnr_transport req \<noteq> SHB \<and> gnr_transport req \<noteq> GBC then Res_unsupported
     else if stack_transport (gn_request_of (mib (cfg s)) req) (gnr_transport req) (gnr_destination req) = None then Res_invalid_argument
     else Res_accepted)"

definition stack_gn_request :: "StackEnv \<Rightarrow> GnRequest \<Rightarrow> Stack \<Rightarrow> Result \<times> Stack" where
  "stack_gn_request env req s =
    (let check = gn_request_check env req s
     in if check \<noteq> Res_accepted then (check, s)
        else case stack_transport (gn_request_of (mib (cfg s)) req) (gnr_transport req) (gnr_destination req) of
               None \<Rightarrow> (Res_invalid_argument, s)
             | Some v \<Rightarrow> stack_router_request env v (empty_chunk(Application := gnr_data req)) s)"

end
