(* ===== verification/StackAir.thy ===== *)
theory StackAir
  imports IdfStack
begin

text \<open>
  From the application of one station over the air to the application of another
  (\<open>ports/esp_idf/src/stack.cpp\<close>): the transport request at one stack, the frame its access layer
  sends, and the indication at the other.
\<close>

subsection \<open>The router inside the stack\<close>

lemma extend_fields [simp]:
  "cfg (Router.extend r (Router.more s)) = cfg s" "sharing (Router.extend r (Router.more s)) = sharing s"
  "stack_log (Router.extend r (Router.more s)) = stack_log s" "has_receive (Router.extend r (Router.more s)) = has_receive s"
  "has_receive_gn (Router.extend r (Router.more s)) = has_receive_gn s" "has_report (Router.extend r (Router.more s)) = has_report s"
  "position_valid (Router.extend r (Router.more s)) = position_valid s" "change_pending (Router.extend r (Router.more s)) = change_pending s"
  "global_cbr (Router.extend r (Router.more s)) = global_cbr s" "subscribed (Router.extend r (Router.more s)) = subscribed s"
  by (cases r; cases s; simp add: Router.extend_def)+

lemma extend_router [simp]:
  "m_now (Router.extend r m) = m_now r" "m_queue (Router.extend r m) = m_queue r"
  "m_location_table (Router.extend r m) = m_location_table r"
  "m_local_position_vector (Router.extend r m) = m_local_position_vector r" "outputs (Router.extend r m) = outputs r"
  "Router.truncate (Router.extend r m) = r" "Router.more (Router.extend r m) = m"
  by (cases r; simp add: Router.extend_def Router.truncate_def)+

lemma truncate_router [simp]:
  "m_now (Router.truncate s) = m_now s" "m_queue (Router.truncate s) = m_queue s" "m_location_table (Router.truncate s) = m_location_table s"
  "m_local_position_vector (Router.truncate s) = m_local_position_vector s" "outputs (Router.truncate s) = outputs s"
  by (simp_all add: Router.truncate_def)

lemma extend_new [simp]:
  "cfg (Router.extend r (Stack.fields c d g a1 a2 a3 a4 a5 a6 l)) = c"
  "sharing (Router.extend r (Stack.fields c d g a1 a2 a3 a4 a5 a6 l)) = d"
  "stack_log (Router.extend r (Stack.fields c d g a1 a2 a3 a4 a5 a6 l)) = l"
  "change_pending (Router.extend r (Stack.fields c d g a1 a2 a3 a4 a5 a6 l)) = a5"
  by (simp_all add: Router.extend_def Stack.fields_def)

text \<open>Delivery changes the log of the stack only.\<close>

lemma stack_emit_simps [simp]:
  "cfg (stack_emit e s) = cfg s" "has_receive (stack_emit e s) = has_receive s" "has_receive_gn (stack_emit e s) = has_receive_gn s"
  "has_report (stack_emit e s) = has_report s" "stack_log (stack_emit e s) = stack_log s @ [e]"
  "Router.truncate (stack_emit e s) = Router.truncate s" "sharing (stack_emit e s) = sharing s"
  "m_queue (stack_emit e s) = m_queue s" "m_now (stack_emit e s) = m_now s" "outputs (stack_emit e s) = outputs s"
  by (simp_all add: stack_emit_def Router.truncate_def)

definition log_only :: "Stack \<Rightarrow> Stack \<Rightarrow> bool" where
  "log_only s s' \<longleftrightarrow> (\<exists>es. s' = s\<lparr>stack_log := stack_log s @ es\<rparr>)"

lemma log_only_refl [simp]: "log_only s s"
  unfolding log_only_def by (intro exI [of _ "[]"]) simp

lemma log_only_trans: "log_only s s' \<Longrightarrow> log_only s' s'' \<Longrightarrow> log_only s s''"
  unfolding log_only_def by auto

lemma log_only_emit [simp]: "log_only s (stack_emit e s)"
  by (auto simp: log_only_def stack_emit_def)

lemma log_only_access: "log_only s (stack_access_request env r p s)"
  by (auto simp: stack_access_request_def Let_def intro: log_only_trans [OF log_only_emit log_only_emit])

lemma log_only_up: "log_only s (stack_up ind p s)"
  by (simp add: stack_up_def Let_def)

lemma log_only_deliver: "log_only s (deliver env os s)"
  by (induction env os s rule: deliver.induct) (auto intro: log_only_trans log_only_access log_only_up)

lemma log_only_simps:
  assumes "log_only s s'"
  shows "cfg s' = cfg s" "has_receive s' = has_receive s" "has_receive_gn s' = has_receive_gn s" "has_report s' = has_report s"
    "Router.truncate s' = Router.truncate s" "sharing s' = sharing s" "m_queue s' = m_queue s" "m_now s' = m_now s" "outputs s' = outputs s"
    "change_pending s' = change_pending s" "position_valid s' = position_valid s"
  using assms by (auto simp: log_only_def Router.truncate_def)

lemma deliver_append: "deliver env (os @ os') s = deliver env os' (deliver env os s)"
  by (induction env os s rule: deliver.induct) simp_all

subsection \<open>What the application has received\<close>

definition received :: "StackEvent list \<Rightarrow> BtpIndication list" where
  "received es = List.map_filter (\<lambda>e. case e of Received b \<Rightarrow> Some b | _ \<Rightarrow> None) es"

lemma received_simps [simp]:
  "received [] = []" "received (es @ es') = received es @ received es'" "received (Received b # es) = b # received es"
  "received (AccessRequested r # es) = received es" "received (Reported res # es) = received es" "received (ReceivedGn g # es) = received es"
  by (simp_all add: received_def map_filter_def)

lemma accessed_simps [simp]:
  "accessed [] = []" "accessed (es @ es') = accessed es @ accessed es'" "accessed (Received b # es) = accessed es"
  "accessed (AccessRequested r # es) = r # accessed es" "accessed (Reported res # es) = accessed es" "accessed (ReceivedGn g # es) = accessed es"
  by (simp_all add: accessed_def map_filter_def)

lemma received_access: "received (stack_log (stack_access_request env r p s)) = received (stack_log s)"
  by (simp add: stack_access_request_def Let_def)

lemma accessed_access:
  "accessed (stack_log (stack_access_request env r p s)) = accessed (stack_log s)
     @ (if validate_request (al_request_of r p s) (cfg_maximum_gnpdu (cfg s)) = Res_accepted then [al_request_of r p s] else [])"
  by (simp add: stack_access_request_def Let_def)

lemma received_deliver:
  "list_all (\<lambda>x. case x of PassUp _ _ \<Rightarrow> False | _ \<Rightarrow> True) os \<Longrightarrow> received (stack_log (deliver env os s)) = received (stack_log s)"
  by (induction env os s rule: deliver.induct) (simp_all add: received_access)

text \<open>An indication that ends with a packet passed up.\<close>

lemma received_indicated:
  assumes "f (Router.truncate s) = emit (PassUp ind up) r" and "logs (\<lambda>_. False) (Router.truncate s) r"
  obtains s1 where "log_only (Router.extend (emit (PassUp ind up) r) (Router.more s)) s1"
    and "received (stack_log s1) = received (stack_log s)" and "on_router env f s = stack_up ind up s1"
proof -
  obtain os where os: "outputs r = outputs s @ os" "list_all (\<lambda>x. case x of PassUp _ _ \<Rightarrow> False | _ \<Rightarrow> True) os"
    using assms(2) by (auto simp: logs_def)
  let ?x = "Router.extend (emit (PassUp ind up) r) (Router.more s)"
  have "on_router env f s = stack_up ind up (deliver env os ?x)"
    by (simp add: on_router_def assms(1) os(1) deliver_append)
  then show thesis
    using that [of "deliver env os ?x"] received_deliver [OF os(2), of env ?x] log_only_deliver by simp
qed

subsection \<open>Transport headers\<close>

lemma be16_split: "be16 (ucast (drop_bit 8 w)) (ucast w) = w"
  by (rule bit_word_eqI) (auto simp: bit_be16 bit_ucast_iff bit_drop_bit_eq)

text \<open>The second field of the header that a request is sent with.\<close>

definition second_field :: "BtpRequest \<Rightarrow> u16" where
  "second_field req = (case req_type req of
      Btp_a \<Rightarrow> the (req_source_port req)
    | Btp_b \<Rightarrow> (case req_destination_port_info req of None \<Rightarrow> 0 | Some i \<Rightarrow> i))"

lemma btp_header_octets:
  "btp_header_bytes req = [ucast (drop_bit 8 (req_destination_port req)), ucast (req_destination_port req),
     ucast (drop_bit 8 (second_field req)), ucast (second_field req)]"
  by (simp add: btp_header_bytes_def serialize_header_a_def serialize_header_b_def put16 second_field_def split: BtpType.split)

lemma stack_up_received:
  assumes "has_receive s" and "create_byte_view up Transport max_osi_layer = btp_header_bytes req @ req_data req"
    and "ind_upper_protocol ind = Some (if req_type req = Btp_a then UP_BTP_A else UP_BTP_B)"
  shows "received (stack_log (stack_up ind up s)) = received (stack_log s) @ [\<lparr>bi_type = req_type req,
     bi_source_port = (if req_type req = Btp_a then Some (second_field req) else None),
     bi_destination_port = req_destination_port req,
     bi_destination_port_info = (if req_type req = Btp_a then None else Some (second_field req)),
     bi_gn = ind, bi_certificate_id = ind_certificate_id ind, bi_data = req_data req\<rparr>]"
proof -
  have type: "(if ind_upper_protocol ind = Some UP_BTP_A then Btp_a else Btp_b) = req_type req"
    using assms(3) by (cases "req_type req") simp_all
  have known: "ind_upper_protocol ind \<noteq> Some UP_Unknown" using assms(3) by simp
  have fields: "push_bit 8 (ucast (ucast (drop_bit 8 w) :: byte)) OR ucast (ucast w :: byte) = w" for w :: u16
    using be16_split [of w] by (simp add: be16_def)
  show ?thesis
    unfolding stack_up_def Let_def assms(2) type using known assms(1)
    by (simp add: btp_header_octets fields eval_nat_numeral(2) [of num.One] nth_Cons_numeral)
qed

subsection \<open>An accepted request\<close>

lemma stack_request_accepted:
  assumes "stack_request env req s = (Res_accepted, s1)" and "req_transport req = SHB"
  defines "p \<equiv> empty_chunk(Transport := btp_header_bytes req, Application := req_data req)"
    and "gn \<equiv> btp_gn_request (mib (cfg s)) req"
  shows "fst (request_shb (stack_env env s) gn (Some p) (Router.truncate s)) = Accepted"
    and "s1 = on_router env (\<lambda>_. snd (request_shb (stack_env env s) gn (Some p) (Router.truncate s))) s"
    and "btp_request_check env req s = Res_accepted"
proof -
  show c: "btp_request_check env req s = Res_accepted" using assms(1) by (auto simp: stack_request_def Let_def split: if_splits)
  then have "stack_transport gn SHB (req_destination req) \<noteq> None"
    using assms(2) by (auto simp: btp_request_check_def gn_def split: if_splits)
  then have v: "stack_transport gn SHB (req_destination req) = Some (ShbDataRequest gn)" by (cases "req_destination req") auto
  have r: "stack_router_request env (ShbDataRequest gn) p s = (Res_accepted, s1)"
    using assms(1) c v unfolding stack_request_def Let_def assms(2) gn_def [symmetric] p_def [symmetric] by simp
  then show "fst (request_shb (stack_env env s) gn (Some p) (Router.truncate s)) = Accepted"
    "s1 = on_router env (\<lambda>_. snd (request_shb (stack_env env s) gn (Some p) (Router.truncate s))) s"
    by (auto simp: stack_router_request_def Let_def case_prod_beta split: if_splits)
qed

subsection \<open>From router to router\<close>

text \<open>What is assumed of a pair of routers: if they secure packets, their entities understand each other.\<close>

definition understands :: "Environment \<Rightarrow> Environment \<Rightarrow> time_point \<Rightarrow> bool" where
  "understands env env' now' \<longleftrightarrow> itsGnSecurity (m_mib env') = itsGnSecurity (m_mib env)
     \<and> itsGnProtocolVersion (m_mib env') = itsGnProtocolVersion (m_mib env) \<and> itsGnProtocolVersion (m_mib env) < 16
     \<and> (itsGnSecurity (m_mib env) \<longrightarrow> secure_channel env env' now')"

lemma request_shb_silent:
  assumes "fst (request_shb env req (Some p) s) = Accepted" and "outputs (snd (request_shb env req (Some p) s)) \<noteq> outputs s"
  shows "\<not> store_carry_forward (request_traffic_class req) \<or> has_neighbours (m_now s) (m_location_table s)"
    and "itsGnSecurity (m_mib env) \<Longrightarrow> m_security_entity env = Some e
      \<Longrightarrow> encapsulate_packet e (m_now s) (shb_sign_request env req p s) \<noteq> None"
proof -
  show n: "\<not> store_carry_forward (request_traffic_class req) \<or> has_neighbours (m_now s) (m_location_table s)"
  proof (rule ccontr)
    assume "\<not> ?thesis"
    then have "outputs (snd (request_shb env req (Some p) s)) = outputs s"
      using assms(1) by (simp add: request_shb_def Let_def repeat_request_frame bc_push_def)
    then show False using assms(2) by simp
  qed
  assume sec: "itsGnSecurity (m_mib env)" "m_security_entity env = Some e"
  let ?pd = "shb_request_pdu env req p s"
  let ?pk = "\<lparr>pdu = ?pd, payload_of = p, action = control_info req\<rparr>"
  obtain S where S: "snd (request_shb env req (Some p) s) = shb_transmit env ?pk S" "outputs S = outputs s" "m_now S = m_now s"
    "m_local_position_vector S = m_local_position_vector s" using request_shb_transmits [OF assms(1) n] by metis
  have eq: "?pd\<lparr>extended := (extended ?pd)\<lparr>shb_source_position := m_local_position_vector S\<rparr>\<rparr> = ?pd"
    using S(4) by (simp add: shb_request_pdu_simps)
  show "encapsulate_packet e (m_now s) (shb_sign_request env req p s) \<noteq> None"
  proof
    assume none: "encapsulate_packet e (m_now s) (shb_sign_request env req p s) = None"
    have "encap_if_secured env (control_info req) HV_Shb ?pd p S = None"
      using sec none by (simp add: encap_if_secured_def encap_packet_def case_prod_beta Let_def S(3) control_info_def
          shb_sign_request_def chunk_merge_upper)
    then have "shb_transmit env ?pk S = S" unfolding shb_transmit_def Let_def PendingPacket.simps eq by simp
    then show False using S assms(2) by simp
  qed
qed

lemma shb_over_the_air:
  assumes "understands env env' (m_now s')" and "fst (request_shb env req (Some p) s) = Accepted"
    and "outputs (snd (request_shb env req (Some p) s)) \<noteq> outputs s" and "itsGnMaxSduSize (m_mib env) < 65536"
    and "p Physical = []" and "p Link = []" and "p Network = []"
    and "wf_lpv (m_local_position_vector s)" and "m_transport_ifcs env' (upper_protocol req)"
  shows "\<exists>r q ind packet s''. outputs (snd (request_shb env req (Some p) s)) = outputs s @ [PassDown r q]
    \<and> dr_destination r = cBroadcastMacAddress
    \<and> indicate env' (cohesive_packet (chunk_bytes Network max_osi_layer q) Network) sender dest s' = emit (PassUp ind (Cohesive packet)) s''
    \<and> cohesive_bytes Transport max_osi_layer packet = chunk_bytes Transport max_osi_layer p \<and> logs (\<lambda>_. False) s' s''
    \<and> ind_upper_protocol ind = Some (upper_protocol req) \<and> ind_transport_type ind = Some SHB
    \<and> ind_source_position ind = Some (short_position_vector (m_local_position_vector s))
    \<and> ind_traffic_class ind = request_traffic_class req \<and> ind_remaining_packet_lifetime ind = Some (maximum_lifetime req)
    \<and> (itsGnSecurity (m_mib env) \<longrightarrow> is_successful (ind_security_report ind) \<and> ind_its_aid ind = Some (its_aid req))"
proof -
  note n = request_shb_silent(1) [OF assms(2,3)]
  have v: "itsGnProtocolVersion (m_mib env) < 16" "itsGnProtocolVersion (m_mib env') = itsGnProtocolVersion (m_mib env)"
    "itsGnSecurity (m_mib env') = itsGnSecurity (m_mib env)" using assms(1) by (simp_all add: understands_def)
  show ?thesis
  proof (cases "itsGnSecurity (m_mib env)")
    case False
    then have f: "\<not> itsGnSecurity (m_mib env')" using v by simp
    show ?thesis using shb_end_to_end [OF False f v(1,2) assms(2,4) n assms(5-9), of sender dest s'] False by blast
  next
    case True
    then have ch: "secure_channel env env' (m_now s')" using assms(1) by (simp add: understands_def)
    then obtain e where e: "m_security_entity env = Some e" by (auto simp: secure_channel_def)
    show ?thesis
      using shb_end_to_end_secured [OF True ch e request_shb_silent(2) [OF assms(2,3) True e] v(1,2) assms(2,4) n assms(5-9), of sender dest]
      by blast
  qed
qed

subsection \<open>From application to application\<close>

lemma stack_env_simps [simp]:
  "m_mib (stack_env env s) = mib (cfg s)" "m_security_entity (stack_env env s) = m_security_entity (router_env env)"
  "m_transport_ifcs (stack_env env s) u \<longleftrightarrow> u \<in> {UP_BTP_A, UP_BTP_B, UP_Unknown}"
  "generate_dcc_field (stack_env env s) t = generate_shared_field (sharing s)"
  by (simp_all add: stack_env_def)

lemma btp_sdu:
  fixes req :: BtpRequest
  defines "p \<equiv> empty_chunk(Transport := btp_header_bytes req, Application := req_data req)"
  shows "p Physical = []" "p Link = []" "p Network = []" "chunk_bytes Transport max_osi_layer p = btp_header_bytes req @ req_data req"
  by (simp_all add: p_def empty_chunk_def chunk_bytes_upper)

lemma btp_gn_request_simps:
  "upper_protocol (btp_gn_request m req) = (if req_type req = Btp_a then UP_BTP_A else UP_BTP_B)"
  "request_traffic_class (btp_gn_request m req) = req_traffic_class req" "its_aid (btp_gn_request m req) = req_its_aid req"
  "maximum_lifetime (btp_gn_request m req)
     = (case req_maximum_lifetime req of None \<Rightarrow> itsGnDefaultPacketLifetime m | Some l \<Rightarrow> l)"
  by (simp_all add: btp_gn_request_def data_request_def Let_def split: option.split)

text \<open>C1: Single-hop broadcasts of a transport request reach the application of every station
  that hears them: if the stack accepts the request and hands a packet to its access layer, then
  the frame that is made of that packet, with any sequence number and frame check sequence, is
  decoded at the other station, and indicating it there calls the application once, with the
  same transport type, ports and data, the traffic class and lifetime of the request, and the
  position of the sender. With security, which the two entities are assumed to understand of each
  other, the report is a success and names the requested application.\<close>

theorem btp_over_the_air:
  assumes "understands (stack_env env s) (stack_env env' s') (m_now s')" and "config_ok (cfg s)"
    and "wf_lpv (m_local_position_vector s)" and "req_transport req = SHB"
    and "stack_request env req s = (Res_accepted, s1)" and "accessed (stack_log s1) = accessed (stack_log s) @ [r]"
    and "encode_frame r sq = (Res_accepted, frame)" and "length fcs = 4"
    and "length (al_data r) \<le> cfg_maximum_gnpdu (cfg s')" and "has_receive s'"
  shows "\<exists>ind bi. al_destination r = cBroadcastMacAddress \<and> decode_frame (frame @ fcs) True = (Res_accepted, Some ind)
    \<and> received (stack_log (snd (stack_indicate env' ind s'))) = received (stack_log s') @ [bi]
    \<and> bi_type bi = req_type req \<and> bi_destination_port bi = req_destination_port req \<and> bi_data bi = req_data req
    \<and> (case req_type req of
         Btp_a \<Rightarrow> bi_source_port bi = req_source_port req \<and> bi_destination_port_info bi = None
       | Btp_b \<Rightarrow> bi_source_port bi = None
           \<and> bi_destination_port_info bi = Some (case req_destination_port_info req of None \<Rightarrow> 0 | Some i \<Rightarrow> i))
    \<and> ind_transport_type (bi_gn bi) = Some SHB \<and> ind_traffic_class (bi_gn bi) = req_traffic_class req
    \<and> ind_remaining_packet_lifetime (bi_gn bi)
        = Some (case req_maximum_lifetime req of None \<Rightarrow> itsGnDefaultPacketLifetime (mib (cfg s)) | Some l \<Rightarrow> l)
    \<and> ind_source_position (bi_gn bi) = Some (short_position_vector (m_local_position_vector s))
    \<and> (itsGnSecurity (mib (cfg s)) \<longrightarrow> is_successful (ind_security_report (bi_gn bi)) \<and> ind_its_aid (bi_gn bi) = Some (req_its_aid req))"
proof -
  let ?E = "stack_env env s" and ?E' = "stack_env env' s'" and ?R = "Router.truncate s" and ?R' = "Router.truncate s'"
  let ?p = "empty_chunk(Transport := btp_header_bytes req, Application := req_data req)"
  let ?gn = "btp_gn_request (mib (cfg s)) req"
  let ?out = "request_shb ?E ?gn (Some ?p) ?R"
  note acc = stack_request_accepted [OF assms(5,4)]
  have ne: "outputs (snd ?out) \<noteq> outputs ?R"
  proof
    assume "outputs (snd ?out) = outputs ?R"
    then have "accessed (stack_log s1) = accessed (stack_log s)" using acc(2) by (simp add: on_router_def)
    then show False using assms(6) by simp
  qed
  have size: "itsGnMaxSduSize (m_mib ?E) < 65536" using assms(2) by (auto simp: config_ok_def)
  have port: "m_transport_ifcs ?E' (upper_protocol ?gn)" by (simp add: btp_gn_request_simps)
  have u: "understands ?E ?E' (m_now ?R')" and lpv: "wf_lpv (m_local_position_vector ?R)" using assms(1,3) by simp_all
  obtain rq q ind packet s'' where air: "outputs (snd ?out) = outputs s @ [PassDown rq q]" "dr_destination rq = cBroadcastMacAddress"
    "indicate ?E' (cohesive_packet (chunk_bytes Network max_osi_layer q) Network) (al_source r) (al_destination r) ?R'
       = emit (PassUp ind (Cohesive packet)) s''"
    "cohesive_bytes Transport max_osi_layer packet = btp_header_bytes req @ req_data req" "logs (\<lambda>_. False) ?R' s''"
    "ind_upper_protocol ind = Some (upper_protocol ?gn)" "ind_transport_type ind = Some SHB"
    "ind_source_position ind = Some (short_position_vector (m_local_position_vector s))"
    "ind_traffic_class ind = request_traffic_class ?gn" "ind_remaining_packet_lifetime ind = Some (maximum_lifetime ?gn)"
    "itsGnSecurity (mib (cfg s)) \<longrightarrow> is_successful (ind_security_report ind) \<and> ind_its_aid ind = Some (its_aid ?gn)"
    using shb_over_the_air [OF u acc(1) ne size btp_sdu(1-3) lpv port] unfolding btp_sdu(4) truncate_router stack_env_simps(1) by metis
  let ?S = "Router.extend (snd ?out) (Router.more s)"
  have "s1 = stack_access_request env rq q ?S" using acc(2) air(1) by (simp add: on_router_def)
  then have r: "r = al_request_of rq q ?S" using assms(6) accessed_access [of env rq q ?S] by (auto split: if_splits)
  have data: "al_data r = chunk_bytes Network max_osi_layer q" "al_destination r = cBroadcastMacAddress"
    unfolding r by (simp_all add: al_request_of_def air(2))
  have "validate_request r maximum_gnpdu = Res_accepted" using assms(7) encode_frame_accepted [of r sq] by simp
  then have some: "al_data r \<noteq> []" by (auto simp: validate_request_def split: if_splits)
  let ?i = "al_data_indication\<lparr>ali_source := al_source r, ali_destination := al_destination r, ali_data := al_data r\<rparr>"
  let ?f = "indicate ?E' (cohesive_packet (al_data r) Network) (al_source r) (al_destination r)"
  have f: "?f ?R' = emit (PassUp ind (Cohesive packet)) s''" unfolding data(1) by (rule air(3))
  obtain s2 where s2: "log_only (Router.extend (emit (PassUp ind (Cohesive packet)) s'') (Router.more s')) s2"
    "received (stack_log s2) = received (stack_log s')" "on_router env' ?f s' = stack_up ind (Cohesive packet) s2"
    by (rule received_indicated [where f = ?f, OF f air(5)])
  have "has_receive s2" using log_only_simps(2) [OF s2(1)] assms(10) by simp
  moreover have "create_byte_view (Cohesive packet) Transport max_osi_layer = btp_header_bytes req @ req_data req" by (simp add: air(4))
  moreover have "ind_upper_protocol ind = Some (if req_type req = Btp_a then UP_BTP_A else UP_BTP_B)" by (simp add: air(6) btp_gn_request_simps)
  moreover have "snd (stack_indicate env' ?i s') = stack_up ind (Cohesive packet) s2"
    using some assms(9) s2(3) by (simp add: stack_indicate_def Let_def)
  ultimately have up: "received (stack_log (snd (stack_indicate env' ?i s'))) = received (stack_log s') @ [\<lparr>bi_type = req_type req,
     bi_source_port = (if req_type req = Btp_a then Some (second_field req) else None),
     bi_destination_port = req_destination_port req,
     bi_destination_port_info = (if req_type req = Btp_a then None else Some (second_field req)),
     bi_gn = ind, bi_certificate_id = ind_certificate_id ind, bi_data = req_data req\<rparr>]"
    by (simp only: stack_up_received s2(2))
  have src: "req_type req = Btp_a \<Longrightarrow> req_source_port req \<noteq> None" using acc(3) by (auto simp: btp_request_check_def split: if_splits)
  show ?thesis
    by (rule exI [of _ ?i], rule exI, intro conjI, rule data(2), rule decode_encoded(2) [OF assms(7,8)], rule up)
      (use src air(7-11) in \<open>auto simp: btp_gn_request_simps second_field_def split: BtpType.split\<close>)
qed

text \<open>Two stations with the default configuration, whose entities sign for one application only.\<close>

definition air_entity :: SecurityEntity where
  "air_entity = \<lparr>
     encapsulate_packet = (\<lambda>_ req. if sign_its_aid req = 36 then Some (3 # chunk_bytes Network max_osi_layer (plain_message req)) else None),
     decapsulate_packet = (\<lambda>_ msg. \<lparr>plaintext_payload = PlainCohesive (cohesive_packet (tl msg) Network), decap_report = DecapVerification Success,
       decap_certificate_id = None, decap_its_aid = 36, decap_permissions = []\<rparr>)\<rparr>"

definition air_env :: StackEnv where
  "air_env = \<lparr>router_env = sample_env\<lparr>m_security_entity := Some air_entity, secured_v3 := (\<lambda>msg. Some ((length msg, msg), []))\<rparr>,
     access_result = (\<lambda>_ _. Res_accepted)\<rparr>"

definition air_stack :: Stack where
  "air_stack = (the (stack_init air_env stack_config 0 None))\<lparr>position_valid := True, has_receive := True\<rparr>"

definition air_request :: BtpRequest where
  "air_request = \<lparr>req_type = Btp_b, req_source_port = None, req_destination_port = 2001, req_destination_port_info = None,
     req_transport = SHB, req_destination = DestinationNull, req_communication_profile = ITS_G5, req_security_profile = None,
     req_its_aid = 36, req_permissions = [], req_security_context = [], req_maximum_lifetime = None, req_repetition = None,
     req_maximum_hop_limit = None, req_traffic_class = traffic_class False False 2, req_data = [1, 2, 3]\<rparr>"

lemma stack_config_simps [simp]: "config_ok stack_config" "itsGnSecurity (mib stack_config)" "itsGnProtocolVersion (mib stack_config) = 1"
  "itsGnMaxSduSize (mib stack_config) = 1398" "cfg_maximum_gnpdu stack_config = 4096" "radio_parameters stack_config = al_data_request"
  by (simp_all add: stack_config_def config_ok_def mib_default_def)

lemma router_init_position [simp]: "m_local_position_vector (router_init env now) = lpv_default"
  by (simp add: router_init_def Let_def reset_beacon_timer_in_def schedule_in_def schedule_at_def cancel_def)

lemma air_stack_simps [simp]: "cfg air_stack = stack_config" "stack_log air_stack = []" "position_valid air_stack" "has_receive air_stack"
  "\<not> change_pending air_stack" "wf_lpv (m_local_position_vector air_stack)"
proof -
  show "cfg air_stack = stack_config" "stack_log air_stack = []" "position_valid air_stack" "has_receive air_stack"
    "\<not> change_pending air_stack"
    by (simp_all add: air_stack_def stack_init_def Let_def on_router_def set_address_def)
  have "itsGnLocalGnAddr (mib stack_config) = address_default" by (simp add: stack_config_def mib_default_def)
  then have "m_local_position_vector air_stack = lpv_default\<lparr>gn_addr := address_default\<rparr>"
    by (simp add: air_stack_def stack_init_def Let_def on_router_def set_address_def schedule_in_def schedule_at_def)
  then show "wf_lpv (m_local_position_vector air_stack)"
    by (simp add: wf_lpv_def lpv_default_def wf_address_def address_default_def wf_station_type_def station_type_cast_def)
qed

lemma air_understands: "understands (stack_env air_env air_stack) (stack_env air_env air_stack) t"
  by (auto simp: understands_def secure_channel_def stack_env_def air_env_def air_entity_def)

text \<open>The frame that the sender's access layer is given, and its size.\<close>

lemma air_accepted:
  "btp_request_check air_env air_request air_stack = Res_accepted"
  "fst (request_shb (stack_env air_env air_stack) (btp_gn_request (mib stack_config) air_request)
     (Some (empty_chunk(Transport := btp_header_bytes air_request, Application := req_data air_request))) R) = Accepted"
proof -
  show "btp_request_check air_env air_request air_stack = Res_accepted"
    by (simp add: btp_request_check_def air_request_def hop_limit_invalid_def air_env_def)
  have "\<not> lifetime_decode (itsGnMaxPacketLifetime mib_default) < lifetime_decode (itsGnDefaultPacketLifetime mib_default)"
    by (simp add: mib_default_def lifetime_decode_set)
  then have v: "validate_data_request (mib stack_config) (btp_gn_request (mib stack_config) air_request) = Accepted"
    by (simp add: validate_data_request_def btp_gn_request_def Let_def data_request_def air_request_def stack_config_def lifetime_less_def)
  have "chunk_size (empty_chunk(Transport := btp_header_bytes air_request, Application := req_data air_request)) = 7"
    by (simp add: chunk_size_def osi_layers_def empty_chunk_def btp_header_octets) (simp add: air_request_def)
  then show "fst (request_shb (stack_env air_env air_stack) (btp_gn_request (mib stack_config) air_request)
     (Some (empty_chunk(Transport := btp_header_bytes air_request, Application := req_data air_request))) R) = Accepted"
    by (simp add: request_shb_def Let_def confirm_Accepted validate_payload_def v)
qed

lemma air_sends:
  "\<exists>s1 r. stack_request air_env air_request air_stack = (Res_accepted, s1) \<and> accessed (stack_log s1) = [r]
     \<and> length (al_data r) = 48 \<and> validate_request r maximum_gnpdu = Res_accepted"
proof -
  let ?E = "stack_env air_env air_stack" and ?R = "Router.truncate air_stack" and ?gn = "btp_gn_request (mib stack_config) air_request"
  let ?p = "empty_chunk(Transport := btp_header_bytes air_request, Application := req_data air_request)"
  let ?out = "request_shb ?E ?gn (Some ?p) ?R"
  let ?msg = "3 # chunk_bytes Network max_osi_layer (plain_message (shb_sign_request ?E ?gn ?p ?R))"
  have e: "m_security_entity ?E = Some air_entity" "itsGnSecurity (m_mib ?E)" by (simp_all add: air_env_def)
  have m: "encapsulate_packet air_entity (m_now ?R) (shb_sign_request ?E ?gn ?p ?R) = Some ?msg"
    by (simp add: air_entity_def shb_sign_request_def btp_gn_request_simps) (simp add: air_request_def)
  have "\<not> store_carry_forward (traffic_class False False 2)" by code_simp
  then have scf: "\<not> store_carry_forward (request_traffic_class ?gn) \<or> has_neighbours (m_now ?R) (m_location_table ?R)"
    by (simp add: btp_gn_request_simps air_request_def)
  note acc = air_accepted(2) [of ?R]
  let ?q = "?p(Transport := [], Session := [], Presentation := [], Application := [],
         Network := serialize_basic (basic (shb_request_pdu ?E ?gn ?p ?R)) @ ?msg)"
  obtain rq where o: "outputs (snd ?out) = outputs ?R @ [PassDown rq ?q]"
    using request_shb_sends_secured [OF e(2,1) m acc scf] by blast
  let ?S = "Router.extend (snd ?out) (Router.more air_stack)"
  let ?r = "al_request_of rq ?q ?S"
  have "length (btp_header_bytes air_request @ req_data air_request) = 7" by (simp add: btp_header_octets) (simp add: air_request_def)
  then have "length ?msg = 44" unfolding shb_sign_request_def SignRequest.simps chunk_merge_bytes btp_sdu(4)
    by (simp add: convert_for_signing_def common_codec.ser_length shb_codec.ser_length)
  moreover have "al_data ?r = serialize_basic (basic (shb_request_pdu ?E ?gn ?p ?R)) @ ?msg"
    unfolding al_request_of_def AlDataRequest.simps create_byte_view.simps chunk_bytes_upper(2) [of ?q] chunk_bytes_upper(1) [of ?q] by simp
  ultimately have len: "length (al_data ?r) = 48" by (simp only: length_append basic_codec.ser_length)
  have prio: "user_priority a \<le> 7" for a by (cases a) (simp_all add: user_priority_def ac_raw_def)
  have v: "validate_request ?r n = Res_accepted" if "48 \<le> n" for n
    using len that prio [of "map_profile_onto_ac (dr_dcc_profile rq)"]
    by (auto simp: validate_request_def al_request_of_def al_data_request_def)
  have "snd (stack_request air_env air_request air_stack) = stack_access_request air_env rq ?q ?S"
    and "fst (stack_request air_env air_request air_stack) = Res_accepted"
    unfolding stack_request_def air_accepted(1) Let_def
    using acc o by (simp_all add: air_request_def stack_router_request_def Let_def case_prod_beta on_router_def threw_def)
  then show ?thesis
    using accessed_access [of air_env rq ?q ?S] len v [of 4096] v [of maximum_gnpdu]
    by (intro exI [of _ "snd (stack_request air_env air_request air_stack)"] exI [of _ ?r])
      (simp add: prod_eq_iff maximum_gnpdu_def)
qed

theorem btp_over_the_air_witness:
  "\<exists>s1 r frame ind bi. stack_request air_env air_request air_stack = (Res_accepted, s1) \<and> accessed (stack_log s1) = [r]
     \<and> encode_frame r 7 = (Res_accepted, frame) \<and> decode_frame (frame @ [0, 0, 0, 0]) True = (Res_accepted, Some ind)
     \<and> received (stack_log (snd (stack_indicate air_env ind air_stack))) = [bi]
     \<and> bi_destination_port bi = 2001 \<and> bi_data bi = [1, 2, 3] \<and> ind_its_aid (bi_gn bi) = Some 36"
proof -
  obtain s1 r where s1: "stack_request air_env air_request air_stack = (Res_accepted, s1)" "accessed (stack_log s1) = [r]"
    "length (al_data r) = 48" "validate_request r maximum_gnpdu = Res_accepted" using air_sends by blast
  obtain frame where f: "encode_frame r 7 = (Res_accepted, frame)"
    using encode_frame_accepted [of r 7] s1(4) by (cases "encode_frame r 7") (simp add: word_le_nat_alt)
  have req: "req_transport air_request = SHB" "req_destination_port air_request = 2001" "req_data air_request = [1, 2, 3]"
    "req_its_aid air_request = 36" by (simp_all add: air_request_def)
  show ?thesis
    using btp_over_the_air [OF air_understands _ _ req(1) s1(1) _ f, of "[0, 0, 0, 0]"] s1 f req by fastforce
qed

end
