(* ===== verification/StackReach.thy ===== *)
theory StackReach
  imports StackAir
begin

text \<open>
  The states that the stack of the port reaches from its construction
  (\<open>ports/esp_idf/src/stack.cpp\<close>): requests, received frames, positions, channel measurements,
  identifier changes and the passing of time, in any order. The invariant of the router carries
  over, with the configuration as it changes.
\<close>

inductive stack_reach :: "StackEnv \<Rightarrow> StackConfig \<Rightarrow> Stack \<Rightarrow> bool" for env c where
  start: "stack_init env c now ids = Some s \<Longrightarrow> stack_reach env c s"
| request: "stack_reach env c s \<Longrightarrow> stack_reach env c (snd (stack_request env req s))"
| gn_request: "stack_reach env c s \<Longrightarrow> stack_reach env c (snd (stack_gn_request env greq s))"
| indicate: "stack_reach env c s \<Longrightarrow> stack_reach env c (snd (stack_indicate env ind s))"
| position: "stack_reach env c s \<Longrightarrow> stack_reach env c (snd (stack_update_position env finite_fix t fx s))"
| advance: "stack_reach env c s \<Longrightarrow> stack_advance env t s = Some (res, s') \<Longrightarrow> stack_reach env c s'"
| address: "stack_reach env c s \<Longrightarrow> stack_reach env c (snd (stack_set_address env addr s))"
| handlers: "stack_reach env c s \<Longrightarrow> stack_reach env c (on_receive b1 (on_receive_gn b2 (on_access_result b3 s)))"
| channel_load: "stack_reach env c s \<Longrightarrow> stack_reach env c (report_local_channel_load load s)"
| tx_power: "stack_reach env c s \<Longrightarrow> stack_reach env c (report_tx_power dbm s)"
| id_change: "stack_reach env c s \<Longrightarrow> subscribed s \<Longrightarrow> stack_reach env c (snd (on_id_change env cmd i s))"

subsection \<open>Invariant\<close>

definition stack_ok :: "StackEnv \<Rightarrow> Stack \<Rightarrow> bool" where
  "stack_ok env s \<longleftrightarrow> env_ok (stack_env env s) \<and> router_ok (stack_env env s) (Router.truncate s)
     \<and> m_trigger_interval (sharing s) = 100000 \<and> config_ok (cfg s)"

lemma local_ok_config:
  assumes "itsGnSecurity (m_mib env') = itsGnSecurity (m_mib env)"
  shows "local_ok env' pd \<longleftrightarrow> local_ok env pd" and "mac_action_ok env' m pd p \<longleftrightarrow> mac_action_ok env m pd p"
  using assms by (simp add: local_ok_def, cases m, simp_all add: local_ok_def)

lemma router_ok_config:
  assumes "itsGnSecurity (m_mib env') = itsGnSecurity (m_mib env)" and "itsGnDPLLength (m_mib env') = itsGnDPLLength (m_mib env)"
  shows "router_ok env' s \<longleftrightarrow> router_ok env s"
proof -
  note l = local_ok_config [OF assms(1)]
  have g: "gbc_pending_ok env' pk \<longleftrightarrow> gbc_pending_ok env pk" for pk by (simp add: gbc_pending_ok_def l split: GbcAction.split)
  have d: "data_ok env' x \<longleftrightarrow> data_ok env x" for x by (cases x) (simp_all add: l g)
  show ?thesis by (simp add: router_ok_def contending_ok_def g d table_ok_def assms(2))
qed

lemma truncate_updates [simp]:
  "Router.truncate (s\<lparr>cfg := c\<rparr>) = Router.truncate s" "Router.truncate (s\<lparr>sharing := d\<rparr>) = Router.truncate s"
  "Router.truncate (s\<lparr>global_cbr := g\<rparr>) = Router.truncate s" "Router.truncate (s\<lparr>has_receive := b\<rparr>) = Router.truncate s"
  "Router.truncate (s\<lparr>has_receive_gn := b\<rparr>) = Router.truncate s" "Router.truncate (s\<lparr>has_report := b\<rparr>) = Router.truncate s"
  "Router.truncate (s\<lparr>position_valid := b\<rparr>) = Router.truncate s" "Router.truncate (s\<lparr>change_pending := b\<rparr>) = Router.truncate s"
  "Router.truncate (s\<lparr>subscribed := b\<rparr>) = Router.truncate s"
  "Router.truncate (s\<lparr>m_queue := q\<rparr>) = (Router.truncate s)\<lparr>m_queue := q\<rparr>"
  "Router.truncate (s\<lparr>m_now := t\<rparr>) = (Router.truncate s)\<lparr>m_now := t\<rparr>"
  by (simp_all add: Router.truncate_def)

lemma stack_env_same: "cfg s' = cfg s \<Longrightarrow> sharing s' = sharing s \<Longrightarrow> stack_env env s' = stack_env env s"
  by (simp add: stack_env_def)

lemma env_ok_stack:
  "env_ok (stack_env env s) \<longleftrightarrow> env_ok ((router_env env)\<lparr>m_mib := mib (cfg s)\<rparr>)"
  by (simp add: env_ok_def stack_env_def)

lemma env_ok_address: "env_ok (e\<lparr>m_mib := m\<lparr>itsGnLocalGnAddr := a\<rparr>\<rparr>) \<longleftrightarrow> env_ok (e\<lparr>m_mib := m\<rparr>)"
  by (simp add: env_ok_def)

text \<open>What an operation of the router does to the stack around it.\<close>

lemma on_router_simps [simp]:
  "cfg (on_router env f s) = cfg s" "sharing (on_router env f s) = sharing s" "has_receive (on_router env f s) = has_receive s"
  "position_valid (on_router env f s) = position_valid s" "change_pending (on_router env f s) = change_pending s"
  "Router.truncate (on_router env f s) = f (Router.truncate s)" "m_now (on_router env f s) = m_now (f (Router.truncate s))"
  "m_queue (on_router env f s) = m_queue (f (Router.truncate s))" "outputs (on_router env f s) = outputs (f (Router.truncate s))"
proof -
  let ?x = "Router.extend (f (Router.truncate s)) (Router.more s)"
  have "log_only ?x (on_router env f s)" unfolding on_router_def Let_def by (rule log_only_deliver)
  from log_only_simps [OF this] show "cfg (on_router env f s) = cfg s" "sharing (on_router env f s) = sharing s"
    "has_receive (on_router env f s) = has_receive s" "position_valid (on_router env f s) = position_valid s"
    "change_pending (on_router env f s) = change_pending s" "Router.truncate (on_router env f s) = f (Router.truncate s)"
    "m_now (on_router env f s) = m_now (f (Router.truncate s))" "m_queue (on_router env f s) = m_queue (f (Router.truncate s))"
    "outputs (on_router env f s) = outputs (f (Router.truncate s))" by simp_all
qed

lemma on_router_position [simp]: "m_local_position_vector (on_router env f s) = m_local_position_vector (f (Router.truncate s))"
  using truncate_router(4) [of "on_router env f s"] by simp

lemma on_router_ok:
  "stack_ok env s \<Longrightarrow> router_ok (stack_env env s) (f (Router.truncate s)) \<Longrightarrow> stack_ok env (on_router env f s)"
  by (simp add: stack_ok_def stack_env_same [of "on_router env f s" s])

lemma expired_stack: "expired_count (Router.truncate s) = expired_count s" "queue_ok (Router.truncate s) = queue_ok s"
  by (simp_all add: expired_count_def queue_ok_def)

subsection \<open>Every operation keeps it\<close>

lemma stack_ok_same:
  assumes "stack_ok env s" and "Router.truncate s' = Router.truncate s" and "cfg s' = cfg s"
    and "m_trigger_interval (sharing s') = m_trigger_interval (sharing s)"
  shows "stack_ok env s'"
  using assms router_ok_config [of "stack_env env s'" "stack_env env s"] by (simp add: stack_ok_def env_ok_stack)

lemma stack_ok_set_address:
  assumes "stack_ok env s"
  shows "stack_ok env (on_router env (set_address a) (s\<lparr>cfg := (cfg s)\<lparr>mib := (mib (cfg s))\<lparr>itsGnLocalGnAddr := b\<rparr>\<rparr>\<rparr>))"
proof -
  let ?s = "s\<lparr>cfg := (cfg s)\<lparr>mib := (mib (cfg s))\<lparr>itsGnLocalGnAddr := b\<rparr>\<rparr>\<rparr>"
  have ok: "stack_ok env ?s"
    using assms router_ok_config [of "stack_env env ?s" "stack_env env s"] by (simp add: stack_ok_def env_ok_stack env_ok_address config_ok_def)
  then show ?thesis by (intro on_router_ok [OF ok]) (simp add: stack_ok_def router_ok_address)
qed

lemma stack_ok_router_request: "stack_ok env s \<Longrightarrow> stack_ok env (snd (stack_router_request env v p s))"
  unfolding stack_router_request_def Let_def case_prod_beta snd_conv
  using calm_request [of "stack_env env s" "Router.truncate s" v "Some p"]
  by (intro on_router_ok) (simp_all add: stack_ok_def calm_def kept_def)

lemma stack_ok_request: "stack_ok env s \<Longrightarrow> stack_ok env (snd (stack_request env req s))"
  by (auto simp: stack_request_def Let_def stack_ok_router_request split: option.split)

lemma stack_ok_gn_request: "stack_ok env s \<Longrightarrow> stack_ok env (snd (stack_gn_request env req s))"
  by (auto simp: stack_gn_request_def Let_def stack_ok_router_request split: option.split)

lemma stack_ok_indicate:
  assumes "stack_ok env s"
  shows "stack_ok env (snd (stack_indicate env ind s))"
proof -
  have "stack_ok env (on_router env (indicate (stack_env env s) p a b) s)" for p a b
    by (rule on_router_ok [OF assms]) (use assms handled_indicate in \<open>auto simp: stack_ok_def handled_def\<close>)
  then show ?thesis using assms by (simp add: stack_indicate_def Let_def)
qed

lemma stack_ok_position: "stack_ok env s \<Longrightarrow> stack_ok env (snd (stack_update_position env b t fx s))"
proof -
  assume ok: "stack_ok env s"
  have "stack_ok env (on_router env (update_position (stack_env env s) fx) s)"
    by (rule on_router_ok [OF ok]) (use ok in \<open>simp add: stack_ok_def router_ok_position\<close>)
  then have "stack_ok env ((on_router env (update_position (stack_env env s) fx) s)\<lparr>position_valid := True\<rparr>)"
    by (rule stack_ok_same) simp_all
  then show ?thesis using ok by (simp add: stack_update_position_def)
qed

lemma stack_ok_id_change:
  assumes "stack_ok env s"
  shows "stack_ok env (snd (on_id_change env cmd i s))"
proof (cases cmd)
  case ID_PREPARE
  let ?s = "s\<lparr>change_pending := True\<rparr>"
  have ok: "stack_ok env ?s" using assms by (rule stack_ok_same) simp_all
  then have "env_ok (stack_env env ?s)" "router_ok (stack_env env ?s) (Router.truncate ?s)" by (simp_all add: stack_ok_def)
  from kept_flush_broadcast [OF this]
  have "router_ok (stack_env env ?s) (flush_forwarding_buffers (stack_env env ?s) (Router.truncate ?s))"
    unfolding flush_forwarding_buffers_def using flush_unicast_calm(1) by (auto simp: kept_def calm_def)
  then show ?thesis using on_router_ok [OF ok] ID_PREPARE by (simp add: Let_def)
next
  case ID_COMMIT
  have "stack_ok env (apply_identifier env i s)" unfolding apply_identifier_def Let_def by (rule stack_ok_set_address [OF assms])
  then have "stack_ok env ((apply_identifier env i s)\<lparr>change_pending := False\<rparr>)" by (rule stack_ok_same) simp_all
  then show ?thesis using ID_COMMIT by simp
qed (use assms in \<open>auto intro: stack_ok_same\<close>)

lemma schedule_truncate: "Router.truncate (schedule_in d cb sc s) = schedule_in d cb sc (Router.truncate s)"
  by (simp add: schedule_in_def schedule_at_def Router.truncate_def)

lemma schedule_stack [simp]: "cfg (schedule_in d cb sc s) = cfg s" "sharing (schedule_in d cb sc s) = sharing s"
  by (simp_all add: schedule_in_def schedule_at_def)

lemma router_ok_schedule: "router_ok env s \<Longrightarrow> router_ok env (schedule_in d cb sc s)"
  using schedule_in_simps(2) [of s d cb sc] by (simp add: router_ok_def schedule_in_def schedule_at_def)

lemma stack_run_ok:
  assumes "stack_ok env s"
  shows "stack_ok env (stack_run env cb d s)" and "m_now (stack_run env cb d s) = m_now s"
    and "expired_count (stack_run env cb d s) \<le> expired_count s"
proof -
  have router: "stack_ok env (on_router env f s) \<and> m_now (on_router env f s) = m_now s
      \<and> expired_count (on_router env f s) \<le> expired_count s"
    if "f = router_run (stack_env env s) cb d" for f
  proof -
    have "calm (stack_env env s) (Router.truncate s) (f (Router.truncate s))"
      using assms calm_run that by (simp add: stack_ok_def)
    then show ?thesis
      using on_router_ok [OF assms, of f] expired_stack(1) [of "on_router env f s"] expired_stack(1) [of s]
      by (simp add: calm_def kept_def)
  qed
  let ?d = "sharing_trigger (m_now s) (m_location_table s) (sharing s)"
  let ?s = "s\<lparr>sharing := ?d, global_cbr := Some (m_global_cbr (m_aggregator ?d))\<rparr>"
  have i: "m_trigger_interval ?d = 100000" using assms by (simp add: sharing_trigger_def stack_ok_def)
  have "stack_ok env ?s" using assms by (rule stack_ok_same) (simp_all add: i, use assms in \<open>simp add: stack_ok_def\<close>)
  then have "stack_ok env (schedule_in 100000 Foreign None ?s)"
    using stack_env_same [of "schedule_in 100000 Foreign None ?s" ?s env]
    by (simp add: stack_ok_def schedule_truncate router_ok_schedule)
  then have foreign: "stack_ok env (stack_run env Foreign d s) \<and> m_now (stack_run env Foreign d s) = m_now s
      \<and> expired_count (stack_run env Foreign d s) \<le> expired_count s"
    using i by (simp add: Let_def) (simp add: expired_count_def)
  show "stack_ok env (stack_run env cb d s)" "m_now (stack_run env cb d s) = m_now s" "expired_count (stack_run env cb d s) \<le> expired_count s"
    using foreign router by (cases cb; simp)+
qed

text \<open>The stack is a client of the runtime, so that advancing the time returns.\<close>

interpretation stack_timers: timer_client "stack_run env" "stack_ok env" for env
proof
  fix s :: Stack and cb d e q
  assume s: "stack_ok env s"
  show "stack_ok env (stack_run env cb d s)" "m_now (stack_run env cb d s) = m_now s" "expired_count (stack_run env cb d s) \<le> expired_count s"
    using stack_run_ok [OF s] .
  show "queue_ok s" using s expired_stack(2) [of s] by (simp add: stack_ok_def router_ok_def)
  show "stack_ok env (s\<lparr>m_queue := q\<rparr>)" if "m_queue s = e # q"
    using s that stack_env_same [of "s\<lparr>m_queue := q\<rparr>" s env] by (simp add: stack_ok_def router_ok_def queue_ok_def)
qed

lemma stack_advance_result:
  assumes "stack_ok env s" and "m_now s \<le> t"
  shows "\<exists>s'. stack_advance env t s = Some (Res_accepted, s') \<and> stack_ok env s' \<and> m_now s' = t \<and> expired_count s' = 0"
proof -
  have "stack_ok env (s\<lparr>m_now := t\<rparr>)"
    using assms(1) stack_env_same [of "s\<lparr>m_now := t\<rparr>" s env] by (simp add: stack_ok_def router_ok_def queue_ok_def)
  from stack_timers.trigger_terminates [OF this] show ?thesis
    using assms(2) by (auto simp: stack_advance_def trigger_at_def)
qed

subsection \<open>Reachable states\<close>

lemma stack_init_ok:
  assumes "env_ok ((router_env env)\<lparr>m_mib := mib c\<rparr>)" and "stack_init env c now ids = Some s"
  shows "stack_ok env s"
proof -
  let ?E = "(router_env env)\<lparr>m_mib := mib c\<rparr>" and ?d = "dcc_information_sharing now (31 / 50)"
  have c: "config_ok c" using assms(2) by (auto simp: stack_init_def split: if_splits)
  let ?s = "\<lambda>t. Router.extend (schedule_in t Foreign None (router_init ?E now)) (Stack.fields c ?d None False False False False False False [])"
  have i: "stack_ok env (?s t)" for t
  proof -
    have "router_ok ?E (schedule_in t Foreign None (router_init ?E now))"
      by (intro router_ok_schedule router_ok_init assms(1))
    then show ?thesis
      using assms(1) c router_ok_config [of "stack_env env (?s t)" ?E] by (simp add: stack_ok_def env_ok_stack dcc_information_sharing_def)
  qed
  have "stack_ok env (on_router env (set_address a) (?s t))" for a t
    by (rule on_router_ok [OF i]) (use i [of t] in \<open>simp add: stack_ok_def router_ok_address\<close>)
  then have s1: "stack_ok env (on_router env (set_address a) (?s t))"
    "stack_ok env ((on_router env (set_address a) (?s t))\<lparr>subscribed := True\<rparr>)" for a t
    by (simp, rule stack_ok_same) simp_all
  have "stack_ok env (apply_identifier env j s)" if "stack_ok env s" for j s
    unfolding apply_identifier_def Let_def by (rule stack_ok_set_address [OF that])
  then show ?thesis using assms(2) c s1 unfolding stack_init_def Let_def by (auto split: option.splits if_splits)
qed

lemma stack_reach_ok:
  assumes "env_ok ((router_env env)\<lparr>m_mib := mib c\<rparr>)" and "stack_reach env c s"
  shows "stack_ok env s"
  using assms(2)
proof (induction rule: stack_reach.induct)
  case (start now ids s)
  then show ?case by (rule stack_init_ok [OF assms(1)])
next
  case (advance s t res s')
  then show ?case using stack_advance_result [of env s t] by (cases "t < m_now s") (auto simp: stack_advance_def)
next
  case (address s addr)
  then show ?case by (auto simp: stack_set_address_def stack_ok_set_address)
next
  case (handlers s b1 b2 b3)
  show ?case using handlers.IH by (rule stack_ok_same) (simp_all add: on_receive_def on_receive_gn_def on_access_result_def)
next
  case (channel_load s load)
  show ?case using channel_load.IH by (rule stack_ok_same) (simp_all add: report_local_channel_load_def update_local_cbr_def)
next
  case (tx_power s dbm)
  show ?case using tx_power.IH by (rule stack_ok_same) (simp_all add: report_tx_power_def set_tx_power_def)
qed (simp_all add: stack_ok_request stack_ok_gn_request stack_ok_indicate stack_ok_position stack_ok_id_change)

subsection \<open>Properties\<close>

text \<open>C4: Advancing the time of a stack returns for every state it can reach: a time in the past is
  refused without effect, any other one is accepted, and then the clock shows it, none of the
  callbacks of the router and of information sharing is overdue and the state is reachable.\<close>

theorem stack_advance_returns:
  assumes "env_ok ((router_env env)\<lparr>m_mib := mib c\<rparr>)" and "stack_reach env c s"
  shows "if t < m_now s then stack_advance env t s = Some (Res_time_regression, s)
    else \<exists>s'. stack_advance env t s = Some (Res_accepted, s') \<and> m_now s' = t
      \<and> list_all (\<lambda>e. t < fst e) (m_queue s') \<and> stack_reach env c s'"
proof (cases "t < m_now s")
  case False
  then obtain s' where s': "stack_advance env t s = Some (Res_accepted, s')" "m_now s' = t" "expired_count s' = 0"
    using stack_advance_result [OF stack_reach_ok [OF assms], of t] by auto
  have "list_all (\<lambda>e. t < fst e) (m_queue s')"
    using s'(2,3) by (simp add: expired_count_def filter_empty_conv list_all_iff not_le)
  then show ?thesis using False s' stack_reach.advance [OF assms(2) s'(1)] by auto
qed (simp add: stack_advance_def)

lemma env_ok_air: "env_ok ((router_env air_env)\<lparr>m_mib := mib stack_config\<rparr>)"
  using env_ok_sample by (simp add: env_ok_def air_env_def stack_config_def reader_ok_def)

lemma air_start: "stack_init air_env stack_config 0 None = Some (the (stack_init air_env stack_config 0 None))"
  "m_now (the (stack_init air_env stack_config 0 None)) = 0"
  by (simp_all add: stack_init_def Let_def set_address_def)
     (simp add: router_init_def Let_def stack_config_def mib_default_def reset_beacon_timer_in_def)

theorem stack_advance_returns_witness:
  "\<exists>s s'. stack_init air_env stack_config 0 None = Some s \<and> stack_advance air_env 5000000 s = Some (Res_accepted, s')
     \<and> m_now s' = 5000000 \<and> list_all (\<lambda>e. 5000000 < fst e) (m_queue s')"
proof -
  let ?s = "the (stack_init air_env stack_config 0 None)"
  have "\<not> 5000000 < m_now ?s" by (simp add: air_start(2))
  then show ?thesis
    using stack_advance_returns [OF env_ok_air stack_reach.start [OF air_start(1)], of 5000000] air_start(1) by auto
qed

lemma chunk_size_btp:
  "chunk_size (empty_chunk(Transport := btp_header_bytes req, Application := req_data req)) = 4 + length (req_data req)"
  by (simp add: chunk_size_def osi_layers_def empty_chunk_def btp_header_octets)

lemma sdu_limit: "4 \<le> n \<Longrightarrow> n \<le> 65535 \<Longrightarrow> unat (of_nat n - 4 :: u32) = n - 4"
proof -
  assume n: "4 \<le> n" "n \<le> 65535"
  then have "of_nat n - 4 = (of_nat (n - 4) :: u32)" by (simp add: of_nat_diff)
  then show ?thesis using n by (simp only: unsigned_of_nat) (simp add: take_bit_nat_eq_self)
qed

lemma request_confirmed:
  "fst (router_request env (ShbDataRequest r) (Some p) s) = Accepted \<longleftrightarrow>
     validate_data_request (m_mib env) r = Accepted \<and> chunk_size p \<le> itsGnMaxSduSize (m_mib env)"
  "fst (router_request env (GbcDataRequest r a) (Some p) s) = Accepted \<longleftrightarrow>
     validate_area_request (m_mib env) r a = Accepted \<and> chunk_size p \<le> itsGnMaxSduSize (m_mib env)"
  by (auto simp: request_shb_def request_gbc_def Let_def case_prod_beta confirm_Accepted validate_payload_def)

lemma request_refused:
  "fst (router_request env v p s) \<noteq> Accepted \<Longrightarrow> snd (router_request env v p s) = s"
  by (cases v) (auto simp: request_shb_def request_gbc_def Let_def case_prod_beta split: option.splits if_splits)

lemma on_router_id: "on_router env (\<lambda>_. Router.truncate s) s = s"
proof -
  have "Router.extend (Router.truncate s) (Router.more s) = s" by (cases s) (simp add: Router.extend_def Router.truncate_def)
  then show ?thesis by (simp add: on_router_def)
qed

lemma stack_router_request_exact:
  fixes v :: DataRequestVariant and p :: DownPacket
  assumes "stack_ok env s"
  defines "confirm \<equiv> fst (router_request (stack_env env s) v (Some p) (Router.truncate s))"
  shows "fst (stack_router_request env v p s) = (if confirm = Accepted then Res_accepted else Res_rejected)"
    and "confirm \<noteq> Accepted \<Longrightarrow> snd (stack_router_request env v p s) = s"
proof -
  let ?r = "snd (router_request (stack_env env s) v (Some p) (Router.truncate s))"
  have "quiet (Router.truncate s) ?r"
    using assms(1) calm_request [of "stack_env env s" "Router.truncate s" v "Some p"] by (simp add: stack_ok_def calm_def kept_def)
  then have "\<not> threw (drop (length (outputs s)) (outputs ?r))"
    unfolding quiet_def threw_def no_throw_def list_ex_iff by (auto split: Output.splits)
  then show "fst (stack_router_request env v p s) = (if confirm = Accepted then Res_accepted else Res_rejected)"
    by (simp add: stack_router_request_def case_prod_beta Let_def confirm_def)
  show "snd (stack_router_request env v p s) = s" if "confirm \<noteq> Accepted"
    using request_refused [of "stack_env env s" v "Some p" "Router.truncate s"] that
    by (simp add: stack_router_request_def case_prod_beta Let_def confirm_def on_router_id)
qed

text \<open>What the checks of a request establish, and what is left for the router to check.\<close>

definition btp_well_formed :: "StackEnv \<Rightarrow> BtpRequest \<Rightarrow> Stack \<Rightarrow> bool" where
  "btp_well_formed env req s \<longleftrightarrow>
      (case req_type req of Btp_a \<Rightarrow> req_source_port req \<noteq> None \<and> req_destination_port_info req = None | Btp_b \<Rightarrow> req_source_port req = None)
    \<and> length (req_data req) + 4 \<le> itsGnMaxSduSize (mib (cfg s)) \<and> req_communication_profile req \<in> {ITS_G5, IF_Unspecified}
    \<and> req_security_profile req \<in> {None, Some (cfg_security_profile (cfg s))}
    \<and> (case req_maximum_hop_limit req of None \<Rightarrow> True | Some h \<Rightarrow> 1 \<le> h \<and> h \<le> 255)
    \<and> (req_transport req = SHB \<and> req_destination req = DestinationNull
       \<or> req_transport req = GBC \<and> (\<exists>a. req_destination req = DestinationArea a))"

lemma hop_limit_valid: "\<not> hop_limit_invalid h \<longleftrightarrow> (case h of None \<Rightarrow> True | Some h \<Rightarrow> 1 \<le> h \<and> h \<le> 255)"
  by (auto simp: hop_limit_invalid_def split: option.split)

lemma stack_transport_some: "t = SHB \<or> t = GBC \<Longrightarrow> stack_transport r t d \<noteq> None \<longleftrightarrow>
   t = SHB \<and> d = DestinationNull \<or> t = GBC \<and> (\<exists>a. d = DestinationArea a)"
  by (cases d) auto

lemma btp_check_accepted:
  assumes "config_ok (cfg s)"
  shows "btp_request_check env req s = Res_accepted \<longleftrightarrow> btp_well_formed env req s
    \<and> (itsGnSecurity (mib (cfg s)) \<longrightarrow> m_security_entity (router_env env) \<noteq> None) \<and> \<not> change_pending s \<and> position_valid s"
proof -
  have n: "4 \<le> itsGnMaxSduSize (mib (cfg s))" "itsGnMaxSduSize (mib (cfg s)) \<le> 65535" using assms by (auto simp: config_ok_def)
  have len: "length (req_data req) > unat (of_nat (itsGnMaxSduSize (mib (cfg s))) - 4 :: u32)
      \<longleftrightarrow> \<not> length (req_data req) + 4 \<le> itsGnMaxSduSize (mib (cfg s))" unfolding sdu_limit [OF n] using n(1) by linarith
  have ports: "((req_type req = Btp_a \<and> (req_source_port req = None \<or> req_destination_port_info req \<noteq> None))
      \<or> (req_type req = Btp_b \<and> req_source_port req \<noteq> None)) \<longleftrightarrow> \<not> (case req_type req of
        Btp_a \<Rightarrow> req_source_port req \<noteq> None \<and> req_destination_port_info req = None | Btp_b \<Rightarrow> req_source_port req = None)"
    by (cases "req_type req") auto
  have prof: "(case req_security_profile req of None \<Rightarrow> False | Some p \<Rightarrow> p \<noteq> cfg_security_profile (cfg s))
      \<longleftrightarrow> req_security_profile req \<notin> {None, Some (cfg_security_profile (cfg s))}" by (cases "req_security_profile req") auto
  have dest: "\<not> (req_transport req \<noteq> SHB \<and> req_transport req \<noteq> GBC)
      \<and> stack_transport (btp_gn_request (mib (cfg s)) req) (req_transport req) (req_destination req) \<noteq> None
      \<longleftrightarrow> req_transport req = SHB \<and> req_destination req = DestinationNull
        \<or> req_transport req = GBC \<and> (\<exists>a. req_destination req = DestinationArea a)"
    using stack_transport_some by (cases "req_destination req") auto
  show ?thesis
    unfolding btp_request_check_def len ports prof btp_well_formed_def hop_limit_valid [symmetric] dest [symmetric]
    by simp
qed

lemma validated:
  "validate_data_request m (btp_gn_request m req) = Accepted \<longleftrightarrow>
     lifetime_decode (case req_maximum_lifetime req of None \<Rightarrow> itsGnDefaultPacketLifetime m | Some l \<Rightarrow> l)
       \<le> lifetime_decode (itsGnMaxPacketLifetime m)
     \<and> (case req_repetition req of None \<Rightarrow> True | Some r \<Rightarrow> itsGnMinPacketRepetitionInterval m \<le> interval r)"
proof -
  have "repetition (btp_gn_request m req) = req_repetition req"
    by (simp add: btp_gn_request_def Let_def data_request_def split: option.split)
  then show ?thesis
    by (simp add: validate_data_request_def btp_gn_request_simps lifetime_less_def not_less split: option.split)
qed

lemma validated_area:
  "validate_area_request m r a = Accepted \<longleftrightarrow> area_size a \<le> itsGnMaxGeoAreaSize m \<and> validate_data_request m r = Accepted"
  by (simp add: validate_area_request_def)

text \<open>C5: A stack that can be reached accepts a transport request exactly if it is well-formed
  (ports that fit the transport type, a payload, hop limit and profiles that the configuration
  admits, an area for a geobroadcast and none for a single-hop broadcast), the station is able to
  secure and locate it, no identifier change is pending, and area, lifetime and repetition respect
  their bounds. There is no other reason to refuse a request, in particular no exception of the
  router, and a refused request changes nothing.\<close>

theorem stack_request_exact:
  assumes "env_ok ((router_env env)\<lparr>m_mib := mib c\<rparr>)" and "stack_reach env c s"
  shows "(fst (stack_request env req s) = Res_accepted \<longleftrightarrow> btp_well_formed env req s
      \<and> (itsGnSecurity (mib (cfg s)) \<longrightarrow> m_security_entity (router_env env) \<noteq> None) \<and> \<not> change_pending s \<and> position_valid s
      \<and> (\<forall>a. req_destination req = DestinationArea a \<longrightarrow> area_size a \<le> itsGnMaxGeoAreaSize (mib (cfg s)))
      \<and> lifetime_decode (case req_maximum_lifetime req of None \<Rightarrow> itsGnDefaultPacketLifetime (mib (cfg s)) | Some l \<Rightarrow> l)
          \<le> lifetime_decode (itsGnMaxPacketLifetime (mib (cfg s)))
      \<and> (case req_repetition req of None \<Rightarrow> True | Some r \<Rightarrow> itsGnMinPacketRepetitionInterval (mib (cfg s)) \<le> interval r))
    \<and> (fst (stack_request env req s) \<noteq> Res_accepted \<longrightarrow> snd (stack_request env req s) = s)"
proof -
  let ?m = "mib (cfg s)" and ?gn = "btp_gn_request (mib (cfg s)) req" and ?E = "stack_env env s"
  let ?p = "empty_chunk(Transport := btp_header_bytes req, Application := req_data req)"
  note ok = stack_reach_ok [OF assms]
  then have cfg: "config_ok (cfg s)" by (simp add: stack_ok_def)
  note check = btp_check_accepted [OF cfg, of env req] and run = stack_router_request_exact [OF ok, of _ ?p]
  show ?thesis
  proof (cases "btp_request_check env req s = Res_accepted")
    case False
    then show ?thesis using check by (auto simp: stack_request_def Let_def)
  next
    case True
    then have wf: "btp_well_formed env req s" and size: "chunk_size ?p \<le> itsGnMaxSduSize (m_mib ?E)"
      using check by (auto simp: btp_well_formed_def chunk_size_btp)
    consider "req_transport req = SHB" "req_destination req = DestinationNull"
      | a where "req_transport req = GBC" "req_destination req = DestinationArea a" using wf by (auto simp: btp_well_formed_def)
    then show ?thesis
    proof cases
      case 1
      then have "stack_request env req s = stack_router_request env (ShbDataRequest ?gn) ?p s" using True by (simp add: stack_request_def)
      then show ?thesis using run [of "ShbDataRequest ?gn"] request_confirmed(1) [of ?E ?gn ?p] size check True 1 validated [of ?m req]
        by (auto split: if_splits)
    next
      case 2
      then have "stack_request env req s = stack_router_request env (GbcDataRequest ?gn a) ?p s" using True by (simp add: stack_request_def)
      then show ?thesis
        using run [of "GbcDataRequest ?gn a"] request_confirmed(2) [of ?E ?gn a ?p] size check True 2 validated [of ?m req]
          validated_area [of ?m ?gn a] by (auto split: if_splits)
    qed
  qed
qed

definition sample_fix :: PositionFix where
  "sample_fix = \<lparr>fix_latitude = 48, fix_longitude = 11, fix_speed = 0, fix_course = 0, fix_semi_major = 1\<rparr>"

definition located_stack :: Stack where
  "located_stack = snd (stack_update_position air_env True 0 sample_fix (the (stack_init air_env stack_config 0 None)))"

lemma stack_init_facts:
  "cfg (the (stack_init air_env stack_config 0 None)) = stack_config" "\<not> change_pending (the (stack_init air_env stack_config 0 None))"
  by (simp_all add: stack_init_def Let_def)

lemma located_simps [simp]: "stack_reach air_env stack_config located_stack" "cfg located_stack = stack_config"
  "position_valid located_stack" "\<not> change_pending located_stack"
proof -
  show "stack_reach air_env stack_config located_stack"
    unfolding located_stack_def by (rule stack_reach.position [OF stack_reach.start [OF air_start(1)]])
qed (simp_all add: located_stack_def stack_update_position_def sample_fix_def air_start(2) stack_init_facts)

theorem stack_request_exact_witness:
  "fst (stack_request air_env air_request located_stack) = Res_accepted
     \<and> stack_request air_env (air_request\<lparr>req_data := replicate 1395 0\<rparr>) located_stack \<noteq> (Res_accepted, located_stack)"
proof -
  have l: "lifetime_decode (itsGnDefaultPacketLifetime (mib stack_config)) \<le> lifetime_decode (itsGnMaxPacketLifetime (mib stack_config))"
    by (simp add: stack_config_def mib_default_def lifetime_decode_set)
  have "fst (stack_request air_env air_request located_stack) = Res_accepted"
    using stack_request_exact [OF env_ok_air located_simps(1), of air_request] l
    by (simp add: btp_well_formed_def air_request_def air_env_def)
  moreover have "fst (stack_request air_env (air_request\<lparr>req_data := replicate 1395 0\<rparr>) located_stack) \<noteq> Res_accepted"
    using stack_request_exact [OF env_ok_air located_simps(1), of "air_request\<lparr>req_data := replicate 1395 0\<rparr>"]
    by (simp add: btp_well_formed_def air_request_def)
  ultimately show ?thesis by auto
qed

subsection \<open>Identifier change\<close>

lemma request_shb_source:
  assumes "fst (request_shb env req (Some p) s) = Accepted" and "PassDown r q \<in> set (drop (length (outputs s)) (outputs (snd (request_shb env req (Some p) s))))"
  shows "dr_source r = mid (gn_addr (m_local_position_vector s))"
proof -
  have ne: "outputs (snd (request_shb env req (Some p) s)) \<noteq> outputs s" using assms(2) by auto
  note n = request_shb_silent(1) [OF assms(1) ne]
  show ?thesis
  proof (cases "itsGnSecurity (m_mib env)")
    case False
    then show ?thesis using request_shb_sends [OF False assms(1) n] assms(2) by auto
  next
    case True
    show ?thesis
    proof (cases "m_security_entity env")
      case (Some e)
      then obtain msg where "encapsulate_packet e (m_now s) (shb_sign_request env req p s) = Some msg"
        using request_shb_silent(2) [OF assms(1) ne True] by blast
      from request_shb_sends_secured [OF True Some this assms(1) n] show ?thesis using assms(2) by auto
    next
      case None
      obtain S where "snd (request_shb env req (Some p) s)
          = shb_transmit env \<lparr>pdu = shb_request_pdu env req p s, payload_of = p, action = control_info req\<rparr> S" "outputs S = outputs s"
        using request_shb_transmits [OF assms(1) n] by metis
      then show ?thesis using ne True None by (simp add: shb_transmit_def encap_if_secured_def encap_packet_def)
    qed
  qed
qed

lemma deliver_accessed:
  assumes "accessed (stack_log (deliver env os s)) = accessed (stack_log s) @ rs" and "r \<in> set rs"
  shows "\<exists>rq q. PassDown rq q \<in> set os \<and> al_source r = dr_source rq"
  using assms
proof (induction env os s arbitrary: rs rule: deliver.induct)
  case (2 env req packet os s)
  let ?s = "stack_access_request env req packet s"
  obtain x where x: "accessed (stack_log ?s) = accessed (stack_log s) @ x" "set x \<subseteq> {al_request_of req packet s}"
    using accessed_access [of env req packet s] by auto
  obtain ys where ys: "accessed (stack_log (deliver env os ?s)) = accessed (stack_log ?s) @ ys"
    using log_only_deliver [of ?s env os] by (auto simp: log_only_def)
  then have "rs = x @ ys" using 2(2) x(1) by simp
  then consider "r \<in> set x" | "r \<in> set ys" using 2(3) by auto
  then show ?case
  proof cases
    case 1
    then have "al_source r = dr_source req" using x(2) by (auto simp: al_request_of_def)
    then show ?thesis by auto
  next
    case 2
    then show ?thesis using "2.IH" [OF ys] by auto
  qed
next
  case (3 env ind packet os s)
  have "accessed (stack_log (stack_up ind packet s)) = accessed (stack_log s)" by (simp add: stack_up_def Let_def)
  then show ?case using 3 by auto
qed auto

lemma stack_request_source:
  assumes "stack_request env req s = (Res_accepted, s1)" and "req_transport req = SHB"
    and "accessed (stack_log s1) = accessed (stack_log s) @ rs" and "r \<in> set rs"
  shows "al_source r = mid (gn_addr (m_local_position_vector s))"
proof -
  let ?out = "request_shb (stack_env env s) (btp_gn_request (mib (cfg s)) req)
    (Some (empty_chunk(Transport := btp_header_bytes req, Application := req_data req))) (Router.truncate s)"
  note acc = stack_request_accepted [OF assms(1,2)]
  let ?os = "drop (length (outputs s)) (outputs (snd ?out))"
  have "s1 = deliver env ?os (Router.extend (snd ?out) (Router.more s))" using acc(2) unfolding on_router_def Let_def .
  then obtain rq q where "PassDown rq q \<in> set ?os" "al_source r = dr_source rq"
    using deliver_accessed [of env ?os "Router.extend (snd ?out) (Router.more s)" rs r] assms(3,4) by auto
  then show ?thesis using request_shb_source [OF acc(1), of rq q] by simp
qed

lemma local_octet:
  fixes b :: byte
  shows "((b AND 0xfe) OR 2) AND 3 = 2" and "drop_bit 2 ((b AND 0xfe) OR 2) = drop_bit 2 b"
proof -
  have n: "n = 0 \<or> n = 1 \<or> n = 2 \<or> n = 3 \<or> n = 4 \<or> n = 5 \<or> n = 6 \<or> n = 7" if "n < 8" for n :: nat using that by linarith
  show "((b AND 0xfe) OR 2) AND 3 = 2"
  proof (rule bit_word_eqI)
    fix n assume "n < LENGTH(8)"
    then show "bit (((b AND 0xfe) OR 2) AND 3) n \<longleftrightarrow> bit (2 :: byte) n" using n [of n] by (auto simp: bit_simps)
  qed
  show "drop_bit 2 ((b AND 0xfe) OR 2) = drop_bit 2 b"
  proof (rule bit_word_eqI)
    fix n assume "n < LENGTH(8)"
    then have "bit (0xfe :: byte) (2 + n) \<or> 8 \<le> 2 + n" "\<not> bit (2 :: byte) (2 + n)" using n [of n] by auto
    then show "bit (drop_bit 2 ((b AND 0xfe) OR 2)) n \<longleftrightarrow> bit (drop_bit 2 b) n"
      by (auto simp: bit_and_iff bit_or_iff bit_drop_bit_eq dest: bit_imp_le_length)
  qed
qed

text \<open>C6: A change of the identifier takes effect at once: directly after its preparation the stack
  accepts no request, neither of the transport nor of the network layer; the commit makes the last six
  octets of the new identifier the address of the station, marked as an individual address that is
  administered locally, and frames of single-hop broadcasts requested directly after it carry it as
  their source.\<close>

theorem identity_change_takes_effect:
  assumes "s1 = snd (on_id_change env ID_PREPARE j s)" and "s2 = snd (on_id_change env ID_COMMIT i s1)"
  shows "(\<forall>req. fst (stack_request env req s1) \<noteq> Res_accepted \<and> snd (stack_request env req s1) = s1)
    \<and> (\<forall>greq. fst (stack_gn_request env greq s1) \<noteq> Res_accepted \<and> snd (stack_gn_request env greq s1) = s1)
    \<and> \<not> change_pending s2 \<and> gn_addr (m_local_position_vector s2) = (itsGnLocalGnAddr (mib (cfg s)))\<lparr>mid := identifier_mac i\<rparr>
    \<and> drop 1 (octets (identifier_mac i)) = [i ! 3, i ! 4, i ! 5, i ! 6, i ! 7]
    \<and> octets (identifier_mac i) ! 0 AND 3 = 2 \<and> drop_bit 2 (octets (identifier_mac i) ! 0) = drop_bit 2 (i ! 2)
    \<and> (\<forall>req s3 rs r. stack_request env req s2 = (Res_accepted, s3) \<and> req_transport req = SHB
          \<and> accessed (stack_log s3) = accessed (stack_log s2) @ rs \<and> r \<in> set rs \<longrightarrow> al_source r = identifier_mac i)"
proof -
  have pending: "change_pending s1" "cfg s1 = cfg s" by (simp_all add: assms(1) Let_def)
  have "btp_request_check env req s1 \<noteq> Res_accepted" "gn_request_check env greq s1 \<noteq> Res_accepted" for req greq
    by (simp_all add: btp_request_check_def gn_request_check_def pending)
  then have "(\<forall>req. fst (stack_request env req s1) \<noteq> Res_accepted \<and> snd (stack_request env req s1) = s1)
    \<and> (\<forall>greq. fst (stack_gn_request env greq s1) \<noteq> Res_accepted \<and> snd (stack_gn_request env greq s1) = s1)"
    by (simp add: stack_request_def stack_gn_request_def Let_def)
  moreover have addr: "gn_addr (m_local_position_vector s2) = (itsGnLocalGnAddr (mib (cfg s)))\<lparr>mid := identifier_mac i\<rparr>"
    by (simp add: assms(2) apply_identifier_def Let_def pending set_address_def)
  moreover have "al_source r = identifier_mac i"
    if "stack_request env req s2 = (Res_accepted, s3)" "req_transport req = SHB"
      "accessed (stack_log s3) = accessed (stack_log s2) @ rs" "r \<in> set rs" for req s3 rs r
    using stack_request_source [OF that] addr by simp
  moreover have "octets (identifier_mac i) ! 0 AND 3 = 2" "drop_bit 2 (octets (identifier_mac i) ! 0) = drop_bit 2 (i ! 2)"
    "drop 1 (octets (identifier_mac i)) = [i ! 3, i ! 4, i ! 5, i ! 6, i ! 7]"
    using local_octet [of "i ! 2"] by (simp_all only: identifier_mac_def octets.simps nth_Cons_0) simp
  moreover have "\<not> change_pending s2" by (simp add: assms(2))
  ultimately show ?thesis by blast
qed

theorem identity_change_takes_effect_witness:
  "let s1 = snd (on_id_change air_env ID_PREPARE [0, 0, 0, 0, 0, 0, 0, 0] located_stack);
       s2 = snd (on_id_change air_env ID_COMMIT [1, 2, 5, 4, 5, 6, 7, 8] s1)
   in fst (stack_request air_env air_request s1) \<noteq> Res_accepted
      \<and> mid (gn_addr (m_local_position_vector s2)) = MacAddress 6 4 5 6 7 8"
proof -
  let ?s1 = "snd (on_id_change air_env ID_PREPARE [0, 0, 0, 0, 0, 0, 0, 0] located_stack)"
  let ?i = "[1, 2, 5, 4, 5, 6, 7, 8] :: bytes"
  have "identifier_mac ?i = MacAddress 6 4 5 6 7 8" by code_simp
  with identity_change_takes_effect [OF refl refl, where env = air_env and j = "[0, 0, 0, 0, 0, 0, 0, 0]" and s = located_stack and i = ?i]
  show ?thesis unfolding Let_def by auto
qed

end
