(* ===== verification/DccFsm.thy ===== *)
theory DccFsm
  imports DccLoad
begin

text \<open>
  The state machines of reactive congestion control: \<open>gradual_state_machine.cpp\<close> moves between
  neighbouring states of a table, \<open>fully_meshed_state_machine.cpp\<close> judges a history of load
  measurements. What transmit rate control relies on is stated once, as the locale
  \<open>rate_machine\<close>: an update keeps the machine in order and its interval stays within bounds.
\<close>

subsection \<open>Interface\<close>

locale rate_machine =
  fixes update :: "ChannelLoad \<Rightarrow> 'm \<Rightarrow> 'm"
    and interval :: "'m \<Rightarrow> duration"
    and ok :: "'m \<Rightarrow> bool"
    and longest :: duration
  assumes update_ok: "ok m \<Longrightarrow> in_unit cl \<Longrightarrow> ok (update cl m)"
    and interval_nonneg: "ok m \<Longrightarrow> 0 \<le> interval m"
    and interval_longest: "ok m \<Longrightarrow> interval m \<le> longest"
begin

lemma updates_ok: "ok m \<Longrightarrow> list_all in_unit cls \<Longrightarrow> ok (fold update cls m)"
  by (induction cls arbitrary: m) (auto simp: update_ok)

lemma intervals_bounded: "ok m \<Longrightarrow> list_all in_unit cls \<Longrightarrow> interval (fold update cls m) \<in> {0..longest}"
  using updates_ok interval_nonneg interval_longest by simp

end

subsection \<open>Gradual state machine\<close>

record GradualState =
  lower_limit :: ChannelLoad
  off_time :: duration

text \<open>The set of states is its list in ascending order; the iterator is a position in it.\<close>

record GradualStateMachine =
  m_states :: "GradualState list"
  m_current :: nat

definition gradual_repair :: "GradualStateMachine \<Rightarrow> GradualStateMachine" where
  "gradual_repair m = (if m_states m = []
     then m\<lparr>m_states := [\<lparr>lower_limit = unit_interval 0, off_time = 0\<rparr>], m_current := 0\<rparr> else m)"

definition gradual_state_machine :: "GradualState list \<Rightarrow> GradualStateMachine" where
  "gradual_state_machine states = gradual_repair \<lparr>m_states = states, m_current = 0\<rparr>"

definition gradual_update :: "ChannelLoad \<Rightarrow> GradualStateMachine \<Rightarrow> GradualStateMachine" where
  "gradual_update cbr m =
    (if cbr < lower_limit (m_states m ! m_current m) then
       (if m_current m \<noteq> 0 then m\<lparr>m_current := m_current m - 1\<rparr> else m)
     else
       (let up = Suc (m_current m) in
        if up \<noteq> length (m_states m) \<and> cbr \<ge> lower_limit (m_states m ! up) then m\<lparr>m_current := up\<rparr> else m))"

definition gradual_interval :: "GradualStateMachine \<Rightarrow> duration" where
  "gradual_interval m = off_time (m_states m ! m_current m)"

fun show_nat :: "nat \<Rightarrow> string" where
  "show_nat n = (if n < 10 then [char_of (48 + n)] else show_nat (n div 10) @ [char_of (48 + n mod 10)])"

declare show_nat.simps [simp del]

definition gradual_state :: "GradualStateMachine \<Rightarrow> string" where
  "gradual_state m =
    (if m_current m = 0 then ''Relaxed''
     else if m_current m = length (m_states m) - 1 then ''Restrictive''
     else ''Active '' @ show_nat (m_current m))"

definition etsiStates1ms :: "GradualState list" where
  "etsiStates1ms = [
     \<lparr>lower_limit = unit_interval 0, off_time = 100000\<rparr>, \<lparr>lower_limit = unit_interval 0.3, off_time = 200000\<rparr>,
     \<lparr>lower_limit = unit_interval 0.4, off_time = 400000\<rparr>, \<lparr>lower_limit = unit_interval 0.5, off_time = 500000\<rparr>,
     \<lparr>lower_limit = unit_interval 0.6, off_time = 1000000\<rparr>]"

definition etsiStates500us :: "GradualState list" where
  "etsiStates500us = [
     \<lparr>lower_limit = unit_interval 0, off_time = 50000\<rparr>, \<lparr>lower_limit = unit_interval 0.3, off_time = 100000\<rparr>,
     \<lparr>lower_limit = unit_interval 0.4, off_time = 200000\<rparr>, \<lparr>lower_limit = unit_interval 0.5, off_time = 250000\<rparr>,
     \<lparr>lower_limit = unit_interval 0.65, off_time = 1000000\<rparr>]"

subsection \<open>Fully meshed state machine\<close>

definition NDL_minDccSampling :: duration where "NDL_minDccSampling = 100000"
definition N_samples_up :: nat where "N_samples_up = nat (1000000 div NDL_minDccSampling)"
definition N_samples_down :: nat where "N_samples_down = nat (5000000 div NDL_minDccSampling)"
definition NDL_minChannelLoad :: real where "NDL_minChannelLoad = 0.19"
definition NDL_maxChannelLoad :: real where "NDL_maxChannelLoad = 0.59"
definition sc_substates :: nat where "sc_substates = 5"

text \<open>The active state object keeps its substate while another state is current.\<close>

datatype MeshedState = Relaxed | Active | Restrictive

record FullyMeshedStateMachine =
  m_state :: MeshedState
  m_substate :: nat
  m_channel_loads :: "ChannelLoad list"

definition fully_meshed_state_machine :: FullyMeshedStateMachine where
  "fully_meshed_state_machine = \<lparr>m_state = Relaxed, m_substate = 0, m_channel_loads = []\<rparr>"

fun upper_bound :: "real list \<Rightarrow> real \<Rightarrow> nat" where
  "upper_bound [] v = 0"
| "upper_bound (x # xs) v = (if v < x then 0 else Suc (upper_bound xs v))"

definition active_channel_loads :: "real list" where
  "active_channel_loads = [0.27, 0.35, 0.43, 0.51, 0.59]"

definition active_update :: "real \<Rightarrow> real \<Rightarrow> nat" where
  "active_update min_cl max_cl =
     min (sc_substates - 1) (max (upper_bound active_channel_loads min_cl) (upper_bound active_channel_loads max_cl))"

definition active_interval :: "nat \<Rightarrow> duration" where
  "active_interval substate = [100000, 180000, 260000, 340000, 420000] ! min 4 substate"

text \<open>The loop over the newest samples; \<open>None\<close> is the infinite start value.\<close>

fun min_loop :: "nat \<Rightarrow> ChannelLoad list \<Rightarrow> real option \<Rightarrow> real option" where
  "min_loop 0 samples m = m"
| "min_loop (Suc n) [] m = m"
| "min_loop (Suc n) (x # xs) m =
    min_loop n xs (case m of None \<Rightarrow> Some x | Some v \<Rightarrow> if x < v then Some x else Some v)"

fun max_loop :: "nat \<Rightarrow> ChannelLoad list \<Rightarrow> real \<Rightarrow> real" where
  "max_loop 0 samples m = m"
| "max_loop (Suc n) [] m = m"
| "max_loop (Suc n) (x # xs) m = max_loop n xs (if x > m then x else m)"

definition min_channel_load :: "FullyMeshedStateMachine \<Rightarrow> real" where
  "min_channel_load m = (case min_loop N_samples_up (m_channel_loads m) None of None \<Rightarrow> 0 | Some v \<Rightarrow> v)"

definition max_channel_load :: "FullyMeshedStateMachine \<Rightarrow> real" where
  "max_channel_load m = max_loop N_samples_down (m_channel_loads m) 0"

text \<open>
  The buffer holds the newest samples up to its capacity. \<open>activate\<close> enters the active state,
  which asserts that the minimum does not exceed the maximum.
\<close>

definition activate :: "FullyMeshedStateMachine \<Rightarrow> FullyMeshedStateMachine" where
  "activate m = m\<lparr>m_state := Active, m_substate := active_update (min_channel_load m) (max_channel_load m)\<rparr>"

definition meshed_update :: "ChannelLoad \<Rightarrow> FullyMeshedStateMachine \<Rightarrow> FullyMeshedStateMachine" where
  "meshed_update cl m0 =
    (let m = m0\<lparr>m_channel_loads := take (max N_samples_up N_samples_down) (cl # m_channel_loads m0)\<rparr> in
     case m_state m of
       Relaxed \<Rightarrow> if min_channel_load m \<ge> NDL_minChannelLoad then activate m else m
     | Restrictive \<Rightarrow> if max_channel_load m < NDL_maxChannelLoad then activate m else m
     | Active \<Rightarrow>
         if max_channel_load m < NDL_minChannelLoad then m\<lparr>m_state := Relaxed\<rparr>
         else if min_channel_load m \<ge> NDL_maxChannelLoad then m\<lparr>m_state := Restrictive\<rparr>
         else activate m)"

definition meshed_interval :: "FullyMeshedStateMachine \<Rightarrow> duration" where
  "meshed_interval m = (case m_state m of
      Relaxed \<Rightarrow> 60000 | Active \<Rightarrow> active_interval (m_substate m) | Restrictive \<Rightarrow> 460000)"

definition message_rate :: "FullyMeshedStateMachine \<Rightarrow> real" where
  "message_rate m = 1000000 / real_of_int (meshed_interval m)"

definition meshed_name :: "FullyMeshedStateMachine \<Rightarrow> string" where
  "meshed_name m = (case m_state m of
      Relaxed \<Rightarrow> ''Relaxed''
    | Active \<Rightarrow> [''Active 1'', ''Active 2'', ''Active 3'', ''Active 4'', ''Active 5''] ! m_substate m
    | Restrictive \<Rightarrow> ''Restrictive'')"

subsection \<open>Facts on the gradual machine\<close>

definition gradual_ok :: "duration \<Rightarrow> GradualStateMachine \<Rightarrow> bool" where
  "gradual_ok longest m \<longleftrightarrow> sorted_wrt (<) (map lower_limit (m_states m)) \<and> m_current m < length (m_states m)
     \<and> list_all (\<lambda>st. 0 \<le> off_time st \<and> off_time st \<le> longest) (m_states m)"

text \<open>The position of the state whose range of loads contains the given one.\<close>

definition gradual_target :: "ChannelLoad \<Rightarrow> GradualStateMachine \<Rightarrow> nat" where
  "gradual_target cl m = length (takeWhile (\<lambda>st. lower_limit st \<le> cl) (m_states m)) - 1"

lemma sorted_takeWhile_nth:
  fixes f :: "'a \<Rightarrow> 'b::linorder"
  assumes "sorted_wrt (<) (map f xs)" and "i < length xs"
  shows "f (xs ! i) \<le> v \<longleftrightarrow> i < length (takeWhile (\<lambda>x. f x \<le> v) xs)"
  using assms
proof (induction xs arbitrary: i)
  case (Cons x xs)
  show ?case
  proof (cases i)
    case (Suc j)
    have "f x < f (xs ! j)" using Cons.prems Suc by simp
    then have "f (xs ! j) \<le> v \<Longrightarrow> f x \<le> v" by auto
    then show ?thesis using Suc Cons.IH [of j] Cons.prems by auto
  qed simp
qed simp

lemma gradual_update_states [simp]: "m_states (gradual_update cl m) = m_states m"
  by (simp add: gradual_update_def Let_def)

lemma gradual_updates_states [simp]: "m_states ((gradual_update cl ^^ n) m) = m_states m"
  by (induction n) simp_all

lemma gradual_ok_update: "gradual_ok longest m \<Longrightarrow> gradual_ok longest (gradual_update cl m)"
  by (auto simp: gradual_ok_def gradual_update_def Let_def)

lemma gradual_ok_updates: "gradual_ok longest m \<Longrightarrow> gradual_ok longest ((gradual_update cl ^^ n) m)"
  by (induction n) (simp_all add: gradual_ok_update)

interpretation gradual: rate_machine gradual_update gradual_interval "gradual_ok longest" longest for longest
  by unfold_locales (rule gradual_ok_update, auto simp: gradual_ok_def gradual_interval_def list_all_length)

lemma gradual_ok_init:
  assumes "sorted_wrt (<) (map lower_limit states)" "0 \<le> longest"
    "list_all (\<lambda>st. 0 \<le> off_time st \<and> off_time st \<le> longest) states"
  shows "gradual_ok longest (gradual_state_machine states)"
  using assms by (simp add: gradual_ok_def gradual_state_machine_def gradual_repair_def)

lemma gradual_ok_etsi:
  "gradual_ok 1000000 (gradual_state_machine etsiStates1ms)" "gradual_ok 1000000 (gradual_state_machine etsiStates500us)"
  by (rule gradual_ok_init; simp add: etsiStates1ms_def etsiStates500us_def unit_interval_def clamp_def)+

lemma gradual_step:
  assumes "gradual_ok longest m"
  shows "m_current (gradual_update cl m) =
    (if m_current m < gradual_target cl m then Suc (m_current m)
     else if gradual_target cl m < m_current m then m_current m - 1 else m_current m)"
proof -
  define k where "k = length (takeWhile (\<lambda>st. lower_limit st \<le> cl) (m_states m))"
  have le: "lower_limit (m_states m ! i) \<le> cl \<longleftrightarrow> i < k" if "i < length (m_states m)" for i
    using assms that unfolding k_def gradual_ok_def by (intro sorted_takeWhile_nth) simp_all
  have cur: "m_current m < length (m_states m)" using assms by (simp add: gradual_ok_def)
  have k: "k \<le> length (m_states m)" unfolding k_def by (rule length_takeWhile_le)
  have target: "gradual_target cl m = k - 1" by (simp add: gradual_target_def k_def)
  have "Suc (m_current m) \<noteq> length (m_states m) \<longleftrightarrow> Suc (m_current m) < length (m_states m)" using cur by auto
  then show ?thesis
    using le [OF cur] le [of "Suc (m_current m)"] cur k unfolding target gradual_update_def Let_def
    by (auto simp: not_less not_le less_eq_real_def [symmetric])
qed

lemma gradual_target_updates [simp]: "gradual_target cl ((gradual_update cl ^^ n) m) = gradual_target cl m"
  by (simp add: gradual_target_def)

lemma gradual_tracks_load:
  assumes "gradual_ok longest m"
  shows "m_current ((gradual_update cl ^^ n) m) =
    (if m_current m \<le> gradual_target cl m then min (m_current m + n) (gradual_target cl m)
     else max (m_current m - n) (gradual_target cl m))"
proof (induction n)
  case (Suc n)
  show ?case
    using gradual_step [OF gradual_ok_updates [OF assms, where n = n], of cl] Suc.IH
    by (auto simp: min_def max_def)
qed (simp add: min_def max_def)

subsection \<open>Facts on the fully meshed machine\<close>

lemmas meshed_samples = N_samples_up_def N_samples_down_def NDL_minDccSampling_def

lemma max_loop_less: "max_loop n xs m < b \<longleftrightarrow> m < b \<and> (\<forall>x\<in>set (take n xs). x < b)"
  by (induction n xs m rule: max_loop.induct) auto

lemma min_loop_ge:
  "(case min_loop n xs m of None \<Rightarrow> m = None \<and> take n xs = []
    | Some v \<Rightarrow> b \<le> v \<longleftrightarrow> (case m of None \<Rightarrow> True | Some w \<Rightarrow> b \<le> w) \<and> (\<forall>x\<in>set (take n xs). b \<le> x))"
proof (induction n xs m rule: min_loop.induct)
  case (3 n x xs m)
  then show ?case by (cases m) (auto split: option.splits if_splits)
qed (simp_all split: option.split)

lemma max_channel_load_less:
  "0 < b \<Longrightarrow> max_channel_load m < b \<longleftrightarrow> (\<forall>x\<in>set (take 50 (m_channel_loads m)). x < b)"
  by (simp add: max_channel_load_def max_loop_less meshed_samples)

lemma min_channel_load_ge:
  "m_channel_loads m \<noteq> [] \<Longrightarrow> b \<le> min_channel_load m \<longleftrightarrow> (\<forall>x\<in>set (take 10 (m_channel_loads m)). b \<le> x)"
  using min_loop_ge [where n = N_samples_up and xs = "m_channel_loads m" and m = None and b = b]
  by (auto simp: min_channel_load_def meshed_samples split: option.splits)

lemma meshed_assertion_holds: "min_channel_load m \<le> max_channel_load m"
proof (cases "m_channel_loads m")
  case Nil
  then show ?thesis by (simp add: min_channel_load_def max_channel_load_def meshed_samples numeral_eq_Suc)
next
  case (Cons x xs)
  then have "min_channel_load m \<le> x" using min_channel_load_ge [of m "min_channel_load m"] by simp
  moreover have "\<not> max_channel_load m < x"
    using Cons by (simp add: max_channel_load_def max_loop_less meshed_samples)
  ultimately show ?thesis by simp
qed

definition meshed_ok :: "FullyMeshedStateMachine \<Rightarrow> bool" where
  "meshed_ok m \<longleftrightarrow> m_substate m < sc_substates \<and> length (m_channel_loads m) \<le> 50"

lemma meshed_ok_update: "meshed_ok m \<Longrightarrow> meshed_ok (meshed_update cl m)"
  by (auto simp: meshed_ok_def meshed_update_def activate_def active_update_def sc_substates_def Let_def meshed_samples
      split: MeshedState.split)

lemma active_interval_bounds: "100000 \<le> active_interval i \<and> active_interval i \<le> 420000"
proof -
  have "min 4 i \<in> {0, 1, 2, 3, 4}" by auto
  then show ?thesis by (auto simp: active_interval_def)
qed

lemma meshed_interval_bounds: "60000 \<le> meshed_interval m" "meshed_interval m \<le> 460000"
  using active_interval_bounds [of "m_substate m"] by (auto simp: meshed_interval_def split: MeshedState.split)

interpretation meshed: rate_machine meshed_update meshed_interval meshed_ok 460000
  by unfold_locales (auto simp: meshed_ok_update meshed_interval_bounds order_trans [OF _ meshed_interval_bounds(1)])

lemma meshed_update_loads: "m_channel_loads (meshed_update cl m) = take 50 (cl # m_channel_loads m)"
  by (simp add: meshed_update_def activate_def Let_def meshed_samples split: MeshedState.split)

lemma meshed_updates_loads:
  "length (m_channel_loads m) \<le> 50 \<Longrightarrow> m_channel_loads (fold meshed_update cls m) = take 50 (rev cls @ m_channel_loads m)"
  by (induction cls arbitrary: m) (simp_all add: meshed_update_loads take_Cons' min_def)

lemma set_take_subset_append: "length xs \<ge> n \<Longrightarrow> set (take n (xs @ ys)) \<subseteq> set xs"
  using set_take_subset [of n xs] by simp

text \<open>What one update does once the relevant part of the history is low, or high, throughout.\<close>

lemma meshed_step_low:
  assumes "\<forall>x\<in>set (take 50 (cl # m_channel_loads m)). x < NDL_minChannelLoad"
  shows "m_state (meshed_update cl m) = (if m_state m = Restrictive then Active else Relaxed)"
proof -
  define m' where "m' = m\<lparr>m_channel_loads := take (max N_samples_up N_samples_down) (cl # m_channel_loads m)\<rparr>"
  have loads: "m_channel_loads m' = take 50 (cl # m_channel_loads m)" by (simp add: m'_def meshed_samples)
  have "max_channel_load m' < NDL_minChannelLoad"
    using assms by (subst max_channel_load_less) (simp_all add: loads NDL_minChannelLoad_def)
  moreover have "\<not> NDL_minChannelLoad \<le> min_channel_load m'"
    using assms by (subst min_channel_load_ge) (auto simp: loads)
  moreover have "NDL_minChannelLoad < NDL_maxChannelLoad" by (simp add: NDL_minChannelLoad_def NDL_maxChannelLoad_def)
  ultimately show ?thesis
    unfolding meshed_update_def m'_def [symmetric] Let_def by (auto simp: activate_def m'_def split: MeshedState.split)
qed

lemma meshed_step_high:
  assumes "\<forall>x\<in>set (take 10 (cl # m_channel_loads m)). NDL_maxChannelLoad \<le> x"
  shows "m_state (meshed_update cl m) = (if m_state m = Relaxed then Active else Restrictive)"
proof -
  define m' where "m' = m\<lparr>m_channel_loads := take (max N_samples_up N_samples_down) (cl # m_channel_loads m)\<rparr>"
  have loads: "m_channel_loads m' = take 50 (cl # m_channel_loads m)" by (simp add: m'_def meshed_samples)
  have "NDL_maxChannelLoad \<le> min_channel_load m'"
    using assms by (subst min_channel_load_ge) (auto simp: loads)
  moreover have "\<not> max_channel_load m' < NDL_maxChannelLoad" "\<not> max_channel_load m' < NDL_minChannelLoad"
    using calculation meshed_assertion_holds [of m'] by (simp_all add: NDL_minChannelLoad_def NDL_maxChannelLoad_def)
  moreover have "NDL_minChannelLoad < NDL_maxChannelLoad" by (simp add: NDL_minChannelLoad_def NDL_maxChannelLoad_def)
  ultimately show ?thesis
    unfolding meshed_update_def m'_def [symmetric] Let_def by (auto simp: activate_def m'_def split: MeshedState.split)
qed

lemma split_last_two: "n + 2 \<le> length xs \<Longrightarrow> \<exists>ys a b. xs = ys @ [a, b] \<and> n \<le> length ys"
proof -
  assume n: "n + 2 \<le> length xs"
  then have "xs \<noteq> []" "butlast xs \<noteq> []" by (auto simp: butlast_conv_take)
  then have "xs = butlast (butlast xs) @ [last (butlast xs), last xs]"
    by (metis append.assoc append_Cons append_Nil append_butlast_last_id)
  moreover have "n \<le> length (butlast (butlast xs))" using n by simp
  ultimately show ?thesis by blast
qed

lemma meshed_history:
  assumes "length (m_channel_loads m) \<le> 50" "list_all P (xs @ [cl])" "n \<le> Suc (length xs)" "n \<le> 50"
  shows "\<forall>x\<in>set (take n (cl # m_channel_loads (fold meshed_update xs m))). P x"
proof (cases n)
  case (Suc k)
  have "take k (take 50 (rev xs @ m_channel_loads m)) = take k (rev xs)"
    using assms(3,4) Suc by (simp add: min_def)
  then show ?thesis
    using assms(2) Suc set_take_subset [of k "rev xs"]
    by (auto simp: meshed_updates_loads [OF assms(1)] list_all_iff)
qed simp

lemma meshed_reacts_low:
  assumes "length (m_channel_loads m) \<le> 50" "list_all (\<lambda>x. x < NDL_minChannelLoad) cls" "51 \<le> length cls"
  shows "m_state (fold meshed_update cls m) = Relaxed"
proof -
  from split_last_two [of 49 cls] assms(3) obtain xs a b where cls: "cls = xs @ [a, b]" and xs: "49 \<le> length xs" by auto
  have 1: "m_state (meshed_update a (fold meshed_update xs m)) \<noteq> Restrictive"
    using meshed_step_low [OF meshed_history [OF assms(1), of _ xs a 50]] assms(2) cls xs by (simp add: list_all_iff)
  have "m_state (meshed_update b (fold meshed_update (xs @ [a]) m)) =
      (if m_state (fold meshed_update (xs @ [a]) m) = Restrictive then Active else Relaxed)"
    using assms(2) cls xs by (intro meshed_step_low meshed_history [OF assms(1)]) (simp_all add: list_all_iff)
  with 1 cls show ?thesis by simp
qed

lemma meshed_reacts_high:
  assumes "length (m_channel_loads m) \<le> 50" "list_all (\<lambda>x. NDL_maxChannelLoad \<le> x) cls" "11 \<le> length cls"
  shows "m_state (fold meshed_update cls m) = Restrictive"
proof -
  from split_last_two [of 9 cls] assms(3) obtain xs a b where cls: "cls = xs @ [a, b]" and xs: "9 \<le> length xs" by auto
  have 1: "m_state (meshed_update a (fold meshed_update xs m)) \<noteq> Relaxed"
    using meshed_step_high [OF meshed_history [OF assms(1), of _ xs a 10]] assms(2) cls xs by (simp add: list_all_iff)
  have "m_state (meshed_update b (fold meshed_update (xs @ [a]) m)) =
      (if m_state (fold meshed_update (xs @ [a]) m) = Relaxed then Active else Restrictive)"
    using assms(2) cls xs by (intro meshed_step_high meshed_history [OF assms(1)]) (simp_all add: list_all_iff)
  with 1 cls show ?thesis by simp
qed

end
