(* ===== verification/DccLimeric.thy ===== *)
theory DccLimeric
  imports DccLoad RuntimeQ
begin

text \<open>
  Adaptive congestion control: the LIMERIC algorithm (\<open>vanetza/dcc/limeric.cpp\<close>) adapts the
  permitted duty cycle to the measured channel load, and \<open>limeric_budget.cpp\<close> derives the
  interval between transmissions from it. The algorithm runs as callback of the runtime; its
  calls of the duty cycle hook are logged.
\<close>

subsection \<open>LIMERIC\<close>

record LimericParameters =
  alpha :: UnitInterval
  beta :: UnitInterval
  delta_max :: UnitInterval
  delta_min :: UnitInterval
  g_plus_max :: real
  g_minus_max :: real
  cbr_target :: ChannelLoad
  cbr_interval :: duration

definition limericDefaultParams :: LimericParameters where
  "limericDefaultParams = \<lparr>alpha = unit_interval 0.016, beta = unit_interval 0.0012, delta_max = unit_interval 0.03,
     delta_min = unit_interval 0.0006, g_plus_max = 0.0005, g_minus_max = - 0.00025,
     cbr_target = unit_interval 0.68, cbr_interval = 100000\<rparr>"

record DualAlphaParameters =
  alternate_alpha :: UnitInterval
  threshold :: UnitInterval

definition dual_alpha_default :: DualAlphaParameters where
  "dual_alpha_default = \<lparr>alternate_alpha = unit_interval 0.1, threshold = unit_interval 0.00001\<rparr>"

datatype LimericCallback = LimericCalculate

datatype LimericScope = ScopeLimeric

record Limeric = "(LimericCallback, LimericScope) Runtime" +
  m_params :: LimericParameters
  m_dual_alpha :: "DualAlphaParameters option"
  m_channel_load :: ChannelLoad
  m_duty_cycle :: UnitInterval
  m_cbr :: "ChannelLoad list"
  duty_cycle_changes :: "(time_point \<times> UnitInterval) list"

definition average_cbr :: "Limeric \<Rightarrow> ChannelLoad" where
  "average_cbr l = (if length (m_cbr l) = 2 then ui_add (ui_scale (mean (m_cbr l)) 0.5) (ui_scale (m_channel_load l) 0.5)
     else m_channel_load l)"

text \<open>The buffer of measurements holds two values; a third one replaces the oldest.\<close>

definition update_cbr :: "ChannelLoad \<Rightarrow> Limeric \<Rightarrow> Limeric" where
  "update_cbr cbr l =
    (let full = (length (m_cbr l) = 2); cbrs = (if full then tl (m_cbr l) else m_cbr l) @ [cbr]
     in l\<lparr>m_cbr := cbrs, m_channel_load := if \<not> full then mean cbrs else m_channel_load l\<rparr>)"

definition delta_offset :: "Limeric \<Rightarrow> real" where
  "delta_offset l =
    (let cbr_delta = cbr_target (m_params l) - m_channel_load l
     in if cbr_delta > 0 then min (beta (m_params l) * cbr_delta) (g_plus_max (m_params l))
        else max (beta (m_params l) * cbr_delta) (g_minus_max (m_params l)))"

definition next_delta :: "UnitInterval \<Rightarrow> Limeric \<Rightarrow> UnitInterval" where
  "next_delta a l =
    (let delta = ui_add (ui_mult (complement a) (m_duty_cycle l)) (delta_offset l)
     in min (max delta (delta_min (m_params l))) (delta_max (m_params l)))"

definition calculate_duty_cycle :: "Limeric \<Rightarrow> UnitInterval" where
  "calculate_duty_cycle l =
    (let delta = next_delta (alpha (m_params l)) l
     in case m_dual_alpha l of
          None \<Rightarrow> delta
        | Some dual \<Rightarrow> if ui_sub (m_duty_cycle l) delta > threshold dual then next_delta (alternate_alpha dual) l else delta)"

text \<open>The callback carries no scope.\<close>

definition next_calculation :: "duration \<Rightarrow> time_point \<Rightarrow> time_point" where
  "next_calculation cbr_ivl now =
    (let scheduling_interval = 2 * cbr_ivl; tp = now + scheduling_interval;
         scheduling_bias = tp - scheduling_interval * trunc_div tp scheduling_interval
     in if scheduling_bias > cbr_ivl then tp + (scheduling_interval - scheduling_bias)
        else if scheduling_bias > 0 then tp - scheduling_bias else tp)"

definition limeric_schedule :: "Limeric \<Rightarrow> Limeric" where
  "limeric_schedule l = schedule_at (next_calculation (cbr_interval (m_params l)) (m_now l)) LimericCalculate None l"

definition limeric_calculate :: "time_point \<Rightarrow> Limeric \<Rightarrow> Limeric" where
  "limeric_calculate tp l =
    (let l = l\<lparr>m_channel_load := average_cbr l\<rparr>;
         l = l\<lparr>m_duty_cycle := calculate_duty_cycle l\<rparr>;
         l = l\<lparr>duty_cycle_changes := duty_cycle_changes l @ [(tp, m_duty_cycle l)]\<rparr>
     in limeric_schedule l)"

definition limeric_init :: "LimericParameters \<Rightarrow> time_point \<Rightarrow> Limeric" where
  "limeric_init params now = limeric_schedule \<lparr>m_now = now, m_queue = [], m_params = params, m_dual_alpha = None,
     m_channel_load = 0, m_duty_cycle = mean2 (delta_max params) (delta_min params), m_cbr = [], duty_cycle_changes = []\<rparr>"

definition limeric_destroy :: "Limeric \<Rightarrow> Limeric" where
  "limeric_destroy l = cancel (Some ScopeLimeric) l"

definition configure_dual_alpha :: "DualAlphaParameters option \<Rightarrow> Limeric \<Rightarrow> Limeric" where
  "configure_dual_alpha params l = l\<lparr>m_dual_alpha := params\<rparr>"

fun limeric_run :: "LimericCallback \<Rightarrow> time_point \<Rightarrow> Limeric \<Rightarrow> Limeric" where
  "limeric_run LimericCalculate tp l = limeric_calculate tp l"

subsection \<open>Budget\<close>

definition min_interval :: duration where "min_interval = 25000"
definition max_interval :: duration where "max_interval = 1000000"

text \<open>Arithmetic on 64 bit counts wraps around.\<close>

definition wrap64 :: "int \<Rightarrow> int" where
  "wrap64 x = (x + 2 ^ 63) mod 2 ^ 64 - 2 ^ 63"

record LimericBudget =
  m_interval :: duration
  m_tx_start :: time_point
  m_tx_on :: duration

definition clamp_interval :: "duration \<Rightarrow> duration" where
  "clamp_interval ivl = min (max ivl min_interval) max_interval"

definition limeric_budget_update :: "UnitInterval \<Rightarrow> time_point \<Rightarrow> LimericBudget \<Rightarrow> LimericBudget" where
  "limeric_budget_update duty_cycle now b =
    (let delay = wrap64 (m_tx_start b + m_interval b - now) in
     if duty_cycle > 0 then
       if delay > 0 then
         (let ivl = (real_of_int (m_tx_on b) / duty_cycle) * (real_of_int delay / real_of_int (m_interval b))
          in b\<lparr>m_interval := clamp_interval (wrap64 (trunc_real ivl + now - m_tx_start b))\<rparr>)
       else b\<lparr>m_interval := clamp_interval (trunc_real (real_of_int (m_tx_on b) / duty_cycle))\<rparr>
     else b\<lparr>m_interval := max_interval\<rparr>)"

definition limeric_budget :: "UnitInterval \<Rightarrow> time_point \<Rightarrow> LimericBudget" where
  "limeric_budget duty_cycle now =
     limeric_budget_update duty_cycle now \<lparr>m_interval = min_interval, m_tx_start = time_point_min, m_tx_on = 0\<rparr>"

definition limeric_budget_delay :: "time_point \<Rightarrow> LimericBudget \<Rightarrow> duration" where
  "limeric_budget_delay now b =
    (if now \<ge> m_tx_start b + m_interval b then 0 else m_tx_start b + m_interval b - now)"

text \<open>The duty cycle is positive: the conversion of an infinite interval is not defined.\<close>

definition limeric_budget_notify :: "UnitInterval \<Rightarrow> duration \<Rightarrow> time_point \<Rightarrow> LimericBudget \<Rightarrow> LimericBudget" where
  "limeric_budget_notify duty_cycle tx_on now b =
     b\<lparr>m_tx_start := now, m_tx_on := tx_on, m_interval := clamp_interval (trunc_real (real_of_int tx_on / duty_cycle))\<rparr>"

subsection \<open>Facts on LIMERIC\<close>

definition params_ok :: "LimericParameters \<Rightarrow> bool" where
  "params_ok p \<longleftrightarrow> in_unit (alpha p) \<and> in_unit (delta_min p) \<and> in_unit (delta_max p) \<and> delta_min p \<le> delta_max p \<and> 0 < cbr_interval p"

definition limeric_ok :: "Limeric \<Rightarrow> bool" where
  "limeric_ok l \<longleftrightarrow> params_ok (m_params l) \<and> delta_min (m_params l) \<le> m_duty_cycle l \<and> m_duty_cycle l \<le> delta_max (m_params l)
     \<and> in_unit (m_channel_load l) \<and> list_all in_unit (m_cbr l) \<and> length (m_cbr l) \<le> 2 \<and> queue_ok l"

lemma params_ok_default: "params_ok limericDefaultParams"
  by (simp add: params_ok_def limericDefaultParams_def unit_interval_def clamp_def in_unit_def)

lemma trunc_rem:
  assumes "0 < b"
  shows "a - b * trunc_div a b = (if 0 \<le> a then a mod b else - ((- a) mod b))"
  using assms minus_mult_div_eq_mod [of a b] minus_mult_div_eq_mod [of "- a" b]
  by (auto simp: trunc_div_def sgn_if)

lemma next_calculation_future:
  assumes "0 < c"
  shows "now < next_calculation c now"
proof -
  define bias where "bias = now + 2 * c - 2 * c * trunc_div (now + 2 * c) (2 * c)"
  have "bias < 2 * c"
  proof (cases "0 \<le> now + 2 * c")
    case False
    have "0 \<le> (- (now + 2 * c)) mod (2 * c)" using assms by (intro pos_mod_sign) simp
    moreover have "bias = - ((- (now + 2 * c)) mod (2 * c))"
      using False assms trunc_rem [of "2 * c" "now + 2 * c"] unfolding bias_def by (simp only: if_False)
    ultimately show ?thesis using assms by linarith
  qed (use assms in \<open>simp add: bias_def trunc_rem del: mod_add_self2\<close>)
  then show ?thesis using assms unfolding next_calculation_def Let_def bias_def [symmetric] by auto
qed

lemma next_calculation_bounds:
  assumes "0 < c" "0 \<le> now"
  shows "2 * c dvd next_calculation c now" "now + c \<le> next_calculation c now" "next_calculation c now < now + 3 * c"
proof -
  define tp where "tp = now + 2 * c"
  have b: "0 \<le> tp mod (2 * c)" "tp mod (2 * c) < 2 * c" using assms by simp_all
  have "tp - 2 * c * trunc_div tp (2 * c) = tp mod (2 * c)"
    using assms by (subst trunc_rem) (simp_all add: tp_def)
  then have eq: "next_calculation c now = (if tp mod (2 * c) > c then tp + (2 * c - tp mod (2 * c)) else tp - tp mod (2 * c))"
    using b unfolding next_calculation_def Let_def tp_def [symmetric] by auto
  have "2 * c dvd tp - tp mod (2 * c)" by (rule dvd_minus_mod)
  then have "2 * c dvd tp - tp mod (2 * c) + 2 * c" by (rule dvd_add) simp
  then show "2 * c dvd next_calculation c now"
    using \<open>2 * c dvd tp - tp mod (2 * c)\<close> unfolding eq by (simp add: algebra_simps)
  show "now + c \<le> next_calculation c now" "next_calculation c now < now + 3 * c"
    using b unfolding eq by (auto simp: tp_def)
qed

lemma limeric_schedule_simps [simp]:
  "m_params (limeric_schedule l) = m_params l" "m_dual_alpha (limeric_schedule l) = m_dual_alpha l"
  "m_channel_load (limeric_schedule l) = m_channel_load l" "m_duty_cycle (limeric_schedule l) = m_duty_cycle l"
  "m_cbr (limeric_schedule l) = m_cbr l" "m_now (limeric_schedule l) = m_now l"
  "queue_ok l \<Longrightarrow> queue_ok (limeric_schedule l)"
  by (simp_all add: limeric_schedule_def) (simp_all add: schedule_at_def)

lemma limeric_calculate_simps [simp]:
  "m_params (limeric_calculate tp l) = m_params l" "m_dual_alpha (limeric_calculate tp l) = m_dual_alpha l"
  "m_channel_load (limeric_calculate tp l) = average_cbr l" "m_cbr (limeric_calculate tp l) = m_cbr l"
  "m_duty_cycle (limeric_calculate tp l) = calculate_duty_cycle (l\<lparr>m_channel_load := average_cbr l\<rparr>)"
  "m_now (limeric_calculate tp l) = m_now l"
  by (simp_all add: limeric_calculate_def Let_def)

lemma queue_ok_update:
  "queue_ok (l\<lparr>m_channel_load := x\<rparr>) = queue_ok l" "queue_ok (l\<lparr>m_duty_cycle := x\<rparr>) = queue_ok l"
  "queue_ok (l\<lparr>duty_cycle_changes := y\<rparr>) = queue_ok l" "queue_ok (l\<lparr>m_cbr := z\<rparr>) = queue_ok l"
  "queue_ok (l\<lparr>m_dual_alpha := d\<rparr>) = queue_ok l"
  by (simp_all add: queue_ok_def)

lemma next_delta_bounds:
  "params_ok (m_params l) \<Longrightarrow> delta_min (m_params l) \<le> next_delta a l \<and> next_delta a l \<le> delta_max (m_params l)"
  by (auto simp: next_delta_def Let_def params_ok_def)

lemma calculate_duty_cycle_bounds:
  "params_ok (m_params l) \<Longrightarrow>
    delta_min (m_params l) \<le> calculate_duty_cycle l \<and> calculate_duty_cycle l \<le> delta_max (m_params l)"
  using next_delta_bounds by (auto simp: calculate_duty_cycle_def Let_def split: option.split)

lemma in_unit_average: "in_unit (m_channel_load l) \<Longrightarrow> in_unit (average_cbr l)"
  by (simp add: average_cbr_def)

lemma limeric_ok_calculate: "limeric_ok l \<Longrightarrow> limeric_ok (limeric_calculate tp l)"
  using calculate_duty_cycle_bounds [of "l\<lparr>m_channel_load := average_cbr l\<rparr>"]
  by (simp add: limeric_ok_def in_unit_average) (simp add: limeric_calculate_def Let_def queue_ok_update)

lemma limeric_ok_update_cbr: "limeric_ok l \<Longrightarrow> in_unit cbr \<Longrightarrow> limeric_ok (update_cbr cbr l)"
  by (cases "m_cbr l") (auto simp: limeric_ok_def update_cbr_def Let_def queue_ok_def le_Suc_eq)

lemma limeric_ok_dual: "limeric_ok l \<Longrightarrow> limeric_ok (configure_dual_alpha params l)"
  by (simp add: limeric_ok_def configure_dual_alpha_def queue_ok_def)

lemma limeric_ok_init: "params_ok params \<Longrightarrow> limeric_ok (limeric_init params now)"
  by (auto simp: limeric_ok_def limeric_init_def mean2_def unit_interval_def clamp_def params_ok_def in_unit_def)
    (simp add: queue_ok_def limeric_schedule_def schedule_at_def)

interpretation limeric_timer: timer_client limeric_run limeric_ok
proof
  fix l :: Limeric and cb d e q
  assume ok: "limeric_ok l"
  obtain "cb = LimericCalculate" by (cases cb)
  then show "limeric_ok (limeric_run cb d l)" "m_now (limeric_run cb d l) = m_now l"
    using ok by (simp_all add: limeric_ok_calculate)
  show "queue_ok l" using ok by (simp add: limeric_ok_def)
  show "limeric_ok (l\<lparr>m_queue := q\<rparr>)" if "m_queue l = e # q"
    using ok that by (simp add: limeric_ok_def queue_ok_def)
  show "expired_count (limeric_run cb d l) \<le> expired_count l"
  proof -
    have "m_now l < next_calculation (cbr_interval (m_params l)) (m_now l)"
      using ok by (intro next_calculation_future) (simp add: limeric_ok_def params_ok_def)
    then show ?thesis using \<open>cb = LimericCalculate\<close>
      by (simp add: limeric_calculate_def Let_def limeric_schedule_def) (simp add: expired_count_def)
  qed
qed

text \<open>
  Destroying the object cancels the callbacks of its scope; the pending calculation has none
  and stays scheduled, with a reference to the destroyed object.
\<close>

lemma limeric_destroy_keeps_callback:
  "limeric_destroy (limeric_init params now) = limeric_init params now"
  by (simp add: limeric_destroy_def cancel_def limeric_init_def limeric_schedule_def schedule_at_def)

subsection \<open>Convergence\<close>

text \<open>The duty cycle at which the algorithm rests under a constant load.\<close>

definition equilibrium :: "Limeric \<Rightarrow> real" where
  "equilibrium l = min (max (delta_offset l / alpha (m_params l)) (delta_min (m_params l))) (delta_max (m_params l))"

lemma clip_nonexpansive: "\<bar>min (max a lo) hi - min (max b lo) hi\<bar> \<le> \<bar>a - b\<bar>"
  for a b lo hi :: real
  by (auto simp: min_def max_def)

lemma clip_clamp: "0 \<le> lo \<Longrightarrow> hi \<le> 1 \<Longrightarrow> lo \<le> hi \<Longrightarrow> min (max (clamp v) lo) hi = min (max v lo) hi"
  by (auto simp: clamp_def min_def max_def)

lemma clip_fixpoint:
  fixes a off lo hi :: real
  assumes "0 < a" "a \<le> 1" "lo \<le> hi"
  defines "e \<equiv> min (max (off / a) lo) hi"
  shows "min (max ((1 - a) * e + off) lo) hi = e"
proof -
  consider "off / a \<le> lo" "e = lo" | "lo \<le> off / a" "off / a \<le> hi" "e = off / a" | "hi \<le> off / a" "e = hi"
    using assms(3) unfolding e_def by linarith
  then show ?thesis
  proof cases
    case 1
    then have "off \<le> lo * a" using assms by (simp add: pos_divide_le_eq)
    then have "(1 - a) * e + off \<le> lo" using 1 by (simp add: algebra_simps)
    then show ?thesis using 1 assms(3) by (simp add: min_def max_def)
  next
    case 2
    then have "(1 - a) * e + off = e" using assms by (simp add: field_simps)
    then show ?thesis using 2 by simp
  next
    case 3
    then have "hi * a \<le> off" using assms by (simp add: pos_le_divide_eq)
    then have "hi \<le> (1 - a) * e + off" using 3 by (simp add: algebra_simps)
    then show ?thesis using 3 assms(3) by (simp add: min_def max_def)
  qed
qed

definition settled :: "ChannelLoad \<Rightarrow> Limeric \<Rightarrow> bool" where
  "settled c l \<longleftrightarrow> m_cbr l = [c, c] \<and> m_channel_load l = c \<and> m_dual_alpha l = None"

lemma average_settled: "in_unit c \<Longrightarrow> settled c l \<Longrightarrow> average_cbr l = c"
  by (simp add: settled_def average_cbr_def mean_def unit_interval_def clamp_def ui_add_def ui_scale_def in_unit_def)

lemma settled_calculate: "in_unit c \<Longrightarrow> settled c l \<Longrightarrow> settled c (limeric_calculate tp l)"
  using average_settled by (simp add: settled_def)

lemma equilibrium_calculate: "in_unit c \<Longrightarrow> settled c l \<Longrightarrow> equilibrium (limeric_calculate tp l) = equilibrium l"
  using average_settled [of c l] by (simp add: equilibrium_def delta_offset_def settled_def Let_def)

lemma limeric_contracts:
  assumes ok: "limeric_ok l" and "in_unit c" "settled c l" and a: "0 < alpha (m_params l)"
  shows "\<bar>m_duty_cycle (limeric_calculate tp l) - equilibrium l\<bar>
    \<le> (1 - alpha (m_params l)) * \<bar>m_duty_cycle l - equilibrium l\<bar>"
proof -
  define al lo hi off e where defs: "al = alpha (m_params l)" "lo = delta_min (m_params l)" "hi = delta_max (m_params l)"
    "off = delta_offset l" "e = equilibrium l"
  have bounds: "0 < al" "al \<le> 1" "0 \<le> lo" "hi \<le> 1" "lo \<le> hi"
    using ok a by (simp_all add: defs limeric_ok_def params_ok_def in_unit_def)
  have "l\<lparr>m_channel_load := average_cbr l\<rparr> = l"
    using average_settled [OF assms(2,3)] assms(3) by (simp add: settled_def)
  then have "m_duty_cycle (limeric_calculate tp l) = next_delta al l"
    using assms(3) by (simp add: calculate_duty_cycle_def Let_def settled_def defs)
  also have "\<dots> = min (max ((1 - al) * m_duty_cycle l + off) lo) hi"
    using bounds by (simp add: next_delta_def Let_def ui_add_def ui_mult_def complement_def defs clip_clamp)
  finally have step: "m_duty_cycle (limeric_calculate tp l) = min (max ((1 - al) * m_duty_cycle l + off) lo) hi" .
  have "e = min (max (off / al) lo) hi" by (simp add: defs equilibrium_def)
  then have "e = min (max ((1 - al) * e + off) lo) hi" using clip_fixpoint [of al lo hi off] bounds by simp
  then have "\<bar>m_duty_cycle (limeric_calculate tp l) - e\<bar> \<le> \<bar>((1 - al) * m_duty_cycle l + off) - ((1 - al) * e + off)\<bar>"
    unfolding step using clip_nonexpansive by metis
  also have "\<dots> = (1 - al) * \<bar>m_duty_cycle l - e\<bar>"
    using bounds by (simp add: right_diff_distrib [symmetric] abs_mult)
  finally show ?thesis by (simp add: defs)
qed

lemma limeric_settled_run:
  assumes "limeric_ok l" "in_unit c" "settled c l" "0 < alpha (m_params l)"
  shows "\<bar>m_duty_cycle (fold limeric_calculate tps l) - equilibrium l\<bar>
    \<le> (1 - alpha (m_params l)) ^ length tps * \<bar>m_duty_cycle l - equilibrium l\<bar>"
  using assms
proof (induction tps arbitrary: l)
  case (Cons tp tps)
  let ?l = "limeric_calculate tp l" and ?q = "1 - alpha (m_params l)"
  have "0 \<le> ?q" using Cons.prems by (simp add: limeric_ok_def params_ok_def in_unit_def)
  have "\<bar>m_duty_cycle (fold limeric_calculate tps ?l) - equilibrium l\<bar> \<le> ?q ^ length tps * \<bar>m_duty_cycle ?l - equilibrium l\<bar>"
    using Cons.IH [of ?l] Cons.prems limeric_ok_calculate settled_calculate equilibrium_calculate by simp
  also have "\<dots> \<le> ?q ^ length tps * (?q * \<bar>m_duty_cycle l - equilibrium l\<bar>)"
    using limeric_contracts [OF Cons.prems] \<open>0 \<le> ?q\<close> by (intro mult_left_mono zero_le_power)
  finally show ?case by (simp add: mult_ac)
qed simp

subsection \<open>Facts on the budget\<close>

lemma clamp_interval_bounds: "min_interval \<le> clamp_interval d" "clamp_interval d \<le> max_interval"
  by (simp_all add: clamp_interval_def min_interval_def max_interval_def)

lemma budget_update_bounds:
  "min_interval \<le> m_interval (limeric_budget_update duty now b)" "m_interval (limeric_budget_update duty now b) \<le> max_interval"
  by (simp_all add: limeric_budget_update_def Let_def clamp_interval_bounds) (simp add: min_interval_def max_interval_def)

lemma budget_notify_bounds:
  "min_interval \<le> m_interval (limeric_budget_notify duty tx_on now b)"
  "m_interval (limeric_budget_notify duty tx_on now b) \<le> max_interval"
  by (simp_all add: limeric_budget_notify_def clamp_interval_bounds)

lemma budget_update_tx [simp]:
  "m_tx_start (limeric_budget_update duty now b) = m_tx_start b" "m_tx_on (limeric_budget_update duty now b) = m_tx_on b"
  by (simp_all add: limeric_budget_update_def Let_def)

text \<open>The constructor subtracts the current time from the earliest time point: out of the range of the clock.\<close>

lemma budget_init_overflows:
  "time_point_min + min_interval - now < time_point_min \<longleftrightarrow> min_interval < now"
  by (simp add: algebra_simps)

text \<open>Wrapped around, the difference is positive, and so are the interval computed from it and the result.\<close>

lemma budget_init_interval:
  assumes "0 \<le> now" "now < 2 ^ 62" "0 < duty"
  shows "m_interval (limeric_budget duty now) = min_interval"
proof -
  have w: "wrap64 (now - time_point_min) = now - 2 ^ 63"
    using assms by (simp add: wrap64_def time_point_min_def)
  then show ?thesis using assms
    by (auto simp: limeric_budget_def limeric_budget_update_def Let_def clamp_interval_def min_interval_def max_interval_def
        trunc_real_def)
qed

end
