(* ===== verification/DccTrc.thy ===== *)
theory DccTrc
  imports Access DccFsm DccLimeric
begin

text \<open>
  Transmit rate control (\<open>vanetza/dcc/transmit_rate_control.hpp\<close>): the budgets that decide how
  long a transmission has to wait, and the three implementations built from them: reactive
  control by one state machine, reactive control with bursts of high priority messages, and
  LIMERIC. An implementation is a record of its virtual functions; what its client relies on
  is the locale \<open>rate_control\<close>, of which all three are interpretations.
\<close>

subsection \<open>Transmissions\<close>

record Transmission =
  tx_profile :: Profile
  tx_data_rate :: "DataRateG5 option"
  tx_body_length :: nat

definition transmission_lite :: "Profile \<Rightarrow> nat \<Rightarrow> Transmission" where
  "transmission_lite dp len = \<lparr>tx_profile = dp, tx_data_rate = None, tx_body_length = len\<rparr>"

definition channel_occupancy :: "Transmission \<Rightarrow> duration option" where
  "channel_occupancy tx =
    (let rate = (case tx_data_rate tx of Some rate \<Rightarrow> rate | None \<Rightarrow> G5_6Mbps);
         phy_preamble = 32; phy_signal = 8; bytes_epd = 2; bytes_mac = 34
     in case rate_data_length rate (tx_body_length tx + bytes_epd + bytes_mac) of
          None \<Rightarrow> None
        | Some bytes \<Rightarrow>
            (let seconds_per_byte = 1 / real (unat (m_bytes_per_second rate))
             in Some (phy_preamble + phy_signal + clock_cast (real bytes * seconds_per_byte))))"

subsection \<open>Budgets\<close>

definition fsm_budget_delay :: "duration \<Rightarrow> time_point \<Rightarrow> time_point option \<Rightarrow> duration" where
  "fsm_budget_delay tx_interval now m_last_tx = (case m_last_tx of
      Some last_tx \<Rightarrow> if last_tx + tx_interval < now then 0 else last_tx + tx_interval - now
    | None \<Rightarrow> 0)"

definition fsm_budget_notify :: "time_point \<Rightarrow> time_point option" where
  "fsm_budget_notify now = Some now"

record BurstBudget =
  m_messages :: "time_point list"
  m_messages_capacity :: nat
  m_burst_duration :: duration
  m_burst_period :: duration

definition burst_budget :: BurstBudget where
  "burst_budget = \<lparr>m_messages = [], m_messages_capacity = 20, m_burst_duration = 1000000, m_burst_period = 10000000\<rparr>"

text \<open>The assertion at the begin of \<open>delay\<close>.\<close>

definition burst_configured :: "BurstBudget \<Rightarrow> bool" where
  "burst_configured b \<longleftrightarrow> m_burst_duration b < m_burst_period b"

definition burst_delay :: "time_point \<Rightarrow> BurstBudget \<Rightarrow> duration \<times> BurstBudget" where
  "burst_delay now b = (case m_messages b of
      [] \<Rightarrow> (0, b)
    | front # _ \<Rightarrow>
        if front + m_burst_duration b > now \<and> length (m_messages b) \<noteq> m_messages_capacity b then (0, b)
        else if front + m_burst_period b < now then (0, b\<lparr>m_messages := []\<rparr>)
        else (front + m_burst_period b - now, b))"

text \<open>Pushing into a full circular buffer overwrites its oldest element.\<close>

definition burst_notify :: "time_point \<Rightarrow> BurstBudget \<Rightarrow> BurstBudget" where
  "burst_notify now b =
    (let ms = m_messages b @ [now] in b\<lparr>m_messages := drop (length ms - m_messages_capacity b) ms\<rparr>)"

text \<open>
  Resizing a circular buffer changes its number of elements: it removes the last ones, or
  appends default time points and extends the capacity if necessary. It never shrinks the capacity.
\<close>

definition burst_messages :: "nat \<Rightarrow> BurstBudget \<Rightarrow> BurstBudget" where
  "burst_messages n b = b\<lparr>m_messages := take n (m_messages b) @ replicate (n - length (m_messages b)) 0,
     m_messages_capacity := max n (m_messages_capacity b)\<rparr>"

definition set_burst_duration :: "duration \<Rightarrow> BurstBudget \<Rightarrow> BurstBudget option" where
  "set_burst_duration d b = (if d > 0 then Some (b\<lparr>m_burst_duration := d\<rparr>) else None)"

definition set_burst_period :: "duration \<Rightarrow> BurstBudget \<Rightarrow> BurstBudget option" where
  "set_burst_period p b = (if p > 0 then Some (b\<lparr>m_burst_period := p\<rparr>) else None)"

subsection \<open>Transmit rate control\<close>

record 't TransmitRateControl =
  trc_delay :: "Transmission \<Rightarrow> time_point \<Rightarrow> 't \<Rightarrow> duration \<times> 't"
  trc_interval :: "Transmission \<Rightarrow> 't \<Rightarrow> duration"
  trc_notify :: "Transmission \<Rightarrow> time_point \<Rightarrow> 't \<Rightarrow> 't"

record 'm SingleReactive =
  sr_fsm :: 'm
  sr_last_tx :: "time_point option"

definition single_reactive_trc :: "('m \<Rightarrow> duration) \<Rightarrow> 'm SingleReactive TransmitRateControl" where
  "single_reactive_trc interval = \<lparr>
     trc_delay = (\<lambda>tx now t. (fsm_budget_delay (interval (sr_fsm t)) now (sr_last_tx t), t)),
     trc_interval = (\<lambda>tx t. interval (sr_fsm t)),
     trc_notify = (\<lambda>tx now t. t\<lparr>sr_last_tx := fsm_budget_notify now\<rparr>)\<rparr>"

record 'm Bursty =
  m_burst_budget :: BurstBudget
  bursty_fsm :: 'm
  bursty_last_tx :: "time_point option"

definition bursty_delay :: "('m \<Rightarrow> duration) \<Rightarrow> Transmission \<Rightarrow> time_point \<Rightarrow> 'm Bursty \<Rightarrow> duration \<times> 'm Bursty" where
  "bursty_delay interval tx now t = (case tx_profile tx of
      DP0 \<Rightarrow> (let (d, b) = burst_delay now (m_burst_budget t) in (d, t\<lparr>m_burst_budget := b\<rparr>))
    | _ \<Rightarrow> (fsm_budget_delay (interval (bursty_fsm t)) now (bursty_last_tx t), t))"

definition bursty_interval :: "('m \<Rightarrow> duration) \<Rightarrow> Transmission \<Rightarrow> 'm Bursty \<Rightarrow> duration" where
  "bursty_interval interval tx t = (case tx_profile tx of
      DP0 \<Rightarrow> m_burst_period (m_burst_budget t) | _ \<Rightarrow> interval (bursty_fsm t))"

definition bursty_notify :: "Transmission \<Rightarrow> time_point \<Rightarrow> 'm Bursty \<Rightarrow> 'm Bursty" where
  "bursty_notify tx now t = (case tx_profile tx of
      DP0 \<Rightarrow> t\<lparr>m_burst_budget := burst_notify now (m_burst_budget t)\<rparr>
    | _ \<Rightarrow> t\<lparr>bursty_last_tx := fsm_budget_notify now\<rparr>)"

definition bursty_trc :: "('m \<Rightarrow> duration) \<Rightarrow> 'm Bursty TransmitRateControl" where
  "bursty_trc interval = \<lparr>trc_delay = bursty_delay interval, trc_interval = bursty_interval interval, trc_notify = bursty_notify\<rparr>"

text \<open>The duty cycle is what the permit currently returns; a failing assertion on the occupancy changes nothing.\<close>

record LimericTrc =
  lt_budget :: LimericBudget
  lt_duty_cycle :: UnitInterval

definition limeric_trc_notify :: "Transmission \<Rightarrow> time_point \<Rightarrow> LimericTrc \<Rightarrow> LimericTrc" where
  "limeric_trc_notify tx now t = (case channel_occupancy tx of
      None \<Rightarrow> t
    | Some tx_on \<Rightarrow> t\<lparr>lt_budget := limeric_budget_notify (lt_duty_cycle t) tx_on now (lt_budget t)\<rparr>)"

definition limeric_trc_update :: "time_point \<Rightarrow> LimericTrc \<Rightarrow> LimericTrc" where
  "limeric_trc_update now t = t\<lparr>lt_budget := limeric_budget_update (lt_duty_cycle t) now (lt_budget t)\<rparr>"

definition limeric_trc :: "LimericTrc TransmitRateControl" where
  "limeric_trc = \<lparr>trc_delay = (\<lambda>tx now t. (limeric_budget_delay now (lt_budget t), t)),
     trc_interval = (\<lambda>tx t. m_interval (lt_budget t)), trc_notify = limeric_trc_notify\<rparr>"

subsection \<open>The contract of a rate control\<close>

text \<open>
  At any time a waiting time is not negative and bounded; asking for it does not change the
  answer; and transmissions, questions and the passing of time keep the control in order.
\<close>

locale rate_control =
  fixes trc :: "'t TransmitRateControl"
    and ok :: "time_point \<Rightarrow> 't \<Rightarrow> bool"
    and longest :: duration
  assumes delay_nonneg: "ok now t \<Longrightarrow> 0 \<le> fst (trc_delay trc tx now t)"
    and delay_longest: "ok now t \<Longrightarrow> fst (trc_delay trc tx now t) \<le> longest"
    and delay_stable: "fst (trc_delay trc tx now (snd (trc_delay trc tx' now t))) = fst (trc_delay trc tx now t)"
    and delay_ok: "ok now t \<Longrightarrow> ok now (snd (trc_delay trc tx now t))"
    and notify_ok: "ok now t \<Longrightarrow> ok now (trc_notify trc tx now t)"
    and later_ok: "ok now t \<Longrightarrow> now \<le> later \<Longrightarrow> ok later t"

definition not_after :: "time_point \<Rightarrow> time_point option \<Rightarrow> bool" where
  "not_after now t \<longleftrightarrow> (case t of None \<Rightarrow> True | Some t \<Rightarrow> t \<le> now)"

lemma not_after_simps [simp]: "not_after now None" "not_after now (Some t) \<longleftrightarrow> t \<le> now"
  by (simp_all add: not_after_def)

lemma not_after_later: "not_after now t \<Longrightarrow> now \<le> later \<Longrightarrow> not_after later t"
  by (cases t) simp_all

lemma fsm_budget_bounds:
  "0 \<le> fsm_budget_delay ivl now prev"
  "0 \<le> ivl \<Longrightarrow> not_after now prev \<Longrightarrow> fsm_budget_delay ivl now prev \<le> ivl"
  by (auto simp: fsm_budget_delay_def split: option.split)

lemma fsm_budget_exact: "fsm_budget_delay ivl now (Some prev) = max 0 (prev + ivl - now)"
  by (simp add: fsm_budget_delay_def)

definition single_reactive_ok :: "('m \<Rightarrow> bool) \<Rightarrow> time_point \<Rightarrow> 'm SingleReactive \<Rightarrow> bool" where
  "single_reactive_ok ok now t \<longleftrightarrow> ok (sr_fsm t) \<and> not_after now (sr_last_tx t)"

text \<open>Whatever satisfies the contract of the state machines gives a rate control.\<close>

definition burst_ok :: "time_point \<Rightarrow> BurstBudget \<Rightarrow> bool" where
  "burst_ok now b \<longleftrightarrow> burst_configured b \<and> 0 < m_messages_capacity b \<and> length (m_messages b) \<le> m_messages_capacity b
     \<and> list_all (\<lambda>t. t \<le> now) (m_messages b)"

lemma burst_ok_init: "burst_ok now burst_budget"
  by (simp add: burst_ok_def burst_budget_def burst_configured_def)

lemma burst_delay_bounds:
  assumes "burst_ok now b"
  shows "0 \<le> fst (burst_delay now b)" "0 \<le> m_burst_period b \<Longrightarrow> fst (burst_delay now b) \<le> m_burst_period b"
    "burst_ok now (snd (burst_delay now b))" "m_burst_period (snd (burst_delay now b)) = m_burst_period b"
  using assms by (auto simp: burst_ok_def burst_configured_def burst_delay_def split: list.split)

lemma burst_delay_stable: "fst (burst_delay now (snd (burst_delay now b))) = fst (burst_delay now b)"
  by (auto simp: burst_delay_def split: list.split)

lemma burst_notify_ok: "burst_ok now b \<Longrightarrow> burst_ok now (burst_notify now b)"
  by (auto simp: burst_ok_def burst_configured_def burst_notify_def Let_def list_all_iff dest: in_set_dropD)

lemma burst_notify_period [simp]: "m_burst_period (burst_notify now b) = m_burst_period b"
  by (simp add: burst_notify_def Let_def)

lemma burst_ok_later: "burst_ok now b \<Longrightarrow> now \<le> later \<Longrightarrow> burst_ok later b"
  by (auto simp: burst_ok_def list_all_iff)

definition bursty_ok :: "('m \<Rightarrow> bool) \<Rightarrow> time_point \<Rightarrow> 'm Bursty \<Rightarrow> bool" where
  "bursty_ok ok now t \<longleftrightarrow> ok (bursty_fsm t) \<and> not_after now (bursty_last_tx t) \<and> burst_ok now (m_burst_budget t)
     \<and> m_burst_period (m_burst_budget t) = m_burst_period burst_budget"

lemma burst_period_nonneg: "0 \<le> m_burst_period burst_budget"
  by (simp add: burst_budget_def)

lemma bursty_delay_other:
  "tx_profile tx \<noteq> DP0 \<Longrightarrow> bursty_delay interval tx now t = (fsm_budget_delay (interval (bursty_fsm t)) now (bursty_last_tx t), t)"
  by (cases "tx_profile tx") (simp_all add: bursty_delay_def)

lemma bursty_delay_DP0:
  "tx_profile tx = DP0 \<Longrightarrow> bursty_delay interval tx now t =
    (fst (burst_delay now (m_burst_budget t)), t\<lparr>m_burst_budget := snd (burst_delay now (m_burst_budget t))\<rparr>)"
  by (simp add: bursty_delay_def case_prod_beta)

context rate_machine
begin

lemma single_reactive_control: "rate_control (single_reactive_trc interval) (single_reactive_ok ok) longest"
  by unfold_locales
    (auto simp: single_reactive_trc_def single_reactive_ok_def fsm_budget_notify_def fsm_budget_bounds interval_nonneg
      intro: not_after_later order_trans [OF fsm_budget_bounds(2)] interval_longest)

lemma bursty_control: "rate_control (bursty_trc interval) (bursty_ok ok) (max longest (m_burst_period burst_budget))"
proof
  fix now later :: time_point and t :: "'m Bursty" and tx tx'
  show "fst (trc_delay (bursty_trc interval) tx now (snd (trc_delay (bursty_trc interval) tx' now t)))
      = fst (trc_delay (bursty_trc interval) tx now t)"
    by (cases "tx_profile tx = DP0"; cases "tx_profile tx' = DP0")
      (simp_all add: bursty_trc_def bursty_delay_DP0 bursty_delay_other burst_delay_stable)
  assume ok: "bursty_ok ok now t"
  then have b: "burst_ok now (m_burst_budget t)" "m_burst_period (m_burst_budget t) = m_burst_period burst_budget"
    and f: "ok (bursty_fsm t)" "not_after now (bursty_last_tx t)"
    by (simp_all add: bursty_ok_def)
  note bounds = burst_delay_bounds [OF b(1)] b(2) burst_period_nonneg
  show "0 \<le> fst (trc_delay (bursty_trc interval) tx now t)"
    using bounds by (cases "tx_profile tx = DP0") (simp_all add: bursty_trc_def bursty_delay_DP0 bursty_delay_other fsm_budget_bounds)
  show "fst (trc_delay (bursty_trc interval) tx now t) \<le> max longest (m_burst_period burst_budget)"
  proof (cases "tx_profile tx = DP0")
    case False
    have "fsm_budget_delay (interval (bursty_fsm t)) now (bursty_last_tx t) \<le> interval (bursty_fsm t)"
      using f by (intro fsm_budget_bounds interval_nonneg)
    with False interval_longest [OF f(1)] show ?thesis by (simp add: bursty_trc_def bursty_delay_other)
  qed (use bounds in \<open>simp add: bursty_trc_def bursty_delay_DP0\<close>)
  show "bursty_ok ok now (snd (trc_delay (bursty_trc interval) tx now t))"
    using ok bounds by (cases "tx_profile tx = DP0") (simp_all add: bursty_trc_def bursty_delay_DP0 bursty_delay_other bursty_ok_def)
  show "bursty_ok ok now (trc_notify (bursty_trc interval) tx now t)"
    using ok burst_notify_ok by (cases "tx_profile tx") (simp_all add: bursty_trc_def bursty_notify_def bursty_ok_def fsm_budget_notify_def)
  show "bursty_ok ok later t" if "now \<le> later"
    using ok that not_after_later burst_ok_later by (auto simp: bursty_ok_def)
qed

end

interpretation single_gradual: rate_control "single_reactive_trc gradual_interval" "single_reactive_ok (gradual_ok longest)" longest
  for longest
  by (rule gradual.single_reactive_control)

interpretation single_meshed: rate_control "single_reactive_trc meshed_interval" "single_reactive_ok meshed_ok" 460000
  by (rule meshed.single_reactive_control)

interpretation bursty_gradual: rate_control "bursty_trc gradual_interval" "bursty_ok (gradual_ok longest)"
  "max longest (m_burst_period burst_budget)" for longest
  by (rule gradual.bursty_control)

interpretation bursty_meshed: rate_control "bursty_trc meshed_interval" "bursty_ok meshed_ok"
  "max 460000 (m_burst_period burst_budget)"
  by (rule meshed.bursty_control)

definition limeric_trc_ok :: "time_point \<Rightarrow> LimericTrc \<Rightarrow> bool" where
  "limeric_trc_ok now t \<longleftrightarrow> 0 < lt_duty_cycle t \<and> m_tx_start (lt_budget t) \<le> now
     \<and> min_interval \<le> m_interval (lt_budget t) \<and> m_interval (lt_budget t) \<le> max_interval"

interpretation limeric_control: rate_control limeric_trc limeric_trc_ok max_interval
  by unfold_locales
    (auto simp: limeric_trc_def limeric_trc_ok_def limeric_budget_delay_def max_interval_def min_interval_def
      limeric_trc_notify_def limeric_budget_notify_def clamp_interval_def split: option.split)

lemma limeric_trc_update_ok: "limeric_trc_ok now t \<Longrightarrow> limeric_trc_ok now (limeric_trc_update now t)"
  by (simp add: limeric_trc_ok_def limeric_trc_update_def budget_update_bounds)

subsection \<open>Bursts\<close>

text \<open>
  A sender that asks before each transmission and transmits if it does not have to wait; the
  result are the times of its transmissions.
\<close>

fun burst_sender :: "time_point list \<Rightarrow> BurstBudget \<Rightarrow> time_point list" where
  "burst_sender [] b = []"
| "burst_sender (now # nows) b =
    (let (d, b) = burst_delay now b
     in if d = 0 then now # burst_sender nows (burst_notify now b) else burst_sender nows b)"

definition sent_within :: "time_point \<Rightarrow> duration \<Rightarrow> time_point list \<Rightarrow> nat" where
  "sent_within t w ts = length (filter (\<lambda>x. t \<le> x \<and> x < t + w) ts)"

text \<open>
  What is known of earlier transmissions: those of the current burst are in the buffer, those
  before lie back by more than a window.
\<close>

definition burst_history :: "time_point list \<Rightarrow> BurstBudget \<Rightarrow> bool" where
  "burst_history ts b \<longleftrightarrow> (\<exists>old. ts = old @ m_messages b \<and> (m_messages b = [] \<longrightarrow> old = [])
     \<and> (\<forall>f ms. m_messages b = f # ms \<longrightarrow> (\<forall>x\<in>set (f # ms). f \<le> x \<and> x < f + m_burst_duration b)
          \<and> (\<forall>x\<in>set old. x + (m_burst_period b - m_burst_duration b) < f)))"

definition burst_fits :: "time_point list \<Rightarrow> BurstBudget \<Rightarrow> bool" where
  "burst_fits ts b \<longleftrightarrow> (\<forall>t. sent_within t (m_burst_period b - m_burst_duration b) ts \<le> m_messages_capacity b)"

lemma sent_within_snoc:
  "sent_within t w (ts @ [now]) = sent_within t w ts + (if t \<le> now \<and> now < t + w then 1 else 0)"
  by (simp add: sent_within_def)

lemma sent_within_old: "\<forall>x\<in>set old. x + w < now \<Longrightarrow> now < t + w \<Longrightarrow> sent_within t w (old @ ms) \<le> length ms"
proof -
  assume "\<forall>x\<in>set old. x + w < now" "now < t + w"
  then have "filter (\<lambda>x. t \<le> x \<and> x < t + w) old = []" by (fastforce simp: filter_empty_conv)
  then show ?thesis by (simp add: sent_within_def)
qed

lemma burst_send_fresh:
  assumes "\<forall>x\<in>set ts. x + (m_burst_period b - m_burst_duration b) < now" "m_messages b = []" "burst_fits ts b"
    "0 < m_messages_capacity b" "0 < m_burst_duration b"
  shows "burst_history (ts @ [now]) (burst_notify now b)" "burst_fits (ts @ [now]) (burst_notify now b)"
proof -
  show "burst_history (ts @ [now]) (burst_notify now b)"
    using assms by (auto simp: burst_history_def burst_notify_def Let_def)
  show "burst_fits (ts @ [now]) (burst_notify now b)"
    using assms sent_within_old [OF assms(1), of _ "[]"]
    by (fastforce simp: burst_fits_def burst_notify_def Let_def sent_within_snoc)
qed

lemma burst_send_more:
  assumes h: "burst_history ts b" and fits: "burst_fits ts b" and ms: "m_messages b = f # ms"
    and now: "f \<le> now" "now < f + m_burst_duration b" and room: "length (f # ms) < m_messages_capacity b"
  shows "burst_history (ts @ [now]) (burst_notify now b)" "burst_fits (ts @ [now]) (burst_notify now b)"
proof -
  from h ms obtain old where ts: "ts = old @ f # ms"
    and old: "\<forall>x\<in>set old. x + (m_burst_period b - m_burst_duration b) < f"
    and cur: "\<forall>x\<in>set (f # ms). f \<le> x \<and> x < f + m_burst_duration b"
    by (auto simp: burst_history_def)
  have n: "burst_notify now b = b\<lparr>m_messages := f # ms @ [now]\<rparr>"
    using ms room by (simp add: burst_notify_def Let_def)
  show "burst_history (ts @ [now]) (burst_notify now b)"
    unfolding burst_history_def n using ts old cur now by (intro exI [of _ old]) auto
  have "\<forall>x\<in>set old. x + (m_burst_period b - m_burst_duration b) < now" using old now by force
  note few = sent_within_old [OF this, of _ "f # ms", folded ts]
  show "burst_fits (ts @ [now]) (burst_notify now b)"
    using fits few room by (fastforce simp: burst_fits_def n sent_within_snoc)
qed

lemma burst_history_all_old:
  assumes "burst_history ts b" "m_messages b = f # ms" "f + m_burst_period b < now" "m_burst_duration b < m_burst_period b"
  shows "\<forall>x\<in>set ts. x + (m_burst_period b - m_burst_duration b) < now"
  using assms unfolding burst_history_def by fastforce

lemma burst_sender_fits:
  assumes "burst_history ts b" "burst_fits ts b" "burst_ok now b" "0 < m_burst_duration b"
    "sorted (now # nows)" "set ts \<subseteq> all" "set nows \<subseteq> all" "\<forall>x\<in>all. \<forall>y\<in>all. x + m_burst_period b \<noteq> y"
  shows "burst_fits (ts @ burst_sender nows b) b"
  using assms
proof (induction nows arbitrary: ts b now)
  case (Cons t nows)
  note prems = Cons.prems and IH = Cons.IH
  have ok: "burst_ok t b" using burst_ok_later [OF prems(3)] prems(5) by simp
  have bounds: "m_burst_duration b < m_burst_period b" "0 < m_messages_capacity b" "length (m_messages b) \<le> m_messages_capacity b"
    using prems(3) by (simp_all add: burst_ok_def burst_configured_def)
  have keep: "m_burst_period (burst_notify t b') = m_burst_period b'" "m_burst_duration (burst_notify t b') = m_burst_duration b'"
    "m_messages_capacity (burst_notify t b') = m_messages_capacity b'" for b'
    by (simp_all add: burst_notify_def Let_def)
  have send: "burst_fits (ts @ t # burst_sender nows (burst_notify t b')) b"
    if "burst_history (ts @ [t]) (burst_notify t b')" "burst_fits (ts @ [t]) (burst_notify t b')" "burst_ok t b'"
      "m_burst_period b' = m_burst_period b" "m_burst_duration b' = m_burst_duration b"
      "m_messages_capacity b' = m_messages_capacity b" for b'
    using IH [of "ts @ [t]" "burst_notify t b'" t] that burst_notify_ok [OF that(3)] prems(4-8) keep
    by (simp add: burst_fits_def)
  show ?case
  proof (cases "m_messages b")
    case Nil
    then have "ts = []" using prems(1) by (simp add: burst_history_def)
    with Nil have "burst_history (ts @ [t]) (burst_notify t b)" "burst_fits (ts @ [t]) (burst_notify t b)"
      using burst_send_fresh [of ts b t] prems(2,4) bounds by simp_all
    with send [of b] ok Nil show ?thesis by (simp add: burst_delay_def)
  next
    case (Cons f ms)
    have f: "f \<le> t" "f \<in> set ts" using ok prems(1) Cons by (auto simp: burst_ok_def burst_history_def)
    consider "t < f + m_burst_duration b" "length (f # ms) \<noteq> m_messages_capacity b"
      | "\<not> (t < f + m_burst_duration b \<and> length (f # ms) \<noteq> m_messages_capacity b)" "f + m_burst_period b < t"
      | "\<not> (t < f + m_burst_duration b \<and> length (f # ms) \<noteq> m_messages_capacity b)" "t < f + m_burst_period b"
      using f(2) prems(6-8) by (metis in_mono list.set_intros(1) linorder_neqE_linordered_idom)
    then show ?thesis
    proof cases
      case 1
      then have "length (f # ms) < m_messages_capacity b" using bounds Cons by simp
      from burst_send_more [OF prems(1,2) Cons f(1) 1(1) this] send [of b] ok 1 Cons show ?thesis
        by (simp add: burst_delay_def)
    next
      case 2
      let ?b = "b\<lparr>m_messages := []\<rparr>"
      have "burst_history (ts @ [t]) (burst_notify t ?b)" "burst_fits (ts @ [t]) (burst_notify t ?b)"
        using burst_send_fresh [of ts ?b t] burst_history_all_old [OF prems(1) Cons 2(2)] bounds prems(2,4)
        by (simp_all add: burst_fits_def)
      moreover have "burst_ok t ?b" using ok by (simp add: burst_ok_def burst_configured_def)
      ultimately show ?thesis using send [of ?b] 2 Cons by (auto simp: burst_delay_def)
    next
      case 3
      then have "burst_delay t b = (f + m_burst_period b - t, b)" using Cons by (auto simp: burst_delay_def)
      moreover have "burst_fits (ts @ burst_sender nows b) b"
        using IH [of ts b t] prems ok by simp
      ultimately show ?thesis using 3 by simp
    qed
  qed
qed simp

text \<open>
  An attempt exactly one period after the begin of a burst is admitted without starting a new
  burst: the messages admitted at that instant do not count for the burst that follows.
\<close>

lemma burst_limit_exceeded:
  "sent_within 10000000 9000000 (burst_sender (0 # replicate 19 10000000 @ replicate 20 10000001) burst_budget) = 39"
  by code_simp

text \<open>Resizing the buffer to fewer messages does not lower the limit.\<close>

lemma burst_messages_never_lowers: "m_messages_capacity b \<le> m_messages_capacity (burst_messages n b)"
  by (simp add: burst_messages_def)

subsection \<open>Properties\<close>

text \<open>C40: A sender of high priority messages that waits as the burst budget demands sends at
  most twenty messages within any nine seconds (the burst period less the burst duration),
  however often it tries, provided that no attempt falls exactly one burst period after
  another.\<close>

theorem burst_limit:
  assumes "sorted nows" and "\<forall>x\<in>set nows. \<forall>y\<in>set nows. x + 10000000 \<noteq> y"
  shows "sent_within t 9000000 (burst_sender nows burst_budget) \<le> 20"
proof (cases nows)
  case (Cons now rest)
  have "burst_fits ([] @ burst_sender nows burst_budget) burst_budget"
    using assms Cons
    by (intro burst_sender_fits [where now = now and all = "set nows"] burst_ok_init)
      (simp_all add: burst_history_def burst_fits_def burst_budget_def sent_within_def)
  then show ?thesis by (simp add: burst_fits_def burst_budget_def)
qed (simp add: sent_within_def)

theorem burst_limit_witness:
  "sent_within 5 9000000 (burst_sender (replicate 25 5) burst_budget) \<le> 20 \<and>
   sent_within 5 9000000 (burst_sender (replicate 25 5) burst_budget) = 20"
proof
  show "sent_within 5 9000000 (burst_sender (replicate 25 5) burst_budget) \<le> 20"
    by (rule burst_limit) simp_all
  show "sent_within 5 9000000 (burst_sender (replicate 25 5) burst_budget) = 20" by code_simp
qed

end
