(* ===== verification/AccessGate.thy ===== *)
theory AccessGate
  imports G5Frame DccTrc
begin

text \<open>
  The access layer of the port (\<open>ports/esp_idf/src/access.cpp\<close>): it validates requests and, when
  congestion control is enabled, lets them pass a gate that LIMERIC's budget opens and closes. The
  radio below is a parameter, whose result may depend on the requests it had before; the calls
  of the radio are logged with the time of the runtime.
\<close>

subsection \<open>The gate\<close>

definition max_ton :: duration where "max_ton = 4000"

fun g5_rate :: "OfdmMcs \<Rightarrow> DataRateG5" where
  "g5_rate Bpsk_1_2 = G5_3Mbps"
| "g5_rate Bpsk_3_4 = G5_4dot5Mbps"
| "g5_rate Qpsk_1_2 = G5_6Mbps"
| "g5_rate Qpsk_3_4 = G5_9Mbps"
| "g5_rate Qam16_1_2 = G5_12Mbps"
| "g5_rate Qam16_3_4 = G5_18bps"
| "g5_rate Qam64_2_3 = G5_24Mbps"
| "g5_rate Qam64_3_4 = G5_27Mbps"

definition request_airtime :: "AlDataRequest \<Rightarrow> duration option" where
  "request_airtime r = channel_occupancy ((transmission_lite DP2 (length (al_data r)))\<lparr>tx_data_rate := Some (g5_rate (mcs r))\<rparr>)"

definition limeric_parameters :: "ChannelLoad \<Rightarrow> LimericParameters" where
  "limeric_parameters target = limericDefaultParams\<lparr>cbr_target := target\<rparr>"

record Dcc = Limeric +
  dcc_budget :: LimericBudget

definition dcc_init :: "ChannelLoad \<Rightarrow> time_point \<Rightarrow> Dcc" where
  "dcc_init target now =
    (let l = limeric_init (limeric_parameters target) now
     in Limeric.extend l (Dcc.fields (limeric_budget (m_duty_cycle l) now)))"

text \<open>A change of the duty cycle, which every calculation reports, updates the budget.\<close>

definition dcc_run :: "LimericCallback \<Rightarrow> time_point \<Rightarrow> Dcc \<Rightarrow> Dcc" where
  "dcc_run cb tp d =
    (let l = limeric_run cb tp (Limeric.truncate d)
     in Limeric.extend l (Dcc.fields (limeric_budget_update (m_duty_cycle l) (m_now l) (dcc_budget d))))"

subsection \<open>The access layer\<close>

record AccessStack =
  as_maximum_gnpdu :: nat
  as_dcc :: "Dcc option"
  backend_calls :: "(time_point option \<times> AlDataRequest \<times> Result) list"

definition access_stack :: "nat \<Rightarrow> AccessStack" where
  "access_stack maximum = \<lparr>as_maximum_gnpdu = maximum, as_dcc = None, backend_calls = []\<rparr>"

definition enable_dcc :: "ChannelLoad \<Rightarrow> time_point \<Rightarrow> AccessStack \<Rightarrow> AccessStack" where
  "enable_dcc target now a = a\<lparr>as_dcc := Some (dcc_init target now)\<rparr>"

definition report_channel_load :: "ChannelLoad \<Rightarrow> AccessStack \<Rightarrow> AccessStack" where
  "report_channel_load load a =
     a\<lparr>as_dcc := map_option (\<lambda>d. Limeric.extend (update_cbr load (Limeric.truncate d)) (Limeric.more d)) (as_dcc a)\<rparr>"

definition permitted_duty_cycle :: "AccessStack \<Rightarrow> UnitInterval" where
  "permitted_duty_cycle a = (case as_dcc a of Some d \<Rightarrow> m_duty_cycle d | None \<Rightarrow> unit_interval 1)"

definition call_backend ::
  "(AlDataRequest list \<Rightarrow> AlDataRequest \<Rightarrow> Result) \<Rightarrow> AlDataRequest \<Rightarrow> AccessStack \<Rightarrow> Result \<times> AccessStack" where
  "call_backend access r a =
    (let result = access (map (\<lambda>c. fst (snd c)) (backend_calls a)) r
     in (result, a\<lparr>backend_calls := backend_calls a @ [(map_option m_now (as_dcc a), r, result)]\<rparr>))"

text \<open>\<open>None\<close> is the failing assertion in the computation of the airtime.\<close>

definition access_stack_request ::
  "(AlDataRequest list \<Rightarrow> AlDataRequest \<Rightarrow> Result) \<Rightarrow> AlDataRequest \<Rightarrow> AccessStack \<Rightarrow> (Result \<times> AccessStack) option" where
  "access_stack_request access r a =
    (let result = validate_request r (as_maximum_gnpdu a)
     in if result \<noteq> Res_accepted then Some (result, a)
        else case as_dcc a of
               None \<Rightarrow> Some (call_backend access r a)
             | Some d \<Rightarrow>
                 (case request_airtime r of
                    None \<Rightarrow> None
                  | Some ton \<Rightarrow>
                      if ton \<le> 0 \<or> ton > max_ton then Some (Res_invalid_argument, a)
                      else if limeric_budget_delay (m_now d) (dcc_budget d) > 0 then Some (Res_resource_limit, a)
                      else
                        (let (result, a) = call_backend access r a
                         in Some (result, if result = Res_accepted
                              then a\<lparr>as_dcc := Some (d\<lparr>dcc_budget := limeric_budget_notify (m_duty_cycle d) ton (m_now d) (dcc_budget d)\<rparr>)\<rparr>
                              else a))))"

text \<open>The runtime that drives the calculation is triggered from outside.\<close>

definition access_advance :: "time_point \<Rightarrow> AccessStack \<Rightarrow> AccessStack option" where
  "access_advance t a = (case as_dcc a of
      None \<Rightarrow> Some a
    | Some d \<Rightarrow> map_option (\<lambda>d. a\<lparr>as_dcc := Some d\<rparr>) (trigger_at dcc_run t d))"

subsection \<open>The budget below LIMERIC\<close>

lemma extend_dcc [simp]:
  "dcc_budget (Limeric.extend l (Dcc.fields b)) = b" "Limeric.truncate (Limeric.extend l z) = l"
  "m_now (Limeric.extend l z) = m_now l" "m_queue (Limeric.extend l z) = m_queue l" "m_duty_cycle (Limeric.extend l z) = m_duty_cycle l"
  "m_params (Limeric.extend l z) = m_params l"
  "dcc_budget (Limeric.extend l (Limeric.more d)) = dcc_budget d"
  by (cases l; cases d; simp add: Limeric.extend_def Limeric.truncate_def Dcc.fields_def)+

lemma truncate_dcc [simp]:
  "m_now (Limeric.truncate d) = m_now d" "m_queue (Limeric.truncate d) = m_queue d" "m_duty_cycle (Limeric.truncate d) = m_duty_cycle d"
  "m_params (Limeric.truncate d) = m_params d"
  "Limeric.truncate (d\<lparr>m_queue := q\<rparr>) = (Limeric.truncate d)\<lparr>m_queue := q\<rparr>" "Limeric.truncate (d\<lparr>m_now := t\<rparr>) = (Limeric.truncate d)\<lparr>m_now := t\<rparr>"
  "Limeric.truncate (d\<lparr>dcc_budget := b\<rparr>) = Limeric.truncate d"
  by (simp_all add: Limeric.truncate_def)

definition dcc_ok :: "Dcc \<Rightarrow> bool" where
  "dcc_ok d \<longleftrightarrow> limeric_ok (Limeric.truncate d) \<and> min_interval \<le> m_interval (dcc_budget d) \<and> m_interval (dcc_budget d) \<le> max_interval
     \<and> m_tx_start (dcc_budget d) \<le> m_now d"

lemma dcc_run_ok:
  assumes "dcc_ok d"
  shows "dcc_ok (dcc_run cb tp d)" "m_now (dcc_run cb tp d) = m_now d" "expired_count (dcc_run cb tp d) \<le> expired_count d"
    "m_tx_start (dcc_budget (dcc_run cb tp d)) = m_tx_start (dcc_budget d)"
proof -
  have l: "limeric_ok (Limeric.truncate d)" using assms by (simp add: dcc_ok_def)
  have e: "expired_count (Limeric.truncate x) = expired_count x" for x :: Dcc by (simp add: expired_count_def)
  have now: "m_now (limeric_run cb tp (Limeric.truncate d)) = m_now d" using limeric_timer.run_now [OF l] by simp
  then show "dcc_ok (dcc_run cb tp d)" "m_now (dcc_run cb tp d) = m_now d"
    "m_tx_start (dcc_budget (dcc_run cb tp d)) = m_tx_start (dcc_budget d)"
    using limeric_timer.run_ok [OF l] assms by (simp_all add: dcc_ok_def dcc_run_def Let_def budget_update_bounds)
  show "expired_count (dcc_run cb tp d) \<le> expired_count d"
    using limeric_timer.run_future [OF l, of cb tp] e [of d] e [of "dcc_run cb tp d"] by (simp add: dcc_run_def Let_def)
qed

text \<open>Triggering the calculation leaves the start of the last transmission as it is.\<close>

interpretation dcc_timer: timer_client dcc_run "\<lambda>d. dcc_ok d \<and> m_tx_start (dcc_budget d) = tx" for tx
proof
  fix d :: Dcc and cb tp e q
  assume ok: "dcc_ok d \<and> m_tx_start (dcc_budget d) = tx"
  then show "dcc_ok (dcc_run cb tp d) \<and> m_tx_start (dcc_budget (dcc_run cb tp d)) = tx" "m_now (dcc_run cb tp d) = m_now d"
    "expired_count (dcc_run cb tp d) \<le> expired_count d" using dcc_run_ok by simp_all
  show "queue_ok d" using ok by (simp add: dcc_ok_def limeric_ok_def queue_ok_def)
  show "dcc_ok (d\<lparr>m_queue := q\<rparr>) \<and> m_tx_start (dcc_budget (d\<lparr>m_queue := q\<rparr>)) = tx" if "m_queue d = e # q"
    using ok that by (simp add: dcc_ok_def limeric_ok_def queue_ok_def)
qed

lemma dcc_advances:
  assumes "dcc_ok d" and "m_now d \<le> t"
  shows "\<exists>d'. trigger_at dcc_run t d = Some d' \<and> dcc_ok d' \<and> m_tx_start (dcc_budget d') = m_tx_start (dcc_budget d) \<and> m_now d' = t"
proof -
  have "dcc_ok (d\<lparr>m_now := t\<rparr>) \<and> m_tx_start (dcc_budget (d\<lparr>m_now := t\<rparr>)) = m_tx_start (dcc_budget d)"
    using assms by (simp add: dcc_ok_def limeric_ok_def queue_ok_def)
  from dcc_timer.trigger_terminates [OF this] show ?thesis using assms(2) by (auto simp: trigger_at_def)
qed

subsection \<open>Reachable states\<close>

inductive gate_reach :: "(AlDataRequest list \<Rightarrow> AlDataRequest \<Rightarrow> Result) \<Rightarrow> nat \<Rightarrow> AccessStack \<Rightarrow> bool" for access maximum where
  start: "0 \<le> now \<Longrightarrow> gate_reach access maximum (enable_dcc (unit_interval target) now (access_stack maximum))"
| load: "gate_reach access maximum a \<Longrightarrow> gate_reach access maximum (report_channel_load (unit_interval x) a)"
| request: "gate_reach access maximum a \<Longrightarrow> access_stack_request access r a = Some (result, a') \<Longrightarrow> gate_reach access maximum a'"
| advance: "gate_reach access maximum a \<Longrightarrow> access_advance t a = Some a' \<Longrightarrow> gate_reach access maximum a'"

text \<open>The transmissions that the radio has accepted, with their times.\<close>

definition transmissions :: "AccessStack \<Rightarrow> (time_point \<times> AlDataRequest) list" where
  "transmissions a = List.map_filter (\<lambda>(t, r, result). case t of Some t \<Rightarrow> if result = Res_accepted then Some (t, r) else None | None \<Rightarrow> None)
     (backend_calls a)"

text \<open>Transmissions in order of time, at least an interval apart and each with a limited airtime.\<close>

definition spaced :: "duration \<Rightarrow> (time_point \<times> AlDataRequest) list \<Rightarrow> bool" where
  "spaced d ts \<longleftrightarrow> sorted_wrt (\<lambda>x y. fst x + d \<le> fst y) ts
     \<and> list_all (\<lambda>x. \<exists>ton. request_airtime (snd x) = Some ton \<and> 0 < ton \<and> ton \<le> max_ton) ts"

definition gate_ok :: "nat \<Rightarrow> AccessStack \<Rightarrow> bool" where
  "gate_ok maximum a \<longleftrightarrow> as_maximum_gnpdu a = maximum \<and> (\<exists>d. as_dcc a = Some d \<and> dcc_ok d \<and> 0 \<le> m_now d \<and> spaced min_interval (transmissions a)
     \<and> (if transmissions a = [] then m_tx_start (dcc_budget d) = time_point_min
        else m_tx_start (dcc_budget d) = fst (last (transmissions a))))"

lemma limeric_parameters_ok: "params_ok (limeric_parameters target)"
  using params_ok_default by (simp add: limeric_parameters_def params_ok_def)

lemma gate_ok_start: "0 \<le> now \<Longrightarrow> gate_ok maximum (enable_dcc (unit_interval target) now (access_stack maximum))"
  using limeric_ok_init [OF limeric_parameters_ok, of "unit_interval target" now]
  by (simp add: gate_ok_def enable_dcc_def access_stack_def dcc_init_def Let_def dcc_ok_def limeric_budget_def budget_update_bounds
      transmissions_def spaced_def map_filter_def) (simp add: limeric_init_def time_point_min_def)

lemma gate_ok_load:
  assumes "gate_ok maximum a"
  shows "gate_ok maximum (report_channel_load (unit_interval x) a)"
proof -
  have "in_unit (unit_interval x)" by (simp add: in_unit_def unit_interval_def clamp_def)
  moreover have "m_now (update_cbr y l) = m_now l" for y l by (simp add: update_cbr_def Let_def)
  ultimately show ?thesis
    using assms limeric_ok_update_cbr by (auto simp: gate_ok_def report_channel_load_def dcc_ok_def transmissions_def)
qed

lemma gate_ok_advance:
  assumes "gate_ok maximum a" and "access_advance t a = Some a'"
  shows "gate_ok maximum a'"
proof -
  obtain d where d: "as_dcc a = Some d" "dcc_ok d" "0 \<le> m_now d" using assms(1) by (auto simp: gate_ok_def)
  then obtain d' where d': "trigger_at dcc_run t d = Some d'" "a' = a\<lparr>as_dcc := Some d'\<rparr>" using assms(2) by (auto simp: access_advance_def)
  then have "m_now d \<le> t" by (simp add: trigger_at_def split: if_splits)
  with dcc_advances [OF d(2) this] d' show ?thesis using assms(1) d(1,3) by (auto simp: gate_ok_def transmissions_def)
qed

lemma transmissions_call:
  "transmissions (snd (call_backend access r a)) = transmissions a
     @ (case as_dcc a of Some d \<Rightarrow> if fst (call_backend access r a) = Res_accepted then [(m_now d, r)] else [] | None \<Rightarrow> [])"
  by (simp add: call_backend_def Let_def transmissions_def map_filter_def split: option.split)

lemma spaced_append:
  assumes "spaced d ts" and "ts \<noteq> [] \<Longrightarrow> fst (last ts) + d \<le> t" and "0 \<le> d"
    and "request_airtime r = Some ton" and "0 < ton" and "ton \<le> max_ton"
  shows "spaced d (ts @ [(t, r)])"
proof -
  have "fst x + d \<le> t" if x: "x \<in> set ts" for x
  proof -
    obtain i where i: "i < length ts" "x = ts ! i" using x by (auto simp: in_set_conv_nth)
    have "ts \<noteq> []" using x by auto
    then have last: "fst (ts ! (length ts - 1)) + d \<le> t" using assms(2) by (simp add: last_conv_nth)
    show ?thesis
    proof (cases "i = length ts - 1")
      case False
      then have "fst (ts ! i) + d \<le> fst (ts ! (length ts - 1))"
        using assms(1) i(1) by (auto simp: spaced_def sorted_wrt_iff_nth_less)
      then show ?thesis unfolding i(2) using last assms(3) by linarith
    qed (use last i in simp)
  qed
  then show ?thesis using assms by (auto simp: spaced_def sorted_wrt_append)
qed

lemma gate_ok_request:
  assumes "gate_ok maximum a" and "access_stack_request access r a = Some (result, a')"
  shows "gate_ok maximum a'"
proof -
  obtain d where d: "as_dcc a = Some d" "dcc_ok d" "0 \<le> m_now d" "spaced min_interval (transmissions a)"
    "transmissions a \<noteq> [] \<Longrightarrow> m_tx_start (dcc_budget d) = fst (last (transmissions a))" using assms(1) by (auto simp: gate_ok_def)
  let ?c = "call_backend access r a"
  have c: "as_dcc (snd ?c) = Some d" "as_maximum_gnpdu (snd ?c) = as_maximum_gnpdu a" by (simp_all add: call_backend_def Let_def d(1))
  consider "a' = a" | ton where "request_airtime r = Some ton" "0 < ton" "ton \<le> max_ton" "limeric_budget_delay (m_now d) (dcc_budget d) \<le> 0"
      "a' = (if fst ?c = Res_accepted
        then (snd ?c)\<lparr>as_dcc := Some (d\<lparr>dcc_budget := limeric_budget_notify (m_duty_cycle d) ton (m_now d) (dcc_budget d)\<rparr>)\<rparr> else snd ?c)"
  proof (cases "validate_request r (as_maximum_gnpdu a) = Res_accepted")
    case True
    obtain ton where ton: "request_airtime r = Some ton"
      using assms(2) d(1) True by (cases "request_airtime r") (simp_all add: access_stack_request_def)
    show thesis
    proof (cases "ton \<le> 0 \<or> ton > max_ton \<or> limeric_budget_delay (m_now d) (dcc_budget d) > 0")
      case False
      have "Some (result, a') = Some (fst ?c, if fst ?c = Res_accepted
          then (snd ?c)\<lparr>as_dcc := Some (d\<lparr>dcc_budget := limeric_budget_notify (m_duty_cycle d) ton (m_now d) (dcc_budget d)\<rparr>)\<rparr> else snd ?c)"
        using False unfolding assms(2) [symmetric] access_stack_request_def Let_def d(1) ton True case_prod_beta by simp
      then show thesis using that(2) [OF ton] False by simp
    next
      case bad: True
      then have "a' = a" using assms(2) unfolding access_stack_request_def Let_def d(1) ton True by (simp split: if_splits)
      then show thesis by (rule that(1))
    qed
  next
    case False
    then have "a' = a" using assms(2) by (simp add: access_stack_request_def)
    then show thesis by (rule that(1))
  qed
  then show ?thesis
  proof cases
    case 1
    then show ?thesis using assms(1) by simp
  next
    case 2
    show ?thesis
    proof (cases "fst ?c = Res_accepted")
      case False
      then have "transmissions (snd ?c) = transmissions a" using transmissions_call [of access r a] d(1) by simp
      then show ?thesis using False 2(5) assms(1) c d(1) by (simp add: gate_ok_def)
    next
      case True
      have open_gate: "m_tx_start (dcc_budget d) + min_interval \<le> m_now d"
        using 2(4) d(2) by (auto simp: limeric_budget_delay_def dcc_ok_def split: if_splits)
      have t: "transmissions (snd ?c) = transmissions a @ [(m_now d, r)]" using transmissions_call [of access r a] d(1) True by simp
      have "spaced min_interval (transmissions a @ [(m_now d, r)])"
        by (rule spaced_append [OF d(4) _ _ 2(1-3)]) (use d(5) open_gate in \<open>auto simp: min_interval_def\<close>)
      then show ?thesis using True 2(5) assms(1) c d(1-3) t
        by (simp add: gate_ok_def dcc_ok_def budget_notify_bounds transmissions_def) (simp add: limeric_budget_notify_def)
    qed
  qed
qed

lemma gate_reach_ok: "gate_reach access maximum a \<Longrightarrow> gate_ok maximum a"
  by (induction rule: gate_reach.induct) (auto intro: gate_ok_start gate_ok_load gate_ok_request gate_ok_advance)

subsection \<open>Properties\<close>

lemma airtime_defined:
  assumes "length (al_data r) < 2 ^ 27"
  shows "request_airtime r \<noteq> None"
proof -
  have l: "36 + length (al_data r) < 2 ^ 28" using assms by simp
  have k: "\<exists>k. unat (m_coded_bits_per_symbol (g5_rate c)) = 8 * k \<and> 0 < k \<and> k < 1000" for c
    by (cases c) (auto simp: G5_3Mbps_def G5_4dot5Mbps_def G5_6Mbps_def G5_9Mbps_def G5_12Mbps_def G5_18bps_def G5_24Mbps_def G5_27Mbps_def
        data_rate_g5_def intro: exI [of _ "6 :: nat"] exI [of _ "12 :: nat"] exI [of _ "24 :: nat"] exI [of _ "36 :: nat"])
  then obtain len where "rate_data_length (g5_rate (mcs r)) (36 + length (al_data r)) = Some len"
    using rate_data_length_bounds [OF _ _ _ l] by metis
  then show ?thesis by (simp add: request_airtime_def channel_occupancy_def transmission_lite_def Let_def)
qed

text \<open>C13: With congestion control enabled, whatever is requested and measured, transmissions start at
  least 25 milliseconds apart and none occupies the channel for more than four milliseconds; and the
  gate opens again: one second after the last transmission every valid request with a permitted
  airtime is handed to the radio, whose result is returned.\<close>

theorem access_gate_limits:
  assumes "gate_reach access maximum a"
  shows "spaced 25000 (transmissions a) \<and> (\<exists>d. as_dcc a = Some d
    \<and> (\<forall>r ton. (transmissions a = [] \<or> fst (last (transmissions a)) + 1000000 \<le> m_now d)
         \<and> validate_request r maximum = Res_accepted \<and> request_airtime r = Some ton \<and> 0 < ton \<and> ton \<le> 4000
       \<longrightarrow> (\<exists>a'. access_stack_request access r a = Some (access (map (\<lambda>c. fst (snd c)) (backend_calls a)) r, a'))))"
proof -
  obtain d where d: "as_dcc a = Some d" "dcc_ok d" "0 \<le> m_now d" "spaced min_interval (transmissions a)" "as_maximum_gnpdu a = maximum"
    "if transmissions a = [] then m_tx_start (dcc_budget d) = time_point_min
     else m_tx_start (dcc_budget d) = fst (last (transmissions a))"
    using gate_reach_ok [OF assms] by (auto simp: gate_ok_def)
  have "\<exists>a'. access_stack_request access r a = Some (access (map (\<lambda>c. fst (snd c)) (backend_calls a)) r, a')"
    if "transmissions a = [] \<or> fst (last (transmissions a)) + 1000000 \<le> m_now d"
      and r: "validate_request r maximum = Res_accepted" "request_airtime r = Some ton" "0 < ton" "ton \<le> 4000" for r ton
  proof -
    have ivl: "m_interval (dcc_budget d) \<le> 1000000" using d(2) by (simp add: dcc_ok_def max_interval_def)
    have "m_tx_start (dcc_budget d) + 1000000 \<le> m_now d"
      using that(1) d(3,6) by (cases "transmissions a = []") (simp_all add: time_point_min_def)
    then have "m_now d \<ge> m_tx_start (dcc_budget d) + m_interval (dcc_budget d)" using ivl by linarith
    then have "limeric_budget_delay (m_now d) (dcc_budget d) = 0" by (simp add: limeric_budget_delay_def)
    then show ?thesis using r d(1,5) by (simp add: access_stack_request_def max_ton_def call_backend_def Let_def)
  qed
  then show ?thesis using d(1,4) by (auto simp: min_interval_def)
qed

theorem access_gate_limits_witness:
  "\<exists>a'. access_stack_request (\<lambda>_ _. Res_accepted) (al_data_request\<lparr>al_data := [1, 2, 3]\<rparr>)
     (enable_dcc (unit_interval 0.62) 0 (access_stack 4096)) = Some (Res_accepted, a')"
proof -
  let ?r = "al_data_request\<lparr>al_data := [1, 2, 3]\<rparr>" and ?a = "enable_dcc (unit_interval 0.62) 0 (access_stack 4096)"
  have "rate_data_length G5_6Mbps 39 = Some 48" by code_simp
  moreover have "unat (m_bytes_per_second G5_6Mbps) = 750000" by (simp add: G5_6Mbps_def data_rate_g5_def)
  ultimately have "request_airtime ?r = Some 104"
    by (simp add: request_airtime_def al_data_request_def transmission_lite_def channel_occupancy_def Let_def clock_cast_def trunc_real_def)
  moreover have "validate_request ?r 4096 = Res_accepted" by (simp add: validate_request_def al_data_request_def)
  moreover have "transmissions ?a = []" by (simp add: transmissions_def enable_dcc_def access_stack_def map_filter_def)
  moreover have "gate_reach (\<lambda>_ _. Res_accepted) 4096 ?a" by (rule gate_reach.start) simp
  ultimately show ?thesis using access_gate_limits [of "\<lambda>_ _. Res_accepted" 4096 ?a] by auto
qed

end
