(* ===== verification/DccFlow.thy ===== *)
theory DccFlow
  imports DccTrc RouterCore
begin

text \<open>
  Flow control (\<open>vanetza/dcc/flow_control.cpp\<close>), the gatekeeper above the access layer: packets
  the rate control does not admit at once wait in a queue per access category. The state
  extends the runtime the trigger is scheduled in; the rate control is a parameter. Calls of
  the hooks and of the access interface are logged. A category without queue in the map is
  one with an empty queue; the map is traversed from the highest category down.
\<close>

record PendingTransmission =
  pt_expiry :: time_point
  pt_request :: DccDataRequest
  pt_packet :: DownPacket

definition pending_tx :: "PendingTransmission \<Rightarrow> Transmission" where
  "pending_tx p = \<lparr>tx_profile = dr_dcc_profile (pt_request p), tx_data_rate = Some G5_6Mbps,
     tx_body_length = chunk_size (pt_packet p)\<rparr>"

datatype FlowCallback = FlowTrigger

datatype FlowScope = ScopeFlow

datatype FlowEvent = DropHook AccessCategory DownPacket | TransmitHook AccessCategory DownPacket
  | AccessRequest AccessDataRequest DownPacket

record 't FlowControl = "(FlowCallback, FlowScope) Runtime" +
  m_trc :: 't
  m_queues :: "AccessCategory \<Rightarrow> PendingTransmission list"
  m_queue_length :: nat
  flow_log :: "FlowEvent list"

definition categories :: "AccessCategory list" where
  "categories = [VO, VI, BE, BK]"

definition flow_control :: "'t \<Rightarrow> time_point \<Rightarrow> 't FlowControl" where
  "flow_control t now = \<lparr>m_now = now, m_queue = [], m_trc = t, m_queues = (\<lambda>_. []), m_queue_length = 0, flow_log = []\<rparr>"

definition flow_destroy :: "'t FlowControl \<Rightarrow> 't FlowControl" where
  "flow_destroy s = cancel (Some ScopeFlow) s"

text \<open>Asking the rate control for a delay and notifying it of a transmission.\<close>

definition flow_delay :: "'t TransmitRateControl \<Rightarrow> Transmission \<Rightarrow> 't FlowControl \<Rightarrow> duration \<times> 't FlowControl" where
  "flow_delay trc tx s = (let (d, t) = trc_delay trc tx (m_now s) (m_trc s) in (d, s\<lparr>m_trc := t\<rparr>))"

definition flow_notify :: "'t TransmitRateControl \<Rightarrow> Transmission \<Rightarrow> 't FlowControl \<Rightarrow> 't FlowControl" where
  "flow_notify trc tx s = s\<lparr>m_trc := trc_notify trc tx (m_now s) (m_trc s)\<rparr>"

definition flow_drop_category :: "AccessCategory \<Rightarrow> 't FlowControl \<Rightarrow> 't FlowControl" where
  "flow_drop_category ac s =
    (let expired = (\<lambda>p. pt_expiry p < m_now s)
     in s\<lparr>m_queues := (m_queues s)(ac := filter (\<lambda>p. \<not> expired p) (m_queues s ac)),
          flow_log := flow_log s @ map (\<lambda>p. DropHook ac (pt_packet p)) (filter expired (m_queues s ac))\<rparr>)"

definition flow_drop_expired :: "'t FlowControl \<Rightarrow> 't FlowControl" where
  "flow_drop_expired s = fold flow_drop_category categories s"

definition flow_empty :: "'t FlowControl \<Rightarrow> bool" where
  "flow_empty s \<longleftrightarrow> list_all (\<lambda>ac. m_queues s ac = []) categories"

definition transmit_immediately :: "'t TransmitRateControl \<Rightarrow> Transmission \<Rightarrow> 't FlowControl \<Rightarrow> bool \<times> 't FlowControl" where
  "transmit_immediately trc tx s =
    (let ac = map_profile_onto_ac (tx_profile tx);
         contention = list_ex (\<lambda>k. k \<ge> ac \<and> m_queues s k \<noteq> []) categories
     in if contention then (False, s) else (let (d, s) = flow_delay trc tx s in (d = 0, s)))"

fun next_queue_loop ::
  "'t TransmitRateControl \<Rightarrow> AccessCategory list \<Rightarrow> duration \<Rightarrow> AccessCategory option \<Rightarrow> 't FlowControl
     \<Rightarrow> AccessCategory option \<times> 't FlowControl" where
  "next_queue_loop trc [] min_delay best s = (best, s)"
| "next_queue_loop trc (ac # acs) min_delay best s = (case m_queues s ac of
      [] \<Rightarrow> next_queue_loop trc acs min_delay best s
    | p # _ \<Rightarrow>
        (let (d, s) = flow_delay trc (pending_tx p) s
         in if d < min_delay then next_queue_loop trc acs d (Some ac) s else next_queue_loop trc acs min_delay best s))"

definition next_queue :: "'t TransmitRateControl \<Rightarrow> 't FlowControl \<Rightarrow> AccessCategory option \<times> 't FlowControl" where
  "next_queue trc s = next_queue_loop trc categories time_point_max None s"

definition next_transmission :: "'t TransmitRateControl \<Rightarrow> 't FlowControl \<Rightarrow> PendingTransmission option \<times> 't FlowControl" where
  "next_transmission trc s = (let (q, s) = next_queue trc s in (map_option (\<lambda>ac. hd (m_queues s ac)) q, s))"

definition dequeue :: "'t TransmitRateControl \<Rightarrow> 't FlowControl \<Rightarrow> PendingTransmission option \<times> 't FlowControl" where
  "dequeue trc s =
    (let (q, s) = next_queue trc s
     in case q of
          None \<Rightarrow> (None, s)
        | Some ac \<Rightarrow> (Some (hd (m_queues s ac)), s\<lparr>m_queues := (m_queues s)(ac := tl (m_queues s ac))\<rparr>))"

definition transmit :: "DccDataRequest \<Rightarrow> DownPacket \<Rightarrow> 't FlowControl \<Rightarrow> 't FlowControl" where
  "transmit request packet s =
    (let ar = \<lparr>access_ether_type = dr_ether_type request, source_addr = dr_source request,
           destination_addr = dr_destination request, access_category = map_profile_onto_ac (dr_dcc_profile request)\<rparr>
     in s\<lparr>flow_log := flow_log s @ [TransmitHook (access_category ar) packet, AccessRequest ar packet]\<rparr>)"

definition schedule_trigger :: "'t TransmitRateControl \<Rightarrow> Transmission \<Rightarrow> 't FlowControl \<Rightarrow> 't FlowControl" where
  "schedule_trigger trc tx s =
    (let (callback_delay, s) = flow_delay trc tx s in schedule_in callback_delay FlowTrigger (Some ScopeFlow) s)"

text \<open>The loop that removes packets from the front of a full queue; also the number of packets removed.\<close>

fun make_room :: "nat \<Rightarrow> 'a list \<Rightarrow> nat \<times> 'a list" where
  "make_room limit [] = (0, [])"
| "make_room limit (x # xs) =
    (if limit > 0 \<and> length (x # xs) \<ge> limit then (let (n, ys) = make_room limit xs in (Suc n, ys)) else (0, x # xs))"

text \<open>The drop hook is called with the packet that arrives, not with the one that is removed.\<close>

definition enqueue :: "'t TransmitRateControl \<Rightarrow> DccDataRequest \<Rightarrow> DownPacket \<Rightarrow> 't FlowControl \<Rightarrow> 't FlowControl" where
  "enqueue trc request packet s =
    (let first_packet = flow_empty s;
         ac = map_profile_onto_ac (dr_dcc_profile request);
         p = \<lparr>pt_expiry = m_now s + dr_lifetime request, pt_request = request, pt_packet = packet\<rparr>;
         (dropped, queue) = make_room (m_queue_length s) (m_queues s ac);
         s = s\<lparr>flow_log := flow_log s @ replicate dropped (DropHook ac packet), m_queues := (m_queues s)(ac := queue @ [p])\<rparr>
     in if first_packet then schedule_trigger trc (pending_tx p) s else s)"

definition flow_request :: "'t TransmitRateControl \<Rightarrow> DccDataRequest \<Rightarrow> DownPacket \<Rightarrow> 't FlowControl \<Rightarrow> 't FlowControl" where
  "flow_request trc request packet s =
    (let s = flow_drop_expired s;
         tx = transmission_lite (dr_dcc_profile request) (chunk_size packet);
         (now, s) = transmit_immediately trc tx s
     in if now then transmit request packet (flow_notify trc tx s) else enqueue trc request packet s)"

definition flow_trigger :: "'t TransmitRateControl \<Rightarrow> 't FlowControl \<Rightarrow> 't FlowControl" where
  "flow_trigger trc s =
    (let s = flow_drop_expired s;
         (p, s) = dequeue trc s;
         s = (case p of None \<Rightarrow> s | Some p \<Rightarrow> transmit (pt_request p) (pt_packet p) (flow_notify trc (pending_tx p) s));
         (next, s) = next_transmission trc s
     in case next of None \<Rightarrow> s | Some p \<Rightarrow> schedule_trigger trc (pending_tx p) s)"

definition set_queue_length :: "nat \<Rightarrow> 't FlowControl \<Rightarrow> 't FlowControl" where
  "set_queue_length len s = s\<lparr>m_queue_length := len\<rparr>"

definition reschedule :: "'t TransmitRateControl \<Rightarrow> 't FlowControl \<Rightarrow> 't FlowControl" where
  "reschedule trc s =
    (let (next, s) = next_transmission trc s
     in case next of None \<Rightarrow> s | Some p \<Rightarrow> schedule_trigger trc (pending_tx p) (cancel (Some ScopeFlow) s))"

fun flow_run :: "'t TransmitRateControl \<Rightarrow> FlowCallback \<Rightarrow> time_point \<Rightarrow> 't FlowControl \<Rightarrow> 't FlowControl" where
  "flow_run trc FlowTrigger deadline s = flow_trigger trc s"

end
