(* ===== verification/FlowInv.thy ===== *)
theory FlowInv
  imports DccFlow
begin

text \<open>
  What flow control guarantees over any rate control: no packet is lost without notice, a
  waiting packet has a trigger due in bounded time, and the trigger serves the queue that has
  to wait least, the highest category first.
\<close>

subsection \<open>Frame\<close>

lemma flow_delay_state: "snd (flow_delay trc tx s) = s\<lparr>m_trc := snd (trc_delay trc tx (m_now s) (m_trc s))\<rparr>"
  "fst (flow_delay trc tx s) = fst (trc_delay trc tx (m_now s) (m_trc s))"
  by (simp_all add: flow_delay_def case_prod_beta)

text \<open>Waiting packets and packets that have left, by transmission or with a call of the drop hook.\<close>

definition waiting :: "'t FlowControl \<Rightarrow> nat" where
  "waiting s = sum_list (map (\<lambda>ac. length (m_queues s ac)) categories)"

fun leaves :: "FlowEvent \<Rightarrow> bool" where
  "leaves (DropHook ac p) = True"
| "leaves (TransmitHook ac p) = False"
| "leaves (AccessRequest r p) = True"

definition departed :: "'t FlowControl \<Rightarrow> nat" where
  "departed s = length (filter leaves (flow_log s))"

lemma set_categories [simp]: "set categories = UNIV"
proof -
  have "ac \<in> set categories" for ac by (cases ac) (simp_all add: categories_def)
  then show ?thesis by blast
qed

lemma distinct_categories [simp]: "distinct categories"
  by (simp add: categories_def)

lemma flow_empty_iff: "flow_empty s \<longleftrightarrow> (\<forall>ac. m_queues s ac = [])"
  by (simp add: flow_empty_def list_all_iff)

lemma waiting_0_iff: "waiting s = 0 \<longleftrightarrow> flow_empty s"
  by (auto simp: waiting_def flow_empty_def categories_def)

lemma waiting_update:
  "waiting (s\<lparr>m_queues := (m_queues s)(ac := q)\<rparr>) + length (m_queues s ac) = waiting s + length q"
  by (cases ac) (simp_all add: waiting_def categories_def)

lemma waiting_frame [simp]:
  "waiting (s\<lparr>m_trc := t\<rparr>) = waiting s" "waiting (s\<lparr>m_queue := q\<rparr>) = waiting s" "waiting (s\<lparr>flow_log := l\<rparr>) = waiting s"
  "waiting (s\<lparr>m_now := n\<rparr>) = waiting s" "waiting (s\<lparr>m_queue_length := k\<rparr>) = waiting s"
  by (simp_all add: waiting_def)

lemma departed_frame [simp]:
  "departed (s\<lparr>m_trc := t\<rparr>) = departed s" "departed (s\<lparr>m_queue := q\<rparr>) = departed s"
  "departed (s\<lparr>m_queues := qs\<rparr>) = departed s" "departed (s\<lparr>m_now := n\<rparr>) = departed s"
  "departed (s\<lparr>m_queue_length := k\<rparr>) = departed s"
  by (simp_all add: departed_def)

lemma schedule_frame [simp]:
  "waiting (schedule_in d cb sc s) = waiting s" "departed (schedule_in d cb sc s) = departed s"
  "m_queues (schedule_in d cb sc s) = m_queues s" "m_trc (schedule_in d cb sc s) = m_trc s"
  "flow_log (schedule_in d cb sc s) = flow_log s"
  by (simp_all add: schedule_in_def schedule_at_def waiting_def departed_def)

lemma cancel_frame [simp]:
  "waiting (cancel sc s) = waiting s" "departed (cancel sc s) = departed s"
  "m_queues (cancel sc s) = m_queues s" "m_trc (cancel sc s) = m_trc s"
  by (simp_all add: cancel_def waiting_def departed_def split: option.split)

subsection \<open>Dropping expired packets\<close>

lemma drop_category:
  "m_now (flow_drop_category ac s) = m_now s" "m_queue (flow_drop_category ac s) = m_queue s"
  "m_trc (flow_drop_category ac s) = m_trc s" "m_queue_length (flow_drop_category ac s) = m_queue_length s"
  "m_queues (flow_drop_category ac s) ac' =
    (if ac' = ac then filter (\<lambda>p. m_now s \<le> pt_expiry p) (m_queues s ac) else m_queues s ac')"
  by (simp_all add: flow_drop_category_def Let_def not_less)

lemma drop_category_conserves: "departed (flow_drop_category ac s) + waiting (flow_drop_category ac s) = departed s + waiting s"
proof -
  let ?e = "\<lambda>p. pt_expiry p < m_now s"
  have "length (filter ?e (m_queues s ac)) + length (filter (\<lambda>p. \<not> ?e p) (m_queues s ac)) = length (m_queues s ac)"
    by (rule sum_length_filter_compl)
  with waiting_update [of s ac "filter (\<lambda>p. \<not> ?e p) (m_queues s ac)"] show ?thesis
    by (simp add: flow_drop_category_def Let_def departed_def waiting_def)
qed

lemma drop_expired_frame [simp]:
  "m_now (flow_drop_expired s) = m_now s" "m_queue (flow_drop_expired s) = m_queue s"
  "m_trc (flow_drop_expired s) = m_trc s" "m_queue_length (flow_drop_expired s) = m_queue_length s"
  by (simp_all add: flow_drop_expired_def categories_def drop_category)

lemma drop_expired_queues: "m_queues (flow_drop_expired s) ac = filter (\<lambda>p. m_now s \<le> pt_expiry p) (m_queues s ac)"
  by (cases ac) (simp_all add: flow_drop_expired_def categories_def drop_category)

lemma drop_expired_conserves: "departed (flow_drop_expired s) + waiting (flow_drop_expired s) = departed s + waiting s"
  by (simp add: flow_drop_expired_def categories_def drop_category_conserves)

lemma drop_expired_waiting: "waiting (flow_drop_expired s) \<le> waiting s"
  by (simp add: waiting_def drop_expired_queues categories_def add_mono)

lemma drop_expired_empty: "flow_empty s \<Longrightarrow> flow_empty (flow_drop_expired s)"
  by (simp add: flow_empty_iff drop_expired_queues)

subsection \<open>Choice of the next queue\<close>

text \<open>The waiting time of the first packet of a category.\<close>

definition wait_time :: "'t TransmitRateControl \<Rightarrow> 't FlowControl \<Rightarrow> AccessCategory \<Rightarrow> duration" where
  "wait_time trc s ac = fst (trc_delay trc (pending_tx (hd (m_queues s ac))) (m_now s) (m_trc s))"

text \<open>States that differ only in what questions do to the rate control.\<close>

definition asked :: "(time_point \<Rightarrow> 't \<Rightarrow> bool) \<Rightarrow> 't TransmitRateControl \<Rightarrow> 't FlowControl \<Rightarrow> 't FlowControl \<Rightarrow> bool" where
  "asked ok trc s s' \<longleftrightarrow> s' = s\<lparr>m_trc := m_trc s'\<rparr> \<and> (ok (m_now s) (m_trc s) \<longrightarrow> ok (m_now s) (m_trc s'))
     \<and> (\<forall>tx. fst (trc_delay trc tx (m_now s) (m_trc s')) = fst (trc_delay trc tx (m_now s) (m_trc s)))"

lemma asked_refl [simp]: "asked ok trc s s"
  by (simp add: asked_def)

lemma asked_trans: "asked ok trc s s' \<Longrightarrow> asked ok trc s' s'' \<Longrightarrow> asked ok trc s s''"
  by (cases s; cases s'; cases s'') (auto simp: asked_def)

lemma asked_frame:
  assumes "asked ok trc s s'"
  shows "m_now s' = m_now s" "m_queue s' = m_queue s" "m_queues s' = m_queues s" "flow_log s' = flow_log s"
    "m_queue_length s' = m_queue_length s" "waiting s' = waiting s" "departed s' = departed s" "flow_empty s' = flow_empty s"
    "wait_time trc s' = wait_time trc s" "ok (m_now s) (m_trc s) \<Longrightarrow> ok (m_now s) (m_trc s')"
  using assms
  by (cases s; cases s'; auto simp: asked_def waiting_def departed_def flow_empty_def wait_time_def fun_eq_iff)+

text \<open>The first of the shortest waits in a list of categories, if below a bound.\<close>

definition chosen :: "'t TransmitRateControl \<Rightarrow> 't FlowControl \<Rightarrow> AccessCategory list \<Rightarrow> duration \<Rightarrow> AccessCategory option
  \<Rightarrow> AccessCategory option \<Rightarrow> bool" where
  "chosen trc s acs bound best r \<longleftrightarrow>
     (if \<exists>ac\<in>set acs. m_queues s ac \<noteq> [] \<and> wait_time trc s ac < bound
      then \<exists>ac\<in>set acs. r = Some ac \<and> m_queues s ac \<noteq> [] \<and> wait_time trc s ac < bound
        \<and> (\<forall>k\<in>set acs. m_queues s k \<noteq> [] \<longrightarrow> wait_time trc s ac < wait_time trc s k
              \<or> wait_time trc s ac = wait_time trc s k \<and> k \<le> ac)
      else r = best)"

lemma chosen_cong:
  "m_queues s' = m_queues s \<Longrightarrow> wait_time trc s' = wait_time trc s \<Longrightarrow> chosen trc s' acs b best r = chosen trc s acs b best r"
  unfolding chosen_def by (simp only:)

context rate_control
begin

lemma asked_delay: "asked ok trc s (snd (flow_delay trc tx s))"
  by (simp add: asked_def flow_delay_state delay_ok delay_stable)

lemma next_queue_loop_asked: "asked ok trc s (snd (next_queue_loop trc acs m best s))"
proof (induction acs arbitrary: m best s)
  case (Cons ac acs)
  show ?case
  proof (cases "m_queues s ac")
    case Nil
    then show ?thesis using Cons.IH by simp
  next
    case q: (Cons p ps)
    define s1 where "s1 = snd (flow_delay trc (pending_tx p) s)"
    have "asked ok trc s s1" unfolding s1_def by (rule asked_delay)
    then show ?thesis
      using q asked_trans [OF _ Cons.IH]
      by (auto simp: case_prod_beta Let_def s1_def [symmetric])
  qed
qed simp

lemma next_queue_loop_chosen:
  assumes "sorted_wrt (>) acs"
  shows "chosen trc s acs m best (fst (next_queue_loop trc acs m best s))"
  using assms
proof (induction acs arbitrary: m best s)
  case (Cons ac acs)
  have acs: "sorted_wrt (>) acs" and above: "\<And>k. k \<in> set acs \<Longrightarrow> k < ac" using Cons.prems by simp_all
  show ?case
  proof (cases "m_queues s ac")
    case Nil
    then show ?thesis using Cons.IH [OF acs] by (simp add: chosen_def)
  next
    case q: (Cons p ps)
    define s1 where "s1 = snd (flow_delay trc (pending_tx p) s)"
    have a: "asked ok trc s s1" unfolding s1_def by (rule asked_delay)
    have d: "fst (flow_delay trc (pending_tx p) s) = wait_time trc s ac" using q by (simp add: flow_delay_state wait_time_def)
    have IH: "chosen trc s acs m best (fst (next_queue_loop trc acs m best s1))" for m best
      using Cons.IH [OF acs, of s1 m best] chosen_cong [OF asked_frame(3,9) [OF a]] by simp
    show ?thesis
    proof (cases "wait_time trc s ac < m")
      case True
      then have eq: "fst (next_queue_loop trc (ac # acs) m best s) = fst (next_queue_loop trc acs (wait_time trc s ac) (Some ac) s1)"
        using q d by (simp add: case_prod_beta Let_def s1_def)
      show ?thesis unfolding eq
        using IH [of "wait_time trc s ac" "Some ac"] True q above unfolding chosen_def
        by (auto simp: not_less le_less split: if_splits)
    next
      case False
      then have eq: "fst (next_queue_loop trc (ac # acs) m best s) = fst (next_queue_loop trc acs m best s1)"
        using q d by (simp add: case_prod_beta Let_def s1_def)
      show ?thesis unfolding eq
        using IH [of m best] False unfolding chosen_def by (auto split: if_splits)
    qed
  qed
qed (simp add: chosen_def)

end

subsection \<open>Operations\<close>

text \<open>A rate control whose delays are below the largest duration, so that every queue is a candidate.\<close>

locale flow_rate = rate_control +
  assumes longest_finite: "longest < time_point_max"

definition serves :: "'t TransmitRateControl \<Rightarrow> 't FlowControl \<Rightarrow> AccessCategory \<Rightarrow> bool" where
  "serves trc s ac \<longleftrightarrow> m_queues s ac \<noteq> [] \<and>
     (\<forall>k. m_queues s k \<noteq> [] \<longrightarrow> wait_time trc s ac < wait_time trc s k \<or> wait_time trc s ac = wait_time trc s k \<and> k \<le> ac)"

definition trigger_due :: "duration \<Rightarrow> 't FlowControl \<Rightarrow> bool" where
  "trigger_due d s \<longleftrightarrow> (\<exists>e\<in>set (m_queue s). fst e \<le> m_now s + d)"

definition flow_ok :: "(time_point \<Rightarrow> 't \<Rightarrow> bool) \<Rightarrow> duration \<Rightarrow> 't FlowControl \<Rightarrow> bool" where
  "flow_ok ok longest s \<longleftrightarrow> ok (m_now s) (m_trc s) \<and> queue_ok s \<and> (flow_empty s \<or> trigger_due longest s)"

lemma queue_ok_asked: "asked ok trc s s' \<Longrightarrow> queue_ok s' = queue_ok s"
  by (simp add: queue_ok_def asked_frame(2))

lemma transmit_simps [simp]:
  "m_now (transmit r p s) = m_now s" "m_queue (transmit r p s) = m_queue s" "m_queues (transmit r p s) = m_queues s"
  "m_trc (transmit r p s) = m_trc s" "waiting (transmit r p s) = waiting s" "departed (transmit r p s) = Suc (departed s)"
  by (simp_all add: transmit_def Let_def waiting_def departed_def)

lemma flow_notify_simps [simp]:
  "m_now (flow_notify trc tx s) = m_now s" "m_queue (flow_notify trc tx s) = m_queue s"
  "m_queues (flow_notify trc tx s) = m_queues s" "waiting (flow_notify trc tx s) = waiting s"
  "departed (flow_notify trc tx s) = departed s" "flow_log (flow_notify trc tx s) = flow_log s"
  "m_trc (flow_notify trc tx s) = trc_notify trc tx (m_now s) (m_trc s)"
  by (simp_all add: flow_notify_def)

lemma make_room_length: "length (snd (make_room limit xs)) + fst (make_room limit xs) = length xs"
  by (induction xs) (auto simp: case_prod_beta)

lemma make_room_suffix: "\<exists>ys. xs = ys @ snd (make_room limit xs)"
  by (induction xs) (auto simp: case_prod_beta intro: exI [of _ "_ # _"])

lemma make_room_limit: "0 < limit \<Longrightarrow> length (snd (make_room limit xs)) < limit"
  by (induction xs) (auto simp: case_prod_beta not_le)

context flow_rate
begin

lemma next_queue_asked: "asked ok trc s (snd (next_queue trc s))"
  unfolding next_queue_def by (rule next_queue_loop_asked)

lemma next_queue_cases:
  assumes "ok (m_now s) (m_trc s)"
  obtains (none) "fst (next_queue trc s) = None" "flow_empty s"
    | (some) ac where "fst (next_queue trc s) = Some ac" "serves trc s ac"
proof -
  have c: "chosen trc s categories time_point_max None (fst (next_queue trc s))"
    unfolding next_queue_def
    by (rule next_queue_loop_chosen) (simp add: categories_def less_AccessCategory_def)
  have b: "wait_time trc s ac < time_point_max" for ac
    using delay_longest [OF assms] longest_finite unfolding wait_time_def by (rule le_less_trans)
  show ?thesis
  proof (cases "flow_empty s")
    case True
    then show ?thesis using c none by (simp add: chosen_def flow_empty_iff)
  next
    case False
    then show ?thesis using c b some unfolding chosen_def serves_def flow_empty_iff by auto
  qed
qed

lemma next_queue_None_iff: "ok (m_now s) (m_trc s) \<Longrightarrow> fst (next_queue trc s) = None \<longleftrightarrow> flow_empty s"
  by (erule next_queue_cases [of s]) (auto simp: serves_def flow_empty_iff)

lemma next_transmission_asked: "asked ok trc s (snd (next_transmission trc s))"
  using next_queue_asked by (simp add: next_transmission_def case_prod_beta)

lemma next_transmission_None_iff: "ok (m_now s) (m_trc s) \<Longrightarrow> fst (next_transmission trc s) = None \<longleftrightarrow> flow_empty s"
  using next_queue_None_iff by (simp add: next_transmission_def case_prod_beta)

lemma dequeue_cases:
  assumes "ok (m_now s) (m_trc s)"
  obtains (idle) s1 where "dequeue trc s = (None, s1)" "asked ok trc s s1" "flow_empty s"
    | (served) ac p ps s1 where "dequeue trc s = (Some p, s1\<lparr>m_queues := (m_queues s)(ac := ps)\<rparr>)" "asked ok trc s s1"
        "serves trc s ac" "m_queues s ac = p # ps"
proof -
  define s1 where "s1 = snd (next_queue trc s)"
  have a: "asked ok trc s s1" unfolding s1_def by (rule next_queue_asked)
  from assms show ?thesis
  proof (cases rule: next_queue_cases)
    case none
    then show ?thesis using idle [of s1] a by (simp add: dequeue_def case_prod_beta s1_def)
  next
    case (some ac)
    then obtain p ps where "m_queues s ac = p # ps" by (cases "m_queues s ac") (auto simp: serves_def)
    with some show ?thesis using served [where p = p and ?s1.0 = s1 and ac = ac and ps = ps] a asked_frame(3) [OF a]
      by (simp add: dequeue_def case_prod_beta s1_def [symmetric])
  qed
qed

lemma schedule_trigger_facts:
  assumes "ok (m_now s) (m_trc s)"
  shows "trigger_due longest (schedule_trigger trc tx s)" "queue_ok s \<Longrightarrow> queue_ok (schedule_trigger trc tx s)"
    "ok (m_now s) (m_trc (schedule_trigger trc tx s))" "m_now (schedule_trigger trc tx s) = m_now s"
    "m_queues (schedule_trigger trc tx s) = m_queues s" "waiting (schedule_trigger trc tx s) = waiting s"
    "departed (schedule_trigger trc tx s) = departed s" "flow_log (schedule_trigger trc tx s) = flow_log s"
    "expired_count (schedule_trigger trc tx s) \<le> Suc (expired_count s)"
proof -
  define s1 d where "s1 = snd (flow_delay trc tx s)" and "d = fst (flow_delay trc tx s)"
  have a: "asked ok trc s s1" unfolding s1_def by (rule asked_delay)
  note f = asked_frame [OF a]
  have eq: "schedule_trigger trc tx s = schedule_in d FlowTrigger (Some ScopeFlow) s1"
    by (simp add: schedule_trigger_def case_prod_beta s1_def d_def)
  have d: "d \<le> longest" using assms by (simp add: d_def flow_delay_state delay_longest)
  show "trigger_due longest (schedule_trigger trc tx s)"
    unfolding eq trigger_due_def using d f(1) by (auto simp: schedule_in_def schedule_at_def)
  show "expired_count (schedule_trigger trc tx s) \<le> Suc (expired_count s)"
    unfolding eq by (simp add: expired_count_def schedule_in_def schedule_at_def length_filter_insert_upper f(1,2))
  show "queue_ok s \<Longrightarrow> queue_ok (schedule_trigger trc tx s)"
    unfolding eq by (simp add: queue_ok_asked [OF a])
  show "ok (m_now s) (m_trc (schedule_trigger trc tx s))" "m_now (schedule_trigger trc tx s) = m_now s"
    "m_queues (schedule_trigger trc tx s) = m_queues s" "waiting (schedule_trigger trc tx s) = waiting s"
    "departed (schedule_trigger trc tx s) = departed s" "flow_log (schedule_trigger trc tx s) = flow_log s"
    unfolding eq using f assms by simp_all
qed

end

subsection \<open>The trigger and requests\<close>

context flow_rate
begin

lemma trigger_idle:
  assumes "ok (m_now s) (m_trc s)" "flow_empty (flow_drop_expired s)"
  shows "asked ok trc (flow_drop_expired s) (flow_trigger trc s)"
proof -
  define s0 where "s0 = flow_drop_expired s"
  have ok0: "ok (m_now s0) (m_trc s0)" and e0: "flow_empty s0" using assms by (simp_all add: s0_def)
  from ok0 show ?thesis
  proof (cases rule: dequeue_cases)
    case (idle s1)
    have ok1: "ok (m_now s1) (m_trc s1)" using asked_frame(1,10) [OF idle(2)] ok0 by simp
    have e1: "flow_empty s1" using asked_frame(8) [OF idle(2)] e0 by simp
    define s2 where "s2 = snd (next_transmission trc s1)"
    have "asked ok trc s1 s2" unfolding s2_def by (rule next_transmission_asked)
    with idle have "asked ok trc s0 s2" using asked_trans by blast
    moreover have "flow_trigger trc s = s2"
      using next_transmission_None_iff [OF ok1] e1 idle(1)
      by (simp add: flow_trigger_def Let_def case_prod_beta s0_def [symmetric] s2_def)
    ultimately show ?thesis by (simp add: s0_def)
  next
    case (served ac p ps s1)
    then show ?thesis using e0 by (simp add: flow_empty_iff)
  qed
qed

lemma trigger_served:
  assumes "ok (m_now s) (m_trc s)" "\<not> flow_empty (flow_drop_expired s)"
  defines "s0 \<equiv> flow_drop_expired s"
  obtains ac p ps where "serves trc s0 ac" "m_queues s0 ac = p # ps"
    "m_queues (flow_trigger trc s) = (m_queues s0)(ac := ps)"
    "flow_log (flow_trigger trc s) = flow_log (transmit (pt_request p) (pt_packet p) s0)"
    "m_now (flow_trigger trc s) = m_now s" "ok (m_now s) (m_trc (flow_trigger trc s))"
    "queue_ok s \<Longrightarrow> queue_ok (flow_trigger trc s)" "expired_count (flow_trigger trc s) \<le> Suc (expired_count s)"
    "flow_empty (flow_trigger trc s) \<or> trigger_due longest (flow_trigger trc s)"
proof -
  have ok0: "ok (m_now s0) (m_trc s0)" and e0: "\<not> flow_empty s0" using assms by (simp_all add: s0_def)
  from ok0 show ?thesis
  proof (cases rule: dequeue_cases)
    case (idle s1)
    then show ?thesis using e0 by simp
  next
    case (served ac p ps s1)
    note f1 = asked_frame [OF served(2)]
    define s2 where "s2 = transmit (pt_request p) (pt_packet p) (flow_notify trc (pending_tx p) (s1\<lparr>m_queues := (m_queues s0)(ac := ps)\<rparr>))"
    have n2: "m_now s2 = m_now s" using f1 by (simp add: s2_def s0_def)
    have ok2: "ok (m_now s2) (m_trc s2)" using f1 ok0 notify_ok by (simp add: s2_def)
    have q2: "m_queues s2 = (m_queues s0)(ac := ps)" by (simp add: s2_def)
    have r2: "m_queue s2 = m_queue s" using f1 by (simp add: s2_def s0_def)
    have l2: "flow_log s2 = flow_log (transmit (pt_request p) (pt_packet p) s0)" using f1 by (simp add: s2_def transmit_def Let_def)
    define s3 where "s3 = snd (next_transmission trc s2)"
    have a3: "asked ok trc s2 s3" unfolding s3_def by (rule next_transmission_asked)
    note f3 = asked_frame [OF a3]
    have ok3: "ok (m_now s3) (m_trc s3)" using f3 ok2 by simp
    have t: "flow_trigger trc s = (case fst (next_transmission trc s2) of None \<Rightarrow> s3 | Some p \<Rightarrow> schedule_trigger trc (pending_tx p) s3)"
      unfolding flow_trigger_def Let_def s0_def [symmetric] served(1)
      by (simp add: case_prod_beta s2_def s3_def split: option.split)
    have x3: "expired_count s3 = expired_count s" "queue_ok s3 = queue_ok s"
      using f3 n2 r2 by (simp_all add: expired_count_def queue_ok_def)
    show ?thesis
    proof (cases "fst (next_transmission trc s2)")
      case None
      then have "flow_empty s3" using next_transmission_None_iff [OF ok2] f3(8) by simp
      with None show ?thesis using served f3 n2 q2 l2 ok3 x3 t by (intro that) simp_all
    next
      case (Some n)
      note sch = schedule_trigger_facts [OF ok3, of "pending_tx n"]
      show ?thesis using served f3 n2 q2 l2 ok3 x3 t Some sch by (intro that) simp_all
    qed
  qed
qed

lemma trigger_counts:
  assumes "ok (m_now s) (m_trc s)"
  shows "departed (flow_trigger trc s) + waiting (flow_trigger trc s) = departed s + waiting s"
    "\<not> flow_empty s \<Longrightarrow> waiting (flow_trigger trc s) < waiting s"
    "expired_count (flow_trigger trc s) + waiting (flow_trigger trc s) \<le> expired_count s + waiting s"
    "m_now (flow_trigger trc s) = m_now s"
proof -
  define s0 where "s0 = flow_drop_expired s"
  have w0: "waiting s0 \<le> waiting s" "departed s0 + waiting s0 = departed s + waiting s"
    unfolding s0_def by (rule drop_expired_waiting, rule drop_expired_conserves)
  consider "flow_empty s0" | "\<not> flow_empty s0" by blast
  then have "departed (flow_trigger trc s) + waiting (flow_trigger trc s) = departed s + waiting s \<and>
    (\<not> flow_empty s \<longrightarrow> waiting (flow_trigger trc s) < waiting s) \<and>
    expired_count (flow_trigger trc s) + waiting (flow_trigger trc s) \<le> expired_count s + waiting s \<and>
    m_now (flow_trigger trc s) = m_now s"
  proof cases
    case 1
    note f = asked_frame [OF trigger_idle [OF assms 1 [unfolded s0_def]], folded s0_def]
    have "waiting s0 = 0" using 1 by (simp add: waiting_0_iff)
    moreover have "expired_count (flow_trigger trc s) = expired_count s"
      using f(1,2) by (simp add: expired_count_def s0_def)
    ultimately show ?thesis using f w0 waiting_0_iff [of s] by (auto simp: s0_def)
  next
    case 2
    then obtain ac p ps where q: "m_queues s0 ac = p # ps" "m_queues (flow_trigger trc s) = (m_queues s0)(ac := ps)"
      "flow_log (flow_trigger trc s) = flow_log (transmit (pt_request p) (pt_packet p) s0)"
      "m_now (flow_trigger trc s) = m_now s" "expired_count (flow_trigger trc s) \<le> Suc (expired_count s)"
      using assms unfolding s0_def by (metis trigger_served)
    have "waiting (flow_trigger trc s) + 1 = waiting s0"
      using waiting_update [of s0 ac ps] q(1,2) by (simp add: waiting_def)
    moreover have "departed (flow_trigger trc s) = Suc (departed s0)"
      using q(3) by (simp add: departed_def transmit_def Let_def)
    ultimately show ?thesis using w0 q by auto
  qed
  then show "departed (flow_trigger trc s) + waiting (flow_trigger trc s) = departed s + waiting s"
    "\<not> flow_empty s \<Longrightarrow> waiting (flow_trigger trc s) < waiting s"
    "expired_count (flow_trigger trc s) + waiting (flow_trigger trc s) \<le> expired_count s + waiting s"
    "m_now (flow_trigger trc s) = m_now s" by blast+
qed

end

context flow_rate
begin

lemma enqueue_facts:
  assumes "flow_ok ok longest s"
  shows "flow_ok ok longest (enqueue trc r p s)"
    "departed (enqueue trc r p s) + waiting (enqueue trc r p s) = Suc (departed s + waiting s)"
proof -
  define ac where "ac = map_profile_onto_ac (dr_dcc_profile r)"
  define pt where "pt = \<lparr>pt_expiry = m_now s + dr_lifetime r, pt_request = r, pt_packet = p\<rparr>"
  define n q where "n = fst (make_room (m_queue_length s) (m_queues s ac))" and "q = snd (make_room (m_queue_length s) (m_queues s ac))"
  define s1 where "s1 = s\<lparr>flow_log := flow_log s @ replicate n (DropHook ac p), m_queues := (m_queues s)(ac := q @ [pt])\<rparr>"
  have e: "enqueue trc r p s = (if flow_empty s then schedule_trigger trc (pending_tx pt) s1 else s1)"
    by (simp add: enqueue_def Let_def case_prod_beta ac_def pt_def n_def q_def s1_def)
  have ok: "ok (m_now s) (m_trc s)" "queue_ok s" using assms by (simp_all add: flow_ok_def)
  have f1: "m_now s1 = m_now s" "m_trc s1 = m_trc s" "m_queue s1 = m_queue s" by (simp_all add: s1_def)
  have ok1: "ok (m_now s1) (m_trc s1)" "queue_ok s1" using ok f1 by (simp_all add: queue_ok_def)
  have len: "length q + n = length (m_queues s ac)" unfolding n_def q_def by (rule make_room_length)
  have "waiting s1 + length (m_queues s ac) = waiting s + Suc (length q)"
    using waiting_update [of s ac "q @ [pt]"] by (simp add: s1_def waiting_def)
  moreover have "departed s1 = departed s + n" by (simp add: s1_def departed_def)
  ultimately have c: "departed s1 + waiting s1 = Suc (departed s + waiting s)" using len by simp
  note sch = schedule_trigger_facts [OF ok1(1), of "pending_tx pt"]
  show "departed (enqueue trc r p s) + waiting (enqueue trc r p s) = Suc (departed s + waiting s)"
    using c sch(6,7) by (simp add: e)
  show "flow_ok ok longest (enqueue trc r p s)"
    using assms ok1 sch f1 by (auto simp: e flow_ok_def trigger_due_def)
qed

lemma drop_expired_flow_ok: "flow_ok ok longest s \<Longrightarrow> flow_ok ok longest (flow_drop_expired s)"
  using drop_expired_empty [of s] by (auto simp: flow_ok_def queue_ok_def trigger_due_def)

lemma asked_flow_ok: "asked ok trc s s' \<Longrightarrow> flow_ok ok longest s \<Longrightarrow> flow_ok ok longest s'"
  using asked_frame [of ok trc s s'] by (simp add: flow_ok_def queue_ok_def trigger_due_def)

lemma transmit_immediately_asked: "asked ok trc s (snd (transmit_immediately trc tx s))"
  using asked_delay [of s tx] by (simp add: transmit_immediately_def Let_def case_prod_beta)

lemma request_facts:
  assumes "flow_ok ok longest s"
  shows "flow_ok ok longest (flow_request trc r p s)"
    "departed (flow_request trc r p s) + waiting (flow_request trc r p s) = Suc (departed s + waiting s)"
proof -
  define s0 where "s0 = flow_drop_expired s"
  define tx where "tx = transmission_lite (dr_dcc_profile r) (chunk_size p)"
  define now s1 where "now = fst (transmit_immediately trc tx s0)" and "s1 = snd (transmit_immediately trc tx s0)"
  have ok0: "flow_ok ok longest s0" unfolding s0_def by (rule drop_expired_flow_ok [OF assms])
  have a: "asked ok trc s0 s1" unfolding s1_def by (rule transmit_immediately_asked)
  note f = asked_frame [OF a] and ok1 = asked_flow_ok [OF a ok0]
  have c: "departed s1 + waiting s1 = departed s + waiting s"
    using f drop_expired_conserves [of s] by (simp add: s0_def)
  have e: "flow_request trc r p s = (if now then transmit r p (flow_notify trc tx s1) else enqueue trc r p s1)"
    by (simp add: flow_request_def Let_def case_prod_beta s0_def tx_def now_def s1_def)
  show "departed (flow_request trc r p s) + waiting (flow_request trc r p s) = Suc (departed s + waiting s)"
    using c enqueue_facts(2) [OF ok1] by (simp add: e)
  show "flow_ok ok longest (flow_request trc r p s)"
    using ok1 enqueue_facts(1) [OF ok1] notify_ok
    by (simp add: e flow_ok_def trigger_due_def queue_ok_def flow_empty_def)
qed

lemma reschedule_facts:
  assumes "flow_ok ok longest s"
  shows "flow_ok ok longest (reschedule trc s)"
    "departed (reschedule trc s) = departed s" "waiting (reschedule trc s) = waiting s"
proof -
  define s1 where "s1 = snd (next_transmission trc s)"
  have a: "asked ok trc s s1" unfolding s1_def by (rule next_transmission_asked)
  note f = asked_frame [OF a] and ok1 = asked_flow_ok [OF a assms]
  have e: "reschedule trc s = (case fst (next_transmission trc s) of None \<Rightarrow> s1
      | Some p \<Rightarrow> schedule_trigger trc (pending_tx p) (cancel (Some ScopeFlow) s1))"
    by (simp add: reschedule_def case_prod_beta s1_def split: option.split)
  have "ok (m_now (cancel (Some ScopeFlow) s1)) (m_trc (cancel (Some ScopeFlow) s1))" "queue_ok (cancel (Some ScopeFlow) s1)"
    using ok1 by (simp_all add: flow_ok_def)
  note sch = schedule_trigger_facts [OF this(1)] and q = this(2)
  show "flow_ok ok longest (reschedule trc s)"
    using ok1 sch q by (simp add: e flow_ok_def split: option.split)
  show "departed (reschedule trc s) = departed s" "waiting (reschedule trc s) = waiting s"
    using f sch by (simp_all add: e split: option.split)
qed

end

subsection \<open>Reachable states\<close>

text \<open>
  Anything may happen in any order: requests, expired callbacks, passing time, changes of the
  rate control by new measurements, reconfiguration. The number counts the requests.
\<close>

inductive flow_reach ::
  "'t TransmitRateControl \<Rightarrow> (time_point \<Rightarrow> 't \<Rightarrow> bool) \<Rightarrow> nat \<Rightarrow> 't FlowControl \<Rightarrow> bool" for trc ok where
  start: "ok now t \<Longrightarrow> flow_reach trc ok 0 (flow_control t now)"
| request: "flow_reach trc ok n s \<Longrightarrow> flow_reach trc ok (Suc n) (flow_request trc r p s)"
| fire: "flow_reach trc ok n s \<Longrightarrow> m_queue s = (d, cb, sc) # q \<Longrightarrow> d \<le> m_now s \<Longrightarrow>
    flow_reach trc ok n (flow_run trc cb d (s\<lparr>m_queue := q\<rparr>))"
| advance: "flow_reach trc ok n s \<Longrightarrow> m_now s \<le> later \<Longrightarrow> flow_reach trc ok n (s\<lparr>m_now := later\<rparr>)"
| retune: "flow_reach trc ok n s \<Longrightarrow> ok (m_now s) t \<Longrightarrow> flow_reach trc ok n (s\<lparr>m_trc := t\<rparr>)"
| limit: "flow_reach trc ok n s \<Longrightarrow> flow_reach trc ok n (set_queue_length len s)"
| reschedule: "flow_reach trc ok n s \<Longrightarrow> flow_reach trc ok n (reschedule trc s)"

text \<open>
  Popping the trigger that is fired leaves, for a moment, packets without trigger; the trigger
  itself restores the invariant.
\<close>

context flow_rate
begin

lemma trigger_flow_ok:
  assumes "ok (m_now s) (m_trc s)" "queue_ok s"
  shows "flow_ok ok longest (flow_trigger trc s)"
proof (cases "flow_empty (flow_drop_expired s)")
  case True
  show ?thesis using asked_frame [OF trigger_idle [OF assms(1) True]] assms True by (simp add: flow_ok_def queue_ok_def)
next
  case False
  then obtain ac p ps where "m_now (flow_trigger trc s) = m_now s" "ok (m_now s) (m_trc (flow_trigger trc s))"
    "queue_ok (flow_trigger trc s)" "flow_empty (flow_trigger trc s) \<or> trigger_due longest (flow_trigger trc s)"
    using assms by (metis trigger_served)
  then show ?thesis by (simp add: flow_ok_def)
qed

lemma reach_invariant: "flow_reach trc ok n s \<Longrightarrow> flow_ok ok longest s \<and> departed s + waiting s = n"
proof (induction rule: flow_reach.induct)
  case (start now t)
  then show ?case
    by (simp add: flow_ok_def flow_control_def queue_ok_def flow_empty_def departed_def waiting_def categories_def list_all_iff)
next
  case (fire n s d cb sc q)
  have cb: "cb = FlowTrigger" by (cases cb)
  let ?s = "s\<lparr>m_queue := q\<rparr>"
  have ok: "ok (m_now ?s) (m_trc ?s)" "queue_ok ?s"
    using fire by (simp_all add: flow_ok_def queue_ok_def)
  show ?case using trigger_flow_ok [OF ok] trigger_counts(1) [OF ok(1)] fire.IH by (simp add: cb)
next
  case (advance n s later)
  have "trigger_due longest s \<Longrightarrow> trigger_due longest (s\<lparr>m_now := later\<rparr>)"
    using advance.hyps(2) unfolding trigger_due_def by force
  then show ?case using advance later_ok by (auto simp: flow_ok_def queue_ok_def flow_empty_def)
next
  case (limit n s len)
  then show ?case by (simp add: set_queue_length_def flow_ok_def queue_ok_def trigger_due_def flow_empty_def)
next
  case (retune n s t)
  then show ?case by (simp add: flow_ok_def queue_ok_def trigger_due_def flow_empty_def)
qed (simp_all add: request_facts reschedule_facts)

end

interpretation flow_single_gradual: flow_rate "single_reactive_trc gradual_interval" "single_reactive_ok (gradual_ok 1000000)" 1000000
  by unfold_locales (simp add: time_point_max_def)

interpretation flow_single_meshed: flow_rate "single_reactive_trc meshed_interval" "single_reactive_ok meshed_ok" 460000
  by unfold_locales (simp add: time_point_max_def)

interpretation flow_bursty: flow_rate "bursty_trc meshed_interval" "bursty_ok meshed_ok" "max 460000 (m_burst_period burst_budget)"
  by unfold_locales (simp add: time_point_max_def burst_budget_def)

interpretation flow_limeric: flow_rate limeric_trc limeric_trc_ok max_interval
  by unfold_locales (simp add: time_point_max_def max_interval_def)

text \<open>Triggering the runtime of a flow control returns, however many packets may leave at once.\<close>

context flow_rate
begin

lemma flow_timer_work: "timer_work (flow_run trc) (\<lambda>s. ok (m_now s) (m_trc s) \<and> queue_ok s) waiting"
proof
  fix s :: "'a FlowControl" and cb d e q
  assume s: "ok (m_now s) (m_trc s) \<and> queue_ok s"
  have cb: "cb = FlowTrigger" by (cases cb)
  note ok = trigger_flow_ok [OF conjunct1 [OF s] conjunct2 [OF s]] and n = trigger_counts [OF conjunct1 [OF s]]
  show "ok (m_now (flow_run trc cb d s)) (m_trc (flow_run trc cb d s)) \<and> queue_ok (flow_run trc cb d s)"
    using ok by (simp add: cb flow_ok_def)
  show "m_now (flow_run trc cb d s) = m_now s" using n(4) by (simp add: cb)
  show "expired_count (flow_run trc cb d s) + waiting (flow_run trc cb d s) \<le> expired_count s + waiting s"
    using n(3) by (simp add: cb)
  show "queue_ok s" using s by simp
  show "ok (m_now (s\<lparr>m_queue := q\<rparr>)) (m_trc (s\<lparr>m_queue := q\<rparr>)) \<and> queue_ok (s\<lparr>m_queue := q\<rparr>)" if "m_queue s = e # q"
    using s that by (simp add: queue_ok_def)
qed simp

end

interpretation flow_limeric_timer: timer_work "flow_run limeric_trc" "\<lambda>s. limeric_trc_ok (m_now s) (m_trc s) \<and> queue_ok s" waiting
  by (rule flow_limeric.flow_timer_work)

interpretation flow_bursty_timer: timer_work "flow_run (bursty_trc meshed_interval)"
  "\<lambda>s. bursty_ok meshed_ok (m_now s) (m_trc s) \<and> queue_ok s" waiting
  by (rule flow_bursty.flow_timer_work)

subsection \<open>A transmission the rate control does not admit\<close>

text \<open>
  The trigger transmits without asking whether the rate control admits it. A packet of high
  priority that arrives at the instant the trigger is due passes first, and the queued packet
  follows at once.
\<close>

definition sample_request :: "Profile \<Rightarrow> DccDataRequest" where
  "sample_request dp = \<lparr>dr_ether_type = 0x8947, dr_source = mac_zero, dr_destination = cBroadcastMacAddress,
     dr_dcc_profile = dp, dr_lifetime = 1000000\<rparr>"

abbreviation meshed_single :: "FullyMeshedStateMachine SingleReactive TransmitRateControl" where
  "meshed_single \<equiv> single_reactive_trc meshed_interval"

definition rate_violation :: "FullyMeshedStateMachine SingleReactive FlowControl" where
  "rate_violation =
    (let p = (\<lambda>_. []);
         s = flow_control \<lparr>sr_fsm = fully_meshed_state_machine, sr_last_tx = None\<rparr> 0;
         s = flow_request meshed_single (sample_request DP0) p s;
         s = flow_request meshed_single (sample_request DP3) p (s\<lparr>m_now := 10000\<rparr>)
     in flow_request meshed_single (sample_request DP0) p (s\<lparr>m_now := 60000\<rparr>))"

lemma rate_violation_state:
  "m_now rate_violation = 60000" "m_queue rate_violation = [(60000, FlowTrigger, Some ScopeFlow)]"
  "sr_last_tx (m_trc rate_violation) = Some 60000" "waiting rate_violation = 1" "departed rate_violation = 2"
  "departed (flow_trigger meshed_single rate_violation) = 3"
  by code_simp+

lemma rate_violation_reachable: "flow_reach meshed_single (single_reactive_ok meshed_ok) 3 rate_violation"
proof -
  define s0 s1 s2 where "s0 = flow_control \<lparr>sr_fsm = fully_meshed_state_machine, sr_last_tx = None\<rparr> 0"
    and "s1 = flow_request meshed_single (sample_request DP0) (\<lambda>_. []) s0"
    and "s2 = flow_request meshed_single (sample_request DP3) (\<lambda>_. []) (s1\<lparr>m_now := 10000\<rparr>)"
  note reach = flow_reach.request flow_reach.advance
  have "flow_reach meshed_single (single_reactive_ok meshed_ok) 0 s0"
    unfolding s0_def by (rule flow_reach.start)
      (simp add: single_reactive_ok_def meshed_ok_def fully_meshed_state_machine_def sc_substates_def)
  then have r1: "flow_reach meshed_single (single_reactive_ok meshed_ok) 1 s1"
    using flow_reach.request unfolding s1_def One_nat_def by blast
  have "m_now s1 = 0" unfolding s1_def s0_def by code_simp
  with r1 have "flow_reach meshed_single (single_reactive_ok meshed_ok) 1 (s1\<lparr>m_now := 10000\<rparr>)"
    by (intro flow_reach.advance) simp_all
  then have r2: "flow_reach meshed_single (single_reactive_ok meshed_ok) (Suc 1) s2"
    using flow_reach.request unfolding s2_def by blast
  have "m_now s2 = 10000" unfolding s2_def s1_def s0_def by code_simp
  with r2 have "flow_reach meshed_single (single_reactive_ok meshed_ok) (Suc 1) (s2\<lparr>m_now := 60000\<rparr>)"
    by (intro flow_reach.advance) simp_all
  then have "flow_reach meshed_single (single_reactive_ok meshed_ok) (Suc (Suc 1))
      (flow_request meshed_single (sample_request DP0) (\<lambda>_. []) (s2\<lparr>m_now := 60000\<rparr>))"
    by (rule flow_reach.request)
  then show ?thesis
    unfolding rate_violation_def Let_def s2_def s1_def s0_def by (simp add: numeral_3_eq_3)
qed

subsection \<open>Properties\<close>

text \<open>C10: Flow control loses no packet silently and forgets no waiting packet. For every rate
  control that satisfies the contract, after any sequence of requests, expired callbacks,
  passing time, new measurements and reconfigurations, the number of requests equals the
  number of packets that have been transmitted or reported to the drop hook plus the number
  of packets that wait; and if a packet waits, a trigger is due within the longest delay the
  rate control asks for.\<close>

theorem flow_no_packet_forgotten:
  assumes "flow_rate trc ok longest" and "flow_reach trc ok n s"
  shows "departed s + waiting s = n \<and> (waiting s = 0 \<or> trigger_due longest s)"
  using flow_rate.reach_invariant [OF assms] by (auto simp: flow_ok_def waiting_0_iff)

theorem flow_no_packet_forgotten_witness:
  "departed rate_violation + waiting rate_violation = 3 \<and> (waiting rate_violation = 0 \<or> trigger_due 460000 rate_violation)"
  by (rule flow_no_packet_forgotten [OF flow_single_meshed.flow_rate_axioms rate_violation_reachable])

text \<open>C11: The trigger of flow control first drops the packets that have expired. If packets remain,
  it transmits exactly one, which has not expired: the first of the queue whose first packet
  has to wait least, and among those the queue of the highest access category. All other
  packets stay where they are. If none remains, it transmits nothing.\<close>

theorem flow_trigger_serves:
  assumes "flow_rate trc ok longest" and "ok (m_now s) (m_trc s)"
  shows "let s0 = flow_drop_expired s in
    if flow_empty s0 then flow_log (flow_trigger trc s) = flow_log s0 \<and> flow_empty (flow_trigger trc s)
    else \<exists>ac p ps. serves trc s0 ac \<and> m_queues s0 ac = p # ps \<and> m_now s \<le> pt_expiry p
      \<and> m_queues (flow_trigger trc s) = (m_queues s0)(ac := ps)
      \<and> flow_log (flow_trigger trc s) = flow_log (transmit (pt_request p) (pt_packet p) s0)"
proof (cases "flow_empty (flow_drop_expired s)")
  case True
  note a = flow_rate.trigger_idle [OF assms True]
  show ?thesis using asked_frame(4,8) [OF a] True by (simp add: Let_def)
next
  case False
  from flow_rate.trigger_served [OF assms False] obtain ac p ps where
    r: "serves trc (flow_drop_expired s) ac" "m_queues (flow_drop_expired s) ac = p # ps"
      "m_queues (flow_trigger trc s) = (m_queues (flow_drop_expired s))(ac := ps)"
      "flow_log (flow_trigger trc s) = flow_log (transmit (pt_request p) (pt_packet p) (flow_drop_expired s))"
    by metis
  have "p \<in> set (m_queues (flow_drop_expired s) ac)" using r(2) by simp
  then have "m_now s \<le> pt_expiry p" by (simp add: drop_expired_queues)
  with r False show ?thesis by (auto simp: Let_def)
qed

theorem flow_trigger_serves_witness:
  "let s0 = flow_drop_expired rate_violation in
    if flow_empty s0 then flow_log (flow_trigger meshed_single rate_violation) = flow_log s0 \<and> flow_empty (flow_trigger meshed_single rate_violation)
    else \<exists>ac p ps. serves meshed_single s0 ac \<and> m_queues s0 ac = p # ps \<and> m_now rate_violation \<le> pt_expiry p
      \<and> m_queues (flow_trigger meshed_single rate_violation) = (m_queues s0)(ac := ps)
      \<and> flow_log (flow_trigger meshed_single rate_violation) = flow_log (transmit (pt_request p) (pt_packet p) s0)"
proof -
  have "flow_ok (single_reactive_ok meshed_ok) 460000 rate_violation"
    using flow_single_meshed.reach_invariant [OF rate_violation_reachable] by simp
  then have "single_reactive_ok meshed_ok (m_now rate_violation) (m_trc rate_violation)" by (simp add: flow_ok_def)
  then show ?thesis by (rule flow_trigger_serves [OF flow_single_meshed.flow_rate_axioms])
qed

text \<open>C12: Triggering the runtime of flow control returns and leaves no expired callback, even
  though the trigger may schedule itself for the same instant: every round that does so has
  removed a waiting packet.\<close>

theorem flow_trigger_returns:
  assumes "flow_rate trc ok longest" and "ok (m_now s) (m_trc s)" and "queue_ok s"
  shows "\<exists>s'. trigger (flow_run trc) s = Some s' \<and> m_now s' = m_now s \<and> expired_count s' = 0"
  using timer_work.trigger_terminates [OF flow_rate.flow_timer_work [OF assms(1)], of s] assms(2,3) by blast

theorem flow_trigger_returns_witness:
  "\<exists>s'. trigger (flow_run meshed_single) rate_violation = Some s' \<and> m_now s' = m_now rate_violation \<and> expired_count s' = 0"
proof -
  have "flow_ok (single_reactive_ok meshed_ok) 460000 rate_violation"
    using flow_single_meshed.reach_invariant [OF rate_violation_reachable] by simp
  then have "single_reactive_ok meshed_ok (m_now rate_violation) (m_trc rate_violation)" "queue_ok rate_violation"
    by (simp_all add: flow_ok_def)
  then show ?thesis by (rule flow_trigger_returns [OF flow_single_meshed.flow_rate_axioms])
qed

end
