(* ===== verification/ItsTime.thy ===== *)
theory ItsTime
  imports Prelude
begin

text \<open>
  The time base of the port to ESP-IDF (\<open>ports/esp_idf/include/vanetza_idf/its_time.hpp\<close>):
  microseconds of atomic time since the ITS epoch, 1 January 2004, and their conversion from and
  to Unix time, which does not count leap seconds. Counts of microseconds are integers; the
  division of C++ rounds towards zero.
\<close>

definition epoch_unix_seconds :: int where "epoch_unix_seconds = 1072915200"

definition leap_second_unix_seconds :: "int list" where
  "leap_second_unix_seconds = [1136073600, 1230768000, 1341100800, 1435708800, 1483228800]"

definition leap_seconds_since_epoch :: "int \<Rightarrow> int" where
  "leap_seconds_since_epoch unix_seconds =
     fold (\<lambda>a count. if unix_seconds \<ge> a then count + 1 else count) leap_second_unix_seconds 0"

definition microseconds_since_epoch :: "int \<Rightarrow> int \<Rightarrow> int" where
  "microseconds_since_epoch unix_seconds sub_second_microseconds =
     (unix_seconds - epoch_unix_seconds + leap_seconds_since_epoch unix_seconds) * 1000000 + sub_second_microseconds"

text \<open>The argument is the time of the system clock in microseconds of Unix time.\<close>

definition since_epoch :: "int \<Rightarrow> int" where
  "since_epoch unix_us =
    (let seconds = (if unix_us \<ge> 0 then trunc_div unix_us 1000000 else - trunc_div (- unix_us + 999999) 1000000)
     in microseconds_since_epoch seconds (unix_us - seconds * 1000000))"

definition timestamp_its :: "int \<Rightarrow> 64 word" where
  "timestamp_its unix_us = word_of_int (trunc_div (since_epoch unix_us) 1000)"

definition time32 :: "int \<Rightarrow> u32" where
  "time32 unix_us = word_of_int (trunc_div (since_epoch unix_us) 1000000)"

text \<open>The loop over the leap seconds with the index of each.\<close>

definition leap_seconds_inserted :: "int \<Rightarrow> int" where
  "leap_seconds_inserted tai_seconds =
     fold (\<lambda>(i, a) inserted. if tai_seconds \<ge> a - epoch_unix_seconds + int (i + 1) then inserted + 1 else inserted)
       (List.enumerate 0 leap_second_unix_seconds) 0"

definition unix_microseconds :: "int \<Rightarrow> int" where
  "unix_microseconds us =
    (let tai_seconds = trunc_div us 1000000
     in (tai_seconds + epoch_unix_seconds - leap_seconds_inserted tai_seconds) * 1000000 + (us - tai_seconds * 1000000))"

subsection \<open>Facts\<close>

lemma leap_seconds_steps:
  "leap_seconds_since_epoch s = (if s \<ge> 1483228800 then 5 else if s \<ge> 1435708800 then 4 else if s \<ge> 1341100800 then 3
     else if s \<ge> 1230768000 then 2 else if s \<ge> 1136073600 then 1 else 0)"
  by (simp add: leap_seconds_since_epoch_def leap_second_unix_seconds_def)

lemma leap_seconds_inserted_steps:
  "leap_seconds_inserted t = (if t \<ge> 410313605 then 5 else if t \<ge> 362793604 then 4 else if t \<ge> 268185603 then 3
     else if t \<ge> 157852802 then 2 else if t \<ge> 63158401 then 1 else 0)"
  by (simp add: leap_seconds_inserted_def leap_second_unix_seconds_def epoch_unix_seconds_def enumerate_eq_zip)

text \<open>The second that the system clock is in is the floor, before 1970 as well.\<close>

lemma div_round_up: "0 < m \<Longrightarrow> - ((- u + (m - 1)) div m) = u div (m :: int)"
proof -
  assume m: "0 < m"
  have "- u + (m - 1) = (m - 1 - u mod m) + (- (u div m)) * m"
    by (simp add: algebra_simps minus_div_mult_eq_mod [symmetric])
  then have "(- u + (m - 1)) div m = - (u div m) + (m - 1 - u mod m) div m" using m by (simp only: div_mult_self1)
  moreover have "(m - 1 - u mod m) div m = 0"
    using m pos_mod_bound [OF m, of u] pos_mod_sign [OF m, of u] by (intro div_pos_pos_trivial) linarith+
  ultimately show ?thesis by simp
qed

lemma since_epoch_floor:
  "since_epoch u = (u div 1000000 - epoch_unix_seconds + leap_seconds_since_epoch (u div 1000000)) * 1000000 + u mod 1000000"
proof -
  have "(if u \<ge> 0 then trunc_div u 1000000 else - trunc_div (- u + 999999) 1000000) = u div 1000000"
    using div_round_up [of 1000000 u] by (simp add: trunc_div_nonneg)
  then show ?thesis by (simp add: since_epoch_def Let_def microseconds_since_epoch_def minus_div_mult_eq_mod)
qed

lemma unix_microseconds_floor:
  "unix_microseconds us = (us div 1000000 + epoch_unix_seconds - leap_seconds_inserted (us div 1000000)) * 1000000 + us mod 1000000"
proof (cases "us \<ge> 0")
  case True
  then show ?thesis by (simp add: unix_microseconds_def Let_def trunc_div_nonneg minus_div_mult_eq_mod)
next
  case False
  then have "trunc_div us 1000000 \<le> 0" by (simp add: trunc_div_def pos_imp_zdiv_nonneg_iff)
  moreover have "us div 1000000 < 0" using False by (simp add: pos_imp_zdiv_neg_iff)
  ultimately have "leap_seconds_inserted (trunc_div us 1000000) = 0" "leap_seconds_inserted (us div 1000000) = 0"
    by (simp_all add: leap_seconds_inserted_steps)
  then show ?thesis by (simp add: unix_microseconds_def Let_def algebra_simps)
qed

lemma inserted_since_epoch: "leap_seconds_inserted (s - epoch_unix_seconds + leap_seconds_since_epoch s) = leap_seconds_since_epoch s"
  by (simp add: leap_seconds_steps leap_seconds_inserted_steps epoch_unix_seconds_def)

lemma leap_seconds_mono: "s \<le> t \<Longrightarrow> leap_seconds_since_epoch s \<le> leap_seconds_since_epoch t"
  by (simp add: leap_seconds_steps)

lemma since_epoch_less: "u < v \<Longrightarrow> since_epoch u < since_epoch v"
proof -
  assume uv: "u < v"
  have r: "0 \<le> u mod 1000000" "u mod 1000000 < 1000000" "0 \<le> v mod 1000000" "v mod 1000000 < 1000000" by simp_all
  have "u div 1000000 \<le> v div 1000000" using uv by (simp add: zdiv_mono1)
  note l = leap_seconds_mono [OF this] this
  show ?thesis
  proof (cases "u div 1000000 = v div 1000000")
    case True
    then have "u mod 1000000 < v mod 1000000" using uv by (metis mult_div_mod_eq add_less_cancel_left)
    then show ?thesis by (simp add: since_epoch_floor True)
  next
    case False
    then have "u div 1000000 + 1 \<le> v div 1000000" using l by simp
    then show ?thesis using l(1) r unfolding since_epoch_floor by (simp add: algebra_simps)
  qed
qed

subsection \<open>Properties\<close>

text \<open>C27: Converting Unix time to ITS time and back gives the same instant, for every instant before and
  after the epoch, and ITS time is strictly increasing. Atomic time that falls into an inserted
  leap second is mapped to the same Unix time as the second that follows.\<close>

theorem its_time_round_trip:
  "unix_microseconds (since_epoch u) = u \<and> (since_epoch u < since_epoch v \<longleftrightarrow> u < v)
    \<and> list_all (\<lambda>l. unix_microseconds (microseconds_since_epoch l 0 - 1000000 + u mod 1000000) = l * 1000000 + u mod 1000000
        \<and> unix_microseconds (microseconds_since_epoch l 0 + u mod 1000000) = l * 1000000 + u mod 1000000) leap_second_unix_seconds"
proof (intro conjI)
  have "(k * 1000000 + u mod 1000000) div 1000000 = k" "(k * 1000000 + u mod 1000000) mod 1000000 = u mod 1000000" for k :: int
    by simp_all
  then have f: "unix_microseconds (k * 1000000 + u mod 1000000)
      = (k + epoch_unix_seconds - leap_seconds_inserted k) * 1000000 + u mod 1000000" for k
    unfolding unix_microseconds_floor by simp
  show "unix_microseconds (since_epoch u) = u"
    unfolding since_epoch_floor f inserted_since_epoch by simp
  show "since_epoch u < since_epoch v \<longleftrightarrow> u < v"
    using since_epoch_less [of u v] since_epoch_less [of v u] by (metis less_asym linorder_neqE)
  have m: "microseconds_since_epoch l 0 - 1000000 + u mod 1000000
        = (l - epoch_unix_seconds + leap_seconds_since_epoch l - 1) * 1000000 + u mod 1000000"
      "microseconds_since_epoch l 0 + u mod 1000000 = (l - epoch_unix_seconds + leap_seconds_since_epoch l) * 1000000 + u mod 1000000" for l
    by (simp_all add: microseconds_since_epoch_def)
  show "list_all (\<lambda>l. unix_microseconds (microseconds_since_epoch l 0 - 1000000 + u mod 1000000) = l * 1000000 + u mod 1000000
        \<and> unix_microseconds (microseconds_since_epoch l 0 + u mod 1000000) = l * 1000000 + u mod 1000000) leap_second_unix_seconds"
    unfolding m f by (simp add: leap_second_unix_seconds_def leap_seconds_steps leap_seconds_inserted_steps epoch_unix_seconds_def)
qed

text \<open>The example of the standard: 1 January 2007 is 94694401000 milliseconds after the epoch.\<close>

lemma timestamp_example: "since_epoch 1167609600000000 = 94694401000000"
  by code_simp

end
