(* ===== verification/Cert.thy ===== *)
theory Cert
  imports RouterCore
begin

text \<open>
  Certificates of the TS 103 097 format (\<open>vanetza/security/v3/certificate.cpp\<close>, \<open>hash.cpp\<close>,
  \<open>asn1_conversions.cpp\<close>, \<open>validity_restriction.cpp\<close>, \<open>security/hashed_id.cpp\<close>): the fields of
  the structure that the code reads, their queries, canonicalisation and digests.

  The C structures are generated from ASN.1. They are records and datatypes here, with one
  constructor per alternative the code names and one for all others; the elements of their
  sequences are present (the decoder leaves no null pointer in a sequence), and fields no
  code reads are kept as the octets \<open>tbs_rest\<close>. The encoder of a structure (which may
  throw), the hash functions and the signature scheme are parameters.
\<close>

subsection \<open>Keys, signatures and digests\<close>

type_synonym HashedId8 = bytes
type_synonym HashedId3 = bytes

datatype KeyType = KT_Unspecified | KT_NistP256 | KT_BrainpoolP256r1 | KT_BrainpoolP384r1
datatype HashAlgorithm = HA_Unspecified | HA_SHA256 | HA_SHA384
datatype KeyCompression = NoCompression | Compress_Y0 | Compress_Y1

record PublicKey =
  pk_type :: KeyType
  pk_compression :: KeyCompression
  pk_x :: bytes
  pk_y :: bytes

record Signature =
  sig_type :: KeyType
  sig_r :: bytes
  sig_s :: bytes

text \<open>The points of curves with 256 and with 384 bit have the same alternatives.\<close>

datatype EccCurvePoint = Compressed_y_0 bytes | Compressed_y_1 bytes | X_only bytes | Uncompressed bytes bytes | Point_other

datatype PublicVerificationKey = EcdsaNistP256 EccCurvePoint | EcdsaBrainpoolP256r1 EccCurvePoint
  | EcdsaBrainpoolP384r1 EccCurvePoint | Verification_other

datatype VerificationKeyIndicator = VerificationKey PublicVerificationKey | ReconstructionValue EccCurvePoint | Indicator_other

datatype BasePublicEncryptionKey = EciesNistP256 EccCurvePoint | EciesBrainpoolP256r1 EccCurvePoint | Encryption_other

record PublicEncryptionKey =
  symm_alg_aes128ccm :: bool
  encryption_public_key :: BasePublicEncryptionKey

datatype AsnSignature = NistP256Signature EccCurvePoint bytes | BrainpoolP256r1Signature EccCurvePoint bytes
  | BrainpoolP384r1Signature EccCurvePoint bytes | Signature_other

definition create_hashed_id8 :: "bytes \<Rightarrow> HashedId8" where
  "create_hashed_id8 digest = drop (length digest - 8) digest"

definition truncate_id :: "HashedId8 \<Rightarrow> HashedId3" where
  "truncate_id i = drop (length i - 3) i"

fun specified_hash_algorithm :: "KeyType \<Rightarrow> HashAlgorithm" where
  "specified_hash_algorithm KT_NistP256 = HA_SHA256"
| "specified_hash_algorithm KT_BrainpoolP256r1 = HA_SHA256"
| "specified_hash_algorithm KT_BrainpoolP384r1 = HA_SHA384"
| "specified_hash_algorithm KT_Unspecified = HA_Unspecified"

fun is_compressed :: "EccCurvePoint \<Rightarrow> bool" where
  "is_compressed (Compressed_y_0 x) = True"
| "is_compressed (Compressed_y_1 x) = True"
| "is_compressed _ = False"

text \<open>The changed point, or \<open>None\<close> where the code returns false.\<close>

fun compress :: "EccCurvePoint \<Rightarrow> EccCurvePoint option" where
  "compress (Uncompressed x y) =
    Some (if y \<noteq> [] \<and> last y AND 1 \<noteq> 0 then Compressed_y_1 x else Compressed_y_0 x)"
| "compress (Compressed_y_0 x) = Some (Compressed_y_0 x)"
| "compress (Compressed_y_1 x) = Some (Compressed_y_1 x)"
| "compress _ = None"

fun make_x_only :: "EccCurvePoint \<Rightarrow> EccCurvePoint option" where
  "make_x_only (Uncompressed x y) = Some (X_only x)"
| "make_x_only (X_only x) = Some (X_only x)"
| "make_x_only _ = None"

fun get_x_coordinate :: "EccCurvePoint \<Rightarrow> bytes" where
  "get_x_coordinate (Compressed_y_0 x) = x"
| "get_x_coordinate (Compressed_y_1 x) = x"
| "get_x_coordinate (X_only x) = x"
| "get_x_coordinate (Uncompressed x y) = x"
| "get_x_coordinate Point_other = []"

fun copy_curve_point :: "KeyType \<Rightarrow> EccCurvePoint \<Rightarrow> PublicKey option" where
  "copy_curve_point t (Compressed_y_0 x) = Some \<lparr>pk_type = t, pk_compression = Compress_Y0, pk_x = x, pk_y = []\<rparr>"
| "copy_curve_point t (Compressed_y_1 x) = Some \<lparr>pk_type = t, pk_compression = Compress_Y1, pk_x = x, pk_y = []\<rparr>"
| "copy_curve_point t (Uncompressed x y) = Some \<lparr>pk_type = t, pk_compression = NoCompression, pk_x = x, pk_y = y\<rparr>"
| "copy_curve_point t _ = None"

fun is_x_only :: "EccCurvePoint \<Rightarrow> bool" where
  "is_x_only (X_only x) = True"
| "is_x_only _ = False"

fun is_signature_x_only :: "AsnSignature \<Rightarrow> bool" where
  "is_signature_x_only (NistP256Signature r s) = is_x_only r"
| "is_signature_x_only (BrainpoolP256r1Signature r s) = is_x_only r"
| "is_signature_x_only (BrainpoolP384r1Signature r s) = is_x_only r"
| "is_signature_x_only Signature_other = True"

fun make_signature_x_only :: "AsnSignature \<Rightarrow> AsnSignature option" where
  "make_signature_x_only (NistP256Signature r s) = map_option (\<lambda>r. NistP256Signature r s) (make_x_only r)"
| "make_signature_x_only (BrainpoolP256r1Signature r s) = map_option (\<lambda>r. BrainpoolP256r1Signature r s) (make_x_only r)"
| "make_signature_x_only (BrainpoolP384r1Signature r s) = map_option (\<lambda>r. BrainpoolP384r1Signature r s) (make_x_only r)"
| "make_signature_x_only Signature_other = None"

text \<open>Reading of a signature of a certificate or of a message.\<close>

fun signature_of_asn :: "AsnSignature \<Rightarrow> Signature option" where
  "signature_of_asn (NistP256Signature r s) = Some \<lparr>sig_type = KT_NistP256, sig_r = get_x_coordinate r, sig_s = s\<rparr>"
| "signature_of_asn (BrainpoolP256r1Signature r s) =
    Some \<lparr>sig_type = KT_BrainpoolP256r1, sig_r = get_x_coordinate r, sig_s = s\<rparr>"
| "signature_of_asn (BrainpoolP384r1Signature r s) =
    Some \<lparr>sig_type = KT_BrainpoolP384r1, sig_r = get_x_coordinate r, sig_s = s\<rparr>"
| "signature_of_asn Signature_other = None"

subsection \<open>The structure\<close>

datatype IssuerIdentifier = Sha256AndDigest HashedId8 | IssuerSelf HashAlgorithm | Sha384AndDigest HashedId8 | Issuer_other

datatype Duration = Dur_nothing | Dur_microseconds u16 | Dur_milliseconds u16 | Dur_seconds u16 | Dur_minutes u16
  | Dur_hours u16 | Dur_sixtyHours u16 | Dur_years u16

record ValidityPeriod =
  period_start :: u32
  period_duration :: Duration

datatype Ssp = Ssp_opaque bytes | Ssp_bitmap bytes | Ssp_other

record PsidSsp =
  app_psid :: int
  app_ssp :: "Ssp option"

datatype SspRange = Range_opaque "bytes list" | Range_all | Range_bitmap bytes bytes | Range_other

record PsidSspRange =
  range_psid :: int
  ssp_range :: "SspRange option"

datatype SubjectPermissions = Perm_explicit "PsidSspRange list" | Perm_all | Perm_other

record PsidGroupPermissions =
  subject_permissions :: SubjectPermissions
  min_chain_length :: "int option"
  chain_length_range :: int
  ee_type :: "bytes option"

record TwoDLocation =
  loc_latitude :: int
  loc_longitude :: int

record CircularRegion =
  circle_center :: TwoDLocation
  circle_radius :: int

record RectangularRegion =
  north_west :: TwoDLocation
  south_east :: TwoDLocation

datatype IdentifiedRegion = Country_only int | Country_and_regions int "int list"
  | Country_and_subregions int "(int \<times> int list) list" | Identified_other

datatype GeographicRegion = Region_circular CircularRegion | Region_rectangular "RectangularRegion list"
  | Region_polygonal "TwoDLocation list" | Region_identified "IdentifiedRegion list" | Region_nothing | Region_other

record Certificate =
  issuer :: IssuerIdentifier
  id_none :: bool
  validity_period :: ValidityPeriod
  cert_region :: "GeographicRegion option"
  assurance :: "bytes option"
  app_permissions :: "PsidSsp list option"
  cert_issue_permissions :: "PsidGroupPermissions list option"
  encryption_key :: "PublicEncryptionKey option"
  verify_key_indicator :: VerificationKeyIndicator
  tbs_rest :: bytes
  cert_signature :: "AsnSignature option"

text \<open>What is not under the control of this code.\<close>

record Crypto =
  encode_certificate :: "Certificate \<Rightarrow> bytes option"
  encode_tbs :: "Certificate \<Rightarrow> bytes option"
  calculate_sha256_digest :: "bytes \<Rightarrow> bytes"
  calculate_sha384_digest :: "bytes \<Rightarrow> bytes"
  calculate_hash :: "HashAlgorithm \<Rightarrow> bytes \<Rightarrow> bytes"
  verify_digest :: "PublicKey \<Rightarrow> bytes \<Rightarrow> Signature \<Rightarrow> bool"
  sign_digest :: "bytes \<Rightarrow> bytes \<Rightarrow> Signature option"
  within_polygon :: "real \<times> real \<Rightarrow> TwoDLocation list \<Rightarrow> bool"

subsection \<open>Queries\<close>

definition is_self_issued :: "Certificate \<Rightarrow> bool" where
  "is_self_issued c = (case issuer c of IssuerSelf h \<Rightarrow> True | _ \<Rightarrow> False)"

definition issuer_digest :: "Certificate \<Rightarrow> HashedId8 option" where
  "issuer_digest c = (case issuer c of Sha256AndDigest d \<Rightarrow> Some (take 8 d) | Sha384AndDigest d \<Rightarrow> Some (take 8 d) | _ \<Rightarrow> None)"

definition has_region_restriction :: "Certificate \<Rightarrow> bool" where
  "has_region_restriction c \<longleftrightarrow> cert_region c \<noteq> None"

definition is_ca_certificate :: "Certificate \<Rightarrow> bool" where
  "is_ca_certificate c \<longleftrightarrow> cert_issue_permissions c \<noteq> None"

definition is_at_certificate :: "Certificate \<Rightarrow> bool" where
  "is_at_certificate c \<longleftrightarrow> cert_issue_permissions c = None \<and> app_permissions c \<noteq> None"

definition valid_for_application :: "Certificate \<Rightarrow> ItsAid \<Rightarrow> bool" where
  "valid_for_application c a = (case app_permissions c of None \<Rightarrow> False | Some ps \<Rightarrow> list_ex (\<lambda>p. app_psid p = uint a) ps)"

definition contains_permission :: "PsidSspRange list \<Rightarrow> ItsAid \<Rightarrow> bool" where
  "contains_permission rs a = list_ex (\<lambda>r. range_psid r = uint a) rs"

definition is_allowed_to_issue :: "Certificate \<Rightarrow> ItsAid \<Rightarrow> bool" where
  "is_allowed_to_issue c a = (case cert_issue_permissions c of None \<Rightarrow> False
     | Some gs \<Rightarrow> list_ex (\<lambda>g. case subject_permissions g of Perm_all \<Rightarrow> True
                                | Perm_explicit rs \<Rightarrow> contains_permission rs a | Perm_other \<Rightarrow> False) gs)"

definition assurance_level :: "Certificate \<Rightarrow> byte option" where
  "assurance_level c = (case assurance c of None \<Rightarrow> None | Some [] \<Rightarrow> None | Some (b # bs) \<Rightarrow> Some b)"

fun get_app_permissions_from :: "PsidSsp list \<Rightarrow> ItsAid \<Rightarrow> bytes" where
  "get_app_permissions_from [] a = []"
| "get_app_permissions_from (p # ps) a =
    (if app_psid p = uint a
     then case app_ssp p of Some (Ssp_bitmap b) \<Rightarrow> b | Some (Ssp_opaque b) \<Rightarrow> b | _ \<Rightarrow> get_app_permissions_from ps a
     else get_app_permissions_from ps a)"

definition get_app_permissions :: "Certificate \<Rightarrow> ItsAid \<Rightarrow> bytes" where
  "get_app_permissions c a = (case app_permissions c of None \<Rightarrow> [] | Some ps \<Rightarrow> get_app_permissions_from ps a)"

definition get_aids :: "Certificate \<Rightarrow> ItsAid list" where
  "get_aids c = (case app_permissions c of None \<Rightarrow> [] | Some ps \<Rightarrow> map (\<lambda>p. word_of_int (app_psid p)) ps)"

definition get_verification_key_type :: "Certificate \<Rightarrow> KeyType" where
  "get_verification_key_type c = (case verify_key_indicator c of
     VerificationKey (EcdsaNistP256 p) \<Rightarrow> KT_NistP256
   | VerificationKey (EcdsaBrainpoolP256r1 p) \<Rightarrow> KT_BrainpoolP256r1
   | VerificationKey (EcdsaBrainpoolP384r1 p) \<Rightarrow> KT_BrainpoolP384r1
   | _ \<Rightarrow> KT_Unspecified)"

definition get_public_key :: "Certificate \<Rightarrow> PublicKey option" where
  "get_public_key c = (case verify_key_indicator c of
     VerificationKey (EcdsaNistP256 p) \<Rightarrow> copy_curve_point KT_NistP256 p
   | VerificationKey (EcdsaBrainpoolP256r1 p) \<Rightarrow> copy_curve_point KT_BrainpoolP256r1 p
   | VerificationKey (EcdsaBrainpoolP384r1 p) \<Rightarrow> copy_curve_point KT_BrainpoolP384r1 p
   | _ \<Rightarrow> None)"

definition get_public_encryption_key :: "Certificate \<Rightarrow> PublicKey option" where
  "get_public_encryption_key c = (case encryption_key c of None \<Rightarrow> None
   | Some k \<Rightarrow> if \<not> symm_alg_aes128ccm k then None
       else (case encryption_public_key k of
           EciesNistP256 p \<Rightarrow> copy_curve_point KT_NistP256 p
         | EciesBrainpoolP256r1 p \<Rightarrow> copy_curve_point KT_BrainpoolP256r1 p
         | Encryption_other \<Rightarrow> None))"

definition get_signature :: "Certificate \<Rightarrow> Signature option" where
  "get_signature c = (case cert_signature c of None \<Rightarrow> None | Some s \<Rightarrow> signature_of_asn s)"

definition digest_hash_algorithm :: "Certificate \<Rightarrow> HashAlgorithm" where
  "digest_hash_algorithm c = (case verify_key_indicator c of
     VerificationKey (EcdsaNistP256 p) \<Rightarrow> HA_SHA256
   | VerificationKey (EcdsaBrainpoolP256r1 p) \<Rightarrow> HA_SHA256
   | VerificationKey (EcdsaBrainpoolP384r1 p) \<Rightarrow> HA_SHA384
   | VerificationKey Verification_other \<Rightarrow> HA_Unspecified
   | ReconstructionValue p \<Rightarrow> HA_SHA256
   | Indicator_other \<Rightarrow> HA_Unspecified)"

subsection \<open>Validity in time\<close>

text \<open>The span of a duration in microseconds; a year has 31556952 seconds.\<close>

fun duration_us :: "Duration \<Rightarrow> duration" where
  "duration_us Dur_nothing = 0"
| "duration_us (Dur_microseconds n) = uint n"
| "duration_us (Dur_milliseconds n) = uint n * 1000"
| "duration_us (Dur_seconds n) = uint n * 1000000"
| "duration_us (Dur_minutes n) = uint n * 60 * 1000000"
| "duration_us (Dur_hours n) = uint n * 3600 * 1000000"
| "duration_us (Dur_sixtyHours n) = 60 * 3600 * uint n * 1000000"
| "duration_us (Dur_years n) = 31556952 * uint n * 1000000"

definition valid_at_timepoint :: "Certificate \<Rightarrow> time_point \<Rightarrow> bool" where
  "valid_at_timepoint c t =
    (let start = uint (period_start (validity_period c)) * 1000000;
         end_of = start + duration_us (period_duration (validity_period c))
     in t \<ge> start \<and> t < end_of)"

text \<open>The same in seconds of 32 bit, where a year has 365 days. A product beyond the range of
  \<open>int\<close> is taken to wrap around.\<close>

fun duration_s :: "Duration \<Rightarrow> u32" where
  "duration_s Dur_nothing = 0"
| "duration_s (Dur_microseconds n) = ucast n div 1000000"
| "duration_s (Dur_milliseconds n) = ucast n div 1000"
| "duration_s (Dur_seconds n) = ucast n"
| "duration_s (Dur_minutes n) = ucast n * 60"
| "duration_s (Dur_hours n) = ucast n * 60 * 60"
| "duration_s (Dur_sixtyHours n) = ucast n * 60 * 60 * 60"
| "duration_s (Dur_years n) = ucast n * 60 * 60 * 24 * 365"

record StartAndEndValidity =
  start_validity :: u32
  end_validity :: u32

definition get_start_and_end_validity :: "Certificate \<Rightarrow> StartAndEndValidity" where
  "get_start_and_end_validity c =
    (let start = period_start (validity_period c)
     in \<lparr>start_validity = start, end_validity = start + duration_s (period_duration (validity_period c))\<rparr>)"

subsection \<open>Canonical form and digest\<close>

definition is_canonical :: "Certificate \<Rightarrow> bool" where
  "is_canonical c =
    (let compressed_point = (case verify_key_indicator c of
         VerificationKey (EcdsaNistP256 p) \<Rightarrow> is_compressed p
       | VerificationKey (EcdsaBrainpoolP256r1 p) \<Rightarrow> is_compressed p
       | VerificationKey (EcdsaBrainpoolP384r1 p) \<Rightarrow> is_compressed p
       | VerificationKey Verification_other \<Rightarrow> True
       | ReconstructionValue p \<Rightarrow> is_compressed p
       | Indicator_other \<Rightarrow> True)
     in if \<not> compressed_point then False
        else case cert_signature c of Some s \<Rightarrow> is_signature_x_only s | None \<Rightarrow> True)"

definition compress_indicator :: "VerificationKeyIndicator \<Rightarrow> VerificationKeyIndicator option" where
  "compress_indicator i = (case i of
     VerificationKey (EcdsaNistP256 p) \<Rightarrow> map_option (\<lambda>p. VerificationKey (EcdsaNistP256 p)) (compress p)
   | VerificationKey (EcdsaBrainpoolP256r1 p) \<Rightarrow> map_option (\<lambda>p. VerificationKey (EcdsaBrainpoolP256r1 p)) (compress p)
   | VerificationKey (EcdsaBrainpoolP384r1 p) \<Rightarrow> map_option (\<lambda>p. VerificationKey (EcdsaBrainpoolP384r1 p)) (compress p)
   | VerificationKey Verification_other \<Rightarrow> Some i
   | ReconstructionValue p \<Rightarrow> map_option ReconstructionValue (compress p)
   | Indicator_other \<Rightarrow> Some i)"

definition compress_encryption :: "PublicEncryptionKey \<Rightarrow> PublicEncryptionKey option" where
  "compress_encryption k = (case encryption_public_key k of
     EciesNistP256 p \<Rightarrow> map_option (\<lambda>p. k\<lparr>encryption_public_key := EciesNistP256 p\<rparr>) (compress p)
   | EciesBrainpoolP256r1 p \<Rightarrow> map_option (\<lambda>p. k\<lparr>encryption_public_key := EciesBrainpoolP256r1 p\<rparr>) (compress p)
   | Encryption_other \<Rightarrow> Some k)"

text \<open>Applies a step to a field that is there; the step may fail.\<close>

fun on_present :: "('a \<Rightarrow> 'a option) \<Rightarrow> 'a option \<Rightarrow> 'a option option" where
  "on_present f None = Some None"
| "on_present f (Some a) = map_option Some (f a)"

definition canonicalize_cert :: "Certificate \<Rightarrow> Certificate option" where
  "canonicalize_cert c = do {
     i \<leftarrow> compress_indicator (verify_key_indicator c);
     e \<leftarrow> on_present compress_encryption (encryption_key c);
     s \<leftarrow> on_present make_signature_x_only (cert_signature c);
     Some (c\<lparr>verify_key_indicator := i, encryption_key := e, cert_signature := s\<rparr>) }"

definition calculate_digest_internal :: "Crypto \<Rightarrow> Certificate \<Rightarrow> HashAlgorithm \<Rightarrow> HashedId8 option" where
  "calculate_digest_internal cr c h = (case encode_certificate cr c of None \<Rightarrow> None
     | Some buffer \<Rightarrow> (case h of
           HA_SHA256 \<Rightarrow> Some (create_hashed_id8 (calculate_sha256_digest cr buffer))
         | HA_SHA384 \<Rightarrow> Some (create_hashed_id8 (calculate_sha384_digest cr buffer))
         | HA_Unspecified \<Rightarrow> None))"

definition calculate_digest :: "Crypto \<Rightarrow> Certificate \<Rightarrow> HashedId8 option" where
  "calculate_digest cr c =
    (let h = digest_hash_algorithm c
     in if h \<noteq> HA_Unspecified
        then if is_canonical c then calculate_digest_internal cr c h
             else (case canonicalize_cert c of Some c' \<Rightarrow> calculate_digest_internal cr c' h | None \<Rightarrow> None)
        else None)"

text \<open>The hash a message is signed with; \<open>None\<close> if the certificate cannot be encoded.\<close>

definition calculate_message_hash :: "Crypto \<Rightarrow> HashAlgorithm \<Rightarrow> bytes \<Rightarrow> Certificate \<Rightarrow> bytes option" where
  "calculate_message_hash cr h message c = do {
     encoded \<leftarrow> (if is_canonical c then encode_certificate cr c
                 else case canonicalize_cert c of Some c' \<Rightarrow> encode_certificate cr c' | None \<Rightarrow> Some []);
     Some (calculate_hash cr h (calculate_hash cr h message @ calculate_hash cr h encoded)) }"

subsection \<open>Construction\<close>

definition add_app_permission :: "ItsAid \<Rightarrow> bytes \<Rightarrow> Certificate \<Rightarrow> Certificate" where
  "add_app_permission a ssp c =
    (let seq = (case app_permissions c of None \<Rightarrow> [] | Some ps \<Rightarrow> ps);
         entry = \<lparr>app_psid = uint a, app_ssp = (if ssp \<noteq> [] then Some (Ssp_bitmap ssp) else None)\<rparr>
     in c\<lparr>app_permissions := Some (seq @ [entry])\<rparr>)"

definition add_cert_issue_permission :: "PsidGroupPermissions \<Rightarrow> Certificate \<Rightarrow> Certificate" where
  "add_cert_issue_permission g c =
    c\<lparr>cert_issue_permissions := Some ((case cert_issue_permissions c of None \<Rightarrow> [] | Some gs \<Rightarrow> gs) @ [g])\<rparr>"

text \<open>The list of explicit permissions is a union member: a group of another kind has none.\<close>

definition add_psid_group_permission :: "ItsAid \<Rightarrow> bytes \<Rightarrow> bytes \<Rightarrow> PsidGroupPermissions \<Rightarrow> PsidGroupPermissions" where
  "add_psid_group_permission a ssp bitmask g =
    (case subject_permissions g of
       Perm_explicit rs \<Rightarrow> g\<lparr>subject_permissions :=
         Perm_explicit (rs @ [\<lparr>range_psid = uint a, ssp_range = Some (Range_bitmap ssp bitmask)\<rparr>])\<rparr>
     | _ \<Rightarrow> g)"

subsection \<open>Canonical form\<close>

lemma compress_compressed: "compress p = Some q \<Longrightarrow> is_compressed q \<and> compress q = Some q"
  by (cases p) (auto split: if_splits)

lemma compress_of_compressed: "is_compressed p \<Longrightarrow> compress p = Some p"
  by (cases p) auto

lemma make_x_only_is: "make_x_only p = Some q \<Longrightarrow> is_x_only q \<and> make_x_only q = Some q"
  by (cases p) auto

lemma make_x_only_of: "is_x_only p \<Longrightarrow> make_x_only p = Some p"
  by (cases p) auto

lemma indicator_compressed:
  assumes "compress_indicator i = Some j"
  shows "compress_indicator j = Some j"
  using assms by (auto simp: compress_indicator_def dest: compress_compressed
      split: VerificationKeyIndicator.splits PublicVerificationKey.splits)

lemma encryption_compressed:
  assumes "compress_encryption k = Some l"
  shows "compress_encryption l = Some l"
  using assms by (auto simp: compress_encryption_def dest: compress_compressed split: BasePublicEncryptionKey.splits)

lemma signature_made_x_only:
  assumes "make_signature_x_only s = Some t"
  shows "make_signature_x_only t = Some t \<and> is_signature_x_only t"
  using assms by (cases s) (auto dest: make_x_only_is)

lemma on_present_idem:
  assumes "on_present f x = Some y" "\<And>a b. f a = Some b \<Longrightarrow> f b = Some b"
  shows "on_present f y = Some y"
  using assms by (cases x) auto

text \<open>The assertion at the end of \<open>canonicalize\<close> holds, and a second run changes nothing.\<close>

lemma canonicalize_is_canonical:
  assumes "canonicalize_cert c = Some c'"
  shows "is_canonical c'"
proof -
  obtain i e s where i: "compress_indicator (verify_key_indicator c) = Some i"
      and s: "on_present make_signature_x_only (cert_signature c) = Some s"
      and c': "c' = c\<lparr>verify_key_indicator := i, encryption_key := e, cert_signature := s\<rparr>"
    using assms by (auto simp: canonicalize_cert_def split: bind_splits)
  have "case s of Some t \<Rightarrow> is_signature_x_only t | None \<Rightarrow> True"
    using s by (cases "cert_signature c") (auto dest: signature_made_x_only)
  moreover have "case i of VerificationKey (EcdsaNistP256 p) \<Rightarrow> is_compressed p
       | VerificationKey (EcdsaBrainpoolP256r1 p) \<Rightarrow> is_compressed p
       | VerificationKey (EcdsaBrainpoolP384r1 p) \<Rightarrow> is_compressed p
       | VerificationKey Verification_other \<Rightarrow> True
       | ReconstructionValue p \<Rightarrow> is_compressed p
       | Indicator_other \<Rightarrow> True"
    using i by (auto simp: compress_indicator_def dest: compress_compressed
        split: VerificationKeyIndicator.splits PublicVerificationKey.splits)
  ultimately show ?thesis by (simp add: c' is_canonical_def Let_def)
qed

lemma canonicalize_idem:
  assumes "canonicalize_cert c = Some c'"
  shows "canonicalize_cert c' = Some c'"
proof -
  obtain i e s where i: "compress_indicator (verify_key_indicator c) = Some i"
      and e: "on_present compress_encryption (encryption_key c) = Some e"
      and s: "on_present make_signature_x_only (cert_signature c) = Some s"
      and c': "c' = c\<lparr>verify_key_indicator := i, encryption_key := e, cert_signature := s\<rparr>"
    using assms by (auto simp: canonicalize_cert_def split: bind_splits)
  show ?thesis
    using indicator_compressed [OF i] on_present_idem [OF e encryption_compressed]
      on_present_idem [OF s] signature_made_x_only
    by (simp add: c' canonicalize_cert_def)
qed

lemma compress_indicator_kind:
  assumes "compress_indicator (verify_key_indicator c) = Some (verify_key_indicator c')"
  shows "digest_hash_algorithm c' = digest_hash_algorithm c" "get_verification_key_type c' = get_verification_key_type c"
  using assms
  by (auto simp: compress_indicator_def digest_hash_algorithm_def get_verification_key_type_def
      split: VerificationKeyIndicator.splits PublicVerificationKey.splits)

lemma canonicalize_keeps:
  assumes "canonicalize_cert c = Some c'"
  shows "digest_hash_algorithm c' = digest_hash_algorithm c"
    "issuer c' = issuer c" "validity_period c' = validity_period c" "cert_region c' = cert_region c"
    "app_permissions c' = app_permissions c" "cert_issue_permissions c' = cert_issue_permissions c"
  using assms compress_indicator_kind(1) [of c c']
  by (auto simp: canonicalize_cert_def split: bind_splits)

text \<open>A canonical certificate is its own canonical form, up to its encryption key.\<close>

definition encryption_key_compressed :: "Certificate \<Rightarrow> bool" where
  "encryption_key_compressed c \<longleftrightarrow> on_present compress_encryption (encryption_key c) = Some (encryption_key c)"

lemma compress_indicator_of_canonical:
  assumes "is_canonical c"
  shows "compress_indicator (verify_key_indicator c) = Some (verify_key_indicator c)"
  using assms by (auto simp: is_canonical_def compress_indicator_def Let_def compress_of_compressed
      split: VerificationKeyIndicator.splits PublicVerificationKey.splits if_splits)

lemma canonicalize_of_canonical:
  assumes "is_canonical c" "encryption_key_compressed c" "canonicalize_cert c = Some c'"
  shows "c' = c"
proof -
  have s: "is_signature_x_only t" if "cert_signature c = Some t" for t
    using assms(1) that by (simp add: is_canonical_def Let_def split: if_splits)
  have "on_present make_signature_x_only (cert_signature c) = Some (cert_signature c)"
  proof (cases "cert_signature c")
    case (Some t)
    have "make_signature_x_only t \<noteq> None"
      using assms(3) Some by (auto simp: canonicalize_cert_def split: bind_splits)
    then show ?thesis using s [OF Some] Some by (cases t) (auto simp: make_x_only_of)
  qed simp
  then show ?thesis
    using assms(3) compress_indicator_of_canonical [OF assms(1)] assms(2)
    by (simp add: canonicalize_cert_def encryption_key_compressed_def)
qed

text \<open>C28: A certificate and its canonical form have the same digest, and messages signed with
  them have the same hash, whenever canonicalisation finds anything to change in the
  verification key or the signature, or the encryption key is compressed already.\<close>

theorem canonical_form_same_digest:
  assumes "canonicalize_cert c = Some c'" "encryption_key_compressed c \<or> \<not> is_canonical c"
  shows "calculate_digest cr c' = calculate_digest cr c
    \<and> calculate_message_hash cr h m c' = calculate_message_hash cr h m c"
proof (cases "is_canonical c")
  case True
  then have "c' = c" using canonicalize_of_canonical assms by blast
  then show ?thesis by simp
next
  case False
  then show ?thesis
    using assms(1) canonicalize_is_canonical [OF assms(1)] canonicalize_keeps(1) [OF assms(1)]
    by (simp add: calculate_digest_def calculate_message_hash_def Let_def)
qed

subsection \<open>Two notions of validity\<close>

text \<open>The duration in seconds without the bounds of the machine.\<close>

fun duration_seconds :: "Duration \<Rightarrow> int" where
  "duration_seconds Dur_nothing = 0"
| "duration_seconds (Dur_microseconds n) = uint n div 1000000"
| "duration_seconds (Dur_milliseconds n) = uint n div 1000"
| "duration_seconds (Dur_seconds n) = uint n"
| "duration_seconds (Dur_minutes n) = uint n * 60"
| "duration_seconds (Dur_hours n) = uint n * 3600"
| "duration_seconds (Dur_sixtyHours n) = uint n * 216000"
| "duration_seconds (Dur_years n) = uint n * 31536000"

definition period_fits :: "ValidityPeriod \<Rightarrow> bool" where
  "period_fits p \<longleftrightarrow> uint (period_start p) + duration_seconds (period_duration p) < 2 ^ 32"

definition whole_seconds :: "Duration \<Rightarrow> bool" where
  "whole_seconds d \<longleftrightarrow> duration_us d = duration_seconds d * 1000000"

lemma duration_seconds_nonneg: "0 \<le> duration_seconds d"
  by (cases d) (auto simp: pos_imp_zdiv_nonneg_iff)

lemma duration_seconds_le: "duration_seconds d * 1000000 \<le> duration_us d"
  by (cases d) auto

lemma uint_word_of_small: "0 \<le> k \<Longrightarrow> k < 2 ^ 32 \<Longrightarrow> uint (word_of_int k :: u32) = k"
  unfolding uint_word_of_int_eq by (simp add: take_bit_int_eq_self_iff)

lemma ucast_div:
  assumes "0 < k" "k < 2 ^ 32"
  shows "(ucast (n :: u16) :: u32) div word_of_int k = word_of_int (uint n div k)"
proof (rule word_uint_eqI)
  have "0 \<le> uint n div k" using assms by (simp add: pos_imp_zdiv_nonneg_iff)
  moreover have "uint n div k \<le> uint n" using zdiv_mono2 [of "uint n" 1 k] assms by simp
  moreover have "uint n < 2 ^ 16" using uint_bounded [of n] by simp
  ultimately have "uint (word_of_int (uint n div k) :: u32) = uint n div k" by (intro uint_word_of_small) auto
  then show "uint ((ucast n :: u32) div word_of_int k) = uint (word_of_int (uint n div k) :: u32)"
    using assms uint_word_of_small [of k] by (simp only: uint_div) (simp add: uint_up_ucast is_up)
qed

lemma duration_s_word: "duration_s d = word_of_int (duration_seconds d)"
proof (cases d)
  case (Dur_microseconds n)
  then show ?thesis using ucast_div [of 1000000 n] by simp
next
  case (Dur_milliseconds n)
  then show ?thesis using ucast_div [of 1000 n] by simp
qed simp_all

lemma end_validity_exact:
  assumes "period_fits (validity_period c)"
  shows "uint (end_validity (get_start_and_end_validity c)) =
    uint (period_start (validity_period c)) + duration_seconds (period_duration (validity_period c))"
proof -
  let ?s = "period_start (validity_period c)" and ?d = "duration_seconds (period_duration (validity_period c))"
  have "0 \<le> uint ?s + ?d" using duration_seconds_nonneg [of "period_duration (validity_period c)"] by simp
  then have "uint (word_of_int (uint ?s + ?d) :: u32) = uint ?s + ?d"
    using assms unfolding uint_word_of_int_eq period_fits_def by (simp add: take_bit_int_eq_self_iff)
  moreover have "end_validity (get_start_and_end_validity c) = word_of_int (uint ?s + ?d)"
    by (simp add: get_start_and_end_validity_def Let_def duration_s_word wi_hom_add)
  ultimately show ?thesis by simp
qed

text \<open>Where both notions agree, a subject whose period lies in its issuer's never outlives it.\<close>

lemma issuer_outlives_subject:
  assumes "start_validity (get_start_and_end_validity i) \<le> start_validity (get_start_and_end_validity c)"
    "end_validity (get_start_and_end_validity c) \<le> end_validity (get_start_and_end_validity i)"
    "period_fits (validity_period c)" "period_fits (validity_period i)" "whole_seconds (period_duration (validity_period c))"
    "valid_at_timepoint c t"
  shows "valid_at_timepoint i t"
proof -
  have "uint (period_start (validity_period i)) \<le> uint (period_start (validity_period c))"
    using assms(1) by (simp add: get_start_and_end_validity_def Let_def word_le_def)
  moreover have "uint (period_start (validity_period c)) + duration_seconds (period_duration (validity_period c))
      \<le> uint (period_start (validity_period i)) + duration_seconds (period_duration (validity_period i))"
    using assms(2) by (simp add: end_validity_exact assms(3,4) word_le_def)
  moreover have "duration_seconds (period_duration (validity_period i)) * 1000000
      \<le> duration_us (period_duration (validity_period i))" by (rule duration_seconds_le)
  ultimately show ?thesis using assms(5,6) by (simp add: valid_at_timepoint_def Let_def whole_seconds_def)
qed

subsection \<open>Where the forms differ\<close>

definition example_cert :: "EccCurvePoint \<Rightarrow> PublicEncryptionKey option \<Rightarrow> Duration \<Rightarrow> Certificate" where
  "example_cert p e d = \<lparr>issuer = Sha256AndDigest [1, 2, 3, 4, 5, 6, 7, 8], id_none = True,
     validity_period = \<lparr>period_start = 1000, period_duration = d\<rparr>, cert_region = None, assurance = None,
     app_permissions = Some [\<lparr>app_psid = 36, app_ssp = None\<rparr>], cert_issue_permissions = None, encryption_key = e,
     verify_key_indicator = VerificationKey (EcdsaNistP256 p), tbs_rest = [], cert_signature = Some (NistP256Signature (X_only [5]) [6])\<rparr>"

text \<open>A concrete instance of the parameters: the encoding is the octets nobody reads, hashes
  keep their input, and a signature is the signed octets.\<close>

definition plain_crypto :: Crypto where
  "plain_crypto = \<lparr>encode_certificate = \<lambda>c. Some (tbs_rest c), encode_tbs = \<lambda>c. Some (tbs_rest c),
     calculate_sha256_digest = \<lambda>b. replicate 8 0 @ b, calculate_sha384_digest = \<lambda>b. replicate 8 0 @ b,
     calculate_hash = \<lambda>h b. b, verify_digest = \<lambda>k d s. sig_s s = d,
     sign_digest = \<lambda>k d. Some \<lparr>sig_type = KT_NistP256, sig_r = k, sig_s = d\<rparr>, within_polygon = \<lambda>p r. False\<rparr>"

theorem canonical_form_same_digest_witness:
  "canonicalize_cert (example_cert (Uncompressed [9] [3]) None (Dur_hours 1)) = Some (example_cert (Compressed_y_1 [9]) None (Dur_hours 1))
   \<and> calculate_digest plain_crypto (example_cert (Compressed_y_1 [9]) None (Dur_hours 1))
     = calculate_digest plain_crypto (example_cert (Uncompressed [9] [3]) None (Dur_hours 1))"
proof -
  have c: "canonicalize_cert (example_cert (Uncompressed [9] [3]) None (Dur_hours 1)) = Some (example_cert (Compressed_y_1 [9]) None (Dur_hours 1))"
    by code_simp
  show ?thesis
    using canonical_form_same_digest [OF c, of plain_crypto] c by (simp add: encryption_key_compressed_def example_cert_def)
qed

text \<open>A certificate that counts as canonical and still differs from its canonical form: the
  check leaves out the encryption key that the conversion compresses.\<close>

lemma canonical_check_ignores_encryption_key:
  "let e = \<lambda>p. Some \<lparr>symm_alg_aes128ccm = True, encryption_public_key = EciesNistP256 p\<rparr>;
       c = example_cert (Compressed_y_0 [9]) (e (Uncompressed [7] [2])) (Dur_hours 1)
   in is_canonical c \<and> canonicalize_cert c = Some (example_cert (Compressed_y_0 [9]) (e (Compressed_y_0 [7])) (Dur_hours 1))"
  by code_simp

text \<open>Two certificates with different public keys and the same digest: of the second coordinate
  of an uncompressed key only the parity enters the digest, while the key that is used for
  verification has all of it.\<close>

lemma digest_ignores_coordinate:
  "calculate_digest cr (example_cert (Uncompressed [9] [3]) None d) = calculate_digest cr (example_cert (Uncompressed [9] [5]) None d)
   \<and> get_public_key (example_cert (Uncompressed [9] [3]) None d) \<noteq> get_public_key (example_cert (Uncompressed [9] [5]) None d)"
  by (simp add: calculate_digest_def example_cert_def digest_hash_algorithm_def is_canonical_def canonicalize_cert_def
      compress_indicator_def get_public_key_def Let_def)

text \<open>A ticket of one year that is valid although, by the other notion, it has ended: 31556952
  against 31536000 seconds.\<close>

lemma years_disagree:
  "let c = example_cert (Compressed_y_0 [9]) None (Dur_years 1)
   in valid_at_timepoint c ((1000 + 31540000) * 1000000) \<and> end_validity (get_start_and_end_validity c) = 1000 + 31536000"
  by code_simp

subsection \<open>Permissions\<close>

lemma get_app_permissions_from_append:
  assumes "list_all (\<lambda>p. app_psid p \<noteq> uint a) ps"
  shows "get_app_permissions_from (ps @ qs) a = get_app_permissions_from qs a"
  using assms by (induction ps) auto

lemma added_permission_found:
  assumes "\<not> valid_for_application c a"
  shows "get_app_permissions (add_app_permission a ssp c) a = ssp \<and> valid_for_application (add_app_permission a ssp c) a"
proof (cases "app_permissions c")
  case (Some ps)
  then have "list_all (\<lambda>p. app_psid p \<noteq> uint a) ps"
    using assms by (simp add: valid_for_application_def list_all_iff list_ex_iff)
  then show ?thesis
    using Some by (auto simp: get_app_permissions_def add_app_permission_def Let_def get_app_permissions_from_append
        valid_for_application_def)
qed (auto simp: get_app_permissions_def add_app_permission_def Let_def valid_for_application_def)

end
