(* ===== verification/CertPerms.thy ===== *)
theory CertPerms
  imports Cert
begin

text \<open>
  Consistency of permissions along a chain of certificates (namespace \<open>consistency\<close> of
  \<open>ports/esp_idf/src/security.cpp\<close>): what an issuer may delegate, as groups of permissions with
  bounds on the length of the chain, and the containment of ranges of service specific
  permissions. The containment is compared with the set of permissions a range denotes.
\<close>

subsection \<open>Ranges\<close>

definition ee_type_app :: "PsidGroupPermissions \<Rightarrow> bool" where
  "ee_type_app g = (case ee_type g of None \<Rightarrow> True | Some [] \<Rightarrow> True | Some (b # bs) \<Rightarrow> b AND 0x80 \<noteq> 0)"

definition chain_length_permits :: "PsidGroupPermissions \<Rightarrow> nat \<Rightarrow> bool" where
  "chain_length_permits g depth =
    (let least = (case min_chain_length g of Some m \<Rightarrow> m | None \<Rightarrow> 1);
         span = chain_length_range g
     in if least < 1 \<or> int depth < least then False else span < 0 \<or> int depth \<le> least + span)"

definition find_range :: "PsidGroupPermissions \<Rightarrow> int \<Rightarrow> PsidSspRange option" where
  "find_range g p = (case subject_permissions g of
     Perm_explicit rs \<Rightarrow> List.find (\<lambda>r. range_psid r = p) rs | _ \<Rightarrow> None)"

definition listed_explicitly :: "PsidGroupPermissions list \<Rightarrow> int \<Rightarrow> bool" where
  "listed_explicitly gs p = list_ex (\<lambda>g. find_range g p \<noteq> None) gs"

definition bitmap_within :: "bytes \<Rightarrow> bytes \<Rightarrow> bytes \<Rightarrow> bool" where
  "bitmap_within bits value bitmask =
    (if length value \<noteq> length bitmask \<or> length bits > length bitmask then False
     else list_all (\<lambda>i. if i \<ge> length bits then bitmask ! i = 0
                        else bits ! i AND bitmask ! i = value ! i AND bitmask ! i) [0..<length bitmask])"

text \<open>A permission (absent: omitted) within a range (absent: all).\<close>

fun ssp_within :: "Ssp option \<Rightarrow> SspRange option \<Rightarrow> bool" where
  "ssp_within s None = True"
| "ssp_within s (Some Range_all) = True"
| "ssp_within s (Some (Range_opaque entries)) =
    list_ex (\<lambda>e. case s of None \<Rightarrow> e = [] | Some (Ssp_opaque b) \<Rightarrow> e = b | _ \<Rightarrow> False) entries"
| "ssp_within s (Some (Range_bitmap value bitmask)) = (case s of Some (Ssp_bitmap b) \<Rightarrow> bitmap_within b value bitmask | _ \<Rightarrow> False)"
| "ssp_within s (Some Range_other) = False"

definition covers :: "PsidGroupPermissions list \<Rightarrow> PsidSsp \<Rightarrow> nat \<Rightarrow> bool" where
  "covers gs entry depth =
    (let elsewhere = listed_explicitly gs (app_psid entry)
     in list_ex (\<lambda>g. if \<not> ee_type_app g \<or> \<not> chain_length_permits g depth then False
          else if subject_permissions g = Perm_all then \<not> elsewhere
          else case find_range g (app_psid entry) of Some r \<Rightarrow> ssp_within (app_ssp entry) (ssp_range r) | None \<Rightarrow> False) gs)"

definition bitmap_nested :: "bytes \<Rightarrow> bytes \<Rightarrow> bytes \<Rightarrow> bytes \<Rightarrow> bool" where
  "bitmap_nested sub_value sub_mask value bitmask =
    (if length value \<noteq> length bitmask \<or> length sub_value \<noteq> length sub_mask then False
     else list_all (\<lambda>i. let fixed = bitmask ! i in
       if fixed = 0 then True else if i \<ge> length sub_mask then False
       else sub_mask ! i AND fixed = fixed \<and> sub_value ! i AND fixed = value ! i AND fixed) [0..<length bitmask])"

fun range_within :: "SspRange option \<Rightarrow> SspRange option \<Rightarrow> bool" where
  "range_within sub None = True"
| "range_within sub (Some Range_all) = True"
| "range_within None (Some r) = False"
| "range_within (Some Range_all) (Some r) = False"
| "range_within (Some (Range_opaque subs)) (Some (Range_opaque entries)) =
    list_all (\<lambda>e. list_ex (\<lambda>f. e = f) entries) subs"
| "range_within (Some (Range_bitmap sub_value sub_mask)) (Some (Range_bitmap value bitmask)) =
    bitmap_nested sub_value sub_mask value bitmask"
| "range_within _ _ = False"

subsection \<open>Chains\<close>

definition nests_range :: "PsidSspRange \<Rightarrow> PsidGroupPermissions list \<Rightarrow> bool" where
  "nests_range r gs =
    (let elsewhere = listed_explicitly gs (range_psid r)
     in list_ex (\<lambda>g. if subject_permissions g = Perm_all then \<not> elsewhere
          else case find_range g (range_psid r) of Some q \<Rightarrow> range_within (ssp_range r) (ssp_range q) | None \<Rightarrow> False) gs)"

definition nests :: "PsidGroupPermissions list \<Rightarrow> PsidGroupPermissions list \<Rightarrow> bool" where
  "nests sub gs = list_all (\<lambda>g. case subject_permissions g of
     Perm_all \<Rightarrow> list_ex (\<lambda>h. subject_permissions h = Perm_all) gs
   | Perm_other \<Rightarrow> False
   | Perm_explicit rs \<Rightarrow> list_all (\<lambda>r. nests_range r gs) rs) sub"

text \<open>The end entity comes first, the anchor last.\<close>

definition chain_consistent :: "Certificate list \<Rightarrow> bool" where
  "chain_consistent chain = (case chain of [] \<Rightarrow> False
   | ee # _ \<Rightarrow> (case app_permissions ee of None \<Rightarrow> False
     | Some app \<Rightarrow>
         list_all (\<lambda>depth. case cert_issue_permissions (chain ! depth) of None \<Rightarrow> False
           | Some issuing \<Rightarrow> list_all (\<lambda>entry. covers issuing entry depth) app) [1..<length chain]
       \<and> list_all (\<lambda>k. case (cert_issue_permissions (chain ! k), cert_issue_permissions (chain ! (k + 1))) of
             (Some sub, Some gs) \<Rightarrow> nests sub gs | _ \<Rightarrow> False) [1..<length chain - 1]))"

subsection \<open>Ranges denote sets of permissions\<close>

lemma list_all_upt: "list_all P [0..<n] \<longleftrightarrow> (\<forall>i<n. P i)"
  by (auto simp: list_all_iff)

lemma if_flip: "(if k \<le> i then A else B) = (if (i :: nat) < k then B else A)"
  by (cases "i < k") simp_all

lemma guarded_iff: "(if \<not> a \<or> b then False else R) \<longleftrightarrow> a \<and> \<not> b \<and> R"
  by auto

lemma bitmap_within_iff:
  "bitmap_within bits value bitmask \<longleftrightarrow> length value = length bitmask \<and> \<not> length bits > length bitmask
    \<and> (\<forall>i<length bitmask. if i < length bits then bits ! i AND bitmask ! i = value ! i AND bitmask ! i else bitmask ! i = 0)"
  unfolding bitmap_within_def list_all_upt if_flip guarded_iff by (rule refl)

lemma nested_flip:
  "(let f = F in if f = 0 then True else if (k :: nat) \<le> i then False else A f) \<longleftrightarrow> (F \<noteq> 0 \<longrightarrow> i < k \<and> A F)"
  by (cases "i < k") (simp_all add: Let_def)

lemma bitmap_nested_iff:
  "bitmap_nested v m V M \<longleftrightarrow> length V = length M \<and> length v = length m
    \<and> (\<forall>i<length M. M ! i \<noteq> 0 \<longrightarrow> i < length m \<and> m ! i AND M ! i = M ! i \<and> v ! i AND M ! i = V ! i AND M ! i)"
  unfolding bitmap_nested_def list_all_upt nested_flip guarded_iff not_not by (rule refl)

lemma bitmap_within_nth:
  "bitmap_within b V M \<Longrightarrow> i < length M \<Longrightarrow> i < length b \<Longrightarrow> b ! i AND M ! i = V ! i AND M ! i"
  by (simp add: bitmap_within_iff)

lemma bitmap_own_value: "length value = length bitmask \<Longrightarrow> bitmap_within value value bitmask"
  by (simp add: bitmap_within_iff)

text \<open>Octets: a mask that lies within another one transfers equality.\<close>

lemma masked_equal_mono:
  fixes b v m M :: "'a::len word"
  assumes "b AND m = v AND m" "m AND M = M"
  shows "b AND M = v AND M"
proof -
  have "b AND M = (b AND m) AND M" using assms(2) by (simp add: and.assoc)
  also have "\<dots> = (v AND m) AND M" by (simp add: assms(1))
  also have "\<dots> = v AND M" using assms(2) by (simp add: and.assoc)
  finally show ?thesis .
qed

lemma masked_flip:
  fixes v m M V :: "'a::len word"
  assumes "NOT (v XOR m) AND M = V AND M" "v AND M = V AND M"
  shows "m AND M = M"
proof (rule bit_word_eqI)
  fix n assume n: "n < LENGTH('a)"
  have "bit (NOT (v XOR m) AND M) n = bit (v AND M) n" using assms by simp
  then show "bit (m AND M) n = bit M n"
    using n by (auto simp: bit_and_iff bit_xor_iff bit_not_iff)
qed

lemma flip_keeps_masked:
  fixes v m :: "'a::len word"
  shows "NOT (v XOR m) AND m = v AND m"
  by (rule bit_word_eqI) (auto simp: bit_and_iff bit_xor_iff bit_not_iff)

lemma bitmap_nested_sound:
  assumes "bitmap_nested v m V M" "length m \<le> length M" "bitmap_within b v m"
  shows "bitmap_within b V M"
proof -
  have n: "length V = length M" "length v = length m"
      "\<And>i. i < length M \<Longrightarrow> M ! i \<noteq> 0 \<Longrightarrow> i < length m \<and> m ! i AND M ! i = M ! i \<and> v ! i AND M ! i = V ! i AND M ! i"
    using assms(1) by (auto simp: bitmap_nested_iff)
  have w: "length b \<le> length m" "\<And>i. i < length m \<Longrightarrow> i < length b \<Longrightarrow> b ! i AND m ! i = v ! i AND m ! i"
      "\<And>i. i < length m \<Longrightarrow> \<not> i < length b \<Longrightarrow> m ! i = 0"
    using assms(3) by (auto simp: bitmap_within_iff)
  have "if i < length b then b ! i AND M ! i = V ! i AND M ! i else M ! i = 0" if i: "i < length M" for i
  proof (cases "M ! i = 0")
    case False
    then have "i < length m" "m ! i AND M ! i = M ! i" "v ! i AND M ! i = V ! i AND M ! i" using n(3) i by auto
    moreover have "i < length b" using w(3) \<open>i < length m\<close> \<open>m ! i AND M ! i = M ! i\<close> False by fastforce
    ultimately show ?thesis using masked_equal_mono w(2) by metis
  qed simp
  then show ?thesis using n(1) w(1) assms(2) by (auto simp: bitmap_within_iff)
qed

lemma bitmap_nested_complete:
  assumes sub: "\<And>b. bitmap_within b v m \<Longrightarrow> bitmap_within b V M" and l: "length v = length m"
  shows "bitmap_nested v m V M \<and> length m \<le> length M"
proof -
  have vV: "bitmap_within v V M" by (rule sub) (rule bitmap_own_value [OF l])
  then have len: "length V = length M" "length m \<le> length M" using l by (auto simp: bitmap_within_iff)
  have "i < length m \<and> m ! i AND M ! i = M ! i \<and> v ! i AND M ! i = V ! i AND M ! i" if i: "i < length M" "M ! i \<noteq> 0" for i
  proof -
    have im: "i < length m" and eq: "v ! i AND M ! i = V ! i AND M ! i"
      using vV i l by (auto simp: bitmap_within_iff split: if_splits)
    let ?b = "v[i := NOT (v ! i XOR m ! i)]"
    have "?b ! j AND m ! j = v ! j AND m ! j" if "j < length m" for j
      using that l by (cases "j = i") (simp_all add: flip_keeps_masked)
    then have "bitmap_within ?b v m" using l by (simp add: bitmap_within_iff)
    then have "bitmap_within ?b V M" by (rule sub)
    then have "NOT (v ! i XOR m ! i) AND M ! i = V ! i AND M ! i"
      using bitmap_within_nth [of ?b V M i] i im l by simp
    then show ?thesis using masked_flip eq im by blast
  qed
  then show ?thesis using len l by (auto simp: bitmap_nested_iff)
qed

text \<open>The mask of the inner range is not longer than the outer one's.\<close>

fun mask_not_longer :: "SspRange option \<Rightarrow> SspRange option \<Rightarrow> bool" where
  "mask_not_longer (Some (Range_bitmap v m)) (Some (Range_bitmap V M)) = (length m \<le> length M)"
| "mask_not_longer _ _ = True"

lemma range_within_sound:
  assumes "range_within r q" "mask_not_longer r q" "ssp_within s r"
  shows "ssp_within s q"
proof (cases s)
  case None
  show ?thesis using assms unfolding None
    by (induction r q rule: range_within.induct) (auto simp: list_ex_iff list_all_iff)
next
  case (Some y)
  show ?thesis using assms unfolding Some
    by (cases y; induction r q rule: range_within.induct)
      (auto simp: list_ex_iff list_all_iff intro: bitmap_nested_sound)
qed

lemma opaque_complete:
  assumes "\<And>s. ssp_within s (Some (Range_opaque subs)) \<Longrightarrow> ssp_within s (Some (Range_opaque entries))"
  shows "set subs \<subseteq> set entries"
proof
  fix e assume "e \<in> set subs"
  then show "e \<in> set entries" using assms [of "Some (Ssp_opaque e)"] by (auto simp: list_ex_iff)
qed

lemma range_within_complete:
  assumes sub: "\<And>s. ssp_within s r \<Longrightarrow> ssp_within s q" and some: "ssp_within s0 r"
  shows "range_within r q \<and> mask_not_longer r q"
proof -
  consider (all) "q = None \<or> q = Some Range_all" | (wide) "r = None \<or> r = Some Range_all" "q \<noteq> None" "q \<noteq> Some Range_all"
    | (opaque) es where "r = Some (Range_opaque es)" "q \<noteq> None" "q \<noteq> Some Range_all"
    | (bitmap) v m where "r = Some (Range_bitmap v m)" "q \<noteq> None" "q \<noteq> Some Range_all"
    | (other) "r = Some Range_other"
    by (cases q; cases r; cases "the q"; cases "the r") auto
  then show ?thesis
  proof cases
    case all
    then show ?thesis by (cases r; cases "the r") auto
  next
    case wide
    then show ?thesis using sub [of "Some Ssp_other"] by (cases q; cases "the q") (auto simp: list_ex_iff)
  next
    case opaque
    obtain e where e: "e \<in> set es" using some opaque(1) by (auto simp: list_ex_iff)
    show ?thesis
      using opaque sub [of "Some (Ssp_opaque e)"] e opaque_complete [of es] sub
      by (cases q; cases "the q") (auto simp: list_ex_iff list_all_iff)
  next
    case bitmap
    have l: "length v = length m" using some bitmap by (auto simp: bitmap_within_iff split: option.splits Ssp.splits)
    have own: "ssp_within (Some (Ssp_bitmap v)) r" using bitmap bitmap_own_value [OF l] by simp
    show ?thesis
    proof (cases "\<exists>V M. q = Some (Range_bitmap V M)")
      case True
      then obtain V M where q: "q = Some (Range_bitmap V M)" by blast
      have "bitmap_within b V M" if "bitmap_within b v m" for b
        using sub [of "Some (Ssp_bitmap b)"] bitmap(1) q that by simp
      then show ?thesis using bitmap_nested_complete [of v m V M] l bitmap(1) q by simp
    next
      case False
      then show ?thesis using sub [OF own] bitmap by (cases q; cases "the q") (auto simp: list_ex_iff)
    qed
  next
    case other
    then show ?thesis using some by simp
  qed
qed

text \<open>C17: The containment test of ranges of service specific permissions is exact: a range that
  admits some permission lies in another one, as a set of permissions, exactly if the test
  accepts it and, between bitmaps, its mask is not longer.\<close>

theorem range_within_exact:
  assumes "ssp_within s0 r"
  shows "(\<forall>s. ssp_within s r \<longrightarrow> ssp_within s q) \<longleftrightarrow> range_within r q \<and> mask_not_longer r q"
  using range_within_sound range_within_complete [OF _ assms] by blast

theorem range_within_exact_witness:
  "ssp_within (Some (Ssp_bitmap [1, 0xff])) (Some (Range_bitmap [1, 0xf0] [0xff, 0xf0]))
   \<and> range_within (Some (Range_bitmap [1, 0xf0] [0xff, 0xf0])) (Some (Range_bitmap [1, 0x80] [0xff, 0x80]))
   \<and> ssp_within (Some (Ssp_bitmap [1, 0xff])) (Some (Range_bitmap [1, 0x80] [0xff, 0x80]))"
proof -
  have s: "ssp_within (Some (Ssp_bitmap [1, 0xff])) (Some (Range_bitmap [1, 0xf0] [0xff, 0xf0]))" by code_simp
  have w: "range_within (Some (Range_bitmap [1, 0xf0] [0xff, 0xf0])) (Some (Range_bitmap [1, 0x80] [0xff, 0x80]))
      \<and> mask_not_longer (Some (Range_bitmap [1, 0xf0] [0xff, 0xf0])) (Some (Range_bitmap [1, 0x80] [0xff, 0x80]))"
    by code_simp
  show ?thesis
    using range_within_exact [OF s, of "Some (Range_bitmap [1, 0x80] [0xff, 0x80])"] s w by blast
qed

text \<open>The length matters: a subordinate with a longer mask is accepted although no permission
  within its range is within its issuer's.\<close>

lemma longer_mask_accepted:
  "range_within (Some (Range_bitmap [1, 0, 7] [0xff, 0, 0xff])) (Some (Range_bitmap [1, 0] [0xff, 0]))
   \<and> \<not> ssp_within (Some (Ssp_bitmap [1, 0, 7])) (Some (Range_bitmap [1, 0] [0xff, 0]))"
  by code_simp

subsection \<open>Every ancestor covers the end entity\<close>

lemma chain_consistent_covers:
  assumes "chain_consistent chain" "app_permissions (hd chain) = Some app" "e \<in> set app" "0 < d" "d < length chain"
  shows "\<exists>gs. cert_issue_permissions (chain ! d) = Some gs \<and> covers gs e d"
proof -
  obtain ee rest where chain: "chain = ee # rest" using assms(1) by (cases chain) (simp_all add: chain_consistent_def)
  have app: "app_permissions ee = Some app" using assms(2) by (simp add: chain)
  have "list_all (\<lambda>depth. case cert_issue_permissions (chain ! depth) of None \<Rightarrow> False
           | Some issuing \<Rightarrow> list_all (\<lambda>entry. covers issuing entry depth) app) [1..<length chain]"
    using assms(1) unfolding chain_consistent_def by (simp add: chain app)
  moreover have "d \<in> set [1..<length chain]" using assms(4,5) by (simp add: Suc_leI)
  ultimately have "case cert_issue_permissions (chain ! d) of None \<Rightarrow> False | Some issuing \<Rightarrow> list_all (\<lambda>entry. covers issuing entry d) app"
    by (simp only: list_all_iff)
  then show ?thesis using assms(3) by (cases "cert_issue_permissions (chain ! d)") (auto simp: list_all_iff)
qed

lemma find_range_Some:
  assumes "find_range g p = Some r"
  shows "\<exists>rs. subject_permissions g = Perm_explicit rs \<and> r \<in> set rs \<and> range_psid r = p"
proof -
  obtain rs where rs: "subject_permissions g = Perm_explicit rs" "List.find (\<lambda>r. range_psid r = p) rs = Some r"
    using assms by (cases "subject_permissions g") (auto simp: find_range_def)
  then show ?thesis by (auto simp: find_Some_iff)
qed

lemma covers_allows:
  assumes "covers gs e d" "app_psid e = uint a" "cert_issue_permissions c = Some gs"
  shows "is_allowed_to_issue c a"
proof -
  obtain g where g: "g \<in> set gs" and
      "subject_permissions g = Perm_all \<or> (\<exists>r. find_range g (uint a) = Some r)"
    using assms(1,2) by (auto simp: covers_def list_ex_iff Let_def split: if_splits option.splits)
  then have "case subject_permissions g of Perm_all \<Rightarrow> True | Perm_explicit rs \<Rightarrow> contains_permission rs a | Perm_other \<Rightarrow> False"
  proof (elim disjE exE)
    fix r assume "find_range g (uint a) = Some r"
    then obtain rs where "subject_permissions g = Perm_explicit rs" "r \<in> set rs" "range_psid r = uint a"
      using find_range_Some by blast
    then show ?thesis unfolding contains_permission_def list_ex_iff by auto
  qed simp
  then show ?thesis using g assms(3) by (auto simp: is_allowed_to_issue_def list_ex_iff)
qed

end
