(* ===== verification/CertRegion.thy ===== *)
theory CertRegion
  imports Cert
begin

text \<open>
  Validity regions of certificates: the geometry (\<open>vanetza/security/v3/geometry.cpp\<close>,
  \<open>distance.cpp\<close>, \<open>boost_geometry.cpp\<close>), the location checker (\<open>location_checker.cpp\<close>), and the
  containment of a subject's region in its issuer's (\<open>certificate.cpp\<close> for geometric regions, the
  namespace \<open>consistency\<close> of \<open>ports/esp_idf/src/security.cpp\<close> for identified ones). A polygon is
  decided by a parameter (\<open>boost::geometry::within\<close>), a country by the database of borders the
  checker is given. Positions are finite, in degrees.
\<close>

subsection \<open>Geometry\<close>

definition valid_location :: "TwoDLocation \<Rightarrow> bool" where
  "valid_location l \<longleftrightarrow> -900000000 \<le> loc_latitude l \<and> loc_latitude l \<le> 900000000
     \<and> -1799999999 \<le> loc_longitude l \<and> loc_longitude l \<le> 1800000000"

text \<open>Out of their range the conversions give NaN, here no value.\<close>

definition convert_latitude :: "int \<Rightarrow> real option" where
  "convert_latitude i = (if -900000000 \<le> i \<and> i \<le> 900000000 then Some (real_of_int i * 90 / 900000000) else None)"

definition convert_longitude :: "int \<Rightarrow> real option" where
  "convert_longitude i = (if -1799999999 \<le> i \<and> i \<le> 1800000000 then Some (real_of_int i * 180 / 1800000000) else None)"

definition atan2 :: "real \<Rightarrow> real \<Rightarrow> real" where
  "atan2 y x = (if x > 0 then arctan (y / x)
     else if x < 0 then (if y \<ge> 0 then arctan (y / x) + pi else arctan (y / x) - pi)
     else if y > 0 then pi / 2 else if y < 0 then - pi / 2 else 0)"

definition radians :: "real \<Rightarrow> real" where
  "radians d = d * pi / 180"

definition haversine :: "real \<Rightarrow> real \<Rightarrow> real \<Rightarrow> real \<Rightarrow> real" where
  "haversine lat1 lon1 lat2 lon2 =
    (let sin_delta_phi = sin (radians (lat1 - lat2) / 2); sin_delta_lambda = sin (radians (lon1 - lon2) / 2)
     in sin_delta_phi * sin_delta_phi + cos (radians lat1) * cos (radians lat2) * sin_delta_lambda * sin_delta_lambda)"

definition earth_distance :: "real \<times> real \<Rightarrow> real \<times> real \<Rightarrow> real" where
  "earth_distance p q =
    (let a = haversine (fst p) (snd p) (fst q) (snd q); c = 2 * atan2 (sqrt a) (sqrt (1 - a)) in 6371000 * c)"

text \<open>The distance to a location; a comparison with NaN is false.\<close>

definition converted :: "TwoDLocation \<Rightarrow> (real \<times> real) option" where
  "converted l = (case (convert_latitude (loc_latitude l), convert_longitude (loc_longitude l)) of
     (Some a, Some b) \<Rightarrow> Some (a, b) | _ \<Rightarrow> None)"

definition fix_point :: "PositionFix \<Rightarrow> real \<times> real" where
  "fix_point fx = (fix_latitude fx, fix_longitude fx)"

definition is_inside_circle :: "PositionFix \<Rightarrow> CircularRegion \<Rightarrow> bool" where
  "is_inside_circle fx r =
    (if valid_location (circle_center r) \<and> circle_radius r \<ge> 0
     then case converted (circle_center r) of
            Some q \<Rightarrow> earth_distance (fix_point fx) q \<le> real_of_int (circle_radius r) | None \<Rightarrow> False
     else False)"

definition is_inside_rectangle :: "PositionFix \<Rightarrow> RectangularRegion \<Rightarrow> bool" where
  "is_inside_rectangle fx r =
    (if valid_location (north_west r) \<and> valid_location (south_east r)
     then if loc_latitude (north_west r) \<le> loc_latitude (south_east r) then False
          else if loc_longitude (north_west r) = loc_longitude (south_east r) then False
          else (let loc_lat = trunc_real (fix_latitude fx * 10000000); loc_lon = trunc_real (fix_longitude fx * 10000000)
                in if loc_lat \<ge> loc_latitude (south_east r) \<and> loc_lat \<le> loc_latitude (north_west r)
                   then if loc_longitude (north_west r) < loc_longitude (south_east r)
                        then loc_lon \<ge> loc_longitude (north_west r) \<and> loc_lon \<le> loc_longitude (south_east r)
                        else loc_lon \<ge> loc_longitude (north_west r) \<or> loc_lon \<le> loc_longitude (south_east r)
                   else False)
     else False)"

definition is_inside_rectangles :: "PositionFix \<Rightarrow> RectangularRegion list \<Rightarrow> bool" where
  "is_inside_rectangles fx rs = list_ex (is_inside_rectangle fx) rs"

definition is_inside_polygon :: "Crypto \<Rightarrow> PositionFix \<Rightarrow> TwoDLocation list \<Rightarrow> bool" where
  "is_inside_polygon cr fx ps = within_polygon cr (fix_longitude fx, fix_latitude fx) ps"

subsection \<open>Location checker\<close>

text \<open>The database tells whether a position lies in the country of a code; \<open>None\<close> stands for a
  missing or an empty database.\<close>

record DefaultLocationChecker =
  permissive_identified_region :: bool
  country_db :: "(u16 \<Rightarrow> real \<times> real \<Rightarrow> bool) option"

fun check_identified_loop :: "DefaultLocationChecker \<Rightarrow> (u16 \<Rightarrow> real \<times> real \<Rightarrow> bool) \<Rightarrow> PositionFix \<Rightarrow> bool \<Rightarrow> IdentifiedRegion list \<Rightarrow> bool" where
  "check_identified_loop lc db fx accepted [] = accepted"
| "check_identified_loop lc db fx accepted (Country_only c # es) =
    (if db (word_of_int c) (fix_point fx) then True else check_identified_loop lc db fx accepted es)"
| "check_identified_loop lc db fx accepted (e # es) =
    check_identified_loop lc db fx (permissive_identified_region lc) es"

definition check_identified_region :: "DefaultLocationChecker \<Rightarrow> PositionFix \<Rightarrow> IdentifiedRegion list \<Rightarrow> bool" where
  "check_identified_region lc fx es = (case country_db lc of
     None \<Rightarrow> permissive_identified_region lc | Some db \<Rightarrow> check_identified_loop lc db fx False es)"

definition valid_at_location :: "Crypto \<Rightarrow> DefaultLocationChecker \<Rightarrow> Certificate \<Rightarrow> PositionFix \<Rightarrow> bool" where
  "valid_at_location cr lc c fx = (case cert_region c of None \<Rightarrow> True
   | Some (Region_circular r) \<Rightarrow> is_inside_circle fx r
   | Some (Region_rectangular rs) \<Rightarrow> is_inside_rectangles fx rs
   | Some (Region_polygonal ps) \<Rightarrow> is_inside_polygon cr fx ps
   | Some (Region_identified es) \<Rightarrow> check_identified_region lc fx es
   | _ \<Rightarrow> False)"

subsection \<open>Containment of geometric regions\<close>

definition circle_within :: "CircularRegion \<Rightarrow> CircularRegion \<Rightarrow> bool" where
  "circle_within inner outer =
    (if \<not> valid_location (circle_center inner) \<or> \<not> valid_location (circle_center outer)
        \<or> circle_radius inner < 0 \<or> circle_radius outer < 0 then False
     else case (converted (circle_center inner), converted (circle_center outer)) of
       (Some p, Some q) \<Rightarrow> earth_distance p q + real_of_int (circle_radius inner) \<le> real_of_int (circle_radius outer)
     | _ \<Rightarrow> False)"

definition geometric_within :: "GeographicRegion \<Rightarrow> GeographicRegion \<Rightarrow> bool" where
  "geometric_within inner outer = (case outer of
     Region_circular o' \<Rightarrow> (case inner of Region_circular i \<Rightarrow> circle_within i o' | _ \<Rightarrow> False)
   | Region_rectangular os \<Rightarrow> (case inner of Region_rectangular is \<Rightarrow> is = os | _ \<Rightarrow> False)
   | Region_polygonal ps \<Rightarrow> False
   | Region_nothing \<Rightarrow> True
   | _ \<Rightarrow> False)"

definition region_is_within :: "Certificate \<Rightarrow> Certificate \<Rightarrow> bool" where
  "region_is_within c i = (case (cert_region i, cert_region c) of
     (None, _) \<Rightarrow> True | (Some outer, None) \<Rightarrow> False | (Some outer, Some inner) \<Rightarrow> geometric_within inner outer)"

subsection \<open>Containment of identified regions\<close>

definition contains_all :: "int list \<Rightarrow> int list \<Rightarrow> bool" where
  "contains_all outer inner = list_all (\<lambda>i. list_ex (\<lambda>j. i = j) outer) inner"

text \<open>A region of a country, with its subregions or as a whole, inside one entry of the issuer.\<close>

fun region_in_entry :: "int \<Rightarrow> int \<Rightarrow> int list option \<Rightarrow> IdentifiedRegion \<Rightarrow> bool" where
  "region_in_entry country region subregions (Country_only c) = (c = country)"
| "region_in_entry country region subregions (Country_and_regions c rs) =
    (if c \<noteq> country then False else list_ex (\<lambda>r. r = region) rs)"
| "region_in_entry country region subregions (Country_and_subregions c es) =
    (if c \<noteq> country then False
     else case subregions of None \<Rightarrow> False
       | Some ss \<Rightarrow> (case List.find (\<lambda>e. fst e = region) es of Some e \<Rightarrow> contains_all (snd e) ss | None \<Rightarrow> False))"
| "region_in_entry country region subregions Identified_other = False"

fun entry_covered :: "IdentifiedRegion \<Rightarrow> IdentifiedRegion \<Rightarrow> bool" where
  "entry_covered (Country_only c) candidate = (candidate = Country_only c)"
| "entry_covered (Country_and_regions c rs) candidate =
    (rs \<noteq> [] \<and> list_all (\<lambda>r. region_in_entry c r None candidate) rs)"
| "entry_covered (Country_and_subregions c es) candidate =
    (es \<noteq> [] \<and> list_all (\<lambda>e. region_in_entry c (fst e) (Some (snd e)) candidate) es)"
| "entry_covered Identified_other candidate = False"

definition identified_within :: "IdentifiedRegion list \<Rightarrow> IdentifiedRegion list \<Rightarrow> bool" where
  "identified_within inner outer = list_all (\<lambda>e. list_ex (entry_covered e) outer) inner"

definition region_within :: "Certificate \<Rightarrow> Certificate \<Rightarrow> bool \<Rightarrow> bool" where
  "region_within c i permissive = (case cert_region i of None \<Rightarrow> True
   | Some outer \<Rightarrow> (case cert_region c of None \<Rightarrow> True
     | Some inner \<Rightarrow> (case outer of
         Region_identified os \<Rightarrow> (case inner of
             Region_identified es \<Rightarrow> identified_within es os
           | Region_circular r \<Rightarrow> permissive | Region_rectangular rs \<Rightarrow> permissive | Region_polygonal ps \<Rightarrow> permissive
           | _ \<Rightarrow> False)
       | _ \<Rightarrow> region_is_within c i)))"

subsection \<open>The distance is that of great circles\<close>

definition sphere_dot :: "real \<times> real \<Rightarrow> real \<times> real \<Rightarrow> real" where
  "sphere_dot p q = cos (radians (fst p)) * cos (radians (fst q)) * cos (radians (snd p) - radians (snd q))
     + sin (radians (fst p)) * sin (radians (fst q))"

lemma sin_half_square: "sin (x / 2) * sin (x / 2) = (1 - cos x) / 2" for x :: real
  using cos_double_sin [of "x / 2"] by (simp add: power2_eq_square field_simps)

lemma haversine_dot: "haversine (fst p) (snd p) (fst q) (snd q) = (1 - sphere_dot p q) / 2"
proof -
  have r: "radians (x - y) = radians x - radians y" for x y by (simp add: radians_def diff_divide_distrib algebra_simps)
  let ?A = "radians (fst p)" and ?B = "radians (fst q)" and ?L = "radians (snd p) - radians (snd q)"
  have "haversine (fst p) (snd p) (fst q) (snd q)
      = (1 - cos (?A - ?B)) / 2 + cos ?A * cos ?B * ((1 - cos ?L) / 2)"
    unfolding haversine_def Let_def r by (simp only: mult.assoc sin_half_square)
  also have "\<dots> = (1 - sphere_dot p q) / 2"
    unfolding sphere_dot_def cos_diff [of ?A] by (simp add: field_simps)
  finally show ?thesis .
qed

text \<open>Unit vectors: the Gram determinant of three of them is a square.\<close>

lemma gram_nonneg:
  fixes x1 y1 z1 x2 y2 z2 x3 y3 z3 :: real
  assumes "x1\<^sup>2 + y1\<^sup>2 + z1\<^sup>2 = 1" "x2\<^sup>2 + y2\<^sup>2 + z2\<^sup>2 = 1" "x3\<^sup>2 + y3\<^sup>2 + z3\<^sup>2 = 1"
  defines "a \<equiv> x1 * x2 + y1 * y2 + z1 * z2" and "b \<equiv> x2 * x3 + y2 * y3 + z2 * z3" and "c \<equiv> x1 * x3 + y1 * y3 + z1 * z3"
  shows "0 \<le> 1 + 2 * a * b * c - a\<^sup>2 - b\<^sup>2 - c\<^sup>2"
proof -
  let ?n1 = "x1\<^sup>2 + y1\<^sup>2 + z1\<^sup>2" and ?n2 = "x2\<^sup>2 + y2\<^sup>2 + z2\<^sup>2" and ?n3 = "x3\<^sup>2 + y3\<^sup>2 + z3\<^sup>2"
  let ?d = "x1 * (y2 * z3 - z2 * y3) - y1 * (x2 * z3 - z2 * x3) + z1 * (x2 * y3 - y2 * x3)"
  have "?d\<^sup>2 = ?n1 * ?n2 * ?n3 + 2 * a * b * c - ?n3 * a\<^sup>2 - ?n1 * b\<^sup>2 - ?n2 * c\<^sup>2"
    unfolding a_def b_def c_def by (simp add: power2_eq_square algebra_simps)
  then have "?d\<^sup>2 = 1 + 2 * a * b * c - a\<^sup>2 - b\<^sup>2 - c\<^sup>2" by (simp add: assms(1-3))
  then show ?thesis using zero_le_power2 [of ?d] by simp
qed

definition sphere_vec :: "real \<times> real \<Rightarrow> real \<times> real \<times> real" where
  "sphere_vec p = (cos (radians (fst p)) * cos (radians (snd p)), cos (radians (fst p)) * sin (radians (snd p)), sin (radians (fst p)))"

lemma sphere_vec_unit:
  assumes "sphere_vec p = (x, y, z)"
  shows "x\<^sup>2 + y\<^sup>2 + z\<^sup>2 = 1"
proof -
  let ?A = "radians (fst p)" and ?L = "radians (snd p)"
  have v: "x = cos ?A * cos ?L" "y = cos ?A * sin ?L" "z = sin ?A" using assms by (auto simp: sphere_vec_def)
  have "x\<^sup>2 + y\<^sup>2 = (cos ?A)\<^sup>2 * ((cos ?L)\<^sup>2 + (sin ?L)\<^sup>2)"
    unfolding v by (simp only: power_mult_distrib distrib_left)
  then show ?thesis by (simp add: v(3))
qed

lemma sphere_dot_vec:
  assumes "sphere_vec p = (x1, y1, z1)" "sphere_vec q = (x2, y2, z2)"
  shows "sphere_dot p q = x1 * x2 + y1 * y2 + z1 * z2"
  using assms by (auto simp: sphere_vec_def sphere_dot_def cos_diff algebra_simps)

lemma sphere_gram:
  "0 \<le> 1 + 2 * sphere_dot p q * sphere_dot q r * sphere_dot p r - (sphere_dot p q)\<^sup>2 - (sphere_dot q r)\<^sup>2 - (sphere_dot p r)\<^sup>2"
proof -
  obtain x1 y1 z1 x2 y2 z2 x3 y3 z3 where v: "sphere_vec p = (x1, y1, z1)" "sphere_vec q = (x2, y2, z2)" "sphere_vec r = (x3, y3, z3)"
    by (metis prod_cases3)
  show ?thesis
    using gram_nonneg [OF sphere_vec_unit sphere_vec_unit sphere_vec_unit, OF v]
    by (simp add: sphere_dot_vec v)
qed

lemma sphere_dot_bounds: "- 1 \<le> sphere_dot p q" "sphere_dot p q \<le> 1"
proof -
  obtain x1 y1 z1 x2 y2 z2 where v: "sphere_vec p = (x1, y1, z1)" "sphere_vec q = (x2, y2, z2)"
    by (metis prod_cases3)
  have "(x1\<^sup>2 + y1\<^sup>2 + z1\<^sup>2) * (x2\<^sup>2 + y2\<^sup>2 + z2\<^sup>2) - (x1 * x2 + y1 * y2 + z1 * z2)\<^sup>2
      = (y1 * z2 - z1 * y2)\<^sup>2 + (x1 * z2 - z1 * x2)\<^sup>2 + (x1 * y2 - y1 * x2)\<^sup>2"
    by (simp add: power2_eq_square algebra_simps)
  then have "0 \<le> 1 - (x1 * x2 + y1 * y2 + z1 * z2)\<^sup>2"
    by (simp add: sphere_vec_unit [OF v(1)] sphere_vec_unit [OF v(2)])
  then have "(sphere_dot p q)\<^sup>2 \<le> 1" by (simp add: sphere_dot_vec [OF v])
  then show "- 1 \<le> sphere_dot p q" "sphere_dot p q \<le> 1"
    using abs_square_le_1 [of "sphere_dot p q"] by auto
qed

lemma double_atan2:
  assumes "0 \<le> a" "a \<le> 1"
  shows "2 * atan2 (sqrt a) (sqrt (1 - a)) = arccos (1 - 2 * a)"
proof (cases "a = 1")
  case True
  then show ?thesis by (simp add: atan2_def arccos_minus_1)
next
  case False
  let ?t = "arctan (sqrt a / sqrt (1 - a))"
  have pos: "0 < 1 - a" using False assms by simp
  have "0 \<le> ?t" using assms pos by simp
  moreover have "?t < pi / 2" by (rule arctan_ubound)
  moreover have "cos (2 * ?t) = 1 - 2 * a"
  proof -
    have "(cos ?t)\<^sup>2 = 1 / (1 + (sqrt a / sqrt (1 - a))\<^sup>2)"
      by (simp add: cos_arctan power_divide)
    also have "(sqrt a / sqrt (1 - a))\<^sup>2 = a / (1 - a)" using assms pos by (simp add: power_divide)
    also have "1 / (1 + a / (1 - a)) = 1 - a" using pos by (simp add: field_simps)
    finally show ?thesis by (simp add: cos_double_cos)
  qed
  ultimately have "arccos (1 - 2 * a) = 2 * ?t" by (metis (no_types) arccos_cos mult_nonneg_nonneg zero_le_numeral less_eq_real_def
        mult.commute pos_less_divide_eq zero_less_numeral)
  then show ?thesis using pos by (simp add: atan2_def)
qed

lemma earth_distance_arccos: "earth_distance p q = 6371000 * arccos (sphere_dot p q)"
proof -
  have a: "0 \<le> (1 - sphere_dot p q) / 2" "(1 - sphere_dot p q) / 2 \<le> 1"
    using sphere_dot_bounds [of p q] by auto
  show ?thesis
    unfolding earth_distance_def Let_def haversine_dot double_atan2 [OF a] by (simp add: field_simps)
qed

lemma arccos_triangle:
  assumes "- 1 \<le> x" "x \<le> 1" "- 1 \<le> y" "y \<le> 1" "- 1 \<le> z" "z \<le> 1" "0 \<le> 1 + 2 * x * y * z - x\<^sup>2 - y\<^sup>2 - z\<^sup>2"
  shows "arccos z \<le> arccos x + arccos y"
proof (cases "arccos x + arccos y \<le> pi")
  case True
  have "(z - x * y)\<^sup>2 \<le> (1 - x\<^sup>2) * (1 - y\<^sup>2)"
    using assms(7) by (simp add: power2_eq_square algebra_simps)
  then have "\<bar>z - x * y\<bar> \<le> sqrt ((1 - x\<^sup>2) * (1 - y\<^sup>2))" by (rule real_le_rsqrt [of "\<bar>z - x * y\<bar>", simplified])
  then have "x * y - sqrt (1 - x\<^sup>2) * sqrt (1 - y\<^sup>2) \<le> z" by (simp add: real_sqrt_mult)
  moreover have "cos (arccos x + arccos y) = x * y - sqrt (1 - x\<^sup>2) * sqrt (1 - y\<^sup>2)"
    using assms(1-4) by (simp add: cos_add sin_arccos cos_arccos)
  ultimately have "cos (arccos x + arccos y) \<le> cos (arccos z)" using assms(5,6) by (simp add: cos_arccos)
  moreover have "0 \<le> arccos x + arccos y" "0 \<le> arccos z" "arccos z \<le> pi"
    using assms by (simp_all add: arccos_lbound arccos_ubound)
  ultimately show ?thesis using True cos_mono_le_eq [of "arccos x + arccos y" "arccos z"] by blast
next
  case False
  then show ?thesis using arccos_ubound [of z] assms(5,6) by linarith
qed

lemma earth_distance_triangle: "earth_distance p r \<le> earth_distance p q + earth_distance q r"
  using arccos_triangle [OF sphere_dot_bounds sphere_dot_bounds sphere_dot_bounds sphere_gram, of p r q]
  by (simp add: earth_distance_arccos)

subsection \<open>Nothing lies outside\<close>

lemma circle_within_sound:
  assumes "circle_within i c" "is_inside_circle fx i"
  shows "is_inside_circle fx c"
proof -
  obtain p q where v: "valid_location (circle_center c)" "0 \<le> circle_radius c"
      and c: "converted (circle_center i) = Some p" "converted (circle_center c) = Some q"
      and d: "earth_distance p q + real_of_int (circle_radius i) \<le> real_of_int (circle_radius c)"
    using assms(1) by (auto simp: circle_within_def split: if_splits option.splits)
  have "earth_distance (fix_point fx) p \<le> real_of_int (circle_radius i)"
    using assms(2) c(1) by (auto simp: is_inside_circle_def split: if_splits)
  then have "earth_distance (fix_point fx) q \<le> real_of_int (circle_radius c)"
    using earth_distance_triangle [of "fix_point fx" q p] d by linarith
  then show ?thesis using v c(2) by (simp add: is_inside_circle_def)
qed

lemma check_identified_strict:
  assumes "\<not> permissive_identified_region lc"
  shows "check_identified_loop lc db fx False es \<longleftrightarrow> (\<exists>c. Country_only c \<in> set es \<and> db (word_of_int c) (fix_point fx))"
proof (induction es)
  case (Cons e es)
  then show ?case using assms by (cases e) auto
qed simp

lemma identified_within_countries:
  assumes "identified_within inner outer" "Country_only c \<in> set inner"
  shows "Country_only c \<in> set outer"
  using assms by (auto simp: identified_within_def list_all_iff list_ex_iff)

text \<open>C16: Where the test accepts the region of a certificate within its issuer's, without any
  leniency towards identified regions, and the issuer's region is not the empty choice that no
  decoder produces, every position at which the certificate is valid is one
  at which its issuer is valid: no part of its region lies outside. For circles this rests on
  the triangle inequality of the distance on the sphere.\<close>

theorem region_containment_sound:
  assumes "region_within c i False" "cert_region c = Some inner" "cert_region i \<noteq> Some Region_nothing"
    "\<not> permissive_identified_region lc" "valid_at_location cr lc c fx"
  shows "valid_at_location cr lc i fx"
proof (cases "cert_region i")
  case None
  then show ?thesis by (simp add: valid_at_location_def)
next
  case (Some outer)
  show ?thesis
  proof (cases "\<exists>os. outer = Region_identified os")
    case True
    then obtain os where os: "outer = Region_identified os" by blast
    then obtain es where es: "inner = Region_identified es" and "identified_within es os"
      using assms(1,2) Some by (cases inner) (auto simp: region_within_def)
    then show ?thesis
      using assms(2,4,5) Some os identified_within_countries
      by (auto simp: valid_at_location_def check_identified_region_def check_identified_strict split: option.splits)
  next
    case False
    then have "geometric_within inner outer"
      using assms(1,2) Some by (cases outer) (auto simp: region_within_def region_is_within_def)
    then show ?thesis
      using assms(2,3,5) Some circle_within_sound
      by (cases outer; cases inner) (auto simp: geometric_within_def valid_at_location_def)
  qed
qed

text \<open>The places an identified region stands for: triples of country, region and subregion.\<close>

fun places :: "IdentifiedRegion \<Rightarrow> (int \<times> int \<times> int) set" where
  "places (Country_only c) = {c} \<times> UNIV"
| "places (Country_and_regions c rs) = {c} \<times> set rs \<times> UNIV"
| "places (Country_and_subregions c es) = {c} \<times> (\<Union>e\<in>set es. {fst e} \<times> set (snd e))"
| "places Identified_other = {}"

lemma region_in_entry_places:
  assumes "region_in_entry c r ss e"
  shows "{c} \<times> {r} \<times> (case ss of None \<Rightarrow> UNIV | Some l \<Rightarrow> set l) \<subseteq> places e"
  using assms
  by (cases e) (auto simp: list_ex_iff contains_all_def list_all_iff find_Some_iff split: option.splits if_splits
      dest!: nth_mem)

lemma entry_covered_places:
  assumes "entry_covered e f"
  shows "places e \<subseteq> places f"
proof (cases e)
  case (Country_and_regions c rs)
  then have "{c} \<times> {r} \<times> UNIV \<subseteq> places f" if "r \<in> set rs" for r
    using assms that region_in_entry_places [of c r None f] by (simp add: list_all_iff)
  then show ?thesis using Country_and_regions by fastforce
next
  case (Country_and_subregions c es)
  then have "{c} \<times> {fst e} \<times> set (snd e) \<subseteq> places f" if "e \<in> set es" for e
    using assms that region_in_entry_places [of c "fst e" "Some (snd e)" f] by (simp add: list_all_iff)
  then show ?thesis using Country_and_subregions by fastforce
qed (use assms in auto)

lemma identified_within_places:
  assumes "identified_within inner outer"
  shows "\<Union> (places ` set inner) \<subseteq> \<Union> (places ` set outer)"
  using assms entry_covered_places unfolding identified_within_def list_all_iff list_ex_iff by blast

definition region_cert :: "GeographicRegion option \<Rightarrow> Certificate" where
  "region_cert r = (example_cert (Compressed_y_0 [9]) None (Dur_hours 1))\<lparr>cert_region := r\<rparr>"

definition circle_at :: "int \<Rightarrow> GeographicRegion" where
  "circle_at r = Region_circular \<lparr>circle_center = \<lparr>loc_latitude = 0, loc_longitude = 0\<rparr>, circle_radius = r\<rparr>"

theorem region_containment_sound_witness:
  "let c = region_cert (Some (circle_at 100)); i = region_cert (Some (circle_at 200));
       lc = \<lparr>permissive_identified_region = False, country_db = None\<rparr>;
       fx = \<lparr>fix_latitude = 0, fix_longitude = 0, fix_speed = 0, fix_course = 0, fix_semi_major = 0\<rparr>
   in region_within c i False \<and> valid_at_location plain_crypto lc c fx \<and> valid_at_location plain_crypto lc i fx"
proof -
  let ?c = "region_cert (Some (circle_at 100))" and ?i = "region_cert (Some (circle_at 200))"
  let ?lc = "\<lparr>permissive_identified_region = False, country_db = None\<rparr>"
  let ?fx = "\<lparr>fix_latitude = 0, fix_longitude = 0, fix_speed = 0, fix_course = 0, fix_semi_major = 0\<rparr>"
  have z: "earth_distance (0, 0) (0, 0) = 0"
    by (simp add: earth_distance_def haversine_def radians_def atan2_def Let_def)
  have cv: "converted \<lparr>loc_latitude = 0, loc_longitude = 0\<rparr> = Some (0, 0)"
    by (simp add: converted_def convert_latitude_def convert_longitude_def)
  have w: "region_within ?c ?i False"
    by (simp add: region_within_def region_cert_def circle_at_def region_is_within_def geometric_within_def circle_within_def
        valid_location_def cv z)
  have v: "valid_at_location plain_crypto ?lc ?c ?fx"
    by (simp add: valid_at_location_def region_cert_def circle_at_def is_inside_circle_def valid_location_def cv z fix_point_def)
  have "valid_at_location plain_crypto ?lc ?i ?fx"
    using region_containment_sound [OF w _ _ _ v] by (simp add: region_cert_def circle_at_def)
  then show ?thesis using w v by (simp add: Let_def)
qed

end
