(* ===== verification/CertChain.thy ===== *)
theory CertChain
  imports CertPerms CertRegion G5Frame
begin

text \<open>
  Trust: the store of root certificates, the lookups of issuers and of revocations
  (\<open>vanetza/security/v3/trust_store.cpp\<close>, \<open>issuer_memory_lookup.cpp\<close>, \<open>revocation_lookup.cpp\<close>), the
  trust configuration of the ESP-IDF port, the validator of certificates
  (\<open>certificate_validator.cpp\<close>), and the port's chain validator, which adds the signatures of
  certificates, permissions and regions along the chain and remembers what it has verified.
  An optional collaborator that has not been injected is \<open>None\<close>.
\<close>

subsection \<open>Trust store and lookups\<close>

type_synonym TrustStore = "(HashedId8 \<times> Certificate) list"
type_synonym IssuerLookup = "HashedId8 \<Rightarrow> Certificate option"
type_synonym RevocationLookup = "HashedId8 \<Rightarrow> HashedId8 list option"

text \<open>\<open>None\<close> is the exception for a certificate that is not self-signed or has no digest.\<close>

definition trust_insert :: "Crypto \<Rightarrow> Certificate \<Rightarrow> TrustStore \<Rightarrow> TrustStore option" where
  "trust_insert cr c ts = (if \<not> is_self_issued c then None
     else case calculate_digest cr c of None \<Rightarrow> None | Some d \<Rightarrow> Some (ts @ [(d, c)]))"

definition trust_lookup :: "HashedId8 \<Rightarrow> TrustStore \<Rightarrow> Certificate list" where
  "trust_lookup d ts = map snd (filter (\<lambda>p. fst p = d) ts)"

definition issuer_insert :: "Crypto \<Rightarrow> Certificate \<Rightarrow> IssuerLookup \<Rightarrow> bool \<times> IssuerLookup" where
  "issuer_insert cr c m = (if \<not> is_ca_certificate c then (False, m)
     else case calculate_digest cr c of None \<Rightarrow> (False, m) | Some d \<Rightarrow> (True, m(d \<mapsto> c)))"

definition revoke :: "HashedId8 \<Rightarrow> HashedId8 \<Rightarrow> RevocationLookup \<Rightarrow> RevocationLookup" where
  "revoke i c m = m(i \<mapsto> List.insert c (case m i of Some s \<Rightarrow> s | None \<Rightarrow> []))"

definition clear_revocations :: "HashedId8 \<Rightarrow> RevocationLookup \<Rightarrow> RevocationLookup" where
  "clear_revocations i m = m(i := None)"

definition is_revoked :: "RevocationLookup \<Rightarrow> HashedId8 \<Rightarrow> HashedId8 \<Rightarrow> bool" where
  "is_revoked m i c = (case m i of None \<Rightarrow> False | Some s \<Rightarrow> c \<in> set s)"

record TrustConfiguration =
  trust_roots :: TrustStore
  trust_issuers :: IssuerLookup
  trust_authorities :: "Certificate list"
  trust_revocations :: RevocationLookup

definition trust_init :: TrustConfiguration where
  "trust_init = \<lparr>trust_roots = [], trust_issuers = Map.empty, trust_authorities = [], trust_revocations = Map.empty\<rparr>"

definition add_root :: "Crypto \<Rightarrow> Certificate \<Rightarrow> TrustConfiguration \<Rightarrow> (Result \<times> TrustConfiguration) option" where
  "add_root cr c t =
    (if \<not> is_self_issued c \<or> \<not> is_ca_certificate c then Some (Res_invalid_argument, t)
     else if calculate_digest cr c = None then Some (Res_invalid_argument, t)
     else do {
       roots \<leftarrow> trust_insert cr c (trust_roots t);
       let t = t\<lparr>trust_roots := roots\<rparr>;
       let (inserted, issuers) = issuer_insert cr c (trust_issuers t);
       let t = t\<lparr>trust_issuers := issuers\<rparr>;
       if \<not> inserted then Some (Res_invalid_argument, t)
       else Some (Res_accepted, t\<lparr>trust_authorities := trust_authorities t @ [c]\<rparr>) })"

definition add_authority :: "Crypto \<Rightarrow> Certificate \<Rightarrow> TrustConfiguration \<Rightarrow> Result \<times> TrustConfiguration" where
  "add_authority cr c t =
    (if is_self_issued c \<or> \<not> is_ca_certificate c then (Res_invalid_argument, t)
     else case calculate_digest cr c of None \<Rightarrow> (Res_invalid_argument, t)
       | Some d \<Rightarrow>
           if trust_issuers t d \<noteq> None then (Res_rejected, t)
           else (let (inserted, issuers) = issuer_insert cr c (trust_issuers t); t = t\<lparr>trust_issuers := issuers\<rparr>
                 in if \<not> inserted then (Res_invalid_argument, t)
                    else (Res_accepted, t\<lparr>trust_authorities := trust_authorities t @ [c]\<rparr>)))"

text \<open>The variants that take octets: \<open>dec\<close> decodes and validates them.\<close>

definition add_root_coer :: "(bytes \<Rightarrow> Certificate option) \<Rightarrow> Crypto \<Rightarrow> bytes \<Rightarrow> TrustConfiguration \<Rightarrow> (Result \<times> TrustConfiguration) option" where
  "add_root_coer dec cr coer t = (if coer = [] then Some (Res_invalid_argument, t)
     else case dec coer of None \<Rightarrow> Some (Res_invalid_argument, t) | Some c \<Rightarrow> add_root cr c t)"

definition add_authority_coer :: "(bytes \<Rightarrow> Certificate option) \<Rightarrow> Crypto \<Rightarrow> bytes \<Rightarrow> TrustConfiguration \<Rightarrow> Result \<times> TrustConfiguration" where
  "add_authority_coer dec cr coer t = (if coer = [] then (Res_invalid_argument, t)
     else case dec coer of None \<Rightarrow> (Res_invalid_argument, t) | Some c \<Rightarrow> add_authority cr c t)"

definition trust_revoke :: "HashedId8 \<Rightarrow> HashedId8 \<Rightarrow> TrustConfiguration \<Rightarrow> TrustConfiguration" where
  "trust_revoke i c t = t\<lparr>trust_revocations := revoke i c (trust_revocations t)\<rparr>"

definition trust_clear_revocations :: "HashedId8 \<Rightarrow> TrustConfiguration \<Rightarrow> TrustConfiguration" where
  "trust_clear_revocations i t = t\<lparr>trust_revocations := clear_revocations i (trust_revocations t)\<rparr>"

subsection \<open>Validator\<close>

datatype Verdict = V_Unknown | V_Valid | V_Expired | V_Revoked | V_Untrusted | V_InconsistentChain | V_OutsideRegion
  | V_InsufficientPermission | V_Misconfiguration

record DefaultCertificateValidator =
  use_runtime :: "time_point option"
  use_position_provider :: "PositionFix option"
  use_issuer_lookup :: "IssuerLookup option"
  use_location_checker :: "DefaultLocationChecker option"
  use_revocation_lookup :: "RevocationLookup option"
  use_trust_store :: "TrustStore option"
  disable_time_checks :: bool
  disable_location_checks :: bool
  disable_chain_consistency_checks :: bool
  disable_region_consistency_checks :: bool

definition check_time_consistency :: "Certificate \<Rightarrow> Certificate \<Rightarrow> bool" where
  "check_time_consistency c i =
    (let subject_time = get_start_and_end_validity c; issuer_time = get_start_and_end_validity i
     in start_validity issuer_time \<le> start_validity subject_time \<and> end_validity issuer_time \<ge> end_validity subject_time)"

definition check_permission_consistency :: "Certificate \<Rightarrow> Certificate \<Rightarrow> ItsAid \<Rightarrow> bool" where
  "check_permission_consistency c i a =
    (if is_ca_certificate c \<and> \<not> is_allowed_to_issue c a then False
     else if is_at_certificate c \<and> \<not> valid_for_application c a then False
     else is_allowed_to_issue i a)"

definition check_assurance_consistency :: "Certificate \<Rightarrow> Certificate \<Rightarrow> bool" where
  "check_assurance_consistency c i = (case assurance_level c of None \<Rightarrow> True
   | Some s \<Rightarrow> (case assurance_level i of None \<Rightarrow> False
     | Some t \<Rightarrow>
         (let subject_level = drop_bit 5 s AND 7; issuer_level = drop_bit 5 t AND 7;
              subject_confidence = drop_bit 2 s AND 7; issuer_confidence = drop_bit 2 t AND 7
          in subject_level < issuer_level \<or> (subject_level = issuer_level \<and> subject_confidence \<le> issuer_confidence))))"

definition check_consistency :: "DefaultCertificateValidator \<Rightarrow> Certificate \<Rightarrow> Certificate \<Rightarrow> ItsAid \<Rightarrow> bool" where
  "check_consistency v c i a \<longleftrightarrow> check_time_consistency c i \<and> check_permission_consistency c i a
     \<and> check_assurance_consistency c i \<and> (disable_region_consistency_checks v \<or> region_is_within c i)"

definition find_issuer_certificate :: "DefaultCertificateValidator \<Rightarrow> Certificate \<Rightarrow> Certificate option" where
  "find_issuer_certificate v c = (case use_issuer_lookup v of None \<Rightarrow> None
     | Some finder \<Rightarrow> (case issuer_digest c of None \<Rightarrow> None | Some d \<Rightarrow> finder d))"

fun anchored_walk :: "Crypto \<Rightarrow> IssuerLookup \<Rightarrow> TrustStore \<Rightarrow> nat \<Rightarrow> Certificate \<Rightarrow> bool" where
  "anchored_walk cr finder ts 0 c = False"
| "anchored_walk cr finder ts (Suc n) c =
    (if is_self_issued c
     then (case calculate_digest cr c of None \<Rightarrow> False | Some d \<Rightarrow> trust_lookup d ts \<noteq> [])
     else case issuer_digest c of None \<Rightarrow> False
       | Some d \<Rightarrow> (case finder d of None \<Rightarrow> False | Some i \<Rightarrow> anchored_walk cr finder ts n i))"

definition is_chain_anchored :: "Crypto \<Rightarrow> DefaultCertificateValidator \<Rightarrow> Certificate \<Rightarrow> bool" where
  "is_chain_anchored cr v c = (case (use_trust_store v, use_issuer_lookup v) of
     (Some ts, Some finder) \<Rightarrow> anchored_walk cr finder ts 8 c | _ \<Rightarrow> True)"

fun consistent_walk :: "DefaultCertificateValidator \<Rightarrow> ItsAid \<Rightarrow> nat \<Rightarrow> Certificate \<Rightarrow> bool" where
  "consistent_walk v a 0 c = True"
| "consistent_walk v a (Suc n) c =
    (if is_self_issued c then True
     else case find_issuer_certificate v c of None \<Rightarrow> True
       | Some i \<Rightarrow> if \<not> check_consistency v c i a then False else consistent_walk v a n i)"

definition chain_is_consistent :: "DefaultCertificateValidator \<Rightarrow> Certificate \<Rightarrow> ItsAid \<Rightarrow> bool" where
  "chain_is_consistent v c a =
    (if disable_chain_consistency_checks v then True else if use_issuer_lookup v = None then True
     else consistent_walk v a 8 c)"

fun revoked_walk :: "Crypto \<Rightarrow> IssuerLookup \<Rightarrow> RevocationLookup \<Rightarrow> nat \<Rightarrow> Certificate \<Rightarrow> bool" where
  "revoked_walk cr finder rl 0 c = False"
| "revoked_walk cr finder rl (Suc n) c = (case (calculate_digest cr c, issuer_digest c) of
     (Some d, Some i) \<Rightarrow>
       if is_revoked rl i d then True
       else (case finder i of None \<Rightarrow> False
         | Some ic \<Rightarrow> if is_self_issued ic then False else revoked_walk cr finder rl n ic)
   | _ \<Rightarrow> False)"

definition chain_is_revoked :: "Crypto \<Rightarrow> DefaultCertificateValidator \<Rightarrow> Certificate \<Rightarrow> bool" where
  "chain_is_revoked cr v c = (case (use_revocation_lookup v, use_issuer_lookup v) of
     (Some rl, Some finder) \<Rightarrow> revoked_walk cr finder rl 8 c | _ \<Rightarrow> False)"

definition checked_location :: "Crypto \<Rightarrow> DefaultCertificateValidator \<Rightarrow> Certificate \<Rightarrow> PositionFix \<Rightarrow> bool" where
  "checked_location cr v c fx = (case use_location_checker v of None \<Rightarrow> False | Some lc \<Rightarrow> valid_at_location cr lc c fx)"

definition valid_for_signing :: "Crypto \<Rightarrow> DefaultCertificateValidator \<Rightarrow> Certificate \<Rightarrow> ItsAid \<Rightarrow> Verdict" where
  "valid_for_signing cr v c a =
    (if \<not> disable_time_checks v \<and> use_runtime v = None then V_Misconfiguration
     else if \<not> disable_location_checks v \<and> (use_position_provider v = None \<or> use_location_checker v = None) then V_Misconfiguration
     else if \<not> valid_for_application c a then V_InsufficientPermission
     else if (case use_runtime v of Some t \<Rightarrow> \<not> valid_at_timepoint c t | None \<Rightarrow> False) then V_Expired
     else if \<not> is_chain_anchored cr v c then V_Untrusted
     else if \<not> chain_is_consistent v c a then V_InconsistentChain
     else if chain_is_revoked cr v c then V_Revoked
     else if disable_location_checks v then V_Valid
     else case use_position_provider v of None \<Rightarrow> V_Valid
       | Some fx \<Rightarrow>
           if has_region_restriction c
           then if \<not> checked_location cr v c fx then V_OutsideRegion else V_Valid
           else case find_issuer_certificate v c of None \<Rightarrow> V_Valid
             | Some i \<Rightarrow> if \<not> checked_location cr v i fx then V_OutsideRegion else V_Valid)"

subsection \<open>Signatures of certificates\<close>

text \<open>\<open>None\<close> is the exception of the encoder.\<close>

definition verify_certificate_signature :: "Crypto \<Rightarrow> Certificate \<Rightarrow> Certificate option \<Rightarrow> bool option" where
  "verify_certificate_signature cr c i = (case get_signature c of None \<Rightarrow> Some False
   | Some sig \<Rightarrow>
       let choice = (case issuer c of
           Sha256AndDigest d \<Rightarrow> if i = None then None else Some (HA_SHA256, i)
         | Sha384AndDigest d \<Rightarrow> if i = None then None else Some (HA_SHA384, i)
         | IssuerSelf h \<Rightarrow> Some (if h = HA_SHA384 then HA_SHA384 else HA_SHA256, None)
         | Issuer_other \<Rightarrow> None)
       in case choice of None \<Rightarrow> Some False
        | Some (h, i) \<Rightarrow> (case get_public_key (case i of Some ic \<Rightarrow> ic | None \<Rightarrow> c) of None \<Rightarrow> Some False
            | Some key \<Rightarrow> do {
                tbs \<leftarrow> encode_tbs cr c;
                issuer_octets \<leftarrow> (case i of Some ic \<Rightarrow> encode_certificate cr ic | None \<Rightarrow> Some []);
                let input = calculate_hash cr h tbs @ calculate_hash cr h issuer_octets;
                Some (verify_digest cr key (calculate_hash cr h input) sig) }))"

subsection \<open>Chain validator\<close>

definition combined_find_issuer :: "Crypto \<Rightarrow> IssuerLookup \<Rightarrow> Certificate list \<Rightarrow> IssuerLookup" where
  "combined_find_issuer cr provisioned learned d = (case provisioned d of Some c \<Rightarrow> Some c
     | None \<Rightarrow> List.find (\<lambda>l. calculate_digest cr l = Some d) learned)"

record ChainValidator =
  chain_capacity :: nat
  chain_permissive :: bool
  verified_set :: "HashedId8 list"

text \<open>Walks up to a self-signed anchor: the chain, no chain (untrusted), or an exception.\<close>

fun chain_walk :: "Crypto \<Rightarrow> IssuerLookup \<Rightarrow> nat \<Rightarrow> Certificate \<Rightarrow> Certificate list option option" where
  "chain_walk cr finder 0 c = Some None"
| "chain_walk cr finder (Suc n) c =
    (if is_self_issued c
     then do { v \<leftarrow> verify_certificate_signature cr c None; Some (if v then Some [c] else None) }
     else case (case issuer_digest c of Some d \<Rightarrow> finder d | None \<Rightarrow> None) of None \<Rightarrow> Some None
       | Some i \<Rightarrow> do {
           v \<leftarrow> verify_certificate_signature cr c (Some i);
           if \<not> v then Some None
           else if is_self_issued i then Some (Some [c, i])
           else map_option (map_option (Cons c)) (chain_walk cr finder n i) })"

definition regions_nested :: "bool \<Rightarrow> Certificate list \<Rightarrow> bool" where
  "regions_nested permissive chain =
    list_all (\<lambda>k. region_within (chain ! k) (chain ! (k + 1)) permissive) [0..<length chain - 1]"

definition chain_valid_for_signing ::
    "Crypto \<Rightarrow> DefaultCertificateValidator \<Rightarrow> IssuerLookup \<Rightarrow> ChainValidator \<Rightarrow> Certificate \<Rightarrow> ItsAid \<Rightarrow> (Verdict \<times> ChainValidator) option" where
  "chain_valid_for_signing cr v finder s c a =
    (let verdict = valid_for_signing cr v c a
     in if verdict \<noteq> V_Valid then Some (verdict, s)
        else case calculate_digest cr c of None \<Rightarrow> Some (V_Untrusted, s)
          | Some d \<Rightarrow>
              if d \<in> set (verified_set s) then Some (V_Valid, s)
              else do {
                walked \<leftarrow> chain_walk cr finder 4 c;
                case walked of None \<Rightarrow> Some (V_Untrusted, s)
                | Some chain \<Rightarrow>
                    if length chain > 1 \<and> \<not> chain_consistent chain then Some (V_InconsistentChain, s)
                    else if \<not> regions_nested (chain_permissive s) chain then Some (V_InconsistentChain, s)
                    else let known = (if length (verified_set s) \<ge> chain_capacity s then [] else verified_set s)
                         in Some (V_Valid, s\<lparr>verified_set := List.insert d known\<rparr>) })"

text \<open>The validator as the security entity sets it up: all collaborators are there, and the
  containment of regions is left to the chain validator.\<close>

definition entity_validator :: "Crypto \<Rightarrow> time_point \<Rightarrow> PositionFix \<Rightarrow> DefaultLocationChecker \<Rightarrow> TrustConfiguration \<Rightarrow> Certificate list \<Rightarrow>
    DefaultCertificateValidator" where
  "entity_validator cr now fx lc t learned = \<lparr>use_runtime = Some now, use_position_provider = Some fx,
     use_issuer_lookup = Some (combined_find_issuer cr (trust_issuers t) learned), use_location_checker = Some lc,
     use_revocation_lookup = Some (trust_revocations t), use_trust_store = Some (trust_roots t),
     disable_time_checks = False, disable_location_checks = False, disable_chain_consistency_checks = False,
     disable_region_consistency_checks = True\<rparr>"

subsection \<open>Paths to an anchor\<close>

text \<open>The path of issuers the lookup gives, up to a self-signed certificate.\<close>

fun issuer_path :: "IssuerLookup \<Rightarrow> Certificate list \<Rightarrow> bool" where
  "issuer_path f [] = False"
| "issuer_path f [c] = is_self_issued c"
| "issuer_path f (c # i # cs) = (\<not> is_self_issued c \<and> (\<exists>d\<in>set_option (issuer_digest c). f d = Some i) \<and> issuer_path f (i # cs))"

text \<open>Every certificate is signed by the next one, which its issuer identifier names.\<close>

fun signed_chain :: "Crypto \<Rightarrow> Certificate list \<Rightarrow> bool" where
  "signed_chain cr [] = False"
| "signed_chain cr [c] = is_self_issued c"
| "signed_chain cr (c # i # cs) = (verify_certificate_signature cr c (Some i) = Some True
     \<and> calculate_digest cr i \<noteq> None \<and> issuer_digest c = calculate_digest cr i \<and> signed_chain cr (i # cs))"

lemma issuer_path_unique:
  assumes "issuer_path f (c # xs)" "issuer_path f (c # ys)"
  shows "xs = ys"
  using assms
proof (induction xs arbitrary: c ys)
  case Nil
  then show ?case by (cases ys) auto
next
  case (Cons i up)
  then show ?case by (cases ys) (auto split: option.splits)
qed

lemma anchored_path:
  assumes "anchored_walk cr f ts n c"
  shows "\<exists>up d. issuer_path f (c # up) \<and> length up < n \<and> calculate_digest cr (last (c # up)) = Some d \<and> trust_lookup d ts \<noteq> []"
  using assms
proof (induction n arbitrary: c)
  case (Suc n)
  show ?case
  proof (cases "is_self_issued c")
    case True
    then obtain d where "calculate_digest cr c = Some d" "trust_lookup d ts \<noteq> []"
      using Suc.prems by (auto split: option.splits)
    then have "issuer_path f (c # []) \<and> length [] < Suc n \<and> calculate_digest cr (last (c # [])) = Some d \<and> trust_lookup d ts \<noteq> []"
      using True by simp
    then show ?thesis by blast
  next
    case False
    then obtain e i where ei: "issuer_digest c = Some e" "f e = Some i" "anchored_walk cr f ts n i"
      using Suc.prems by (auto split: option.splits)
    obtain up d where "issuer_path f (i # up)" "length up < n" "calculate_digest cr (last (i # up)) = Some d" "trust_lookup d ts \<noteq> []"
      using Suc.IH [OF ei(3)] by blast
    then have "issuer_path f (c # i # up) \<and> length (i # up) < Suc n \<and> calculate_digest cr (last (c # i # up)) = Some d \<and> trust_lookup d ts \<noteq> []"
      using False ei by simp
    then show ?thesis by blast
  qed
qed simp

lemma consistent_path:
  assumes "use_issuer_lookup v = Some f" "issuer_path f (c # up)" "length up \<le> n" "consistent_walk v a n c" "k < length up"
  shows "check_consistency v ((c # up) ! k) ((c # up) ! Suc k) a"
  using assms(2-5)
proof (induction n arbitrary: c up k)
  case (Suc n)
  obtain i js where chain_is: "up = i # js" using Suc.prems(4) by (cases up) auto
  have st: "\<not> is_self_issued c" "find_issuer_certificate v c = Some i" "issuer_path f (i # js)"
    using Suc.prems(1) assms(1) unfolding chain_is by (auto simp: find_issuer_certificate_def)
  then have "check_consistency v c i a" "consistent_walk v a n i"
    using Suc.prems(3) by (auto split: if_splits)
  then show ?case
    using Suc.IH [OF st(3), of "k - 1"] Suc.prems(2,4) by (cases k) (auto simp: chain_is)
qed simp

lemma revoked_path:
  assumes "issuer_path f (c # up)" "length up \<le> n" "\<not> revoked_walk cr f rl n c" "\<forall>x\<in>set (c # up). calculate_digest cr x \<noteq> None"
    "k < length up"
  shows "\<not> is_revoked rl (the (issuer_digest ((c # up) ! k))) (the (calculate_digest cr ((c # up) ! k)))"
  using assms
proof (induction n arbitrary: c up k)
  case (Suc n)
  obtain i js where chain_is: "up = i # js" using Suc.prems(5) by (cases up) auto
  obtain d e where d: "calculate_digest cr c = Some d" "issuer_digest c = Some e" "f e = Some i"
    using Suc.prems(1,4) unfolding chain_is by (auto split: option.splits)
  have path: "issuer_path f (i # js)" using Suc.prems(1) by (simp add: chain_is)
  have here: "\<not> is_revoked rl e d" "\<not> is_self_issued i \<Longrightarrow> \<not> revoked_walk cr f rl n i"
    using Suc.prems(3) d by (auto split: if_splits)
  show ?case
  proof (cases k)
    case 0
    then show ?thesis using here(1) d by simp
  next
    case (Suc j)
    then have "j < length js" using Suc.prems(5) by (simp add: chain_is)
    then have "\<not> is_self_issued i" using path by (cases js) auto
    then show ?thesis
      using Suc.IH [OF path _ here(2)] Suc.prems(2,4) \<open>j < length js\<close> Suc by (simp add: chain_is)
  qed
qed simp

subsection \<open>Directories of issuers\<close>

locale issuer_directory =
  fixes cr :: Crypto and directory_ok :: "'s \<Rightarrow> bool" and issuer_of :: "'s \<Rightarrow> IssuerLookup"
  assumes issuer_of_digest: "directory_ok s \<Longrightarrow> issuer_of s d = Some c \<Longrightarrow> calculate_digest cr c = Some d"
begin

lemma walk_sound:
  assumes "directory_ok s" "chain_walk cr (issuer_of s) n c = Some (Some chain)"
  shows "issuer_path (issuer_of s) chain \<and> signed_chain cr chain \<and> (\<exists>up. chain = c # up)"
  using assms(2)
proof (induction n arbitrary: c chain)
  case (Suc n)
  show ?case
  proof (cases "is_self_issued c")
    case True
    then show ?thesis using Suc.prems by (auto split: bind_splits if_splits)
  next
    case False
    then obtain d i where d: "issuer_digest c = Some d" "issuer_of s d = Some i" "verify_certificate_signature cr c (Some i) = Some True"
      using Suc.prems by (auto split: bind_splits if_splits option.splits)
    then have i: "calculate_digest cr i = Some d" using issuer_of_digest assms(1) by blast
    show ?thesis
    proof (cases "is_self_issued i")
      case True
      then show ?thesis using Suc.prems False d i by auto
    next
      case not_anchor: False
      then obtain rest where rest: "chain_walk cr (issuer_of s) n i = Some (Some rest)" "chain = c # rest"
        using Suc.prems False d by (auto split: option.splits)
      then show ?thesis using Suc.IH [OF rest(1)] False d i by auto
    qed
  qed
qed simp

lemma path_digests:
  assumes "directory_ok s" "issuer_path (issuer_of s) (c # up)" "calculate_digest cr c \<noteq> None"
  shows "\<forall>x\<in>set (c # up). calculate_digest cr x \<noteq> None"
  using assms(2,3)
proof (induction up arbitrary: c)
  case (Cons i up)
  then obtain d where "issuer_of s d = Some i" by auto
  then have "calculate_digest cr i \<noteq> None" using issuer_of_digest [OF assms(1)] by auto
  then show ?case using Cons by auto
qed simp

end

text \<open>The configuration keeps every certificate under its digest.\<close>

definition trust_ok :: "Crypto \<Rightarrow> TrustConfiguration \<Rightarrow> bool" where
  "trust_ok cr t \<longleftrightarrow> (\<forall>d c. trust_issuers t d = Some c \<longrightarrow> calculate_digest cr c = Some d)
     \<and> (\<forall>(d, c)\<in>set (trust_roots t). calculate_digest cr c = Some d \<and> is_self_issued c)"

lemma trust_ok_init: "trust_ok cr trust_init"
  by (simp add: trust_ok_def trust_init_def)

lemma trust_ok_add_root: "trust_ok cr t \<Longrightarrow> add_root cr c t = Some (r, t') \<Longrightarrow> trust_ok cr t'"
  by (auto simp: trust_ok_def add_root_def trust_insert_def issuer_insert_def Let_def split: if_splits option.splits bind_splits)

lemma trust_ok_add_authority: "trust_ok cr t \<Longrightarrow> trust_ok cr (snd (add_authority cr c t))"
  by (auto simp: trust_ok_def add_authority_def issuer_insert_def Let_def split: option.splits)

lemma trust_ok_revoke: "trust_ok cr t \<Longrightarrow> trust_ok cr (trust_revoke i c t)"
  "trust_ok cr t \<Longrightarrow> trust_ok cr (trust_clear_revocations i t)"
  by (simp_all add: trust_ok_def trust_revoke_def trust_clear_revocations_def)

text \<open>Adding a root never throws: what the trust store refuses has been checked before.\<close>

lemma add_root_total: "add_root cr c t \<noteq> None"
  by (auto simp: add_root_def trust_insert_def Let_def split: option.splits prod.splits bind_splits)

interpretation provisioned: issuer_directory cr "\<lambda>s. trust_ok cr (fst s)" "\<lambda>s. combined_find_issuer cr (trust_issuers (fst s)) (snd s)"
  for cr
proof
  fix s d c
  assume "trust_ok cr (fst s)" "combined_find_issuer cr (trust_issuers (fst s)) (snd s) d = Some c"
  then show "calculate_digest cr c = Some d"
    by (auto simp: combined_find_issuer_def trust_ok_def find_Some_iff split: option.splits)
qed

subsection \<open>What a verdict means\<close>

text \<open>The checks of the validator, as a statement on the path to the anchor: the certificate
  is permitted and valid now, the path ends in the trust store, every certificate on it is
  consistent with its issuer, and none is revoked.\<close>

definition trusted_now :: "Crypto \<Rightarrow> DefaultCertificateValidator \<Rightarrow> TrustStore \<Rightarrow> IssuerLookup \<Rightarrow> RevocationLookup \<Rightarrow>
    time_point \<Rightarrow> Certificate \<Rightarrow> ItsAid \<Rightarrow> bool" where
  "trusted_now cr v ts f rl now c a \<longleftrightarrow> valid_for_application c a \<and> valid_at_timepoint c now
     \<and> (\<exists>up. issuer_path f (c # up) \<and> (\<exists>r\<in>set ts. calculate_digest cr (last (c # up)) = Some (fst r))
         \<and> (\<forall>k<length up. check_consistency v ((c # up) ! k) ((c # up) ! Suc k) a
              \<and> \<not> is_revoked rl (the (issuer_digest ((c # up) ! k))) (the (calculate_digest cr ((c # up) ! k)))))"

lemma valid_for_signing_trusted:
  assumes v: "valid_for_signing cr v c a = V_Valid" "use_runtime v = Some now" "use_trust_store v = Some ts"
      "use_issuer_lookup v = Some f" "use_revocation_lookup v = Some rl" "\<not> disable_chain_consistency_checks v"
    and f: "f = combined_find_issuer cr (trust_issuers t) learned" "trust_ok cr t" and d: "calculate_digest cr c \<noteq> None"
  shows "trusted_now cr v ts f rl now c a"
proof -
  have base: "valid_for_application c a" "valid_at_timepoint c now" "anchored_walk cr f ts 8 c" "consistent_walk v a 8 c"
      "\<not> revoked_walk cr f rl 8 c"
    using v by (auto simp: valid_for_signing_def is_chain_anchored_def chain_is_consistent_def chain_is_revoked_def split: if_splits)
  obtain up e where up: "issuer_path f (c # up)" "length up < 8" "calculate_digest cr (last (c # up)) = Some e" "trust_lookup e ts \<noteq> []"
    using anchored_path [OF base(3)] by blast
  have "\<exists>r\<in>set ts. calculate_digest cr (last (c # up)) = Some (fst r)"
    using up(3,4) by (auto simp: trust_lookup_def filter_empty_conv)
  moreover have "check_consistency v ((c # up) ! k) ((c # up) ! Suc k) a" if "k < length up" for k
    using consistent_path [OF v(4) up(1) _ base(4) that] up(2) by simp
  moreover have "\<forall>x\<in>set (c # up). calculate_digest cr x \<noteq> None"
    using provisioned.path_digests [of cr "(t, learned)" c up] f up(1) d by simp
  then have "\<not> is_revoked rl (the (issuer_digest ((c # up) ! k))) (the (calculate_digest cr ((c # up) ! k)))" if "k < length up" for k
    using revoked_path [OF up(1) _ base(5) _ that] up(2) by simp
  ultimately show ?thesis using base(1,2) up(1) unfolding trusted_now_def by blast
qed

text \<open>A digest is vouched for if some certificate with that digest has a chain of verified
  signatures, with consistent permissions and regions, to a self-signed certificate.\<close>

definition vouched :: "Crypto \<Rightarrow> HashedId8 \<Rightarrow> bool" where
  "vouched cr d \<longleftrightarrow> (\<exists>chain permissive. signed_chain cr chain \<and> calculate_digest cr (hd chain) = Some d
     \<and> (length chain > 1 \<longrightarrow> chain_consistent chain) \<and> regions_nested permissive chain)"

definition verified_ok :: "Crypto \<Rightarrow> ChainValidator \<Rightarrow> bool" where
  "verified_ok cr s \<longleftrightarrow> (\<forall>d\<in>set (verified_set s). vouched cr d)"

lemma chain_valid_vouched:
  assumes f: "f = combined_find_issuer cr (trust_issuers t) learned" "trust_ok cr t" and s: "verified_ok cr s"
    and r: "chain_valid_for_signing cr v f s c a = Some (r, s')"
  shows "verified_ok cr s'" "r = V_Valid \<Longrightarrow> valid_for_signing cr v c a = V_Valid \<and> (\<exists>d. calculate_digest cr c = Some d \<and> vouched cr d)"
proof -
  have fresh: "vouched cr d" if "chain_walk cr f 4 c = Some (Some chain)" "calculate_digest cr c = Some d"
      "length chain > 1 \<longrightarrow> chain_consistent chain" "regions_nested p chain" for chain d p
    using provisioned.walk_sound [of cr "(t, learned)" 4 c chain] f that unfolding vouched_def by fastforce
  have "verified_ok cr s' \<and> (r = V_Valid \<longrightarrow> valid_for_signing cr v c a = V_Valid \<and> (\<exists>d. calculate_digest cr c = Some d \<and> vouched cr d))"
  proof (cases "valid_for_signing cr v c a = V_Valid")
    case False
    then show ?thesis using r s by (auto simp: chain_valid_for_signing_def Let_def)
  next
    case valid: True
    show ?thesis
    proof (cases "calculate_digest cr c")
      case None
      then show ?thesis using r s valid by (simp add: chain_valid_for_signing_def Let_def)
    next
      case (Some d)
      show ?thesis
      proof (cases "d \<in> set (verified_set s)")
        case True
        then show ?thesis using r s valid Some by (auto simp: chain_valid_for_signing_def Let_def verified_ok_def)
      next
        case False
        then obtain walked where w: "chain_walk cr f 4 c = Some walked"
          using r valid Some by (cases "chain_walk cr f 4 c") (simp_all add: chain_valid_for_signing_def Let_def)
        show ?thesis
        proof (cases walked)
          case None
          then show ?thesis using r s valid Some False w by (simp add: chain_valid_for_signing_def Let_def)
        next
          case chain: (Some chain)
          show ?thesis
          proof (cases "(length chain > 1 \<longrightarrow> chain_consistent chain) \<and> regions_nested (chain_permissive s) chain")
            case True
            then have "vouched cr d" using fresh w chain Some by blast
            then show ?thesis
              using r s valid Some False w chain True
              by (auto simp: chain_valid_for_signing_def Let_def verified_ok_def split: if_splits)
          next
            case refused: False
            then show ?thesis
              using r s valid Some False w chain by (auto simp: chain_valid_for_signing_def Let_def split: if_splits)
          qed
        qed
      qed
    qed
  qed
  then show "verified_ok cr s'" "r = V_Valid \<Longrightarrow> valid_for_signing cr v c a = V_Valid \<and> (\<exists>d. calculate_digest cr c = Some d \<and> vouched cr d)"
    by blast+
qed

text \<open>Trust configurations and chain validators that can come about.\<close>

inductive trust_reach :: "Crypto \<Rightarrow> TrustConfiguration \<Rightarrow> bool" for cr where
  trust_start: "trust_reach cr trust_init"
| trust_root: "trust_reach cr t \<Longrightarrow> add_root cr c t = Some (r, t') \<Longrightarrow> trust_reach cr t'"
| trust_authority: "trust_reach cr t \<Longrightarrow> trust_reach cr (snd (add_authority cr c t))"
| trust_revocation: "trust_reach cr t \<Longrightarrow> trust_reach cr (trust_revoke i c t)"
| trust_clearing: "trust_reach cr t \<Longrightarrow> trust_reach cr (trust_clear_revocations i t)"

lemma trust_reach_ok: "trust_reach cr t \<Longrightarrow> trust_ok cr t"
  by (induction rule: trust_reach.induct)
    (auto intro: trust_ok_init trust_ok_add_root trust_ok_add_authority trust_ok_revoke)

inductive validator_reach :: "Crypto \<Rightarrow> ChainValidator \<Rightarrow> bool" for cr where
  validator_start: "validator_reach cr \<lparr>chain_capacity = n, chain_permissive = p, verified_set = []\<rparr>"
| validator_policy: "validator_reach cr s \<Longrightarrow> validator_reach cr (s\<lparr>chain_capacity := n, chain_permissive := p\<rparr>)"
| validator_check: "validator_reach cr s \<Longrightarrow> trust_reach cr t \<Longrightarrow>
    chain_valid_for_signing cr v (combined_find_issuer cr (trust_issuers t) learned) s c a = Some (r, s') \<Longrightarrow> validator_reach cr s'"

lemma validator_reach_ok: "validator_reach cr s \<Longrightarrow> verified_ok cr s"
proof (induction rule: validator_reach.induct)
  case (validator_check s t v learned c a r s')
  then show ?case using chain_valid_vouched(1) trust_reach_ok by blast
qed (simp_all add: verified_ok_def)

text \<open>C14: A verdict of the chain validator is sound: if it finds a certificate valid for signing
  under an application, whatever it has checked and remembered before, then the certificate is
  permitted for the application and valid now, its issuers lead to a root of the trust store,
  every certificate on that path is consistent with its issuer and none is revoked, and some
  certificate with the same digest has a chain of verified signatures with consistent
  permissions and regions.\<close>

theorem valid_verdict_sound:
  assumes "validator_reach cr s" "trust_reach cr t" "v = entity_validator cr now fx lc t learned"
    "f = combined_find_issuer cr (trust_issuers t) learned"
    "chain_valid_for_signing cr v f s c a = Some (V_Valid, s')"
  shows "trusted_now cr v (trust_roots t) f (trust_revocations t) now c a \<and> (\<exists>d. calculate_digest cr c = Some d \<and> vouched cr d)"
proof -
  have t: "trust_ok cr t" and s: "verified_ok cr s" using assms trust_reach_ok validator_reach_ok by auto
  have v: "valid_for_signing cr v c a = V_Valid" "\<exists>d. calculate_digest cr c = Some d \<and> vouched cr d"
    using chain_valid_vouched(2) [OF assms(4) t s assms(5)] by simp_all
  then have "trusted_now cr v (trust_roots t) f (trust_revocations t) now c a"
    by (intro valid_for_signing_trusted [OF v(1) _ _ _ _ _ assms(4) t]) (auto simp: assms(3,4) entity_validator_def)
  then show ?thesis using v(2) by blast
qed

subsection \<open>A chain of three\<close>

definition demo_root :: Certificate where
  "demo_root = \<lparr>issuer = IssuerSelf HA_SHA256, id_none = False, validity_period = \<lparr>period_start = 0, period_duration = Dur_hours 40\<rparr>,
     cert_region = Some (Region_rectangular [\<lparr>north_west = \<lparr>loc_latitude = 100000000, loc_longitude = 0\<rparr>,
                                              south_east = \<lparr>loc_latitude = 0, loc_longitude = 100000000\<rparr>\<rparr>]),
     assurance = None, app_permissions = None,
     cert_issue_permissions = Some [\<lparr>subject_permissions = Perm_all, min_chain_length = None, chain_length_range = 1, ee_type = None\<rparr>],
     encryption_key = None, verify_key_indicator = VerificationKey (EcdsaNistP256 (Compressed_y_0 [1])), tbs_rest = [1],
     cert_signature = Some (NistP256Signature (X_only [0]) [1])\<rparr>"

definition demo_aa :: Certificate where
  "demo_aa = demo_root\<lparr>issuer := Sha256AndDigest [0, 0, 0, 0, 0, 0, 0, 1], cert_region := None,
     cert_issue_permissions := Some [\<lparr>subject_permissions = Perm_all, min_chain_length = None, chain_length_range = 0, ee_type = None\<rparr>],
     tbs_rest := [2], cert_signature := Some (NistP256Signature (X_only [0]) [2, 1])\<rparr>"

definition demo_at :: Certificate where
  "demo_at = demo_root\<lparr>issuer := Sha256AndDigest [0, 0, 0, 0, 0, 0, 0, 2], id_none := True, cert_region := None,
     app_permissions := Some [\<lparr>app_psid = 36, app_ssp = Some (Ssp_bitmap [1, 0])\<rparr>], cert_issue_permissions := None,
     tbs_rest := [3], cert_signature := Some (NistP256Signature (X_only [0]) [3, 2])\<rparr>"

definition demo_fix :: PositionFix where
  "demo_fix = \<lparr>fix_latitude = 50, fix_longitude = 5, fix_speed = 0, fix_course = 0, fix_semi_major = 0\<rparr>"

definition demo_trust :: TrustConfiguration where
  "demo_trust = snd (add_authority plain_crypto demo_aa (snd (the (add_root plain_crypto demo_root trust_init))))"

definition demo_checker :: DefaultLocationChecker where
  "demo_checker = \<lparr>permissive_identified_region = False, country_db = None\<rparr>"

definition demo_validator :: DefaultCertificateValidator where
  "demo_validator = entity_validator plain_crypto 500000 demo_fix demo_checker demo_trust []"

lemma demo_digests:
  "calculate_digest plain_crypto demo_root = Some [0, 0, 0, 0, 0, 0, 0, 1]"
  "calculate_digest plain_crypto demo_aa = Some [0, 0, 0, 0, 0, 0, 0, 2]"
  "calculate_digest plain_crypto demo_at = Some [0, 0, 0, 0, 0, 0, 0, 3]"
  by code_simp+

lemma demo_facts:
  "is_self_issued demo_root" "is_ca_certificate demo_root" "\<not> is_self_issued demo_aa" "is_ca_certificate demo_aa" "\<not> is_self_issued demo_at"
  "issuer_digest demo_aa = Some [0, 0, 0, 0, 0, 0, 0, 1]" "issuer_digest demo_at = Some [0, 0, 0, 0, 0, 0, 0, 2]"
  by code_simp+

lemma demo_trust_eq:
  "demo_trust = \<lparr>trust_roots = [([0, 0, 0, 0, 0, 0, 0, 1], demo_root)],
     trust_issuers = [[0, 0, 0, 0, 0, 0, 0, 1] \<mapsto> demo_root, [0, 0, 0, 0, 0, 0, 0, 2] \<mapsto> demo_aa],
     trust_authorities = [demo_root, demo_aa], trust_revocations = Map.empty\<rparr>"
  by (simp add: demo_trust_def add_authority_def add_root_def trust_init_def demo_facts demo_digests trust_insert_def issuer_insert_def)

lemma demo_trust_ok: "trust_ok plain_crypto demo_trust"
  by (simp add: trust_ok_def demo_trust_eq demo_digests demo_facts)

lemma demo_consistent:
  "check_consistency demo_validator demo_at demo_aa 36" "check_consistency demo_validator demo_aa demo_root 36"
proof -
  have d: "disable_region_consistency_checks demo_validator" by (simp add: demo_validator_def entity_validator_def)
  have "check_time_consistency demo_at demo_aa" "check_permission_consistency demo_at demo_aa 36" "check_assurance_consistency demo_at demo_aa"
    by code_simp+
  then show "check_consistency demo_validator demo_at demo_aa 36" using d by (simp add: check_consistency_def)
  have "check_time_consistency demo_aa demo_root" "check_permission_consistency demo_aa demo_root 36" "check_assurance_consistency demo_aa demo_root"
    by code_simp+
  then show "check_consistency demo_validator demo_aa demo_root 36" using d by (simp add: check_consistency_def)
qed

lemma demo_finder:
  "combined_find_issuer plain_crypto (trust_issuers demo_trust) [] [0, 0, 0, 0, 0, 0, 0, 1] = Some demo_root"
  "combined_find_issuer plain_crypto (trust_issuers demo_trust) [] [0, 0, 0, 0, 0, 0, 0, 2] = Some demo_aa"
  by (simp_all add: combined_find_issuer_def demo_trust_eq)

lemma demo_base_valid: "valid_for_signing plain_crypto demo_validator demo_at 36 = V_Valid"
proof -
  have f: "use_issuer_lookup demo_validator = Some (combined_find_issuer plain_crypto (trust_issuers demo_trust) [])"
    by (simp add: demo_validator_def entity_validator_def)
  have "anchored_walk plain_crypto (combined_find_issuer plain_crypto (trust_issuers demo_trust) []) (trust_roots demo_trust)
      (Suc (Suc (Suc n))) demo_at" for n
    by (simp add: demo_facts demo_digests demo_finder) (simp add: trust_lookup_def demo_trust_eq)
  from this [of 5] have anchored: "is_chain_anchored plain_crypto demo_validator demo_at"
    by (simp add: is_chain_anchored_def demo_validator_def entity_validator_def)
  have "consistent_walk demo_validator 36 (Suc (Suc (Suc n))) demo_at" for n
    using demo_consistent by (simp add: find_issuer_certificate_def f demo_facts demo_finder)
  from this [of 5] have consistent: "chain_is_consistent demo_validator demo_at 36" by (simp add: chain_is_consistent_def)
  have "\<not> revoked_walk plain_crypto (combined_find_issuer plain_crypto (trust_issuers demo_trust) []) (trust_revocations demo_trust)
      (Suc (Suc (Suc n))) demo_at" for n
    by (simp add: demo_facts demo_digests demo_finder) (simp add: is_revoked_def demo_trust_eq)
  from this [of 5] have revoked: "\<not> chain_is_revoked plain_crypto demo_validator demo_at"
    by (simp add: chain_is_revoked_def demo_validator_def entity_validator_def)
  have aa: "find_issuer_certificate demo_validator demo_at = Some demo_aa"
    by (simp add: find_issuer_certificate_def f demo_facts demo_finder)
  have "valid_for_application demo_at 36" "valid_at_timepoint demo_at 500000" "\<not> has_region_restriction demo_at" by code_simp+
  moreover have "checked_location plain_crypto demo_validator demo_aa demo_fix"
    by (simp add: checked_location_def demo_validator_def entity_validator_def valid_at_location_def demo_aa_def)
  ultimately show "valid_for_signing plain_crypto demo_validator demo_at 36 = V_Valid"
    using anchored consistent revoked aa by (simp add: valid_for_signing_def demo_validator_def entity_validator_def)
qed

text \<open>The region of the root is not inherited by a ticket whose authority has no region of its
  own: the ticket is accepted at a position outside of it.\<close>

lemma inherited_region_ignored:
  "valid_for_signing plain_crypto demo_validator demo_at 36 = V_Valid \<and> \<not> checked_location plain_crypto demo_validator demo_root demo_fix"
proof (intro conjI)
  show "\<not> checked_location plain_crypto demo_validator demo_root demo_fix"
    by (simp add: checked_location_def demo_validator_def entity_validator_def valid_at_location_def demo_root_def is_inside_rectangles_def
        is_inside_rectangle_def valid_location_def demo_fix_def demo_checker_def trunc_real_def)
qed (rule demo_base_valid)


lemma demo_walk:
  "chain_walk plain_crypto (combined_find_issuer plain_crypto (trust_issuers demo_trust) []) 4 demo_at = Some (Some [demo_at, demo_aa, demo_root])"
proof -
  have v: "verify_certificate_signature plain_crypto demo_at (Some demo_aa) = Some True"
      "verify_certificate_signature plain_crypto demo_aa (Some demo_root) = Some True"
    by code_simp+
  have "chain_walk plain_crypto (combined_find_issuer plain_crypto (trust_issuers demo_trust) []) (Suc (Suc n)) demo_at
      = Some (Some [demo_at, demo_aa, demo_root])" for n
    by (simp add: demo_facts demo_finder v)
  from this [of 2] show ?thesis by simp
qed

theorem valid_verdict_sound_witness:
  "let f = combined_find_issuer plain_crypto (trust_issuers demo_trust) [];
       s = \<lparr>chain_capacity = 64, chain_permissive = False, verified_set = []\<rparr>
   in chain_valid_for_signing plain_crypto demo_validator f s demo_at 36 = Some (V_Valid, s\<lparr>verified_set := [[0, 0, 0, 0, 0, 0, 0, 3]]\<rparr>)
     \<and> trusted_now plain_crypto demo_validator (trust_roots demo_trust) f (trust_revocations demo_trust) 500000 demo_at 36
     \<and> (\<exists>d. calculate_digest plain_crypto demo_at = Some d \<and> vouched plain_crypto d)"
proof -
  let ?f = "combined_find_issuer plain_crypto (trust_issuers demo_trust) []"
  let ?s = "\<lparr>chain_capacity = 64, chain_permissive = False, verified_set = []\<rparr>"
  have consistent: "chain_consistent [demo_at, demo_aa, demo_root]" by code_simp
  have regions: "regions_nested False [demo_at, demo_aa, demo_root]"
    by (simp add: regions_nested_def region_within_def demo_at_def demo_aa_def demo_root_def upt_rec)
  have run: "chain_valid_for_signing plain_crypto demo_validator ?f ?s demo_at 36 = Some (V_Valid, ?s\<lparr>verified_set := [[0, 0, 0, 0, 0, 0, 0, 3]]\<rparr>)"
    by (simp add: chain_valid_for_signing_def demo_base_valid demo_digests demo_walk consistent regions)
  obtain t where t: "add_root plain_crypto demo_root trust_init = Some t" using add_root_total by fastforce
  have "trust_reach plain_crypto (snd t)" using trust_root [OF trust_start] t by (metis prod.collapse)
  then have "trust_reach plain_crypto demo_trust" unfolding demo_trust_def t by (simp add: trust_authority)
  then show ?thesis
    using valid_verdict_sound [OF validator_start _ demo_validator_def refl run] run by (simp add: Let_def)
qed

end
