(* ===== verification/SignPolicy.thy ===== *)
theory SignPolicy
  imports CertChain
begin

text \<open>
  Which header fields a signed message carries (\<open>ports/esp_idf/src/sign_header_policy.cpp\<close>), the
  tracker of requests for certificates among peers (\<open>vanetza/security/peer_request_tracker.cpp\<close>) and
  the service that signs (\<open>vanetza/security/v3/sign_service.cpp\<close>). A message names its signer by the
  digest of the certificate most of the time and carries the certificate at intervals; the
  theorem says that a receiver can always have seen the certificate before, as long as no attempt
  to sign was refused. The encoder of what is signed is a parameter.
\<close>

subsection \<open>Tracker of requests\<close>

text \<open>Of the hash map from identifiers to positions in the queue, the identifiers are kept; the
  position is that of the identifier in the queue.\<close>

record PeerRequestTracker =
  tracker_limit :: nat
  tracker_fifo :: "HashedId3 list"
  tracker_lookup :: "HashedId3 list"

definition tracker_init :: PeerRequestTracker where
  "tracker_init = \<lparr>tracker_limit = 16, tracker_fifo = [], tracker_lookup = []\<rparr>"

definition is_pending :: "HashedId3 \<Rightarrow> PeerRequestTracker \<Rightarrow> bool" where
  "is_pending i r \<longleftrightarrow> i \<in> set (tracker_lookup r)"

definition add_request :: "HashedId3 \<Rightarrow> PeerRequestTracker \<Rightarrow> PeerRequestTracker" where
  "add_request i r =
    (if \<not> is_pending i r
     then (let r = (if length (tracker_fifo r) \<ge> tracker_limit r \<and> tracker_fifo r \<noteq> []
                    then r\<lparr>tracker_lookup := remove1 (hd (tracker_fifo r)) (tracker_lookup r), tracker_fifo := tl (tracker_fifo r)\<rparr>
                    else r)
           in r\<lparr>tracker_fifo := tracker_fifo r @ [i], tracker_lookup := i # tracker_lookup r\<rparr>)
     else r)"

definition discard_request :: "HashedId3 \<Rightarrow> PeerRequestTracker \<Rightarrow> PeerRequestTracker" where
  "discard_request i r =
    (if is_pending i r
     then r\<lparr>tracker_fifo := remove1 i (tracker_fifo r), tracker_lookup := remove1 i (tracker_lookup r)\<rparr> else r)"

definition next_one :: "PeerRequestTracker \<Rightarrow> HashedId3 option \<times> PeerRequestTracker" where
  "next_one r = (case tracker_fifo r of [] \<Rightarrow> (None, r)
     | i # is' \<Rightarrow> (Some i, r\<lparr>tracker_fifo := is', tracker_lookup := remove1 i (tracker_lookup r)\<rparr>))"

definition all_requests :: "PeerRequestTracker \<Rightarrow> HashedId3 list \<times> PeerRequestTracker" where
  "all_requests r = (tracker_fifo r, r\<lparr>tracker_fifo := [], tracker_lookup := []\<rparr>)"

definition next_n :: "nat \<Rightarrow> PeerRequestTracker \<Rightarrow> HashedId3 list \<times> PeerRequestTracker" where
  "next_n n r =
    (if n \<ge> length (tracker_fifo r) then all_requests r
     else (take n (tracker_fifo r), r\<lparr>tracker_fifo := drop n (tracker_fifo r),
             tracker_lookup := fold remove1 (take n (tracker_fifo r)) (tracker_lookup r)\<rparr>))"

subsection \<open>Header\<close>

datatype SignerIdentifier = Signer_none | Signer_self | Signer_digest HashedId8 | Signer_certificate Certificate

record ThreeDLocation =
  three_latitude :: int
  three_longitude :: int
  three_elevation :: int

record SignHeader =
  header_its_aid :: ItsAid
  header_generation_time :: "64 word"
  header_signer :: SignerIdentifier
  header_inline_p2pcd :: "HashedId3 list"
  header_requested_certificate :: "Certificate option"
  header_location :: "ThreeDLocation option"

text \<open>The altitude of the fix is given apart, where the fix has one.\<close>

definition build_location :: "PositionFix \<Rightarrow> real option \<Rightarrow> ThreeDLocation" where
  "build_location fx altitude =
    (let lat = lround (fix_latitude fx / 90 * 900000000); lon = lround (fix_longitude fx / 180 * 1800000000)
     in \<lparr>three_latitude = (if -900000000 \<le> lat \<and> lat \<le> 900000000 then lat else 900000001),
         three_longitude = (if -1799999999 \<le> lon \<and> lon \<le> 1800000000 then lon else 1800000001),
         three_elevation = (case altitude of None \<Rightarrow> 4096
           | Some a \<Rightarrow> (let elev_dm = lround (a * 10) in if -4095 \<le> elev_dm \<and> elev_dm \<le> 61439 then elev_dm + 4096 else 4096))\<rparr>)"

record HeaderPolicy =
  cam_last_certificate :: "time_point option"
  cam_certificate_requested :: bool
  incoming_requests :: PeerRequestTracker
  outgoing_requests :: PeerRequestTracker
  vam_last_certificate :: "time_point option"
  new_cam_signer :: bool
  generic_last_certificate :: "ItsAid \<Rightarrow> time_point option"
  signer_digest :: "HashedId8 option"

definition policy_init :: HeaderPolicy where
  "policy_init = \<lparr>cam_last_certificate = None, cam_certificate_requested = False, incoming_requests = tracker_init,
     outgoing_requests = tracker_init, vam_last_certificate = None, new_cam_signer = False,
     generic_last_certificate = (\<lambda>a. None), signer_digest = None\<rparr>"

definition elapsed :: "time_point option \<Rightarrow> time_point \<Rightarrow> duration \<Rightarrow> bool" where
  "elapsed last_time now gap = (case last_time of None \<Rightarrow> True | Some t \<Rightarrow> now - t \<ge> gap)"

definition reset_after_identifier_change :: "HeaderPolicy \<Rightarrow> HeaderPolicy" where
  "reset_after_identifier_change p = p\<lparr>cam_last_certificate := None, cam_certificate_requested := False,
     vam_last_certificate := None, generic_last_certificate := (\<lambda>a. None)\<rparr>"

text \<open>Takes requests of peers until one names an authority of the trust configuration.\<close>

function serve_requests :: "Crypto \<Rightarrow> Certificate list \<Rightarrow> PeerRequestTracker \<Rightarrow> Certificate option \<times> PeerRequestTracker" where
  "serve_requests cr authorities r = (case next_one r of (None, r') \<Rightarrow> (None, r')
     | (Some i, r') \<Rightarrow> (case List.find (\<lambda>c. case calculate_digest cr c of Some d \<Rightarrow> truncate_id d = i | None \<Rightarrow> False) authorities of
           Some c \<Rightarrow> (Some c, r') | None \<Rightarrow> serve_requests cr authorities r'))"
  by pat_completeness auto
termination
  by (relation "measure (\<lambda>(cr, authorities, r). length (tracker_fifo r))") (auto simp: next_one_def split: list.splits)

declare serve_requests.simps [simp del]

text \<open>\<open>None\<close> where a digest is dereferenced that is not there.\<close>

definition policy_cam :: "Crypto \<Rightarrow> Certificate list \<Rightarrow> Certificate \<Rightarrow> time_point \<Rightarrow> SignHeader \<Rightarrow> HeaderPolicy \<Rightarrow> (SignHeader \<times> HeaderPolicy) option" where
  "policy_cam cr authorities own_cert now h p =
    (let digest = calculate_digest cr own_cert;
         p = (case digest of None \<Rightarrow> p
              | Some d \<Rightarrow> if is_pending (truncate_id d) (incoming_requests p)
                          then p\<lparr>cam_certificate_requested := True, incoming_requests := discard_request (truncate_id d) (incoming_requests p)\<rparr>
                          else p);
         full_certificate = cam_certificate_requested p \<or> elapsed (cam_last_certificate p) now 1000000
     in do {
       (h, p) \<leftarrow> (if full_certificate
          then Some (h\<lparr>header_signer := Signer_certificate own_cert\<rparr>, p\<lparr>cam_last_certificate := Some now, cam_certificate_requested := False\<rparr>)
          else map_option (\<lambda>d. (h\<lparr>header_signer := Signer_digest d\<rparr>, p)) digest);
       let (requests, out) = all_requests (outgoing_requests p);
       let h = h\<lparr>header_inline_p2pcd := requests\<rparr>;
       let p = p\<lparr>outgoing_requests := out\<rparr>;
       if \<not> full_certificate
       then let (c, r) = serve_requests cr authorities (incoming_requests p)
            in Some (h\<lparr>header_requested_certificate := c\<rparr>, p\<lparr>incoming_requests := r\<rparr>)
       else Some (h, p) })"

definition policy_denm :: "ThreeDLocation \<Rightarrow> Certificate \<Rightarrow> SignHeader \<Rightarrow> SignHeader" where
  "policy_denm location own_cert h = h\<lparr>header_signer := Signer_certificate own_cert, header_location := Some location\<rparr>"

definition policy_vam :: "Crypto \<Rightarrow> bytes \<Rightarrow> Certificate \<Rightarrow> time_point \<Rightarrow> SignHeader \<Rightarrow> HeaderPolicy \<Rightarrow> SignHeader \<times> HeaderPolicy" where
  "policy_vam cr information own_cert now h p =
    (let cluster = information = [1];
         attach = (if cluster then elapsed (vam_last_certificate p) now 500000
                   else new_cam_signer p \<or> elapsed (vam_last_certificate p) now 1000000)
     in if attach
        then (h\<lparr>header_signer := Signer_certificate own_cert\<rparr>, p\<lparr>vam_last_certificate := Some now, new_cam_signer := False\<rparr>)
        else case calculate_digest cr own_cert of
               Some d \<Rightarrow> (h\<lparr>header_signer := Signer_digest d\<rparr>, p)
             | None \<Rightarrow> (h\<lparr>header_signer := Signer_certificate own_cert\<rparr>, p))"

definition policy_generic :: "Crypto \<Rightarrow> ItsAid \<Rightarrow> Certificate \<Rightarrow> time_point \<Rightarrow> SignHeader \<Rightarrow> HeaderPolicy \<Rightarrow> SignHeader \<times> HeaderPolicy" where
  "policy_generic cr a own_cert now h p = (case (generic_last_certificate p a, calculate_digest cr own_cert) of
     (Some t, Some d) \<Rightarrow>
       if now - t \<ge> 1000000
       then (h\<lparr>header_signer := Signer_certificate own_cert\<rparr>, p\<lparr>generic_last_certificate := (generic_last_certificate p)(a := Some now)\<rparr>)
       else (h\<lparr>header_signer := Signer_digest d\<rparr>, p)
   | _ \<Rightarrow> (h\<lparr>header_signer := Signer_certificate own_cert\<rparr>, p\<lparr>generic_last_certificate := (generic_last_certificate p)(a := Some now)\<rparr>))"

definition prepare_header :: "Crypto \<Rightarrow> Certificate list \<Rightarrow> ThreeDLocation \<Rightarrow> Certificate \<Rightarrow> time_point \<Rightarrow> ItsAid \<Rightarrow> bytes \<Rightarrow> bool \<Rightarrow>
    HeaderPolicy \<Rightarrow> (SignHeader \<times> HeaderPolicy) option" where
  "prepare_header cr authorities location own_cert now a information self_signed p =
    (let h = \<lparr>header_its_aid = a, header_generation_time = word_of_int now, header_signer = Signer_none, header_inline_p2pcd = [],
              header_requested_certificate = None, header_location = None\<rparr>;
         p = (if calculate_digest cr own_cert \<noteq> signer_digest p
              then (reset_after_identifier_change p)\<lparr>signer_digest := calculate_digest cr own_cert\<rparr> else p)
     in if self_signed then Some (h\<lparr>header_signer := Signer_self\<rparr>, p)
        else if a = 36 then policy_cam cr authorities own_cert now h p
        else if a = 37 then Some (policy_denm location own_cert h, p)
        else if a = 638 then Some (policy_vam cr information own_cert now h p)
        else Some (policy_generic cr a own_cert now h p))"

definition request_unrecognized_certificate :: "HashedId8 \<Rightarrow> HeaderPolicy \<Rightarrow> HeaderPolicy" where
  "request_unrecognized_certificate i p = p\<lparr>outgoing_requests := add_request (truncate_id i) (outgoing_requests p)\<rparr>"

definition request_certificate :: "HeaderPolicy \<Rightarrow> HeaderPolicy" where
  "request_certificate p = p\<lparr>cam_certificate_requested := True\<rparr>"

definition enqueue_p2p_request :: "HashedId3 \<Rightarrow> HeaderPolicy \<Rightarrow> HeaderPolicy" where
  "enqueue_p2p_request i p = p\<lparr>incoming_requests := add_request i (incoming_requests p)\<rparr>"

definition discard_p2p_request :: "HashedId3 \<Rightarrow> HeaderPolicy \<Rightarrow> HeaderPolicy" where
  "discard_p2p_request i p = p\<lparr>incoming_requests := discard_request i (incoming_requests p)\<rparr>"

definition report_new_cam_signer :: "HeaderPolicy \<Rightarrow> HeaderPolicy" where
  "report_new_cam_signer p = p\<lparr>new_cam_signer := True\<rparr>"

subsection \<open>Signing\<close>

datatype SignConfirmError = Sign_Unspecified | Sign_No_Certificate | Sign_No_Service

record SignedMessage =
  signed_hash_id :: HashAlgorithm
  signed_payload :: bytes
  signed_header :: SignHeader
  signed_signature :: Signature

text \<open>\<open>None\<close> is an exception: no digest to put in, no encoding, or no signature. The policy has
  changed by then, but the caller does not see how.\<close>

definition straight_sign :: "(SignHeader \<Rightarrow> bytes \<Rightarrow> bytes option) \<Rightarrow> Crypto \<Rightarrow> DefaultCertificateValidator \<Rightarrow> Certificate list \<Rightarrow> ThreeDLocation \<Rightarrow>
    Certificate \<Rightarrow> bytes \<Rightarrow> time_point \<Rightarrow> ItsAid \<Rightarrow> bytes \<Rightarrow> bytes \<Rightarrow> HeaderPolicy \<Rightarrow> ((SignConfirmError + SignedMessage) \<times> HeaderPolicy) option" where
  "straight_sign encode_data cr v authorities location own_cert private_key now a information data p =
    (let hash_algo = specified_hash_algorithm (get_verification_key_type own_cert)
     in do {
       (h, p) \<leftarrow> prepare_header cr authorities location own_cert now a information False p;
       if valid_for_signing cr v own_cert a \<noteq> V_Valid then Some (Inl Sign_No_Certificate, p)
       else do {
         tbs \<leftarrow> encode_data h data;
         digest \<leftarrow> calculate_message_hash cr hash_algo tbs own_cert;
         sig \<leftarrow> sign_digest cr private_key digest;
         Some (Inr \<lparr>signed_hash_id = hash_algo, signed_payload = data, signed_header = h, signed_signature = sig\<rparr>, p) } })"

subsection \<open>The tracker keeps its two structures alike\<close>

definition tracker_ok :: "PeerRequestTracker \<Rightarrow> bool" where
  "tracker_ok r \<longleftrightarrow> distinct (tracker_fifo r) \<and> distinct (tracker_lookup r) \<and> set (tracker_lookup r) = set (tracker_fifo r)
     \<and> length (tracker_fifo r) \<le> max 1 (tracker_limit r)"

text \<open>The assertion that closes every operation.\<close>

lemma tracker_ok_sizes: "tracker_ok r \<Longrightarrow> length (tracker_fifo r) = length (tracker_lookup r)"
  by (metis tracker_ok_def distinct_card)

lemma tracker_ok_init: "tracker_ok tracker_init"
  by (simp add: tracker_ok_def tracker_init_def)

lemma tracker_ok_add:
  assumes "tracker_ok r"
  shows "tracker_ok (add_request i r)"
proof (cases "is_pending i r")
  case False
  then have i: "i \<notin> set (tracker_fifo r)" using assms by (simp add: is_pending_def tracker_ok_def)
  show ?thesis
  proof (cases "length (tracker_fifo r) \<ge> tracker_limit r \<and> tracker_fifo r \<noteq> []")
    case True
    then obtain j js where js: "tracker_fifo r = j # js" by (cases "tracker_fifo r") auto
    then show ?thesis
      using True False assms i by (auto simp: add_request_def tracker_ok_def Let_def is_pending_def)
  next
    case False
    then show ?thesis
      using \<open>\<not> is_pending i r\<close> assms i by (auto simp: add_request_def tracker_ok_def Let_def is_pending_def)
  qed
qed (simp add: add_request_def assms)

lemma tracker_ok_discard: "tracker_ok r \<Longrightarrow> tracker_ok (discard_request i r)"
  by (auto simp: discard_request_def tracker_ok_def is_pending_def length_remove1)

lemma tracker_ok_next: "tracker_ok r \<Longrightarrow> tracker_ok (snd (next_one r))"
  by (auto simp: next_one_def tracker_ok_def split: list.splits)

lemma tracker_ok_all: "tracker_ok r \<Longrightarrow> tracker_ok (snd (all_requests r))"
  by (auto simp: all_requests_def tracker_ok_def)

lemma tracker_ok_serve: "tracker_ok r \<Longrightarrow> tracker_ok (snd (serve_requests cr cs r))"
proof (induction cr cs r rule: serve_requests.induct)
  case (1 cr cs r)
  obtain o' r' where n: "next_one r = (o', r')" by fastforce
  then have ok: "tracker_ok r'" using tracker_ok_next [OF 1(2)] by simp
  show ?case
  proof (cases o')
    case None
    then show ?thesis using n ok by (simp add: serve_requests.simps [of cr cs r])
  next
    case (Some i)
    show ?thesis
    proof (cases "List.find (\<lambda>c. case calculate_digest cr c of Some d \<Rightarrow> truncate_id d = i | None \<Rightarrow> False) cs")
      case None
      then have "tracker_ok (snd (serve_requests cr cs r'))" by (rule "1.IH" [OF n [symmetric] Some _ ok])
      then show ?thesis using n Some None by (simp add: serve_requests.simps [of cr cs r])
    next
      case found: (Some c)
      then show ?thesis using n Some ok by (simp add: serve_requests.simps [of cr cs r])
    qed
  qed
qed

subsection \<open>Certificates precede their digests\<close>

text \<open>What has been prepared: time, application, own certificate and named signer.\<close>

type_synonym policy_log = "(time_point \<times> ItsAid \<times> Certificate \<times> SignerIdentifier) list"

text \<open>Histories of a policy: headers are prepared at times that do not go back, under whatever
  certificate is the station's own then, and all other operations may come in between.\<close>

inductive policy_reach :: "Crypto \<Rightarrow> time_point \<Rightarrow> policy_log \<Rightarrow> HeaderPolicy \<Rightarrow> bool" for cr where
  policy_start: "policy_reach cr now [] policy_init"
| policy_wait: "policy_reach cr now l p \<Longrightarrow> now \<le> now' \<Longrightarrow> policy_reach cr now' l p"
| policy_prepare: "policy_reach cr now l p \<Longrightarrow> prepare_header cr cs location own_cert now a information self_signed p = Some (h, p') \<Longrightarrow>
    policy_reach cr now ((now, a, own_cert, header_signer h) # l) p'"
| policy_unrecognized: "policy_reach cr now l p \<Longrightarrow> policy_reach cr now l (request_unrecognized_certificate i p)"
| policy_request: "policy_reach cr now l p \<Longrightarrow> policy_reach cr now l (request_certificate p)"
| policy_enqueue: "policy_reach cr now l p \<Longrightarrow> policy_reach cr now l (enqueue_p2p_request j p)"
| policy_discard: "policy_reach cr now l p \<Longrightarrow> policy_reach cr now l (discard_p2p_request j p)"
| policy_new_signer: "policy_reach cr now l p \<Longrightarrow> policy_reach cr now l (report_new_cam_signer p)"
| policy_reset: "policy_reach cr now l p \<Longrightarrow> policy_reach cr now l (reset_after_identifier_change p)"

text \<open>A timer of the policy stands for a header with the certificate the digest is of, and no
  header was prepared under another certificate since.\<close>

definition announced :: "Crypto \<Rightarrow> policy_log \<Rightarrow> ItsAid \<Rightarrow> HashedId8 option \<Rightarrow> time_point \<Rightarrow> bool" where
  "announced cr l a d t \<longleftrightarrow> (\<exists>l1 c l2. l = l1 @ (t, a, c, Signer_certificate c) # l2 \<and> calculate_digest cr c = d
     \<and> (\<forall>(t', a', c', s')\<in>set l1. calculate_digest cr c' = d))"

definition timer_of :: "HeaderPolicy \<Rightarrow> ItsAid \<Rightarrow> time_point option" where
  "timer_of p a = (if a = 36 then cam_last_certificate p else if a = 638 then vam_last_certificate p
     else if a = 37 then None else generic_last_certificate p a)"

definition policy_ok :: "Crypto \<Rightarrow> policy_log \<Rightarrow> HeaderPolicy \<Rightarrow> bool" where
  "policy_ok cr l p \<longleftrightarrow> (\<forall>a t. timer_of p a = Some t \<longrightarrow> announced cr l a (signer_digest p) t)"

lemma announced_cons:
  assumes "announced cr l a d t" "calculate_digest cr c = d"
  shows "announced cr ((t', a', c, s') # l) a d t"
proof -
  obtain l1 c0 l2 where "l = l1 @ (t, a, c0, Signer_certificate c0) # l2" "calculate_digest cr c0 = d"
      "\<forall>(t', a', c', s')\<in>set l1. calculate_digest cr c' = d"
    using assms(1) unfolding announced_def by blast
  then have "(t', a', c, s') # l = ((t', a', c, s') # l1) @ (t, a, c0, Signer_certificate c0) # l2 \<and> calculate_digest cr c0 = d
      \<and> (\<forall>(t', a', c', s')\<in>set ((t', a', c, s') # l1). calculate_digest cr c' = d)"
    using assms(2) by simp
  then show ?thesis unfolding announced_def by blast
qed

lemma announced_now: "calculate_digest cr c = d \<Longrightarrow> announced cr ((t, a, c, Signer_certificate c) # l) a d t"
  unfolding announced_def by (rule exI [of _ "[]"]) simp

text \<open>What preparing does to the timers: the one of the application may be set to now, with the
  certificate; a digest is used only while that timer runs.\<close>

definition interval_of :: "ItsAid \<Rightarrow> bytes \<Rightarrow> duration" where
  "interval_of a information = (if a = 638 \<and> information = [1] then 500000 else 1000000)"

lemma cam_timers:
  assumes "policy_cam cr cs own_cert now h p = Some (h', p')"
  shows "signer_digest p' = signer_digest p
    \<and> (\<forall>b. b \<noteq> 36 \<longrightarrow> timer_of p' b = timer_of p b)
    \<and> (header_signer h' = Signer_certificate own_cert \<and> timer_of p' 36 = Some now
       \<or> (\<exists>d t. header_signer h' = Signer_digest d \<and> calculate_digest cr own_cert = Some d \<and> timer_of p 36 = Some t
             \<and> timer_of p' 36 = Some t \<and> now - t < 1000000))"
proof -
  let ?p = "case calculate_digest cr own_cert of None \<Rightarrow> p
              | Some d \<Rightarrow> if is_pending (truncate_id d) (incoming_requests p)
                          then p\<lparr>cam_certificate_requested := True, incoming_requests := discard_request (truncate_id d) (incoming_requests p)\<rparr>
                          else p"
  have same: "signer_digest ?p = signer_digest p" "cam_last_certificate ?p = cam_last_certificate p"
      "vam_last_certificate ?p = vam_last_certificate p" "generic_last_certificate ?p = generic_last_certificate p"
    by (simp_all split: option.splits)
  define q where "q = ?p"
  have q: "signer_digest q = signer_digest p" "cam_last_certificate q = cam_last_certificate p"
      "vam_last_certificate q = vam_last_certificate p" "generic_last_certificate q = generic_last_certificate p"
    using same by (simp_all add: q_def)
  obtain rs r where ar: "all_requests (outgoing_requests q) = (rs, r)" by fastforce
  show ?thesis
  proof (cases "cam_certificate_requested q \<or> elapsed (cam_last_certificate q) now 1000000")
    case True
    then have "header_signer h' = Signer_certificate own_cert" "signer_digest p' = signer_digest p" "cam_last_certificate p' = Some now"
        "vam_last_certificate p' = vam_last_certificate p" "generic_last_certificate p' = generic_last_certificate p"
      using assms ar q unfolding policy_cam_def Let_def q_def [symmetric] by auto
    then show ?thesis by (simp add: timer_of_def)
  next
    case False
    obtain c r' where sr: "serve_requests cr cs (incoming_requests q) = (c, r')" by fastforce
    obtain d where d: "calculate_digest cr own_cert = Some d"
      using assms False unfolding policy_cam_def Let_def q_def [symmetric] by (cases "calculate_digest cr own_cert") auto
    have "header_signer h' = Signer_digest d" "signer_digest p' = signer_digest p" "cam_last_certificate p' = cam_last_certificate p"
        "vam_last_certificate p' = vam_last_certificate p" "generic_last_certificate p' = generic_last_certificate p"
      using assms ar sr q d False unfolding policy_cam_def Let_def q_def [symmetric] by auto
    moreover obtain t where "cam_last_certificate p = Some t" "now - t < 1000000"
      using False q(2) by (auto simp: elapsed_def split: option.splits)
    ultimately show ?thesis using d by (simp add: timer_of_def)
  qed
qed

lemma vam_timers:
  assumes "policy_vam cr information own_cert now h p = (h', p')"
  shows "signer_digest p' = signer_digest p \<and> (\<forall>b. b \<noteq> 638 \<longrightarrow> timer_of p' b = timer_of p b)
    \<and> (header_signer h' = Signer_certificate own_cert \<and> (timer_of p' 638 = Some now \<or> timer_of p' 638 = timer_of p 638)
       \<or> (\<exists>d t. header_signer h' = Signer_digest d \<and> calculate_digest cr own_cert = Some d \<and> timer_of p 638 = Some t
             \<and> timer_of p' 638 = Some t \<and> now - t < interval_of 638 information))"
proof -
  define attach where "attach = (if information = [1] then elapsed (vam_last_certificate p) now 500000
      else new_cam_signer p \<or> elapsed (vam_last_certificate p) now 1000000)"
  have run: "(if attach then (h\<lparr>header_signer := Signer_certificate own_cert\<rparr>, p\<lparr>vam_last_certificate := Some now, new_cam_signer := False\<rparr>)
      else case calculate_digest cr own_cert of Some d \<Rightarrow> (h\<lparr>header_signer := Signer_digest d\<rparr>, p)
        | None \<Rightarrow> (h\<lparr>header_signer := Signer_certificate own_cert\<rparr>, p)) = (h', p')"
    using assms unfolding policy_vam_def Let_def attach_def by simp
  show ?thesis
  proof (cases attach)
    case True
    then show ?thesis using run by (auto simp: timer_of_def)
  next
    case False
    then obtain t where "vam_last_certificate p = Some t" "now - t < interval_of 638 information"
      by (cases "vam_last_certificate p") (auto simp: attach_def elapsed_def interval_of_def split: if_splits)
    then show ?thesis using False run by (cases "calculate_digest cr own_cert") (auto simp: timer_of_def)
  qed
qed

lemma generic_timers:
  assumes "policy_generic cr a own_cert now h p = (h', p')" "a \<noteq> 36" "a \<noteq> 37" "a \<noteq> 638"
  shows "signer_digest p' = signer_digest p \<and> (\<forall>b. b \<noteq> a \<longrightarrow> timer_of p' b = timer_of p b)
    \<and> (header_signer h' = Signer_certificate own_cert \<and> timer_of p' a = Some now
       \<or> (\<exists>d t. header_signer h' = Signer_digest d \<and> calculate_digest cr own_cert = Some d \<and> timer_of p a = Some t
             \<and> timer_of p' a = Some t \<and> now - t < 1000000))"
  using assms
  by (cases "generic_last_certificate p a"; cases "calculate_digest cr own_cert")
    (auto simp: policy_generic_def timer_of_def not_le split: if_splits)

definition checked_policy :: "Crypto \<Rightarrow> Certificate \<Rightarrow> HeaderPolicy \<Rightarrow> HeaderPolicy" where
  "checked_policy cr own_cert p = (if calculate_digest cr own_cert \<noteq> signer_digest p
     then (reset_after_identifier_change p)\<lparr>signer_digest := calculate_digest cr own_cert\<rparr> else p)"

lemma checked_policy_digest: "signer_digest (checked_policy cr own_cert p) = calculate_digest cr own_cert"
  by (simp add: checked_policy_def)

lemma reset_timers: "timer_of (reset_after_identifier_change p) b = None"
  by (simp add: timer_of_def reset_after_identifier_change_def)

lemma checked_policy_timers:
  "timer_of (checked_policy cr own_cert p) b = Some t \<Longrightarrow> timer_of p b = Some t \<and> signer_digest p = calculate_digest cr own_cert"
  using reset_timers [of p b] by (auto simp: checked_policy_def timer_of_def split: if_splits)

lemma prepare_timers:
  assumes "prepare_header cr cs location own_cert now a information self_signed p = Some (h, p')"
  defines "q \<equiv> checked_policy cr own_cert p"
  shows "signer_digest p' = calculate_digest cr own_cert \<and> (\<forall>b. b \<noteq> a \<longrightarrow> timer_of p' b = timer_of q b)
    \<and> (header_signer h = Signer_self \<and> timer_of p' a = timer_of q a
       \<or> header_signer h = Signer_certificate own_cert \<and> (timer_of p' a = Some now \<or> timer_of p' a = timer_of q a)
       \<or> (\<exists>d t. header_signer h = Signer_digest d \<and> calculate_digest cr own_cert = Some d \<and> timer_of q a = Some t
             \<and> timer_of p' a = Some t \<and> now - t < interval_of a information))"
proof -
  let ?h = "\<lparr>header_its_aid = a, header_generation_time = word_of_int now, header_signer = Signer_none, header_inline_p2pcd = [],
              header_requested_certificate = None, header_location = None\<rparr>"
  have d: "signer_digest q = calculate_digest cr own_cert" by (simp add: q_def checked_policy_digest)
  have run: "(if self_signed then Some (?h\<lparr>header_signer := Signer_self\<rparr>, q)
        else if a = 36 then policy_cam cr cs own_cert now ?h q
        else if a = 37 then Some (policy_denm location own_cert ?h, q)
        else if a = 638 then Some (policy_vam cr information own_cert now ?h q)
        else Some (policy_generic cr a own_cert now ?h q)) = Some (h, p')"
    using assms(1) unfolding prepare_header_def Let_def checked_policy_def [symmetric] q_def .
  consider (self) self_signed | (cam) "\<not> self_signed" "a = 36" | (denm) "\<not> self_signed" "a = 37"
    | (vam) "\<not> self_signed" "a = 638" | (generic) "\<not> self_signed" "a \<noteq> 36" "a \<noteq> 37" "a \<noteq> 638"
    by blast
  then show ?thesis
  proof cases
    case self
    then show ?thesis using run d by auto
  next
    case cam
    then have "policy_cam cr cs own_cert now ?h q = Some (h, p')" using run by simp
    from cam_timers [OF this] show ?thesis using d cam by (auto simp: interval_of_def)
  next
    case denm
    then show ?thesis using run d by (auto simp: policy_denm_def)
  next
    case vam
    then have "policy_vam cr information own_cert now ?h q = (h, p')" using run by simp
    from vam_timers [OF this] show ?thesis using d vam by auto
  next
    case generic
    then have "policy_generic cr a own_cert now ?h q = (h, p')" using run by simp
    from generic_timers [OF this generic(2-4)] show ?thesis using d generic by (auto simp: interval_of_def)
  qed
qed

lemma timer_of_others:
  "timer_of (request_unrecognized_certificate i p) = timer_of p" "timer_of (request_certificate p) = timer_of p"
  "timer_of (enqueue_p2p_request j p) = timer_of p" "timer_of (discard_p2p_request j p) = timer_of p"
  "timer_of (report_new_cam_signer p) = timer_of p"
  "signer_digest (request_unrecognized_certificate i p) = signer_digest p" "signer_digest (request_certificate p) = signer_digest p"
  "signer_digest (enqueue_p2p_request j p) = signer_digest p" "signer_digest (discard_p2p_request j p) = signer_digest p"
  "signer_digest (report_new_cam_signer p) = signer_digest p"
  by (auto simp: timer_of_def request_unrecognized_certificate_def request_certificate_def enqueue_p2p_request_def
      discard_p2p_request_def report_new_cam_signer_def)

lemma policy_ok_prepare:
  assumes "policy_ok cr l p" "prepare_header cr cs location own_cert now a information self_signed p = Some (h, p')"
  shows "policy_ok cr ((now, a, own_cert, header_signer h) # l) p'"
proof -
  let ?q = "checked_policy cr own_cert p"
  note t = prepare_timers [OF assms(2)]
  have old: "announced cr ((now, a, own_cert, s) # l) b (calculate_digest cr own_cert) u" if "timer_of ?q b = Some u" for b u s
  proof -
    from checked_policy_timers [OF that] have "timer_of p b = Some u" "signer_digest p = calculate_digest cr own_cert" by auto
    then have "announced cr l b (calculate_digest cr own_cert) u" using assms(1) by (simp add: policy_ok_def)
    then show ?thesis by (rule announced_cons) simp
  qed
  show ?thesis
    unfolding policy_ok_def
  proof (intro allI impI)
    fix b u assume u: "timer_of p' b = Some u"
    have sd: "signer_digest p' = calculate_digest cr own_cert" using t by blast
    show "announced cr ((now, a, own_cert, header_signer h) # l) b (signer_digest p') u"
    proof (cases "timer_of ?q b = Some u")
      case True
      then show ?thesis using old sd by simp
    next
      case False
      then have "b = a" "header_signer h = Signer_certificate own_cert" "u = now" using t u by (metis option.inject)+
      then show ?thesis using announced_now sd by simp
    qed
  qed
qed

lemma policy_reach_ok: "policy_reach cr now l p \<Longrightarrow> policy_ok cr l p"
proof (induction rule: policy_reach.induct)
  case (policy_start now)
  then show ?case by (simp add: policy_ok_def policy_init_def timer_of_def)
next
  case (policy_prepare now l p cs location own_cert a information self_signed h p')
  then show ?case using policy_ok_prepare by blast
next
  case (policy_reset now l p)
  then show ?case by (simp add: policy_ok_def reset_timers)
qed (simp_all add: policy_ok_def timer_of_others)

lemma policy_reach_times: "policy_reach cr now l p \<Longrightarrow> e \<in> set l \<Longrightarrow> fst e \<le> now"
  by (induction rule: policy_reach.induct) fastforce+

lemma announced_logged: "announced cr l a d t \<Longrightarrow> \<exists>e\<in>set l. fst e = t"
  by (fastforce simp: announced_def)

lemma digest_header_announced:
  assumes "policy_reach cr now l p"
    "prepare_header cr cs location own_cert now a information self_signed p = Some (h, p')" "header_signer h = Signer_digest d"
  shows "\<exists>t. t \<le> now \<and> now - t < interval_of a information \<and> announced cr l a (Some d) t"
proof -
  obtain t where t: "timer_of (checked_policy cr own_cert p) a = Some t" "calculate_digest cr own_cert = Some d" "now - t < interval_of a information"
    using prepare_timers [OF assms(2)] assms(3) by auto
  have "timer_of p a = Some t" "signer_digest p = Some d" using checked_policy_timers [OF t(1)] t(2) by simp_all
  then have "announced cr l a (Some d) t" using policy_reach_ok [OF assms(1)] by (simp add: policy_ok_def)
  moreover have "t \<le> now" using announced_logged [OF calculation] policy_reach_times [OF assms(1)] by blast
  ultimately show ?thesis using t(3) by blast
qed

definition demo_location :: ThreeDLocation where
  "demo_location = \<lparr>three_latitude = 0, three_longitude = 0, three_elevation = 4096\<rparr>"

definition demo_policy :: "time_point \<Rightarrow> HeaderPolicy" where
  "demo_policy t = policy_init\<lparr>cam_last_certificate := Some t, signer_digest := Some [0, 0, 0, 0, 0, 0, 0, 3]\<rparr>"

lemma serve_nothing: "tracker_fifo r = [] \<Longrightarrow> serve_requests cr cs r = (None, r)"
  by (simp add: serve_requests.simps [of cr cs r] next_one_def)

lemma demo_first:
  "\<exists>h. header_signer h = Signer_certificate demo_at
     \<and> prepare_header plain_crypto [] demo_location demo_at t 36 [] False policy_init = Some (h, demo_policy t)"
  by (simp add: prepare_header_def policy_cam_def policy_init_def demo_policy_def demo_digests reset_after_identifier_change_def
      is_pending_def tracker_init_def elapsed_def all_requests_def Let_def)

lemma demo_second:
  assumes "u - t < 1000000"
  shows "\<exists>h. header_signer h = Signer_digest [0, 0, 0, 0, 0, 0, 0, 3]
     \<and> prepare_header plain_crypto [] demo_location demo_at u 36 [] False (demo_policy t) = Some (h, demo_policy t)"
  using assms
  by (simp add: prepare_header_def policy_cam_def policy_init_def demo_policy_def demo_digests
      is_pending_def tracker_init_def elapsed_def all_requests_def serve_nothing Let_def)

text \<open>
  Histories of the service in which every attempt to sign led to a message: what has been sent,
  with all other operations of the policy in between.
\<close>

inductive sign_reach :: "(SignHeader \<Rightarrow> bytes \<Rightarrow> bytes option) \<Rightarrow> Crypto \<Rightarrow> time_point \<Rightarrow> policy_log \<Rightarrow> HeaderPolicy \<Rightarrow> bool"
  for encode_data and cr where
  sign_start: "sign_reach encode_data cr now [] policy_init"
| sign_wait: "sign_reach encode_data cr now l p \<Longrightarrow> now \<le> now' \<Longrightarrow> sign_reach encode_data cr now' l p"
| sign_message: "sign_reach encode_data cr now l p \<Longrightarrow>
    straight_sign encode_data cr v cs location own_cert private_key now a information data p = Some (Inr m, p') \<Longrightarrow>
    sign_reach encode_data cr now ((now, a, own_cert, header_signer (signed_header m)) # l) p'"
| sign_unrecognized: "sign_reach encode_data cr now l p \<Longrightarrow> sign_reach encode_data cr now l (request_unrecognized_certificate i p)"
| sign_request: "sign_reach encode_data cr now l p \<Longrightarrow> sign_reach encode_data cr now l (request_certificate p)"
| sign_enqueue: "sign_reach encode_data cr now l p \<Longrightarrow> sign_reach encode_data cr now l (enqueue_p2p_request j p)"
| sign_discard: "sign_reach encode_data cr now l p \<Longrightarrow> sign_reach encode_data cr now l (discard_p2p_request j p)"
| sign_new_signer: "sign_reach encode_data cr now l p \<Longrightarrow> sign_reach encode_data cr now l (report_new_cam_signer p)"
| sign_reset: "sign_reach encode_data cr now l p \<Longrightarrow> sign_reach encode_data cr now l (reset_after_identifier_change p)"

lemma signed_header_prepared:
  assumes "straight_sign encode_data cr v cs location own_cert private_key now a information data p = Some (Inr m, p')"
  shows "prepare_header cr cs location own_cert now a information False p = Some (signed_header m, p')"
  using assms by (auto simp: straight_sign_def Let_def bind_eq_Some_conv split: if_splits)

lemma sign_reach_policy: "sign_reach encode_data cr now l p \<Longrightarrow> policy_reach cr now l p"
proof (induction rule: sign_reach.induct)
  case (sign_message now l p v cs location own_cert private_key a information data m p')
  show ?case by (rule policy_prepare [OF sign_message.IH signed_header_prepared [OF sign_message.hyps(2)]])
qed (blast intro: policy_reach.intros)+

text \<open>C15: As long as no attempt to sign is refused or fails, a message that is sent names its
  signer by digest only if, less than a second before (half a second for messages of a cluster), a
  message of the same application was sent with the certificate of that digest, and no message
  was sent under another certificate since: receivers that missed none can resolve every digest,
  also across changes of the station's certificate. A refused attempt, which has changed the
  header policy already, breaks this.\<close>

theorem digest_signer_announced:
  assumes "sign_reach encode_data cr now l p"
    and "straight_sign encode_data cr v cs location own_cert private_key now a information data p = Some (Inr m, p')"
    and "header_signer (signed_header m) = Signer_digest d"
  shows "\<exists>t. t \<le> now \<and> now - t < interval_of a information \<and> announced cr l a (Some d) t"
  by (rule digest_header_announced [OF sign_reach_policy [OF assms(1)] signed_header_prepared [OF assms(2)] assms(3)])

lemma demo_signs:
  assumes "prepare_header plain_crypto [] demo_location demo_at t 36 [] False p = Some (h, p')"
  shows "\<exists>m. straight_sign (\<lambda>h d. Some d) plain_crypto demo_validator [] demo_location demo_at [7] t 36 [] [] p = Some (Inr m, p')
    \<and> signed_header m = h"
proof -
  have x: "calculate_message_hash plain_crypto HA_SHA256 [] demo_at = Some [3]" by code_simp
  have k: "sign_digest plain_crypto [7] [3] = Some \<lparr>sig_type = KT_NistP256, sig_r = [7], sig_s = [3]\<rparr>"
    by (simp add: plain_crypto_def)
  have "specified_hash_algorithm (get_verification_key_type demo_at) = HA_SHA256" by code_simp
  then show ?thesis using assms x k by (simp add: straight_sign_def demo_base_valid)
qed

theorem digest_signer_announced_witness:
  "\<exists>m. straight_sign (\<lambda>h d. Some d) plain_crypto demo_validator [] demo_location demo_at [7] 500000 36 [] [] (demo_policy 0) = Some (Inr m, demo_policy 0)
     \<and> header_signer (signed_header m) = Signer_digest [0, 0, 0, 0, 0, 0, 0, 3]
     \<and> (\<exists>t. t \<le> 500000 \<and> 500000 - t < interval_of 36 [] \<and> announced plain_crypto [(0, 36, demo_at, Signer_certificate demo_at)] 36 (Some [0, 0, 0, 0, 0, 0, 0, 3]) t)"
proof -
  obtain m1 where m1: "straight_sign (\<lambda>h d. Some d) plain_crypto demo_validator [] demo_location demo_at [7] 0 36 [] [] policy_init = Some (Inr m1, demo_policy 0)"
      "header_signer (signed_header m1) = Signer_certificate demo_at"
    using demo_first [of 0] demo_signs by blast
  obtain m where m: "straight_sign (\<lambda>h d. Some d) plain_crypto demo_validator [] demo_location demo_at [7] 500000 36 [] [] (demo_policy 0) = Some (Inr m, demo_policy 0)"
      "header_signer (signed_header m) = Signer_digest [0, 0, 0, 0, 0, 0, 0, 3]"
    using demo_second [of 500000 0] demo_signs by fastforce
  have "sign_reach (\<lambda>h d. Some d) plain_crypto 0 [(0, 36, demo_at, Signer_certificate demo_at)] (demo_policy 0)"
    using sign_message [OF sign_start m1(1)] m1(2) by simp
  then have "sign_reach (\<lambda>h d. Some d) plain_crypto 500000 [(0, 36, demo_at, Signer_certificate demo_at)] (demo_policy 0)"
    by (rule sign_wait) simp
  from digest_signer_announced [OF this m] show ?thesis using m by blast
qed

text \<open>The service prepares the header before it asks the validator. A refused attempt counts as
  an announcement: the first message that goes out names its signer by a digest no message has
  announced.\<close>

lemma refused_attempt_counts:
  "straight_sign (\<lambda>h d. Some d) plain_crypto (demo_validator\<lparr>use_runtime := Some (- 1)\<rparr>) [] demo_location demo_at [7] (- 1) 36 [] [] policy_init
     = Some (Inl Sign_No_Certificate, demo_policy (- 1))
   \<and> (\<exists>m. straight_sign (\<lambda>h d. Some d) plain_crypto demo_validator [] demo_location demo_at [7] 500000 36 [] [] (demo_policy (- 1))
         = Some (Inr m, demo_policy (- 1)) \<and> header_signer (signed_header m) = Signer_digest [0, 0, 0, 0, 0, 0, 0, 3])"
proof
  obtain h1 where h1: "prepare_header plain_crypto [] demo_location demo_at (- 1) 36 [] False policy_init = Some (h1, demo_policy (- 1))"
    using demo_first by blast
  have "\<not> valid_at_timepoint demo_at (- 1)" by code_simp
  then have "valid_for_signing plain_crypto (demo_validator\<lparr>use_runtime := Some (- 1)\<rparr>) demo_at 36 \<noteq> V_Valid"
    by (simp add: valid_for_signing_def)
  then show "straight_sign (\<lambda>h d. Some d) plain_crypto (demo_validator\<lparr>use_runtime := Some (- 1)\<rparr>) [] demo_location demo_at [7] (- 1) 36 [] [] policy_init
     = Some (Inl Sign_No_Certificate, demo_policy (- 1))"
    by (simp add: straight_sign_def h1)
  obtain h2 where h2: "header_signer h2 = Signer_digest [0, 0, 0, 0, 0, 0, 0, 3]"
      "prepare_header plain_crypto [] demo_location demo_at 500000 36 [] False (demo_policy (- 1)) = Some (h2, demo_policy (- 1))"
    using demo_second [of 500000 "- 1"] by auto
  then show "\<exists>m. straight_sign (\<lambda>h d. Some d) plain_crypto demo_validator [] demo_location demo_at [7] 500000 36 [] [] (demo_policy (- 1))
         = Some (Inr m, demo_policy (- 1)) \<and> header_signer (signed_header m) = Signer_digest [0, 0, 0, 0, 0, 0, 0, 3]"
    using demo_signs [OF h2(2)] by auto
qed

end
