(* ===== verification/Spec2Isabelle.thy ===== *)
theory Spec2Isabelle
  imports StackReach AccessGate FlowInv ItsTime SignPolicy
begin

text \<open>
  A verification library for the ETSI ITS communication stack \<open>vanetza\<close>.

  \<^bold>\<open>The program.\<close> Applications hand messages to the Basic Transport Protocol, which passes them to
  the GeoNetworking router (\<open>geonet/router.cpp\<close>). The router keeps a location table of the
  stations it hears, buffers packets it cannot send yet, lets forwarders contend by timers,
  detects duplicates, repeats requests and sends beacons; it hands packets to congestion
  control (\<open>dcc\<close>), which delays them until the load of the channel admits a transmission at
  the access layer (\<open>access\<close>). Time and callbacks come from a runtime
  (\<open>common/manual_runtime.cpp\<close>). The port to ESP-IDF (\<open>ports/esp_idf\<close>) composes transport, router,
  information sharing and an access layer of its own into one stack. Secured packets are
  verified under certificates, whose chains to a root the port validates.

  \<^bold>\<open>Conventions.\<close> A structure is a record, an enumeration or variant a datatype, an integer of
  \<open>w\<close> bits a \<open>w word\<close>, a time point or duration (a 64 bit count of microseconds) an \<open>int\<close>, a
  floating point number a \<open>real\<close>; where sums of such numbers accumulate (\<open>Requests\<close>, \<open>DccNet\<close>), every
  operation is followed by \<open>round_double\<close>, the rounding of binary64. An operation that changes an object takes it as last argument
  and returns it. Exceptions, failing assertions and empty optionals are \<open>None\<close>; in the router
  an exception is the log entry \<open>Threw\<close>. Objects that use the runtime extend its record, so
  their callbacks act on the whole state. Calls of hooks and of other layers are appended to a
  log. Closures that wait with a packet are constructors that hold what the closure captures.

  \<^bold>\<open>Theories, from the bottom up.\<close>
  \<^item> \<open>Prelude\<close>: types, collections of rewrite rules, rounding and casts, the rounding of double
    precision with its error bound, lemmas on lists and words.
  \<^item> \<open>Codec\<close> (\<open>common/archives.cpp\<close>, \<open>byte_order.hpp\<close>, \<open>serialization.hpp\<close>): integers on the wire
    and the contract \<open>fixed_codec\<close> of every header codec, which \<open>MacAddr\<close>, \<open>GnAddress\<close>,
    \<open>GnHeaders\<close> and \<open>Access\<close> interpret for their headers.
  \<^item> \<open>MacAddr\<close>, \<open>GnValues\<close>, \<open>GnAddress\<close>, \<open>Areas\<close>: addresses, lifetimes, timestamps, sequence
    numbers, position vectors and geographical areas, with their order, wire form and geometry.
  \<^item> \<open>GnHeaders\<close> (\<open>geonet/*_header.cpp\<close>, \<open>parser.cpp\<close>): headers and parser, round trips in both
    directions.
  \<^item> \<open>RuntimeQ\<close>: the runtime. \<open>trigger\<close> is a partial function; the locales \<open>timer_work\<close> and
    \<open>timer_client\<close> state what callbacks must satisfy for it to return, and the router, LIMERIC and
    flow control are interpretations.
  \<^item> \<open>SoftState\<close>, \<open>LocationTbl\<close>, \<open>Packets\<close>, \<open>Duplicates\<close>, \<open>Pdus\<close>, \<open>CbfBuffer\<close>, \<open>Requests\<close>: the
    components of the router, each with its invariant and what its operations do.
    \<open>CbfSpec\<close> refines the contention buffer to a map from packet identifiers.
  \<^item> \<open>RouterCore\<close>, \<open>RouterOps\<close>: the router. \<open>RouterInv\<close>, \<open>RouterSteps\<close>, \<open>RouterRecv\<close> show that every
    operation keeps its invariant; \<open>RouterReach\<close> concludes that no reachable router throws, if
    the payloads its security entity returns can be read (\<open>entity_ok\<close>), and that triggering it
    returns. \<open>RouterFwd\<close>, \<open>RouterLog\<close>, \<open>RouterE2E\<close>, \<open>RouterHop\<close> prove what
    forwarding, reception and the way of a packet from one router to the next do.
  \<^item> \<open>Access\<close> (\<open>access\<close>): data rates and link layer header, for hosts of either byte order.
  \<^item> \<open>DccLoad\<close>, \<open>DccFsm\<close>, \<open>DccLimeric\<close>, \<open>DccTrc\<close>, \<open>DccFlow\<close> (\<open>dcc\<close>): channel load, the state machines
    (contract \<open>rate_machine\<close>), LIMERIC, the rate controls (contract \<open>rate_control\<close>) and flow control.
    \<open>FlowInv\<close> proves, for every rate control that meets the contract \<open>flow_rate\<close>, that no queued
    packet is forgotten and that the callbacks of flow control end. \<open>DccNet\<close> is the sharing of
    channel loads among stations (\<open>geonet/cbr_aggregator.cpp\<close>, \<open>dcc_information_sharing.cpp\<close>).
  \<^item> \<open>Btp\<close> (\<open>btp\<close>): transport headers and the port dispatcher. \<open>RouterSec\<close>: the way of a secured
    single-hop broadcast between two routers.
  \<^item> \<open>G5Frame\<close>, \<open>ItsTime\<close>, \<open>IdfStack\<close> (\<open>ports/esp_idf\<close>): frames, time base and stack of the port. On
    little-endian hosts the frames of the port and of \<open>Access\<close> are understood by each other. The
    state of the stack extends that of the router; what the router hands up and down within an
    operation is delivered in order when it ends. \<open>StackAir\<close> follows a transport request from one
    application over the air to another; \<open>StackReach\<close> carries the invariant of the router over to
    the stack, so that requests are refused for their stated reasons only, advancing the time
    returns and identifier changes take effect. \<open>AccessGate\<close> is the access layer with its gate of
    congestion control.
  \<^item> \<open>Cert\<close>, \<open>CertPerms\<close>, \<open>CertRegion\<close>, \<open>CertChain\<close> (\<open>security/v3\<close>, \<open>ports/esp_idf/src/security.cpp\<close>):
    certificates with their canonical form and digests; permissions and regions, whose
    containment tests are compared with the sets they stand for; trust configuration and the
    validators of chains. The contract \<open>issuer_directory\<close> says that a lookup returns certificates
    of the digest asked for; the configured and learned authorities are its interpretation. A
    walk along a chain visits at most eight certificates in the upstream validator and four in the
    one of the port, as in the code. \<open>SignPolicy\<close> (\<open>ports/esp_idf/src/sign_header_policy.cpp\<close>,
    \<open>security/v3/sign_service.cpp\<close>, \<open>peer_request_tracker.cpp\<close>) decides which header fields a signed
    message carries; as long as no attempt to sign is refused or fails, no digest of a certificate is
    used before the certificate was sent.

  \<^bold>\<open>Parameters.\<close> Code that is not part of the sources is an argument: geodesic distances and the
  local cartesian projection (GeographicLib), random numbers, the security entity and the readers
  of secured messages, the generator of DCC fields; so are the byte order of the host and whether
  the allocator reuses the node of a timer that the contention buffer dropped. Where a theorem relies on them, \<open>env_ok\<close> says
  what is assumed, and \<open>sample_env\<close> satisfies it; \<open>entity_ok\<close> is about the payloads of the security
  entity, and \<open>decap_env\<close> satisfies it; \<open>secure_channel\<close> says what two security entities
  must have in common, and \<open>air_entity\<close> satisfies it. The access layer below the stack and the
  service that changes identifiers are outside as well. For certificates, \<open>Crypto\<close> holds the
  encoder of their structures, hashes, signatures and the test of polygons; the theorems hold for
  all of them, and \<open>plain_crypto\<close> is a concrete one.

  \<^bold>\<open>Not modelled.\<close> Rounding of floating point operations other than those named above, and
  the limits of the exponent; received packets that are chunk packets; the order in which hash maps iterate; the
  cryptographic backends, the ASN.1 encoders and the message structures generated from ASN.1;
  secured messages and facilities built on these structures, with the service that verifies
  messages; the manager that issues the commands of an identifier change (its effect on the
  stack is modelled); sockets, remote procedure calls, NMEA sentences and the country database;
  radio, storage and cryptography of the port to ESP-IDF; the tools.
\<close>

end
